(* ===== verification/Prelude.thy ===== *)
theory Prelude
  imports Main "HOL-Library.Word" "HOL-Library.Char_ord" "HOL-Library.List_Lexorder"
    "HOL-Library.AList" "HOL-Library.Multiset"
begin

text \<open>
  What every component shares: the types that stand for Go's own (byte strings, wall-clock
  instants, durations, machine words, maps with a recorded iteration order, results that
  carry an error), the parts of the Go standard library that the modelled code calls
  (\<^verbatim>\<open>strings.TrimSpace\<close>, \<^verbatim>\<open>strings.ToLower\<close>, \<^verbatim>\<open>strings.Split\<close>, \<^verbatim>\<open>strconv.ParseUint\<close>,
  \<^verbatim>\<open>time.Time.Sub\<close>, \<^verbatim>\<open>sort.Slice\<close> over a map's values), and the lemmas about them that the
  component theories use through the collections declared here.

  Conventions. A string is the list of its bytes. A \<^verbatim>\<open>time.Time\<close> is an integer number of
  nanoseconds since Go's zero instant (year 1, UTC): every instant of the modelled code goes
  through \<^verbatim>\<open>UTC()\<close>, which drops the monotonic reading. A Go map is an association list with
  distinct keys whose order is the order of one iteration; a theorem about code that ranges
  over a map therefore speaks about every order.
\<close>

section \<open>Collections of facts\<close>

named_theorems result_simps \<open>unfolding of the error monad\<close>
named_theorems go_defs \<open>definitions of the Go standard library functions\<close>
named_theorems wf_intros \<open>introduction rules for well-formedness invariants\<close>

section \<open>Instants and durations\<close>

type_synonym go_time = int
type_synonym duration = int

definition second :: duration where
  "second = 1000000000"

definition minute :: duration where
  "minute = 60 * second"

definition millisecond :: duration where
  "millisecond = 1000000"

definition IsZero :: "go_time \<Rightarrow> bool" where
  "IsZero t \<longleftrightarrow> t = 0"

text \<open>A duration is a signed 64-bit count of nanoseconds; \<^verbatim>\<open>t.Sub(u)\<close> saturates.\<close>

definition max_duration :: duration where
  "max_duration = 9223372036854775807"

definition min_duration :: duration where
  "min_duration = - 9223372036854775808"

definition time_sub :: "go_time \<Rightarrow> go_time \<Rightarrow> duration" where
  "time_sub t u = max min_duration (min max_duration (t - u))"

definition time_add :: "go_time \<Rightarrow> duration \<Rightarrow> go_time" where
  "time_add t d = t + d"

lemma second_pos [simp]: "0 < second"
  by (simp add: second_def)

lemma minute_pos [simp]: "0 < minute"
  by (simp add: minute_def)

lemma time_sub_gt_iff: "d < max_duration \<Longrightarrow> min_duration \<le> d \<Longrightarrow> time_sub t u > d \<longleftrightarrow> t - u > d"
  by (auto simp: time_sub_def max_duration_def min_duration_def)

lemma time_sub_ge_iff: "d \<le> max_duration \<Longrightarrow> min_duration < d \<Longrightarrow> time_sub t u \<ge> d \<longleftrightarrow> t - u \<ge> d"
  by (auto simp: time_sub_def max_duration_def min_duration_def)

lemma minute_in_range: "minute < max_duration" "min_duration \<le> minute"
  by (simp_all add: minute_def second_def max_duration_def min_duration_def)

section \<open>Results\<close>

text \<open>A Go function returning \<^verbatim>\<open>(T, error)\<close> is a sum, the error on the left.\<close>

definition bindR :: "'e + 'a \<Rightarrow> ('a \<Rightarrow> 'e + 'b) \<Rightarrow> 'e + 'b" where
  "bindR r f = (case r of Inl e \<Rightarrow> Inl e | Inr x \<Rightarrow> f x)"

lemma bindR_simps [simp, result_simps]:
  "bindR (Inl e) f = Inl e"
  "bindR (Inr x) f = f x"
  by (simp_all add: bindR_def)

lemma bindR_Inr_iff [result_simps]: "bindR r f = Inr y \<longleftrightarrow> (\<exists>x. r = Inr x \<and> f x = Inr y)"
  by (cases r) auto

lemma bindR_Inl_iff [result_simps]:
  "bindR r f = Inl e \<longleftrightarrow> r = Inl e \<or> (\<exists>x. r = Inr x \<and> f x = Inl e)"
  by (cases r) auto

definition isOk :: "'e + 'a \<Rightarrow> bool" where
  "isOk r = (case r of Inl _ \<Rightarrow> False | Inr _ \<Rightarrow> True)"

lemma isOk_simps [simp]: "isOk (Inr x)" "\<not> isOk (Inl e)"
  by (simp_all add: isOk_def)

section \<open>Byte strings\<close>

type_synonym uint64 = "64 word"
type_synonym uint32 = "32 word"

definition ascii_space :: "char \<Rightarrow> bool" where
  "ascii_space c \<longleftrightarrow> c = CHR '' '' \<or> c = CHR 0x09 \<or> c = CHR 0x0A \<or> c = CHR 0x0B \<or> c = CHR 0x0C \<or> c = CHR 0x0D"

text \<open>
  The white space of \<^verbatim>\<open>unicode.IsSpace\<close> beyond ASCII, as UTF-8: two bytes for U+0085 and
  U+00A0, three for U+1680, U+2000 to U+200A, U+2028, U+2029, U+202F, U+205F and U+3000.
\<close>

definition wide_space2 :: "char \<Rightarrow> char \<Rightarrow> bool" where
  "wide_space2 c d \<longleftrightarrow> c = CHR 0xC2 \<and> (d = CHR 0x85 \<or> d = CHR 0xA0)"

definition wide_space3 :: "char \<Rightarrow> char \<Rightarrow> char \<Rightarrow> bool" where
  "wide_space3 c d e \<longleftrightarrow>
     (c = CHR 0xE1 \<and> d = CHR 0x9A \<and> e = CHR 0x80) \<or>
     (c = CHR 0xE2 \<and> d = CHR 0x80 \<and>
        ((CHR 0x80 \<le> e \<and> e \<le> CHR 0x8A) \<or> e = CHR 0xA8 \<or> e = CHR 0xA9 \<or> e = CHR 0xAF)) \<or>
     (c = CHR 0xE2 \<and> d = CHR 0x81 \<and> e = CHR 0x9F) \<or>
     (c = CHR 0xE3 \<and> d = CHR 0x80 \<and> e = CHR 0x80)"

fun trim_left :: "string \<Rightarrow> string" where
  "trim_left (c # d # e # s) =
     (if ascii_space c then trim_left (d # e # s)
      else if wide_space2 c d then trim_left (e # s)
      else if wide_space3 c d e then trim_left s
      else c # d # e # s)"
| "trim_left [c, d] =
     (if ascii_space c then trim_left [d] else if wide_space2 c d then [] else [c, d])"
| "trim_left [c] = (if ascii_space c then [] else [c])"
| "trim_left [] = []"

fun trim_left_rev :: "string \<Rightarrow> string" where
  "trim_left_rev (e # d # c # s) =
     (if ascii_space e then trim_left_rev (d # c # s)
      else if wide_space2 d e then trim_left_rev (c # s)
      else if wide_space3 c d e then trim_left_rev s
      else e # d # c # s)"
| "trim_left_rev [e, d] =
     (if ascii_space e then trim_left_rev [d] else if wide_space2 d e then [] else [e, d])"
| "trim_left_rev [e] = (if ascii_space e then [] else [e])"
| "trim_left_rev [] = []"

definition TrimSpace :: "string \<Rightarrow> string" where
  "TrimSpace s = rev (trim_left_rev (rev (trim_left s)))"

text \<open>
  \<^verbatim>\<open>strings.ToLower\<close> on the ASCII letters; the modelled code lowers identifiers that are, or
  are next checked to be, ASCII.
\<close>

definition lower_char :: "char \<Rightarrow> char" where
  "lower_char c = (if CHR ''A'' \<le> c \<and> c \<le> CHR ''Z'' then char_of (of_char c + 32 :: nat) else c)"

definition ToLower :: "string \<Rightarrow> string" where
  "ToLower s = map lower_char s"

text \<open>
  \<^verbatim>\<open>strings.EqualFold\<close> against ASCII text, which is how the modelled code uses it: beside the ASCII
  letters only U+017F (long s) and U+212A (the Kelvin sign) fold to an ASCII letter.
\<close>

fun fold_text :: "string \<Rightarrow> string" where
  "fold_text (c # d # e # s) =
     (if c = CHR 0xC5 \<and> d = CHR 0xBF then CHR ''s'' # fold_text (e # s)
      else if c = CHR 0xE2 \<and> d = CHR 0x84 \<and> e = CHR 0xAA then CHR ''k'' # fold_text s
      else lower_char c # fold_text (d # e # s))"
| "fold_text [c, d] = (if c = CHR 0xC5 \<and> d = CHR 0xBF then [CHR ''s''] else [lower_char c, lower_char d])"
| "fold_text [c] = [lower_char c]"
| "fold_text [] = []"

definition EqualFold :: "string \<Rightarrow> string \<Rightarrow> bool" where
  "EqualFold s t \<longleftrightarrow> fold_text s = fold_text t"

fun Split :: "char \<Rightarrow> string \<Rightarrow> string list" where
  "Split sep [] = [[]]"
| "Split sep (c # cs) =
     (if c = sep then [] # Split sep cs
      else (case Split sep cs of [] \<Rightarrow> [[c]] | p # ps \<Rightarrow> (c # p) # ps))"

fun Join :: "char \<Rightarrow> string list \<Rightarrow> string" where
  "Join sep [] = []"
| "Join sep [p] = p"
| "Join sep (p # q # ps) = p @ sep # Join sep (q # ps)"

definition HasPrefix :: "string \<Rightarrow> string \<Rightarrow> bool" where
  "HasPrefix s p \<longleftrightarrow> take (length p) s = p"

definition is_digit :: "char \<Rightarrow> bool" where
  "is_digit c \<longleftrightarrow> CHR ''0'' \<le> c \<and> c \<le> CHR ''9''"

definition is_hex :: "char \<Rightarrow> bool" where
  "is_hex c \<longleftrightarrow> (CHR ''0'' \<le> c \<and> c \<le> CHR ''9'') \<or> (CHR ''a'' \<le> c \<and> c \<le> CHR ''f'') \<or>
     (CHR ''A'' \<le> c \<and> c \<le> CHR ''F'')"

definition digit_value :: "char \<Rightarrow> nat" where
  "digit_value c = of_char c - 48"

definition decimal_value :: "string \<Rightarrow> nat" where
  "decimal_value s = foldl (\<lambda>n c. 10 * n + digit_value c) 0 s"

text \<open>\<^verbatim>\<open>strconv.ParseUint(s, 10, 64)\<close>: decimal digits only, no sign, no value past 64 bits.\<close>

definition ParseUint :: "string \<Rightarrow> uint64 option" where
  "ParseUint s =
     (if s = [] \<or> \<not> list_all is_digit s then None
      else if decimal_value s < 2 ^ 64 then Some (of_nat (decimal_value s)) else None)"

text \<open>Evaluation of the string functions on literals is by rewriting with these.\<close>

lemmas string_eval [go_defs] =
  TrimSpace_def ascii_space_def wide_space2_def wide_space3_def
  ToLower_def lower_char_def char_of_def bit_iff_odd EqualFold_def HasPrefix_def
  is_digit_def is_hex_def digit_value_def decimal_value_def ParseUint_def

lemma Split_nonempty [simp]: "Split sep s \<noteq> []"
  by (induction s) (auto split: list.splits)

lemma Join_Split: "Join sep (Split sep s) = s"
proof (induction s)
  case Nil
  show ?case by simp
next
  case (Cons c s)
  obtain p ps where sp: "Split sep s = p # ps"
    using Split_nonempty by (metis neq_Nil_conv)
  with Cons.IH show ?case by (cases ps) auto
qed

lemma ToLower_length [simp]: "length (ToLower s) = length s"
  by (simp add: ToLower_def)

lemma ParseUint_digits: "ParseUint s = Some w \<Longrightarrow> s \<noteq> [] \<and> list_all is_digit s"
  by (auto simp: ParseUint_def split: if_splits)

text \<open>A comma is no part of any white space, so trimming keeps it.\<close>

lemma comma_not_space [simp]:
  "\<not> ascii_space (CHR '','')" "\<not> wide_space2 (CHR '','') d" "\<not> wide_space2 c (CHR '','')"
  "\<not> wide_space3 (CHR '','') d e" "\<not> wide_space3 c (CHR '','') e" "\<not> wide_space3 c d (CHR '','')"
  by (auto simp: ascii_space_def wide_space2_def wide_space3_def)

lemma comma_trim_left: "CHR '','' \<in> set s \<Longrightarrow> CHR '','' \<in> set (trim_left s)"
  by (induction s rule: trim_left.induct) auto

lemma comma_trim_left_rev: "CHR '','' \<in> set s \<Longrightarrow> CHR '','' \<in> set (trim_left_rev s)"
  by (induction s rule: trim_left_rev.induct) auto

lemma comma_TrimSpace: "CHR '','' \<in> set s \<Longrightarrow> TrimSpace s \<noteq> []"
  using comma_trim_left_rev [of "rev (trim_left s)"] comma_trim_left [of s]
  by (auto simp: TrimSpace_def)

text \<open>Trimming twice is trimming once.\<close>

lemma trim_left_idem [simp]: "trim_left (trim_left s) = trim_left s"
  by (induction s rule: trim_left.induct) auto

lemma trim_left_rev_idem [simp]: "trim_left_rev (trim_left_rev s) = trim_left_rev s"
  by (induction s rule: trim_left_rev.induct) auto

lemma trim_left_suffix: "\<exists>n. trim_left s = drop n s"
proof (induction s rule: trim_left.induct)
  case (1 c d e s)
  have "\<exists>n. trim_left (c # d # e # s) = drop n (c # d # e # s)"
  proof (cases "ascii_space c \<or> wide_space2 c d \<or> wide_space3 c d e")
    case False
    then show ?thesis by (intro exI [of _ 0]) simp
  next
    case True
    then show ?thesis using 1 by (auto) (metis drop_Suc_Cons)+
  qed
  then show ?case .
next
  case (2 c d)
  then show ?case by (auto simp: intro: exI [of _ 0] exI [of _ 1] exI [of _ 2])
next
  case (3 c)
  then show ?case by (auto intro: exI [of _ 0] exI [of _ 1])
qed auto

lemma trim_left_rev_suffix: "\<exists>n. trim_left_rev s = drop n s"
proof (induction s rule: trim_left_rev.induct)
  case (1 e d c s)
  show ?case
  proof (cases "ascii_space e \<or> wide_space2 d e \<or> wide_space3 c d e")
    case False
    then show ?thesis by (intro exI [of _ 0]) simp
  next
    case True
    then show ?thesis using 1 by auto (metis drop_Suc_Cons)+
  qed
next
  case (2 e d)
  then show ?case by (auto intro: exI [of _ 0] exI [of _ 1] exI [of _ 2])
next
  case (3 e)
  then show ?case by (auto intro: exI [of _ 0] exI [of _ 1])
qed auto

lemma trim_left_length: "length (trim_left s) \<le> length s"
  using trim_left_suffix [of s] by auto

text \<open>A prefix of a text that starts with no space starts with no space.\<close>

lemma trim_left_fixed:
  "trim_left (c # s) = c # s \<longleftrightarrow> \<not> ascii_space c \<and>
     (case s of [] \<Rightarrow> True | d # t \<Rightarrow> \<not> wide_space2 c d \<and> (case t of [] \<Rightarrow> True | e # _ \<Rightarrow> \<not> wide_space3 c d e))"
proof (cases s)
  case (Cons d t)
  have short: "trim_left v \<noteq> c # d # t" if "length v \<le> Suc (length t)" for v
    using trim_left_length [of v] that by (metis Suc_n_not_le_n le_trans length_Cons)
  show ?thesis by (cases t) (use Cons short in auto)
qed simp

lemma trim_left_take: "trim_left s = s \<Longrightarrow> trim_left (take n s) = take n s"
proof (cases s; cases n)
  fix c t m
  assume s: "trim_left s = s" "s = c # t" "n = Suc m"
  have "trim_left (c # take m t) = c # take m t"
    using s(1) unfolding s(2) trim_left_fixed by (auto simp: take_Cons split: list.splits nat.splits)
  with s show ?thesis by simp
qed simp_all

lemma TrimSpace_idem [simp]: "TrimSpace (TrimSpace s) = TrimSpace s"
proof -
  obtain n where n: "trim_left_rev (rev (trim_left s)) = drop n (rev (trim_left s))" using trim_left_rev_suffix by blast
  have "trim_left (take (length (trim_left s) - n) (trim_left s)) = take (length (trim_left s) - n) (trim_left s)"
    by (rule trim_left_take) simp
  then have "trim_left (TrimSpace s) = TrimSpace s" by (simp add: TrimSpace_def n drop_rev)
  then show ?thesis by (simp add: TrimSpace_def)
qed

lemma TrimSpace_length: "length (TrimSpace s) \<le> length s"
  using trim_left_suffix [of s] trim_left_rev_suffix [of "rev (trim_left s)"] by (auto simp: TrimSpace_def)

section \<open>Maps\<close>

text \<open>
  \<open>sorted_values kf m\<close> is the slice of a map's values sorted by a key that no two values
  share, as the repository's accessors return it.
\<close>

definition sorted_values :: "('v \<Rightarrow> string) \<Rightarrow> ('k \<times> 'v) list \<Rightarrow> 'v list" where
  "sorted_values kf m = sort_key kf (map snd m)"

lemma set_sorted_values [simp]: "set (sorted_values kf m) = snd ` set m"
  by (simp add: sorted_values_def)

lemma find_SomeD: "List.find P xs = Some x \<Longrightarrow> x \<in> set xs \<and> P x"
  by (induction xs) (auto split: if_splits)

text \<open>A map is well formed when its keys are distinct and each key is its value's identifier.\<close>

definition keyed_by :: "('v \<Rightarrow> 'k) \<Rightarrow> ('k \<times> 'v) list \<Rightarrow> bool" where
  "keyed_by kf m \<longleftrightarrow> distinct (map fst m) \<and> (\<forall>p \<in> set m. kf (snd p) = fst p)"

lemma keyed_by_Nil [simp]: "keyed_by kf []"
  by (simp add: keyed_by_def)

lemma set_update_distinct:
  "distinct (map fst m) \<Longrightarrow> set (AList.update k v m) = insert (k, v) {p \<in> set m. fst p \<noteq> k}"
  by (induction m) force+

lemma set_delete_alist: "set (AList.delete k m) = {p \<in> set m. fst p \<noteq> k}"
  by (auto simp: AList.delete_eq)

lemma length_alist_update: "length (AList.update k v m) = (if k \<in> fst ` set m then length m else Suc (length m))"
  by (induction m) auto

lemma keyed_by_update [wf_intros]: "keyed_by kf m \<Longrightarrow> kf v = k \<Longrightarrow> keyed_by kf (AList.update k v m)"
  by (auto simp: keyed_by_def set_update_distinct AList.distinct_update)

lemma keyed_by_delete [wf_intros]: "keyed_by kf m \<Longrightarrow> keyed_by kf (AList.delete k m)"
  by (auto simp: keyed_by_def set_delete_alist AList.distinct_delete)

lemma keyed_by_unique:
  assumes "keyed_by kf m" "(k, v) \<in> set m" "(k', v') \<in> set m" "kf v = kf v'"
  shows "v = v'"
proof -
  have "kf v = k" using assms(1,2) by (fastforce simp: keyed_by_def)
  moreover have "kf v' = k'" using assms(1,3) by (fastforce simp: keyed_by_def)
  ultimately have "(k, v') \<in> set m" using assms(3,4) by simp
  with assms(1,2) show ?thesis by (auto simp: keyed_by_def dest: eq_key_imp_eq_value)
qed

lemma keyed_by_inj:
  assumes "keyed_by kf m" "a \<in> snd ` set m" "b \<in> snd ` set m" "kf a = kf b"
  shows "a = b"
proof -
  obtain k l where "(k, a) \<in> set m" "(l, b) \<in> set m" using assms(2,3) by auto
  from keyed_by_unique [OF assms(1) this assms(4)] show ?thesis .
qed

lemma keyed_by_sorted_values:
  assumes "keyed_by kf m"
  shows "distinct (map kf (sorted_values kf m))"
proof -
  have e: "map fst m = map kf (map snd m)" using assms by (simp add: keyed_by_def)
  have "mset (map kf (sorted_values kf m)) = mset (map fst m)"
    unfolding e sorted_values_def mset_map by simp
  with assms show ?thesis unfolding keyed_by_def by (metis mset_eq_imp_distinct_iff)
qed

lemma keyed_by_value: "keyed_by kf m \<Longrightarrow> v \<in> snd ` set m \<Longrightarrow> (kf v, v) \<in> set m"
  by (auto simp: keyed_by_def)

lemma keyed_by_lookup: "keyed_by kf m \<Longrightarrow> map_of m k = Some v \<longleftrightarrow> (k, v) \<in> set m"
  by (simp add: keyed_by_def)

lemma keyed_by_values_update:
  "keyed_by kf m \<Longrightarrow> kf v = k \<Longrightarrow>
   snd ` set (AList.update k v m) = insert v {u \<in> snd ` set m. kf u \<noteq> k}"
  by (force simp: keyed_by_def set_update_distinct)

lemma keyed_by_values_new:
  assumes "keyed_by kf m" "kf v \<notin> kf ` snd ` set m"
  shows "snd ` set (AList.update (kf v) v m) = insert v (snd ` set m)"
proof -
  have "{u \<in> snd ` set m. kf u \<noteq> kf v} = snd ` set m" using assms(2) by (auto simp: image_iff)
  with keyed_by_values_update [OF assms(1) refl, of v] show ?thesis by simp
qed

lemma keyed_by_absent: "keyed_by kf m \<Longrightarrow> map_of m k = None \<longleftrightarrow> k \<notin> kf ` snd ` set m"
  by (force simp: keyed_by_def map_of_eq_None_iff image_image)

lemma keyed_by_values_delete:
  "keyed_by kf m \<Longrightarrow> snd ` set (AList.delete k m) = {u \<in> snd ` set m. kf u \<noteq> k}"
  by (force simp: keyed_by_def set_delete_alist)

end
