(* ===== verification/Model_Types.thy ===== *)
theory Model_Types
  imports Prelude
begin

text \<open>
  The data model of \<^verbatim>\<open>pkg/model\<close> that the modelled components share: resource identifiers
  (\<^verbatim>\<open>ResourceID\<close>, how they are generated and checked), engines, roles, health, checks,
  verifications, workflow stages, operation kinds and statuses, and the durable operation
  record. Go's string-typed enumerations are datatypes when the code only ever compares them
  with their constants; a further constructor stands for any other string where the code
  handles one.
\<close>

section \<open>Resource identifiers\<close>

type_synonym rid = string

text \<open>
  \<^verbatim>\<open>ValidResourceID\<close> ranges over the runes of the string with their byte offsets. Within the
  first rune that is not ASCII the check fails, so the loop reads single bytes until it
  returns.
\<close>

definition uuid_char_ok :: "nat \<Rightarrow> char \<Rightarrow> bool" where
  "uuid_char_ok index c =
     (if index = 8 \<or> index = 13 \<or> index = 18 \<or> index = 23 then c = CHR ''-'' else is_hex c)"

fun uuid_chars_ok :: "nat \<Rightarrow> string \<Rightarrow> bool" where
  "uuid_chars_ok index [] = True"
| "uuid_chars_ok index (c # cs) = (uuid_char_ok index c \<and> uuid_chars_ok (Suc index) cs)"

definition ValidResourceID :: "rid \<Rightarrow> bool" where
  "ValidResourceID value = (if length value \<noteq> 36 then False else uuid_chars_ok 0 value)"

definition hex_digit :: "nat \<Rightarrow> char" where
  "hex_digit n = (if n < 10 then char_of (48 + n) else char_of (87 + n))"

definition hex_byte :: "8 word \<Rightarrow> string" where
  "hex_byte b = [hex_digit (unat b div 16), hex_digit (unat b mod 16)]"

definition hex_bytes :: "8 word list \<Rightarrow> string" where
  "hex_bytes bs = concat (map hex_byte bs)"

text \<open>
  \<^verbatim>\<open>NewResourceID\<close> as a function of the sixteen random bytes it draws (a failing random source
  panics and returns nothing).
\<close>

definition NewResourceID :: "8 word list \<Rightarrow> rid" where
  "NewResourceID random =
     (let bytes = random [6 := or (and (random ! 6) 0x0f) 0x40];
          bytes = bytes [8 := or (and (bytes ! 8) 0x3f) 0x80]
      in hex_bytes (take 4 bytes) @ ''-'' @
         hex_bytes (take 2 (drop 4 bytes)) @ ''-'' @
         hex_bytes (take 2 (drop 6 bytes)) @ ''-'' @
         hex_bytes (take 2 (drop 8 bytes)) @ ''-'' @
         hex_bytes (take 6 (drop 10 bytes)))"

section \<open>Enumerations\<close>

datatype Engine = EngineMySQL | EnginePostgreSQL | EngineOracle | EngineSQLServer | EngineOther string

definition SupportedEngines :: "Engine list" where
  "SupportedEngines = [EngineMySQL, EnginePostgreSQL, EngineOracle, EngineSQLServer]"

definition Engine_Valid :: "Engine \<Rightarrow> bool" where
  "Engine_Valid engine \<longleftrightarrow> engine \<in> set SupportedEngines"

datatype InstanceRole = RoleUnknown | RolePrimary | RoleReplica | RoleStandby

datatype HealthState = HealthUnknown | HealthHealthy | HealthDegraded | HealthUnhealthy

record Health =
  h_State :: HealthState
  h_Summary :: string
  h_ObservedAt :: go_time

datatype ThreadState = ThreadUnknown | ThreadRunning | ThreadConnecting | ThreadStopped

datatype WorkflowStage =
  StageDiscover | StagePrecheck | StagePlan | StageSafetyGuard | StageLock | StageApprove
  | StageExecute | StageVerify | StageAudit | StageReport | StageNone | StageOther string

datatype OperationKind =
  OperationSwitchover | OperationFailover | OperationNodeSync | OperationMetadataReconciliation
  | OperationFormerPrimaryRejoin | OperationReplicationRepair | OperationPowerShutdown
  | OperationKindOther string

datatype OperationStatus =
  OperationPlanned | OperationBlocked | OperationRunning | OperationSucceeded | OperationFailed
  | OperationIndeterminate | OperationUnsupported | OperationStatusNone | OperationStatusOther string

datatype CheckStatus = CheckPass | CheckWarn | CheckFail | CheckOther string

record Check =
  ck_Name :: string
  ck_Status :: CheckStatus
  ck_Message :: string

definition mk_check :: "string \<Rightarrow> CheckStatus \<Rightarrow> string \<Rightarrow> Check" where
  "mk_check n s m = \<lparr>ck_Name = n, ck_Status = s, ck_Message = m\<rparr>"

section \<open>Verifications\<close>

record Verification =
  ve_OperationID :: rid
  ve_Passed :: bool
  ve_Checks :: "Check list"
  ve_ObservedAt :: go_time

definition Successful :: "Verification \<Rightarrow> bool" where
  "Successful v =
     (if \<not> ve_Passed v \<or> ve_Checks v = [] then False
      else \<not> list_ex (\<lambda>c. ck_Status c \<noteq> CheckPass \<and> ck_Status c \<noteq> CheckWarn) (ve_Checks v))"

section \<open>Lemmas\<close>

lemma ValidResourceID_length: "ValidResourceID s \<Longrightarrow> length s = 36"
  by (simp add: ValidResourceID_def split: if_splits)

lemma ValidResourceID_nonempty [simp]: "\<not> ValidResourceID []"
  by (simp add: ValidResourceID_def)

lemma uuid_chars_ok_iff: "uuid_chars_ok k s \<longleftrightarrow> (\<forall>i < length s. uuid_char_ok (k + i) (s ! i))"
proof (induction s arbitrary: k)
  case Nil
  show ?case by simp
next
  case (Cons c s)
  have "(\<forall>i < length (c # s). uuid_char_ok (k + i) ((c # s) ! i)) \<longleftrightarrow>
      uuid_char_ok k c \<and> (\<forall>i < length s. uuid_char_ok (Suc k + i) (s ! i))"
    by (simp add: All_less_Suc2)
  with Cons.IH show ?case by simp
qed

lemma uuid_chars_ok_append [simp]:
  "uuid_chars_ok k (s @ t) \<longleftrightarrow> uuid_chars_ok k s \<and> uuid_chars_ok (k + length s) t"
  by (induction s arbitrary: k) auto

lemma is_hex_hex_digit: "n < 16 \<Longrightarrow> is_hex (hex_digit n)"
proof -
  assume "n < 16"
  then have "n \<in> set [0..<16]" by simp
  moreover have "list_all (\<lambda>k. is_hex (hex_digit k)) [0..<16]"
    by (simp add: upt_rec hex_digit_def is_hex_def char_of_def bit_iff_odd)
  ultimately show ?thesis by (simp only: list_all_iff)
qed

lemma length_hex_bytes [simp]: "length (hex_bytes bs) = 2 * length bs"
  by (induction bs) (simp_all add: hex_bytes_def hex_byte_def)

lemma hex_bytes_ok:
  "(\<forall>i \<in> {k ..< k + 2 * length bs}. i \<noteq> 8 \<and> i \<noteq> 13 \<and> i \<noteq> 18 \<and> i \<noteq> 23) \<Longrightarrow> uuid_chars_ok k (hex_bytes bs)"
proof (induction bs arbitrary: k)
  case Nil
  show ?case by (simp add: hex_bytes_def)
next
  case (Cons b bs)
  have "unat b < 256" using unsigned_less [of b, where 'a = nat] by simp
  then have h: "is_hex (hex_digit (unat b div 16))" "is_hex (hex_digit (unat b mod 16))"
    by (auto intro!: is_hex_hex_digit)
  have "uuid_chars_ok (Suc (Suc k)) (hex_bytes bs)"
    using Cons.prems by (intro Cons.IH) auto
  moreover have "k \<noteq> 8" "k \<noteq> 13" "k \<noteq> 18" "k \<noteq> 23" "Suc k \<noteq> 8" "Suc k \<noteq> 13" "Suc k \<noteq> 18" "Suc k \<noteq> 23"
    using Cons.prems by (force dest: bspec)+
  ultimately show ?case
    using h by (simp add: hex_bytes_def hex_byte_def uuid_char_ok_def)
qed

lemma Successful_iff:
  "Successful v \<longleftrightarrow> ve_Passed v \<and> ve_Checks v \<noteq> [] \<and>
     (\<forall>c \<in> set (ve_Checks v). ck_Status c = CheckPass \<or> ck_Status c = CheckWarn)"
  by (auto simp: Successful_def list_ex_iff)

section \<open>Generated identifiers are valid\<close>

lemma NewResourceID_valid: "length random = 16 \<Longrightarrow> ValidResourceID (NewResourceID random)"
  by (auto simp: NewResourceID_def ValidResourceID_def Let_def uuid_char_ok_def intro!: hex_bytes_ok)

section \<open>Sample identifiers\<close>

text \<open>Identifiers for the concrete instances that show the theorems' hypotheses can hold.\<close>

definition sampleID :: "char \<Rightarrow> rid" where
  "sampleID c = c # ''0000000-0000-4000-8000-000000000000''"

lemma sampleID_inject [simp]: "sampleID c = sampleID d \<longleftrightarrow> c = d"
  by (simp add: sampleID_def)

lemma sampleID_nonempty [simp]: "sampleID c \<noteq> []" "[] \<noteq> sampleID c"
  by (simp_all add: sampleID_def)

lemma sampleID_valid_hex: "is_hex c \<Longrightarrow> ValidResourceID (sampleID c)"
  by (simp add: ValidResourceID_def uuid_char_ok_def sampleID_def) (simp add: is_hex_def)

lemma sampleID_valid [simp]:
  "ValidResourceID (sampleID (CHR ''1''))" "ValidResourceID (sampleID (CHR ''2''))"
  "ValidResourceID (sampleID (CHR ''3''))" "ValidResourceID (sampleID (CHR ''4''))"
  "ValidResourceID (sampleID (CHR ''5''))" "ValidResourceID (sampleID (CHR ''6''))"
  by (rule sampleID_valid_hex; simp add: is_hex_def)+

end
