(* ===== verification/Gtid.thy ===== *)
theory Gtid
  imports Model_Types "HOL-Library.Product_Lexorder"
begin

text \<open>
  \<^verbatim>\<open>pkg/gtid/gtid.go\<close>: MySQL GTID sets. A set maps a source (a server UUID, or a UUID and a
  tag) to a list of closed intervals of 64-bit transaction numbers. The operations parse a
  set, normalise interval lists, count transactions with overflow checks, and compare two
  sets; candidate ranking, former-primary rejoin and disaster recovery all decide by them.

  The lemmas give the reference semantics, the set of (source, number) pairs a value denotes
  (\<open>gtid_txs\<close>), and show that parsing yields normal form and that every comparison computes
  the cardinalities of set differences, or reports exactly the counts that do not fit in 64
  bits, in whatever order the Go maps are iterated.
\<close>

section \<open>Data\<close>

record gtidInterval =
  gi_start :: uint64
  gi_end :: uint64

type_synonym GTIDSet = "(string \<times> gtidInterval list) list"

record GTIDComparison =
  MissingTransactions :: uint64
  ErrantTransactions :: uint64

record GTIDRecoveryAssessment =
  ra_MissingTransactions :: uint64
  ra_ErrantTransactions :: uint64
  ra_PurgedMissingTransactions :: uint64
  ra_FastRejoinSafe :: bool

datatype interval_error = MalformedInterval | InvalidStart | InvalidEnd

datatype gtid_error =
  InvalidGroup string
  | TagHasNoInterval string
  | InvalidInterval string interval_error
  | CountExceedsUint64
  | OverlapExceedsSource
  | CountPrimary gtid_error
  | CountCandidate gtid_error
  | CountMissing gtid_error
  | CountErrant gtid_error
  | ValidatePurged gtid_error
  | PurgedNotSubset
  | CompareFormer gtid_error
  | CountPurgedMissing gtid_error

definition wrapE :: "('e \<Rightarrow> 'f) \<Rightarrow> 'e + 'a \<Rightarrow> 'f + 'a" where
  "wrapE f r = (case r of Inl e \<Rightarrow> Inl (f e) | Inr x \<Rightarrow> Inr x)"

section \<open>Parsing\<close>

definition validGTIDUUID :: "string \<Rightarrow> bool" where
  "validGTIDUUID value = (if length value \<noteq> 36 then False else uuid_chars_ok 0 value)"

definition tag_first :: "char \<Rightarrow> bool" where
  "tag_first c \<longleftrightarrow> (CHR ''a'' \<le> c \<and> c \<le> CHR ''z'') \<or> (CHR ''A'' \<le> c \<and> c \<le> CHR ''Z'') \<or> c = CHR ''_''"

definition tag_rest :: "char \<Rightarrow> bool" where
  "tag_rest c \<longleftrightarrow> (CHR ''a'' \<le> c \<and> c \<le> CHR ''z'') \<or> (CHR ''A'' \<le> c \<and> c \<le> CHR ''Z'') \<or>
     (CHR ''0'' \<le> c \<and> c \<le> CHR ''9'') \<or> c = CHR ''_''"

definition validGTIDTag :: "string \<Rightarrow> bool" where
  "validGTIDTag value =
     (case value of [] \<Rightarrow> False
      | c # cs \<Rightarrow> length value \<le> 32 \<and> tag_first c \<and> list_all tag_rest cs)"

definition parseGTIDInterval :: "string \<Rightarrow> interval_error + gtidInterval" where
  "parseGTIDInterval value =
     (let parts = Split (CHR ''-'') (TrimSpace value) in
      if length parts < 1 \<or> length parts > 2 \<or> parts ! 0 = [] then Inl MalformedInterval
      else case ParseUint (parts ! 0) of
        None \<Rightarrow> Inl InvalidStart
      | Some start \<Rightarrow>
          if start = 0 then Inl InvalidStart
          else if length parts = 2 then
            if parts ! 1 = [] then Inl InvalidEnd
            else case ParseUint (parts ! 1) of
              None \<Rightarrow> Inl InvalidEnd
            | Some e \<Rightarrow>
                if e = 0 \<or> e < start then Inl InvalidEnd
                else Inr \<lparr>gi_start = start, gi_end = e\<rparr>
          else Inr \<lparr>gi_start = start, gi_end = start\<rparr>)"

definition intervals_of :: "GTIDSet \<Rightarrow> string \<Rightarrow> gtidInterval list" where
  "intervals_of s source = (case map_of s source of None \<Rightarrow> [] | Some l \<Rightarrow> l)"

definition append_interval :: "string \<Rightarrow> gtidInterval \<Rightarrow> GTIDSet \<Rightarrow> GTIDSet" where
  "append_interval source interval s = AList.update source (intervals_of s source @ [interval]) s"

text \<open>The inner loop over the parts of one group after the UUID.\<close>

fun parse_parts :: "string \<Rightarrow> string \<Rightarrow> string list \<Rightarrow> GTIDSet \<Rightarrow> gtid_error + GTIDSet" where
  "parse_parts uuid source [] s = Inr s"
| "parse_parts uuid source [part] s =
     (let raw = TrimSpace part in
      if validGTIDTag raw then Inl (TagHasNoInterval raw)
      else bindR (wrapE (InvalidInterval raw) (parseGTIDInterval raw))
        (\<lambda>interval. Inr (append_interval source interval s)))"
| "parse_parts uuid source (part # next_part # rest) s =
     (let raw = TrimSpace part in
      if validGTIDTag raw then
        (let tagged = uuid @ '':'' @ ToLower raw; raw' = TrimSpace next_part in
         bindR (wrapE (InvalidInterval raw') (parseGTIDInterval raw'))
           (\<lambda>interval. parse_parts uuid tagged rest (append_interval tagged interval s)))
      else bindR (wrapE (InvalidInterval raw) (parseGTIDInterval raw))
        (\<lambda>interval. parse_parts uuid source (next_part # rest) (append_interval source interval s)))"

definition parse_group :: "string \<Rightarrow> GTIDSet \<Rightarrow> gtid_error + GTIDSet" where
  "parse_group rawGroup s =
     (let parts = Split (CHR '':'') (TrimSpace rawGroup) in
      if length parts < 2 \<or> \<not> validGTIDUUID (parts ! 0) then Inl (InvalidGroup rawGroup)
      else let uuid = ToLower (parts ! 0) in parse_parts uuid uuid (tl parts) s)"

fun parse_groups :: "string list \<Rightarrow> GTIDSet \<Rightarrow> gtid_error + GTIDSet" where
  "parse_groups [] s = Inr s"
| "parse_groups (g # gs) s = bindR (parse_group g s) (parse_groups gs)"

fun normalize_loop :: "gtidInterval list \<Rightarrow> gtidInterval list \<Rightarrow> gtidInterval list" where
  "normalize_loop normalized [] = normalized"
| "normalize_loop normalized (interval # rest) =
     (if normalized = [] then normalize_loop (normalized @ [interval]) rest
      else let lst = last normalized in
        if gi_start interval \<le> gi_end lst \<or> (gi_end lst < - 1 \<and> gi_start interval = gi_end lst + 1) then
          if gi_end interval > gi_end lst
          then normalize_loop (butlast normalized @ [lst\<lparr>gi_end := gi_end interval\<rparr>]) rest
          else normalize_loop normalized rest
        else normalize_loop (normalized @ [interval]) rest)"

definition normalizeGTIDIntervals :: "gtidInterval list \<Rightarrow> gtidInterval list" where
  "normalizeGTIDIntervals intervals =
     normalize_loop [] (sort_key (\<lambda>i. (gi_start i, gi_end i)) intervals)"

definition ParseGTIDSet :: "string \<Rightarrow> gtid_error + GTIDSet" where
  "ParseGTIDSet value =
     (if TrimSpace value = [] then Inr []
      else bindR (parse_groups (Split (CHR '','') value) [])
        (\<lambda>s. Inr (map (\<lambda>(uuid, intervals). (uuid, normalizeGTIDIntervals intervals)) s)))"

section \<open>Counting and comparing\<close>

definition checkedAddTransactions :: "uint64 \<Rightarrow> uint64 \<Rightarrow> gtid_error + uint64" where
  "checkedAddTransactions l r = (if - 1 - l < r then Inl CountExceedsUint64 else Inr (l + r))"

fun count_loop :: "uint64 \<Rightarrow> gtidInterval list \<Rightarrow> gtid_error + uint64" where
  "count_loop cnt [] = Inr cnt"
| "count_loop cnt (i # is) =
     bindR (checkedAddTransactions cnt (gi_end i - gi_start i + 1)) (\<lambda>c. count_loop c is)"

definition intervalTransactionCount :: "gtidInterval list \<Rightarrow> gtid_error + uint64" where
  "intervalTransactionCount intervals = count_loop 0 intervals"

fun overlap_loop :: "uint64 \<Rightarrow> gtidInterval list \<Rightarrow> gtidInterval list \<Rightarrow> gtid_error + uint64" where
  "overlap_loop cnt [] right = Inr cnt"
| "overlap_loop cnt left [] = Inr cnt"
| "overlap_loop cnt (l # ls) (r # rs) =
     (let start = (if gi_start r > gi_start l then gi_start r else gi_start l);
          end' = (if gi_end r < gi_end l then gi_end r else gi_end l)
      in bindR (if start \<le> end' then checkedAddTransactions cnt (end' - start + 1) else Inr cnt)
        (\<lambda>c. if gi_end l < gi_end r then overlap_loop c ls (r # rs) else overlap_loop c (l # ls) rs))"

definition overlapTransactionCount :: "gtidInterval list \<Rightarrow> gtidInterval list \<Rightarrow> gtid_error + uint64" where
  "overlapTransactionCount left right = overlap_loop 0 left right"

fun validate_loop :: "uint64 \<Rightarrow> GTIDSet \<Rightarrow> gtid_error + unit" where
  "validate_loop tot [] = Inr ()"
| "validate_loop tot ((_, intervals) # rest) =
     bindR (intervalTransactionCount intervals) (\<lambda>cnt.
     bindR (checkedAddTransactions tot cnt) (\<lambda>t. validate_loop t rest))"

definition validateGTIDTransactionCount :: "GTIDSet \<Rightarrow> gtid_error + unit" where
  "validateGTIDTransactionCount s = validate_loop 0 s"

fun difference_loop :: "uint64 \<Rightarrow> GTIDSet \<Rightarrow> GTIDSet \<Rightarrow> gtid_error + uint64" where
  "difference_loop difference [] right = Inr difference"
| "difference_loop difference ((uuid, leftIntervals) # rest) right =
     bindR (intervalTransactionCount leftIntervals) (\<lambda>leftCount.
     bindR (overlapTransactionCount leftIntervals (intervals_of right uuid)) (\<lambda>overlap.
       if overlap > leftCount then Inl OverlapExceedsSource
       else bindR (checkedAddTransactions difference (leftCount - overlap))
         (\<lambda>d. difference_loop d rest right)))"

definition transactionDifference :: "GTIDSet \<Rightarrow> GTIDSet \<Rightarrow> gtid_error + uint64" where
  "transactionDifference left right = difference_loop 0 left right"

definition CompareGTIDSets :: "GTIDSet \<Rightarrow> GTIDSet \<Rightarrow> gtid_error + GTIDComparison" where
  "CompareGTIDSets primary candidate =
     bindR (wrapE CountPrimary (validateGTIDTransactionCount primary)) (\<lambda>_.
     bindR (wrapE CountCandidate (validateGTIDTransactionCount candidate)) (\<lambda>_.
     bindR (wrapE CountMissing (transactionDifference primary candidate)) (\<lambda>missing.
     bindR (wrapE CountErrant (transactionDifference candidate primary)) (\<lambda>errant.
       Inr \<lparr>MissingTransactions = missing, ErrantTransactions = errant\<rparr>))))"

definition AssessGTIDRecovery :: "GTIDSet \<Rightarrow> GTIDSet \<Rightarrow> GTIDSet \<Rightarrow> gtid_error + GTIDRecoveryAssessment" where
  "AssessGTIDRecovery currentExecuted currentPurged formerExecuted =
     bindR (wrapE ValidatePurged (CompareGTIDSets currentExecuted currentPurged)) (\<lambda>purgedHistory.
       if ErrantTransactions purgedHistory \<noteq> 0 then Inl PurgedNotSubset
       else bindR (wrapE CompareFormer (CompareGTIDSets currentExecuted formerExecuted)) (\<lambda>comparison.
         bindR (wrapE CountPurgedMissing (transactionDifference currentPurged formerExecuted)) (\<lambda>purgedMissing.
           Inr \<lparr>ra_MissingTransactions = MissingTransactions comparison,
                ra_ErrantTransactions = ErrantTransactions comparison,
                ra_PurgedMissingTransactions = purgedMissing,
                ra_FastRejoinSafe = (ErrantTransactions comparison = 0 \<and> purgedMissing = 0)\<rparr>)))"

definition gtidSourceUUID :: "string \<Rightarrow> string" where
  "gtidSourceUUID source =
     (let s = ToLower (TrimSpace source) in
      if length s < 36 \<or> \<not> validGTIDUUID (take 36 s) then [] else take 36 s)"

fun additions_loop :: "GTIDSet \<Rightarrow> string \<Rightarrow> GTIDSet \<Rightarrow> gtid_error + bool" where
  "additions_loop baseline sourceUUID [] = Inr True"
| "additions_loop baseline sourceUUID ((source, candidateIntervals) # rest) =
     bindR (intervalTransactionCount candidateIntervals) (\<lambda>candidateCount.
     bindR (overlapTransactionCount candidateIntervals (intervals_of baseline source)) (\<lambda>overlap.
       if candidateCount > overlap \<and> gtidSourceUUID source \<noteq> sourceUUID then Inr False
       else additions_loop baseline sourceUUID rest))"

definition HasOnlyAdditionsFromSource :: "GTIDSet \<Rightarrow> GTIDSet \<Rightarrow> string \<Rightarrow> gtid_error + bool" where
  "HasOnlyAdditionsFromSource baseline candidate source =
     (let sourceUUID = ToLower (TrimSpace source) in
      if \<not> validGTIDUUID sourceUUID then Inr False
      else additions_loop baseline sourceUUID candidate)"

definition LikelyTemporalSamplingSkew :: "GTIDSet \<Rightarrow> GTIDSet \<Rightarrow> string \<Rightarrow> go_time \<Rightarrow> go_time \<Rightarrow> gtid_error + bool" where
  "LikelyTemporalSamplingSkew primary candidate primaryUUID _ _ =
     bindR (CompareGTIDSets primary candidate) (\<lambda>comparison.
       if MissingTransactions comparison \<noteq> 0 \<or> ErrantTransactions comparison = 0 then Inr False
       else HasOnlyAdditionsFromSource primary candidate primaryUUID)"

section \<open>Reference semantics\<close>

definition iv_set :: "gtidInterval \<Rightarrow> nat set" where
  "iv_set i = {unat (gi_start i) .. unat (gi_end i)}"

definition ivs_set :: "gtidInterval list \<Rightarrow> nat set" where
  "ivs_set l = (\<Union>i \<in> set l. iv_set i)"

definition gtid_txs :: "GTIDSet \<Rightarrow> (string \<times> nat) set" where
  "gtid_txs s = (\<Union>(source, l) \<in> set s. {source} \<times> ivs_set l)"

definition iv_ok :: "gtidInterval \<Rightarrow> bool" where
  "iv_ok i \<longleftrightarrow> 0 < gi_start i \<and> gi_start i \<le> gi_end i"

definition iv_gap :: "gtidInterval \<Rightarrow> gtidInterval \<Rightarrow> bool" where
  "iv_gap a b \<longleftrightarrow> unat (gi_end a) + 1 < unat (gi_start b)"

text \<open>Normal form: every interval non-empty and positive, ascending, never touching.\<close>

definition normal_ivs :: "gtidInterval list \<Rightarrow> bool" where
  "normal_ivs l \<longleftrightarrow> list_all iv_ok l \<and> sorted_wrt iv_gap l"

definition gtid_wf :: "GTIDSet \<Rightarrow> bool" where
  "gtid_wf s \<longleftrightarrow> distinct (map fst s) \<and> (\<forall>p \<in> set s. normal_ivs (snd p))"

section \<open>Normal form\<close>

lemma iv_ok_nat: "iv_ok i \<longleftrightarrow> 0 < unat (gi_start i) \<and> unat (gi_start i) \<le> unat (gi_end i)"
  by (simp add: iv_ok_def word_le_nat_alt unat_gt_0 word_neq_0_conv)

lemma ivs_set_simps [simp]:
  "ivs_set [] = {}"
  "ivs_set (i # l) = iv_set i \<union> ivs_set l"
  "ivs_set (l @ m) = ivs_set l \<union> ivs_set m"
  by (auto simp: ivs_set_def)

lemma finite_ivs_set [simp]: "finite (ivs_set l)"
  by (simp add: ivs_set_def iv_set_def)

lemma normal_ivs_Cons:
  "normal_ivs (i # l) \<longleftrightarrow> iv_ok i \<and> (\<forall>j \<in> set l. iv_gap i j) \<and> normal_ivs l"
  by (auto simp: normal_ivs_def)

lemma normal_ivs_snoc:
  "normal_ivs (l @ [i]) \<longleftrightarrow> normal_ivs l \<and> iv_ok i \<and> (\<forall>j \<in> set l. iv_gap j i)"
  by (auto simp: normal_ivs_def sorted_wrt_append)

lemma iv_gap_trans: "iv_gap a b \<Longrightarrow> iv_ok b \<Longrightarrow> iv_gap b c \<Longrightarrow> iv_gap a c"
  by (auto simp: iv_gap_def iv_ok_nat)

lemma unat_max64: "unat (- 1 :: uint64) = 2 ^ 64 - 1"
  by (simp add: unsigned_minus_1_eq_mask mask_eq_exp_minus_1)

text \<open>The loop's two ways on with a next interval: it merges, or it leaves a gap.\<close>

lemma touches_iff:
  "gi_start i \<le> gi_end l \<or> (gi_end l < - 1 \<and> gi_start i = gi_end l + 1) \<longleftrightarrow> \<not> iv_gap l i"
proof (cases "gi_start i \<le> gi_end l")
  case True
  then show ?thesis by (auto simp: iv_gap_def word_le_nat_alt)
next
  case False
  then have lt: "unat (gi_end l) < unat (gi_start i)"
    by (simp add: word_le_nat_alt)
  then have "unat (gi_end l) < 2 ^ 64 - 1"
    using unsigned_less [of "gi_start i", where 'a = nat] by simp
  then have "gi_end l < - 1" and "unat (gi_end l + 1) = unat (gi_end l) + 1"
    by (simp_all add: word_less_nat_alt unat_max64 unat_word_ariths)
  with lt show ?thesis
    by (auto simp: iv_gap_def word_le_nat_alt word_unat_eq_iff)
qed

lemma iv_set_merge:
  "\<not> iv_gap l i \<Longrightarrow> iv_ok l \<Longrightarrow> iv_ok i \<Longrightarrow> gi_start l \<le> gi_start i \<Longrightarrow> gi_end l \<le> gi_end i \<Longrightarrow>
   iv_set (l\<lparr>gi_end := gi_end i\<rparr>) = iv_set l \<union> iv_set i"
  by (auto simp: iv_set_def iv_gap_def iv_ok_nat word_le_nat_alt)

lemma iv_set_absorb:
  "gi_start l \<le> gi_start i \<Longrightarrow> gi_end i \<le> gi_end l \<Longrightarrow> iv_set i \<subseteq> iv_set l"
  by (auto simp: iv_set_def word_le_nat_alt)

lemma normalize_loop_spec:
  "normal_ivs acc \<Longrightarrow> list_all iv_ok rest \<Longrightarrow> sorted (map gi_start rest) \<Longrightarrow>
   (acc \<noteq> [] \<Longrightarrow> \<forall>i \<in> set rest. gi_start (last acc) \<le> gi_start i) \<Longrightarrow>
   normal_ivs (normalize_loop acc rest) \<and>
   ivs_set (normalize_loop acc rest) = ivs_set acc \<union> ivs_set rest"
proof (induction rest arbitrary: acc)
  case Nil
  then show ?case by simp
next
  case (Cons i rest)
  have i: "iv_ok i" and rest: "list_all iv_ok rest" "sorted (map gi_start rest)"
    and below: "\<forall>j \<in> set rest. gi_start i \<le> gi_start j"
    using Cons.prems by auto
  show ?case
  proof (cases acc rule: rev_cases)
    case Nil
    with Cons.IH [of "[i]"] i rest below show ?thesis
      by (simp add: normal_ivs_def)
  next
    case (snoc ys l)
    have l: "iv_ok l" "\<forall>j \<in> set ys. iv_gap j l" "normal_ivs ys" "gi_start l \<le> gi_start i"
      using Cons.prems snoc by (auto simp: normal_ivs_snoc)
    have lbelow: "\<forall>j \<in> set rest. gi_start l \<le> gi_start j"
      using l(4) below by auto
    show ?thesis
    proof (cases "iv_gap l i")
      case True
      have n: "normal_ivs (acc @ [i])"
        unfolding normal_ivs_snoc using Cons.prems(1) True i l snoc by (auto intro: iv_gap_trans)
      have "normalize_loop acc (i # rest) = normalize_loop (acc @ [i]) rest"
        using True snoc touches_iff [of i l] by (auto simp: Let_def)
      with Cons.IH [OF n rest] below show ?thesis by (simp add: Un_assoc)
    next
      case False
      let ?m = "l\<lparr>gi_end := gi_end i\<rparr>"
      show ?thesis
      proof (cases "gi_end i > gi_end l")
        case True
        have m1: "iv_set ?m = iv_set l \<union> iv_set i"
          using True False l i by (intro iv_set_merge) auto
        have m2: "iv_ok ?m"
          using True l by (auto simp: iv_ok_def)
        have n: "normal_ivs (ys @ [?m])"
          using l m2 by (auto simp: normal_ivs_snoc iv_gap_def)
        have "normalize_loop acc (i # rest) = normalize_loop (ys @ [?m]) rest"
          using True False snoc touches_iff [of i l] by (simp add: Let_def)
        with Cons.IH [OF n rest] lbelow m1 snoc show ?thesis by (simp add: Un_assoc)
      next
        case False': False
        then have sub: "iv_set i \<subseteq> iv_set l"
          using l by (intro iv_set_absorb) auto
        have "normalize_loop acc (i # rest) = normalize_loop acc rest"
          using False False' snoc touches_iff [of i l] by (simp add: Let_def)
        with Cons.IH [OF Cons.prems(1) rest] lbelow sub snoc show ?thesis by auto
      qed
    qed
  qed
qed

lemma normalize_normal: "list_all iv_ok l \<Longrightarrow> normal_ivs (normalizeGTIDIntervals l)"
  and normalize_set: "list_all iv_ok l \<Longrightarrow> ivs_set (normalizeGTIDIntervals l) = ivs_set l"
proof -
  assume ok: "list_all iv_ok l"
  let ?k = "\<lambda>i. (gi_start i, gi_end i)"
  have "sorted (map ?k (sort_key ?k l))" by simp
  then have "sorted (map fst (map ?k (sort_key ?k l)))"
    by (auto simp: sorted_map intro: sorted_wrt_mono_rel [rotated])
  then have s: "sorted (map gi_start (sort_key ?k l))"
    by (simp add: comp_def)
  have "list_all iv_ok (sort_key ?k l)" using ok by (simp add: list_all_iff)
  from normalize_loop_spec [OF _ this s, of "[]"]
  show "normal_ivs (normalizeGTIDIntervals l)" "ivs_set (normalizeGTIDIntervals l) = ivs_set l"
    by (simp_all add: normalizeGTIDIntervals_def normal_ivs_def) (simp add: ivs_set_def)
qed

section \<open>Counting\<close>

text \<open>
  \<open>addN c n\<close> is what a chain of checked additions of total \<open>n\<close> yields from \<open>c\<close>: the sum, or
  the overflow error when it does not fit.
\<close>

definition addN :: "uint64 \<Rightarrow> nat \<Rightarrow> gtid_error + uint64" where
  "addN c n = (if unat c + n < 2 ^ 64 then Inr (of_nat (unat c + n)) else Inl CountExceedsUint64)"

lemma unat_of_nat64: "n < 2 ^ 64 \<Longrightarrow> unat (of_nat n :: uint64) = n"
  by (simp add: unat_of_nat)

lemma addN_0 [simp]: "addN c 0 = Inr c"
  using unsigned_less [of c, where 'a = nat] by (simp add: addN_def)

lemma addN_bind: "bindR (addN c m) (\<lambda>d. addN d n) = addN c (m + n)"
proof (cases "unat c + m < 2 ^ 64")
  case True
  then have "unat (of_nat (unat c + m) :: uint64) = unat c + m"
    by (rule unat_of_nat64)
  with True show ?thesis by (simp add: addN_def add.assoc del: of_nat_add)
next
  case False
  then show ?thesis by (simp add: addN_def)
qed

lemma checkedAdd_eq: "checkedAddTransactions l r = addN l (unat r)"
proof -
  have lt: "unat l < 2 ^ 64" "unat r < 2 ^ 64"
    using unsigned_less [of l, where 'a = nat] unsigned_less [of r, where 'a = nat] by simp_all
  have "unat (- 1 - l) = 2 ^ 64 - 1 - unat l"
    using unat_sub [of l "- 1"] by (simp add: unat_max64)
  with lt have "- 1 - l < r \<longleftrightarrow> \<not> unat l + unat r < 2 ^ 64"
    by (simp add: word_less_nat_alt) arith
  then show ?thesis
    by (simp add: checkedAddTransactions_def addN_def)
qed

definition iv_len :: "gtidInterval \<Rightarrow> nat" where
  "iv_len i = card (iv_set i)"

lemma unat_span: "a \<le> b \<Longrightarrow> 0 < a \<Longrightarrow> unat (b - a + 1 :: uint64) = card {unat a .. unat b}"
proof -
  assume ab: "a \<le> b" "0 < a"
  then have s: "unat (b - a) = unat b - unat a"
    by (simp add: unat_sub)
  have "unat b < 2 ^ 64" "0 < unat a"
    using unsigned_less [of b, where 'a = nat] ab by (simp_all add: unat_gt_0)
  with s have "unat (b - a) + 1 < 2 ^ 64" by simp
  then have "unat (b - a + 1) = unat (b - a) + 1"
    by (simp add: unat_word_ariths)
  with s ab show ?thesis
    by (simp add: word_le_nat_alt Suc_diff_le)
qed

lemma iv_len_word: "iv_ok i \<Longrightarrow> unat (gi_end i - gi_start i + 1) = iv_len i"
  by (simp add: iv_len_def iv_set_def iv_ok_def unat_span)

lemma count_loop_eq: "list_all iv_ok l \<Longrightarrow> count_loop c l = addN c (sum_list (map iv_len l))"
proof (induction l arbitrary: c)
  case Nil
  then show ?case by simp
next
  case (Cons i l)
  then show ?case
    by (simp add: checkedAdd_eq iv_len_word addN_bind)
qed

lemma normal_disjoint_head: "normal_ivs (i # l) \<Longrightarrow> n \<in> ivs_set l \<Longrightarrow> unat (gi_end i) < n"
  by (auto simp: normal_ivs_Cons iv_gap_def ivs_set_def iv_set_def)

lemma card_normal: "normal_ivs l \<Longrightarrow> card (ivs_set l) = sum_list (map iv_len l)"
proof (induction l)
  case Nil
  then show ?case by simp
next
  case (Cons i l)
  have "iv_set i \<inter> ivs_set l = {}"
    using normal_disjoint_head [OF Cons.prems] by (fastforce simp: iv_set_def)
  moreover have "card (ivs_set l) = sum_list (map iv_len l)"
    using Cons by (simp add: normal_ivs_Cons)
  moreover have "finite (iv_set i)" by (simp add: iv_set_def)
  ultimately show ?case by (simp add: card_Un_disjoint iv_len_def [of i])
qed

lemma ivs_set_bound: "list_all iv_ok l \<Longrightarrow> ivs_set l \<subseteq> {1 ..< 2 ^ 64}"
  using unsigned_less [where 'b = 64 and 'a = nat]
  by (fastforce simp: ivs_set_def iv_set_def list_all_iff iv_ok_nat intro: le_less_trans)

lemma card_ivs_bound: "list_all iv_ok l \<Longrightarrow> card (ivs_set l) < 2 ^ 64"
proof -
  assume "list_all iv_ok l"
  then have "card (ivs_set l) \<le> card {1 ..< 2 ^ 64 :: nat}"
    by (intro card_mono ivs_set_bound) auto
  then show ?thesis by simp
qed

lemma normal_ok: "normal_ivs l \<Longrightarrow> list_all iv_ok l"
  by (simp add: normal_ivs_def)

lemma intervalTransactionCount_eq:
  assumes "normal_ivs l"
  shows "intervalTransactionCount l = Inr (of_nat (card (ivs_set l)))"
  using card_ivs_bound [OF normal_ok [OF assms]]
  by (simp add: intervalTransactionCount_def count_loop_eq [OF normal_ok [OF assms]] addN_def
      flip: card_normal [OF assms])

section \<open>Overlap and difference\<close>

lemma iv_meet:
  assumes "iv_ok l" "iv_ok r"
  defines "start \<equiv> (if gi_start r > gi_start l then gi_start r else gi_start l)"
    and "end' \<equiv> (if gi_end r < gi_end l then gi_end r else gi_end l)"
  shows "(if start \<le> end' then checkedAddTransactions c (end' - start + 1) else Inr c) =
    addN c (card (iv_set l \<inter> iv_set r))"
proof -
  have meet: "iv_set l \<inter> iv_set r = {unat start .. unat end'}"
    by (auto simp: iv_set_def start_def end'_def word_less_nat_alt)
  show ?thesis
  proof (cases "start \<le> end'")
    case True
    moreover have "0 < start" using assms(1,2) by (simp add: start_def iv_ok_def)
    ultimately show ?thesis by (simp add: checkedAdd_eq unat_span meet)
  next
    case False
    then have "{unat start .. unat end'} = {}" by (simp add: word_le_nat_alt)
    with False show ?thesis by (simp add: meet)
  qed
qed

lemma overlap_loop_eq:
  "normal_ivs l \<Longrightarrow> normal_ivs r \<Longrightarrow> overlap_loop c l r = addN c (card (ivs_set l \<inter> ivs_set r))"
proof (induction c l r rule: overlap_loop.induct)
  case (3 c l ls r rs)
  have ok: "iv_ok l" "iv_ok r" "normal_ivs ls" "normal_ivs rs"
    using "3.prems" by (simp_all add: normal_ivs_Cons)
  let ?meet = "iv_set l \<inter> iv_set r"
  have fin: "finite ?meet" by (simp add: iv_set_def)
  show ?case
  proof (cases "gi_end l < gi_end r")
    case True
    have "iv_set l \<inter> ivs_set rs = {}"
      using normal_disjoint_head [OF "3.prems"(2)] True
      by (fastforce simp: iv_set_def word_less_nat_alt)
    then have split: "ivs_set (l # ls) \<inter> ivs_set (r # rs) = ?meet \<union> (ivs_set ls \<inter> ivs_set (r # rs))"
      by auto
    have "?meet \<inter> (ivs_set ls \<inter> ivs_set (r # rs)) = {}"
      using normal_disjoint_head [OF "3.prems"(1)] by (fastforce simp: iv_set_def)
    then have "card (ivs_set (l # ls) \<inter> ivs_set (r # rs)) = card ?meet + card (ivs_set ls \<inter> ivs_set (r # rs))"
      using fin unfolding split by (intro card_Un_disjoint) auto
    with "3.IH"(1) [OF refl refl True] ok "3.prems" True show ?thesis
      by (simp add: iv_meet Let_def addN_bind del: ivs_set_simps)
  next
    case False
    have "ivs_set ls \<inter> iv_set r = {}"
      using normal_disjoint_head [OF "3.prems"(1)] False
      by (fastforce simp: iv_set_def word_less_nat_alt)
    then have split: "ivs_set (l # ls) \<inter> ivs_set (r # rs) = ?meet \<union> (ivs_set (l # ls) \<inter> ivs_set rs)"
      by auto
    have "?meet \<inter> (ivs_set (l # ls) \<inter> ivs_set rs) = {}"
      using normal_disjoint_head [OF "3.prems"(2)] by (fastforce simp: iv_set_def)
    then have "card (ivs_set (l # ls) \<inter> ivs_set (r # rs)) = card ?meet + card (ivs_set (l # ls) \<inter> ivs_set rs)"
      using fin unfolding split by (intro card_Un_disjoint) auto
    with "3.IH"(2) [OF refl refl False] ok "3.prems" False show ?thesis
      by (simp add: iv_meet Let_def addN_bind del: ivs_set_simps)
  qed
qed simp_all

lemma overlapTransactionCount_eq:
  assumes "normal_ivs l" "normal_ivs r"
  shows "overlapTransactionCount l r = Inr (of_nat (card (ivs_set l \<inter> ivs_set r)))"
proof -
  have "card (ivs_set l \<inter> ivs_set r) \<le> card (ivs_set l)"
    by (simp add: card_mono)
  with card_ivs_bound [OF normal_ok [OF assms(1)]] show ?thesis
    by (simp add: overlapTransactionCount_def overlap_loop_eq [OF assms] addN_def)
qed

lemma of_nat64_less_iff: "m < 2 ^ 64 \<Longrightarrow> n < 2 ^ 64 \<Longrightarrow> (of_nat m :: uint64) < of_nat n \<longleftrightarrow> m < n"
  by (simp add: word_less_nat_alt unat_of_nat64)

lemma gtid_wf_Cons:
  "gtid_wf ((u, l) # s) \<longleftrightarrow> normal_ivs l \<and> u \<notin> fst ` set s \<and> gtid_wf s"
  by (auto simp: gtid_wf_def)

lemma normal_intervals_of: "gtid_wf s \<Longrightarrow> normal_ivs (intervals_of s u)"
  by (auto simp: gtid_wf_def intervals_of_def normal_ivs_def split: option.splits dest!: map_of_SomeD)

lemma gtid_txs_simps [simp]:
  "gtid_txs [] = {}"
  "gtid_txs ((u, l) # s) = {u} \<times> ivs_set l \<union> gtid_txs s"
  "gtid_txs (s @ t) = gtid_txs s \<union> gtid_txs t"
  by (auto simp: gtid_txs_def)

lemma finite_gtid_txs [simp]: "finite (gtid_txs s)"
  by (auto simp: gtid_txs_def)

lemma gtid_txs_source: "(u, n) \<in> gtid_txs s \<Longrightarrow> u \<in> fst ` set s"
  by (force simp: gtid_txs_def)

lemma mem_gtid_txs: "gtid_wf s \<Longrightarrow> (u, n) \<in> gtid_txs s \<longleftrightarrow> n \<in> ivs_set (intervals_of s u)"
proof (induction s)
  case Nil
  then show ?case by (simp add: intervals_of_def)
next
  case (Cons p s)
  obtain v l where p: "p = (v, l)" by (cases p)
  show ?case
    using Cons gtid_txs_source [of v n s] by (auto simp: p gtid_wf_Cons intervals_of_def)
qed

lemma difference_loop_eq:
  "gtid_wf left \<Longrightarrow> gtid_wf right \<Longrightarrow>
   difference_loop c left right = addN c (card (gtid_txs left - gtid_txs right))"
proof (induction left arbitrary: c)
  case Nil
  then show ?case by simp
next
  case (Cons p left)
  obtain u l where p: "p = (u, l)" by (cases p)
  have l: "normal_ivs l" "u \<notin> fst ` set left" "gtid_wf left"
    using Cons.prems p by (simp_all add: gtid_wf_Cons)
  let ?R = "ivs_set (intervals_of right u)"
  have r: "normal_ivs (intervals_of right u)"
    using Cons.prems by (simp add: normal_intervals_of)
  have le: "card (ivs_set l \<inter> ?R) \<le> card (ivs_set l)"
    by (simp add: card_mono)
  have bound: "card (ivs_set l) < 2 ^ 64" "card (ivs_set l \<inter> ?R) < 2 ^ 64"
    using card_ivs_bound [OF normal_ok [OF l(1)]] le by simp_all
  have sub: "unat (of_nat (card (ivs_set l)) - of_nat (card (ivs_set l \<inter> ?R)) :: uint64) = card (ivs_set l - ?R)"
    using bound le
    by (simp add: unat_sub_if' unat_of_nat64 card_Diff_subset_Int)
  have here: "{u} \<times> ivs_set l - gtid_txs right = {u} \<times> (ivs_set l - ?R)"
    using mem_gtid_txs [OF Cons.prems(2)] by auto
  have "({u} \<times> (ivs_set l - ?R)) \<inter> (gtid_txs left - gtid_txs right) = {}"
    using l(2) gtid_txs_source by fastforce
  then have "card (gtid_txs (p # left) - gtid_txs right) =
      card (ivs_set l - ?R) + card (gtid_txs left - gtid_txs right)"
    by (simp add: p Un_Diff here card_Un_disjoint card_cartesian_product)
  with Cons.IH [OF l(3) Cons.prems(2)] l r bound le sub show ?case
    by (simp add: p intervalTransactionCount_eq overlapTransactionCount_eq of_nat64_less_iff
        checkedAdd_eq addN_bind)
qed

lemma validate_loop_eq:
  "gtid_wf s \<Longrightarrow> validate_loop c s = bindR (addN c (card (gtid_txs s))) (\<lambda>_. Inr ())"
proof (induction s arbitrary: c)
  case Nil
  then show ?case by simp
next
  case (Cons p s)
  obtain u l where p: "p = (u, l)" by (cases p)
  have l: "normal_ivs l" "u \<notin> fst ` set s" "gtid_wf s"
    using Cons.prems p by (simp_all add: gtid_wf_Cons)
  have "({u} \<times> ivs_set l) \<inter> gtid_txs s = {}"
    using l(2) gtid_txs_source by fastforce
  then have card: "card (gtid_txs (p # s)) = card (ivs_set l) + card (gtid_txs s)"
    by (simp add: p card_Un_disjoint card_cartesian_product)
  have "card (ivs_set l) < 2 ^ 64"
    by (rule card_ivs_bound [OF normal_ok [OF l(1)]])
  then have "validate_loop c (p # s) =
      bindR (addN c (card (ivs_set l))) (\<lambda>t. bindR (addN t (card (gtid_txs s))) (\<lambda>_. Inr ()))"
    using Cons.IH [OF l(3)] l by (simp add: p intervalTransactionCount_eq checkedAdd_eq unat_of_nat64)
  also have "\<dots> = bindR (bindR (addN c (card (ivs_set l))) (\<lambda>t. addN t (card (gtid_txs s)))) (\<lambda>_. Inr ())"
    by (cases "addN c (card (ivs_set l))") auto
  finally show ?case by (simp add: addN_bind card)
qed

section \<open>Parsing yields normal form\<close>

text \<open>What the parser builds up before it normalises: distinct sources, intervals that are ranges.\<close>

definition gtid_raw_wf :: "GTIDSet \<Rightarrow> bool" where
  "gtid_raw_wf s \<longleftrightarrow> distinct (map fst s) \<and> (\<forall>p \<in> set s. list_all iv_ok (snd p))"

lemma parseGTIDInterval_ok: "parseGTIDInterval v = Inr i \<Longrightarrow> iv_ok i"
  by (auto simp: parseGTIDInterval_def Let_def iv_ok_def word_neq_0_conv split: if_splits option.splits)

lemma wrapE_simps [simp]: "wrapE f (Inl e) = Inl (f e)" "wrapE f (Inr x) = Inr x"
  by (simp_all add: wrapE_def)

lemma wrapE_Inr_iff [simp]: "wrapE f r = Inr x \<longleftrightarrow> r = Inr x"
  by (cases r) simp_all

lemma raw_intervals_of: "gtid_raw_wf s \<Longrightarrow> list_all iv_ok (intervals_of s u)"
  by (auto simp: gtid_raw_wf_def intervals_of_def split: option.splits dest!: map_of_SomeD)

lemma append_interval_wf: "gtid_raw_wf s \<Longrightarrow> iv_ok i \<Longrightarrow> gtid_raw_wf (append_interval u i s)"
  using raw_intervals_of [of s u]
  by (auto simp: gtid_raw_wf_def append_interval_def set_update_distinct AList.distinct_update)

lemma append_interval_txs:
  assumes "gtid_raw_wf s"
  shows "gtid_txs (append_interval u i s) = gtid_txs s \<union> {u} \<times> iv_set i"
proof -
  have d: "distinct (map fst s)" using assms by (simp add: gtid_raw_wf_def)
  have here: "{u} \<times> ivs_set (intervals_of s u) = (\<Union>(v, l) \<in> {p \<in> set s. fst p = u}. {v} \<times> ivs_set l)"
    using d by (auto simp: intervals_of_def map_of_eq_Some_iff map_of_eq_None_iff split: option.splits)
      (force dest: eq_key_imp_eq_value)+
  have "gtid_txs (append_interval u i s) =
      {u} \<times> ivs_set (intervals_of s u) \<union> {u} \<times> iv_set i \<union> (\<Union>(v, l) \<in> {p \<in> set s. fst p \<noteq> u}. {v} \<times> ivs_set l)"
    by (auto simp: gtid_txs_def append_interval_def set_update_distinct [OF d])
  also have "\<dots> = gtid_txs s \<union> {u} \<times> iv_set i"
    unfolding here gtid_txs_def by blast
  finally show ?thesis .
qed

text \<open>
  A parsing step is uniform in the set it extends: it fails whatever was parsed before, or
  it adds the same transactions to any well-formed set.
\<close>

definition adds_txs :: "(GTIDSet \<Rightarrow> gtid_error + GTIDSet) \<Rightarrow> (string \<times> nat) set \<Rightarrow> bool" where
  "adds_txs f D \<longleftrightarrow> (\<forall>s. gtid_raw_wf s \<longrightarrow> (\<exists>s'. f s = Inr s' \<and> gtid_raw_wf s' \<and> gtid_txs s' = gtid_txs s \<union> D))"

definition uniform_step :: "(GTIDSet \<Rightarrow> gtid_error + GTIDSet) \<Rightarrow> bool" where
  "uniform_step f \<longleftrightarrow> (\<exists>e. \<forall>s. f s = Inl e) \<or> (\<exists>D. adds_txs f D)"

lemma adds_txs_compose: "adds_txs f D \<Longrightarrow> adds_txs g E \<Longrightarrow> adds_txs (\<lambda>s. bindR (f s) g) (D \<union> E)"
  unfolding adds_txs_def by (metis bindR_simps(2) sup_assoc)

lemma adds_txs_fail: "adds_txs f D \<Longrightarrow> \<forall>s. g s = Inl e \<Longrightarrow> gtid_raw_wf s \<Longrightarrow> bindR (f s) g = Inl e"
  unfolding adds_txs_def by (metis bindR_simps(2))

lemma adds_txs_append: "iv_ok i \<Longrightarrow> adds_txs (\<lambda>s. Inr (append_interval u i s)) ({u} \<times> iv_set i)"
  by (simp add: adds_txs_def append_interval_wf append_interval_txs)

lemma uniform_step_append:
  assumes "iv_ok i" "uniform_step g"
  shows "uniform_step (\<lambda>s. g (append_interval u i s))"
proof -
  from assms(2) consider e where "\<forall>s. g s = Inl e" | D where "adds_txs g D"
    by (auto simp: uniform_step_def)
  then show ?thesis
  proof cases
    case 1
    then show ?thesis by (auto simp: uniform_step_def)
  next
    case 2
    from adds_txs_compose [OF adds_txs_append [OF assms(1), of u] this]
    show ?thesis by (auto simp: uniform_step_def)
  qed
qed

lemma uniform_parse_parts: "uniform_step (parse_parts uuid source parts)"
proof (induction parts arbitrary: source rule: induct_list012)
  case 1
  show ?case by (auto simp: uniform_step_def adds_txs_def)
next
  case (2 p)
  have nil: "uniform_step Inr" by (auto simp: uniform_step_def adds_txs_def)
  show ?case
  proof (cases "parseGTIDInterval (TrimSpace p)")
    case (Inl e)
    then show ?thesis by (auto simp: uniform_step_def Let_def)
  next
    case (Inr i)
    with uniform_step_append [OF parseGTIDInterval_ok [OF Inr] nil, of source] show ?thesis
      by (cases "validGTIDTag (TrimSpace p)") (auto simp: uniform_step_def Let_def)
  qed
next
  case (3 p q ps)
  let ?tagged = "uuid @ '':'' @ ToLower (TrimSpace p)"
  show ?case
  proof (cases "validGTIDTag (TrimSpace p)")
    case True
    show ?thesis
    proof (cases "parseGTIDInterval (TrimSpace q)")
      case (Inl e)
      with True show ?thesis by (auto simp: uniform_step_def Let_def)
    next
      case (Inr i)
      with True uniform_step_append [OF parseGTIDInterval_ok [OF Inr] "3.IH"(1), of ?tagged ?tagged]
      show ?thesis by (simp add: Let_def)
    qed
  next
    case False
    show ?thesis
    proof (cases "parseGTIDInterval (TrimSpace p)")
      case (Inl e)
      with False show ?thesis by (auto simp: uniform_step_def Let_def)
    next
      case (Inr i)
      with False uniform_step_append [OF parseGTIDInterval_ok [OF Inr] "3.IH"(2), of source source]
      show ?thesis by (simp add: Let_def)
    qed
  qed
qed

lemma parse_group_adds:
  assumes "gtid_raw_wf s" "parse_group g s = Inr s'"
  shows "\<exists>D. adds_txs (parse_group g) D"
proof -
  let ?parts = "Split (CHR '':'') (TrimSpace g)"
  from assms(2) have g: "\<not> (length ?parts < 2 \<or> \<not> validGTIDUUID (?parts ! 0))"
    by (auto simp: parse_group_def Let_def split: if_splits)
  let ?f = "parse_parts (ToLower (?parts ! 0)) (ToLower (?parts ! 0)) (tl ?parts)"
  have eq: "parse_group g = ?f"
    using g by (auto simp: parse_group_def Let_def fun_eq_iff)
  with assms(2) uniform_parse_parts [of _ _ "tl ?parts"] show ?thesis
    unfolding uniform_step_def by (metis Inl_Inr_False)
qed

lemma parse_groups_adds:
  "gtid_raw_wf s \<Longrightarrow> parse_groups gs s = Inr s' \<Longrightarrow> \<exists>D. adds_txs (parse_groups gs) D"
proof (induction gs arbitrary: s)
  case Nil
  show ?case by (auto simp: adds_txs_def)
next
  case (Cons g gs)
  then obtain t where t: "parse_group g s = Inr t" "parse_groups gs t = Inr s'"
    by (auto simp: bindR_Inr_iff)
  then obtain D where D: "adds_txs (parse_group g) D"
    using parse_group_adds Cons.prems(1) by blast
  then have "gtid_raw_wf t"
    using t(1) Cons.prems(1) by (force simp: adds_txs_def)
  then obtain E where "adds_txs (parse_groups gs) E"
    using Cons.IH t(2) by blast
  from adds_txs_compose [OF D this] show ?case
    by (auto simp: fun_eq_iff)
qed

lemma parse_groups_append: "parse_groups (gs @ hs) s = bindR (parse_groups gs s) (parse_groups hs)"
proof (induction gs arbitrary: s)
  case (Cons g gs)
  then show ?case by (cases "parse_group g s") simp_all
qed simp

lemma Split_append: "Split sep (a @ sep # b) = Split sep a @ Split sep b"
proof (induction a)
  case (Cons c a)
  obtain p ps where "Split sep a = p # ps"
    using Split_nonempty by (metis neq_Nil_conv)
  with Cons show ?case by auto
qed simp

lemma gtid_raw_wf_Nil [simp]: "gtid_raw_wf []"
  by (simp add: gtid_raw_wf_def)

definition normalize_all :: "GTIDSet \<Rightarrow> GTIDSet" where
  "normalize_all s = map (\<lambda>(uuid, intervals). (uuid, normalizeGTIDIntervals intervals)) s"

lemma normalize_all_wf: "gtid_raw_wf s \<Longrightarrow> gtid_wf (normalize_all s)"
  by (auto simp: gtid_raw_wf_def gtid_wf_def normalize_all_def comp_def case_prod_unfold normalize_normal)

lemma normalize_all_txs: "gtid_raw_wf s \<Longrightarrow> gtid_txs (normalize_all s) = gtid_txs s"
  by (force simp: gtid_raw_wf_def gtid_txs_def normalize_all_def normalize_set)

lemma ParseGTIDSet_Inr:
  assumes "ParseGTIDSet v = Inr s" "TrimSpace v \<noteq> []"
  obtains r D where "parse_groups (Split (CHR '','') v) [] = Inr r" "s = normalize_all r"
    "gtid_raw_wf r" "adds_txs (parse_groups (Split (CHR '','') v)) D" "gtid_txs s = D"
proof -
  from assms obtain r where r: "parse_groups (Split (CHR '','') v) [] = Inr r" "s = normalize_all r"
    by (auto simp: ParseGTIDSet_def normalize_all_def bindR_Inr_iff)
  with parse_groups_adds [OF gtid_raw_wf_Nil] obtain D where D: "adds_txs (parse_groups (Split (CHR '','') v)) D"
    by blast
  then obtain r' where "parse_groups (Split (CHR '','') v) [] = Inr r'" "gtid_raw_wf r'" "gtid_txs r' = D"
    unfolding adds_txs_def by (metis gtid_raw_wf_Nil gtid_txs_simps(1) sup_bot_left)
  with r D show ?thesis using that normalize_all_txs by auto
qed

lemma ParseGTIDSet_gtid_wf: "ParseGTIDSet v = Inr s \<Longrightarrow> gtid_wf s"
proof (cases "TrimSpace v = []")
  case True
  then show "ParseGTIDSet v = Inr s \<Longrightarrow> gtid_wf s"
    by (auto simp: ParseGTIDSet_def gtid_wf_def)
next
  case False
  then show "ParseGTIDSet v = Inr s \<Longrightarrow> gtid_wf s"
    by (auto elim!: ParseGTIDSet_Inr intro: normalize_all_wf)
qed

section \<open>Comparisons compute set differences\<close>

lemma CompareGTIDSets_eq:
  assumes "gtid_wf p" "gtid_wf c"
  shows "CompareGTIDSets p c =
    (if 2 ^ 64 \<le> card (gtid_txs p) then Inl (CountPrimary CountExceedsUint64)
     else if 2 ^ 64 \<le> card (gtid_txs c) then Inl (CountCandidate CountExceedsUint64)
     else Inr \<lparr>MissingTransactions = of_nat (card (gtid_txs p - gtid_txs c)),
               ErrantTransactions = of_nat (card (gtid_txs c - gtid_txs p))\<rparr>)"
proof -
  have "card (gtid_txs p - gtid_txs c) \<le> card (gtid_txs p)" "card (gtid_txs c - gtid_txs p) \<le> card (gtid_txs c)"
    by (simp_all add: card_mono)
  with assms show ?thesis
    by (simp add: CompareGTIDSets_def validateGTIDTransactionCount_def transactionDifference_def
        validate_loop_eq difference_loop_eq addN_def)
qed

lemma of_nat64_eq_0_iff: "n < 2 ^ 64 \<Longrightarrow> (of_nat n :: uint64) = 0 \<longleftrightarrow> n = 0"
proof -
  assume n: "n < 2 ^ 64"
  have "(of_nat n :: uint64) = 0 \<longleftrightarrow> unat (of_nat n :: uint64) = 0"
    by (simp only: unat_eq_zero)
  with n show ?thesis by (simp only: unat_of_nat64)
qed

lemma card_txs_diff_bound: "card (gtid_txs p) < 2 ^ 64 \<Longrightarrow> card (gtid_txs p - gtid_txs c) < 2 ^ 64"
  by (meson card_mono Diff_subset finite_gtid_txs le_less_trans)

lemma txs_diff_empty_iff:
  "card (gtid_txs p) < 2 ^ 64 \<Longrightarrow>
   (of_nat (card (gtid_txs p - gtid_txs c)) :: uint64) = 0 \<longleftrightarrow> gtid_txs p \<subseteq> gtid_txs c"
  using of_nat64_eq_0_iff [OF card_txs_diff_bound] by (simp only: card_eq_0_iff) auto

lemma additions_loop_eq:
  "gtid_wf b \<Longrightarrow> gtid_wf c \<Longrightarrow> additions_loop b uuid c =
   Inr (\<forall>u n. (u, n) \<in> gtid_txs c - gtid_txs b \<longrightarrow> gtidSourceUUID u = uuid)"
proof (induction c)
  case Nil
  then show ?case by simp
next
  case (Cons p c)
  obtain u l where p: "p = (u, l)" by (cases p)
  have l: "normal_ivs l" "gtid_wf c"
    using Cons.prems p by (simp_all add: gtid_wf_Cons)
  let ?B = "ivs_set (intervals_of b u)"
  have b: "normal_ivs (intervals_of b u)"
    using Cons.prems by (simp add: normal_intervals_of)
  have le: "card (ivs_set l \<inter> ?B) \<le> card (ivs_set l)" by (simp add: card_mono)
  have bound: "card (ivs_set l) < 2 ^ 64"
    by (rule card_ivs_bound [OF normal_ok [OF l(1)]])
  have "card (ivs_set l \<inter> ?B) < card (ivs_set l) \<longleftrightarrow> \<not> ivs_set l \<subseteq> ?B"
    using psubset_card_mono [of "ivs_set l" "ivs_set l \<inter> ?B"] by (auto simp: Int_absorb2)
  then have gt: "(of_nat (card (ivs_set l)) :: uint64) > of_nat (card (ivs_set l \<inter> ?B)) \<longleftrightarrow>
      (\<exists>n. (u, n) \<in> {u} \<times> ivs_set l - gtid_txs b)"
    using bound le mem_gtid_txs [OF Cons.prems(1)] by (auto simp: of_nat64_less_iff)
  show ?case
    using Cons.IH Cons.prems(1) l b gt
    by (auto simp: p intervalTransactionCount_eq overlapTransactionCount_eq)
qed

text \<open>
  (C26) Comparing two parsed GTID sets yields exactly the sizes of the two set differences of the
  transactions they denote; it fails exactly when one of the sets has more transactions than
  an unsigned 64-bit counter holds, and it then says which.
\<close>

theorem CompareGTIDSets_correct:
  assumes "ParseGTIDSet v = Inr p" "ParseGTIDSet w = Inr c"
  shows "CompareGTIDSets p c =
    (if 2 ^ 64 \<le> card (gtid_txs p) then Inl (CountPrimary CountExceedsUint64)
     else if 2 ^ 64 \<le> card (gtid_txs c) then Inl (CountCandidate CountExceedsUint64)
     else Inr \<lparr>MissingTransactions = of_nat (card (gtid_txs p - gtid_txs c)),
               ErrantTransactions = of_nat (card (gtid_txs c - gtid_txs p))\<rparr>)"
  using assms by (intro CompareGTIDSets_eq ParseGTIDSet_gtid_wf)

text \<open>
  (C18) A former primary is declared safe to rejoin by auto-position exactly when its history is
  contained in the current primary's and every purged transaction is already in it; purged
  history outside the executed history is refused. (The sets are as parsed, and small enough
  to count.)
\<close>

theorem AssessGTIDRecovery_correct:
  assumes "ParseGTIDSet v1 = Inr executed" "ParseGTIDSet v2 = Inr purged" "ParseGTIDSet v3 = Inr former"
    and "card (gtid_txs executed) < 2 ^ 64" "card (gtid_txs purged) < 2 ^ 64" "card (gtid_txs former) < 2 ^ 64"
  shows "AssessGTIDRecovery executed purged former =
    (if gtid_txs purged \<subseteq> gtid_txs executed
     then Inr \<lparr>ra_MissingTransactions = of_nat (card (gtid_txs executed - gtid_txs former)),
               ra_ErrantTransactions = of_nat (card (gtid_txs former - gtid_txs executed)),
               ra_PurgedMissingTransactions = of_nat (card (gtid_txs purged - gtid_txs former)),
               ra_FastRejoinSafe = (gtid_txs former \<subseteq> gtid_txs executed \<and> gtid_txs purged \<subseteq> gtid_txs former)\<rparr>
     else Inl PurgedNotSubset)"
proof -
  note wf = assms(1-3) [THEN ParseGTIDSet_gtid_wf]
  show ?thesis
    using wf assms(4-6) card_txs_diff_bound [OF assms(5), of former]
    by (simp add: AssessGTIDRecovery_def CompareGTIDSets_eq transactionDifference_def difference_loop_eq addN_def
        txs_diff_empty_iff del: of_nat_eq_0_iff)
qed

text \<open>
  Every parsed set is in normal form (sources distinct; intervals positive, ascending and
  never touching), and a list of groups denotes the union of the transactions of its parts:
  parsing the concatenation of two accepted, non-blank texts succeeds with the union of what
  they denote.
\<close>

theorem ParseGTIDSet_union:
  assumes "ParseGTIDSet v = Inr a" "ParseGTIDSet w = Inr b" "TrimSpace v \<noteq> []" "TrimSpace w \<noteq> []"
  shows "gtid_wf a \<and> gtid_wf b \<and>
    (\<exists>s. ParseGTIDSet (v @ '','' @ w) = Inr s \<and> gtid_wf s \<and> gtid_txs s = gtid_txs a \<union> gtid_txs b)"
proof -
  let ?v = "parse_groups (Split (CHR '','') v)" and ?w = "parse_groups (Split (CHR '','') w)"
  obtain D where D: "adds_txs ?v D" "gtid_txs a = D"
    using assms(1,3) by (rule ParseGTIDSet_Inr)
  obtain E where E: "adds_txs ?w E" "gtid_txs b = E"
    using assms(2,4) by (rule ParseGTIDSet_Inr)
  from adds_txs_compose [OF D(1) E(1)] obtain r where r:
    "bindR (?v []) ?w = Inr r" "gtid_raw_wf r" "gtid_txs r = D \<union> E"
    by (force simp: adds_txs_def)
  then have "ParseGTIDSet (v @ '','' @ w) = Inr (normalize_all r)"
    by (simp add: comma_TrimSpace ParseGTIDSet_def Split_append parse_groups_append normalize_all_def)
  with r D E normalize_all_wf normalize_all_txs assms(1,2)[THEN ParseGTIDSet_gtid_wf] show ?thesis
    by auto
qed

text \<open>
  The temporal-skew test accepts exactly the candidates that miss nothing, have something
  extra, and whose every extra transaction was issued by the primary's own server UUID.
\<close>

theorem LikelyTemporalSamplingSkew_correct:
  assumes "ParseGTIDSet v = Inr p" "ParseGTIDSet w = Inr c"
    and "card (gtid_txs p) < 2 ^ 64" "card (gtid_txs c) < 2 ^ 64"
  shows "LikelyTemporalSamplingSkew p c uuid t1 t2 =
    Inr (gtid_txs p \<subset> gtid_txs c \<and> validGTIDUUID (ToLower (TrimSpace uuid)) \<and>
      (\<forall>u n. (u, n) \<in> gtid_txs c - gtid_txs p \<longrightarrow> gtidSourceUUID u = ToLower (TrimSpace uuid)))"
proof -
  note wf = assms(1,2) [THEN ParseGTIDSet_gtid_wf]
  show ?thesis
    using wf assms(3,4)
    by (auto simp: LikelyTemporalSamplingSkew_def CompareGTIDSets_eq HasOnlyAdditionsFromSource_def Let_def
        txs_diff_empty_iff additions_loop_eq psubset_eq simp del: of_nat_eq_0_iff)
qed

text \<open>
  No result of the package depends on the order in which Go iterates its maps.
\<close>

theorem gtid_order_independent:
  assumes "gtid_wf p" "gtid_wf c" "mset p' = mset p" "mset c' = mset c"
  shows "CompareGTIDSets p' c' = CompareGTIDSets p c \<and>
    HasOnlyAdditionsFromSource p' c' uuid = HasOnlyAdditionsFromSource p c uuid"
proof -
  have eq: "set p' = set p" "set c' = set c"
    by (rule mset_eq_setD [OF assms(3)], rule mset_eq_setD [OF assms(4)])
  have "mset (map fst p') = mset (map fst p)" "mset (map fst c') = mset (map fst c)"
    using assms(3,4) by simp_all
  then have perm: "distinct (map fst p')" "distinct (map fst c')"
    using assms(1,2) mset_eq_imp_distinct_iff unfolding gtid_wf_def by blast+
  have wf: "gtid_wf p'" "gtid_wf c'" using assms(1,2) eq perm by (auto simp: gtid_wf_def)
  have "gtid_txs p' = gtid_txs p" "gtid_txs c' = gtid_txs c" using eq by (simp_all add: gtid_txs_def)
  with wf assms(1,2) show ?thesis
    by (simp add: CompareGTIDSets_eq HasOnlyAdditionsFromSource_def Let_def additions_loop_eq)
qed

section \<open>Concrete instances\<close>

lemmas gtid_eval = ParseGTIDSet_def parse_group_def parseGTIDInterval_def validGTIDUUID_def uuid_char_ok_def
  validGTIDTag_def tag_first_def tag_rest_def Let_def append_interval_def intervals_of_def
  normalizeGTIDIntervals_def go_defs

abbreviation uuidA :: string where
  "uuidA \<equiv> ''3e11fa47-71ca-11e1-9e33-c80aa9429562''"

abbreviation setA17 :: GTIDSet where
  "setA17 \<equiv> [(uuidA, [\<lparr>gi_start = 1, gi_end = 5\<rparr>, \<lparr>gi_start = 7, gi_end = 7\<rparr>])]"

abbreviation setA13 :: GTIDSet where
  "setA13 \<equiv> [(uuidA, [\<lparr>gi_start = 1, gi_end = 3\<rparr>])]"

lemma parse_A17: "ParseGTIDSet ''3E11fa47-71ca-11e1-9e33-c80aa9429562:1-2:7:3-5'' = Inr setA17"
  by (simp add: gtid_eval)

lemma parse_A13: "ParseGTIDSet ''3e11fa47-71ca-11e1-9e33-c80aa9429562:1-3'' = Inr setA13"
  by (simp add: gtid_eval)

lemma iv_set_A:
  "iv_set \<lparr>gi_start = 1, gi_end = 5\<rparr> \<union> iv_set \<lparr>gi_start = 7, gi_end = 7\<rparr> = {1, 2, 3, 4, 5, 7}"
  "iv_set \<lparr>gi_start = 1, gi_end = 3\<rparr> = {1, 2, 3}"
proof -
  have r: "{1 .. 5 :: nat} \<union> {7 .. 7} = {1, 2, 3, 4, 5, 7}" "{1 .. 3 :: nat} = {1, 2, 3}"
    by code_simp+
  show "iv_set \<lparr>gi_start = 1, gi_end = 5\<rparr> \<union> iv_set \<lparr>gi_start = 7, gi_end = 7\<rparr> = {1, 2, 3, 4, 5, 7}"
    "iv_set \<lparr>gi_start = 1, gi_end = 3\<rparr> = {1, 2, 3}"
    using r by (simp_all add: iv_set_def)
qed

lemma txs_A17: "gtid_txs setA17 = {uuidA} \<times> {1, 2, 3, 4, 5, 7}"
  by (simp add: iv_set_A)

lemma txs_A13: "gtid_txs setA13 = {uuidA} \<times> {1, 2, 3}"
  by (simp add: iv_set_A)

lemma numbers_A:
  "{u} \<times> {1, 2, 3, 4, 5, 7} - {u} \<times> {1, 2, 3} = {u} \<times> {4, 5, 7 :: nat}"
  "{u} \<times> {1, 2, 3} \<subset> {u} \<times> {1, 2, 3, 4, 5, 7 :: nat}"
proof -
  have "{u} \<times> A - {u} \<times> B = {u} \<times> (A - B)" "{u} \<times> B \<subset> {u} \<times> A \<longleftrightarrow> B \<subset> A" for A B :: "nat set"
    by blast+
  moreover have "{1, 2, 3, 4, 5, 7} - {1, 2, 3} = {4, 5, 7 :: nat}" "{1, 2, 3} \<subset> {1, 2, 3, 4, 5, 7 :: nat}"
    by code_simp+
  ultimately show "{u} \<times> {1, 2, 3, 4, 5, 7} - {u} \<times> {1, 2, 3} = {u} \<times> {4, 5, 7 :: nat}"
    "{u} \<times> {1, 2, 3} \<subset> {u} \<times> {1, 2, 3, 4, 5, 7 :: nat}"
    by (simp_all only:)
qed

lemma txs_A17_minus_A13: "gtid_txs setA17 - gtid_txs setA13 = {uuidA} \<times> {4, 5, 7}"
  unfolding txs_A17 txs_A13 by (rule numbers_A)

lemmas card_A = txs_A17 txs_A13 txs_A17_minus_A13 card_cartesian_product

lemma sub_A: "gtid_txs setA13 \<subset> gtid_txs setA17" "gtid_txs setA13 \<subseteq> gtid_txs setA17"
  unfolding txs_A17 txs_A13 by (rule numbers_A) (rule psubset_imp_subset [OF numbers_A(2)])

theorem CompareGTIDSets_correct_witness:
  "CompareGTIDSets setA17 setA13 = Inr \<lparr>MissingTransactions = 3, ErrantTransactions = 0\<rparr>"
  using CompareGTIDSets_correct [OF parse_A17 parse_A13] sub_A
  by (simp add: card_A Diff_eq_empty_iff [THEN iffD2] del: gtid_txs_simps)

theorem AssessGTIDRecovery_correct_witness:
  "AssessGTIDRecovery setA17 setA13 setA13 =
     Inr \<lparr>ra_MissingTransactions = 3, ra_ErrantTransactions = 0, ra_PurgedMissingTransactions = 0,
          ra_FastRejoinSafe = True\<rparr>"
  using AssessGTIDRecovery_correct [OF parse_A17 parse_A13 parse_A13] sub_A
  by (simp add: card_A Diff_eq_empty_iff [THEN iffD2] del: gtid_txs_simps)

theorem ParseGTIDSet_union_witness:
  "\<exists>s. ParseGTIDSet (''3E11fa47-71ca-11e1-9e33-c80aa9429562:1-2:7:3-5'' @ '','' @
         ''3e11fa47-71ca-11e1-9e33-c80aa9429562:1-3'') = Inr s \<and>
     gtid_txs s = {uuidA} \<times> {1, 2, 3, 4, 5, 7}"
proof -
  have "TrimSpace ''3E11fa47-71ca-11e1-9e33-c80aa9429562:1-2:7:3-5'' \<noteq> []"
    "TrimSpace ''3e11fa47-71ca-11e1-9e33-c80aa9429562:1-3'' \<noteq> []"
    by (simp_all add: go_defs)
  from ParseGTIDSet_union [OF parse_A17 parse_A13 this] sub_A(2) show ?thesis
    unfolding txs_A17 by blast
qed

theorem LikelyTemporalSamplingSkew_correct_witness:
  "LikelyTemporalSamplingSkew setA13 setA17 uuidA 1 2 = Inr True"
proof -
  have "ToLower (TrimSpace uuidA) = uuidA" "validGTIDUUID uuidA" "gtidSourceUUID uuidA = uuidA"
    by (simp_all add: gtidSourceUUID_def validGTIDUUID_def uuid_char_ok_def go_defs Let_def)
  with LikelyTemporalSamplingSkew_correct [OF parse_A13 parse_A17, of uuidA 1 2] sub_A show ?thesis
    by (simp add: card_A del: gtid_txs_simps)
qed

theorem gtid_order_independent_witness:
  "CompareGTIDSets [(''b'', []), (''a'', [])] [] = CompareGTIDSets [(''a'', []), (''b'', [])] [] \<and>
   HasOnlyAdditionsFromSource [(''b'', []), (''a'', [])] [] uuidA =
   HasOnlyAdditionsFromSource [(''a'', []), (''b'', [])] [] uuidA"
  by (rule gtid_order_independent) (simp_all add: gtid_wf_def normal_ivs_def add_mset_commute)

end
