(* ===== verification/Topology.thy ===== *)
theory Topology
  imports Model_Types
begin

text \<open>
  The observed topology of a database cluster (\<^verbatim>\<open>pkg/model/topology.go\<close> and the instance and link
  types of \<^verbatim>\<open>pkg/model/model.go\<close>), as discovery leaves it in a snapshot: the fields the safety
  decisions read. Engine metadata and identities are Go maps from strings to strings, where a
  missing key reads as the empty string. The theory also models the library calls that the
  decisions apply to metadata: \<^verbatim>\<open>strconv.Atoi\<close> and the removal of white space by
  \<^verbatim>\<open>strings.Join(strings.Fields(value), "")\<close>.
\<close>

section \<open>Records\<close>

type_synonym metadata = "(string \<times> string) list"

definition mget :: "metadata \<Rightarrow> string \<Rightarrow> string" where
  "mget m key = (case map_of m key of None \<Rightarrow> [] | Some v \<Rightarrow> v)"

record ReplicationStatus =
  rs_SourceIdentity :: metadata
  rs_IOThread :: ThreadState
  rs_SQLThread :: ThreadState
  rs_LagSeconds :: "int option"
  rs_RetrievedPosition :: string
  rs_ExecutedPosition :: string
  rs_LastIOError :: string
  rs_LastSQLError :: string
  rs_LastError :: string

record DatabaseInstance =
  di_ResourceID :: rid
  di_MetadataRevision :: uint64
  di_UpdatedAt :: go_time
  di_ClusterID :: rid
  di_NodeID :: rid
  di_Hostname :: string
  di_IPAddress :: string
  di_Port :: int
  di_Engine :: Engine
  di_EngineIdentity :: metadata
  di_Role :: InstanceRole
  di_DesiredRole :: InstanceRole
  di_Health :: Health
  di_Replication :: ReplicationStatus
  di_Maintenance :: bool
  di_PromotionEligible :: bool
  di_EngineMetadata :: metadata

datatype ProbeOutcome =
  ProbeOutcomeUnknown | ProbeOutcomeReachable | ProbeOutcomeCredentialsUnavailable
  | ProbeOutcomeDatabaseUnavailable | ProbeOutcomeMetricsUnavailable

record ProbeStatus =
  pb_InstanceID :: rid
  pb_Outcome :: ProbeOutcome
  pb_DiscoveryObservedAt :: go_time
  pb_Health :: Health

record ReplicationLink =
  rl_ClusterID :: rid
  rl_SourceInstanceID :: rid
  rl_TargetInstanceID :: rid
  rl_Healthy :: bool
  rl_LagSeconds :: "int option"

record MetadataAnomaly =
  ma_Kind :: string
  ma_Severity :: string
  ma_Message :: string

record TopologySnapshot =
  ts_ClusterID :: rid
  ts_Instances :: "DatabaseInstance list"
  ts_Links :: "ReplicationLink list"
  ts_Probes :: "ProbeStatus list"
  ts_Health :: Health
  ts_Anomalies :: "MetadataAnomaly list"
  ts_ObservedAt :: go_time

text \<open>Writer endpoints. A provider is a string of its own type; the empty one is \<open>ProviderNone\<close>.\<close>

datatype EndpointKind = EndpointDatabase | EndpointVIP | EndpointListener | EndpointService | EndpointKindOther string

datatype EndpointProviderKind = EndpointProviderLinuxVIP | EndpointProviderKubernetesService | ProviderNone | ProviderOther string

definition EndpointProviderKind_Valid :: "EndpointProviderKind \<Rightarrow> bool" where
  "EndpointProviderKind_Valid kind \<longleftrightarrow> kind = EndpointProviderLinuxVIP \<or> kind = EndpointProviderKubernetesService"

record Endpoint =
  ep_ResourceID :: rid
  ep_MetadataRevision :: uint64
  ep_UpdatedAt :: go_time
  ep_ClusterID :: rid
  ep_InstanceID :: rid
  ep_Kind :: EndpointKind
  ep_Hostname :: string
  ep_IPAddress :: string
  ep_Port :: int
  ep_Active :: bool

record HAEndpoint =
  he_ResourceID :: rid
  he_MetadataRevision :: uint64
  he_UpdatedAt :: go_time
  he_ClusterID :: rid
  he_EndpointID :: rid
  he_Kind :: EndpointKind
  he_DesiredRole :: InstanceRole
  he_OwnerID :: rid
  he_Interface :: string
  he_Prefix :: int
  he_Provider :: EndpointProviderKind
  he_ProviderRef :: string
  he_Healthy :: bool

definition zeroReplication :: ReplicationStatus where
  "zeroReplication = \<lparr>rs_SourceIdentity = [], rs_IOThread = ThreadUnknown, rs_SQLThread = ThreadUnknown, rs_LagSeconds = None,
     rs_RetrievedPosition = [], rs_ExecutedPosition = [], rs_LastIOError = [], rs_LastSQLError = [], rs_LastError = []\<rparr>"

text \<open>The zero instance. Its enumerations would be empty strings, which no decision distinguishes from unknown.\<close>

definition zeroInstance :: DatabaseInstance where
  "zeroInstance = \<lparr>di_ResourceID = [], di_MetadataRevision = 0, di_UpdatedAt = 0, di_ClusterID = [],
     di_NodeID = [], di_Hostname = [], di_IPAddress = [], di_Port = 0, di_Engine = EngineOther [], di_EngineIdentity = [],
     di_Role = RoleUnknown, di_DesiredRole = RoleUnknown, di_Health = \<lparr>h_State = HealthUnknown, h_Summary = [], h_ObservedAt = 0\<rparr>, di_Replication = zeroReplication,
     di_Maintenance = False, di_PromotionEligible = False, di_EngineMetadata = []\<rparr>"

section \<open>Library calls on metadata\<close>

text \<open>\<^verbatim>\<open>strconv.Atoi\<close>: an optional sign, decimal digits, a value of 64 bits.\<close>

definition Atoi :: "string \<Rightarrow> int option" where
  "Atoi s =
     (let (neg, digits) = (case s of [] \<Rightarrow> (False, []) | c # cs \<Rightarrow> if c = CHR ''-'' then (True, cs) else if c = CHR ''+'' then (False, cs) else (False, s)) in
      if digits = [] \<or> \<not> list_all is_digit digits then None
      else let v = (if neg then - int (decimal_value digits) else int (decimal_value digits)) in
        if - (2 ^ 63) \<le> v \<and> v < 2 ^ 63 then Some v else None)"

fun remove_space :: "string \<Rightarrow> string" where
  "remove_space (c # d # e # s) =
     (if ascii_space c then remove_space (d # e # s)
      else if wide_space2 c d then remove_space (e # s)
      else if wide_space3 c d e then remove_space s
      else c # remove_space (d # e # s))"
| "remove_space [c, d] =
     (if ascii_space c then remove_space [d] else if wide_space2 c d then [] else c # remove_space [d])"
| "remove_space [c] = (if ascii_space c then [] else [c])"
| "remove_space [] = []"

section \<open>Distinct identifiers\<close>

text \<open>Many decisions range over instances or identifiers and refuse a duplicate of one seen before.\<close>

lemma distinct_snoc_iff: "distinct (xs @ [x]) \<longleftrightarrow> distinct xs \<and> x \<notin> set xs"
  by auto

end
