(* ===== verification/Repository.thy ===== *)
theory Repository
  imports Topology "HOL-Library.Product_Lexorder"
begin

text \<open>
  The metadata repository (\<^verbatim>\<open>internal/store\<close>): the records it keeps, the snapshot that every
  mutation replaces as a whole, the compaction of history that runs before each commit
  (\<^verbatim>\<open>retention.go\<close>), the commit itself, and the coordination records
  (\<^verbatim>\<open>store/coordination.go\<close>: endpoint leases and operation locks) with the check that a
  frozen cluster's writer lease must be the committed one (\<^verbatim>\<open>recoveryWriterLeaseAllowed\<close>).

  A snapshot field is an association list with distinct keys. Only the fields that modelled
  components read or write are present. What the disk and the controller quorum do with a
  proposed snapshot is an argument of the model (\<open>env_commit\<close>): they apply it, apply it and
  still report an error (durability not confirmed, or a quorum entry applied after its
  proposer gave up), or reject it and leave the repository as it was. A quorum
  entry of another leader that replaces the snapshot while a commit waits is not modelled.
\<close>

section \<open>Records\<close>

record Lease =
  l_ResourceID :: rid
  l_ClusterID :: rid
  l_HAEndpointID :: rid
  l_OperationID :: rid
  l_OwnerID :: rid
  l_PreviousOwnerID :: rid
  l_ExpiresAt :: go_time
  l_Active :: bool

record LeaseRecord =
  lr_Lease :: Lease
  lr_CreatedAt :: go_time
  lr_UpdatedAt :: go_time

record OperationLockRecord =
  ol_ResourceID :: rid
  ol_ClusterID :: rid
  ol_OperationID :: rid
  ol_ExpiresAt :: go_time
  ol_CreatedAt :: go_time
  ol_UpdatedAt :: go_time

datatype RecoveryStage =
  RecoveryPlanned | RecoveryFencing | RecoveryInspecting | RecoverySelecting | RecoveryStarting
  | RecoveryRebuilding | RecoveryVerifying | RecoveryCommitted | RecoverySucceeded
  | RecoveryBlocked | RecoverySuperseded | RecoveryStageNone

record RecoveryState =
  rs_RecoveredAt :: go_time
  rs_TaskID :: rid
  rs_CurrentPrimaryID :: rid
  rs_ExpectedState :: string
  rs_ActualState :: string
  rs_IncidentActive :: bool
  rs_IncidentRecovered :: bool
  rs_LastRecoveryStatus :: string
  rs_LastShutdownClassification :: string

record DatabaseCluster =
  cl_ResourceID :: rid
  cl_MetadataRevision :: uint64
  cl_UpdatedAt :: go_time
  cl_Engine :: Engine
  cl_EngineIdentity :: metadata
  cl_Health :: Health
  cl_RecoveryFreeze :: bool
  cl_Recovery :: "RecoveryState option"

definition DisasterRecoveryActive :: "DatabaseCluster \<Rightarrow> bool" where
  "DisasterRecoveryActive cluster \<longleftrightarrow>
     cl_RecoveryFreeze cluster \<and>
     (case cl_Recovery cluster of None \<Rightarrow> False | Some r \<Rightarrow> rs_LastRecoveryStatus r \<noteq> ''succeeded'')"

text \<open>What a fenced member reports about its history, the comparisons of two such reports, and the recovery task.\<close>

record RecoveryTimeline =
  ti_Timeline :: uint32
  ti_SwitchLSN :: string

record RecoveryEvidence =
  rv_InstanceID :: rid
  rv_NativeID :: string
  rv_Engine :: Engine
  rv_ObservedAt :: go_time
  rv_Fenced :: bool
  rv_Complete :: bool
  rv_PreparedTransactions :: bool
  rv_GTIDExecuted :: string
  rv_GTIDPurged :: string
  rv_SystemIdentifier :: string
  rv_Timeline :: uint32
  rv_Position :: string
  rv_Checkpoint :: string
  rv_Redo :: string
  rv_WALSegmentBytes :: uint64
  rv_ControlState :: string
  rv_ControlDigest :: string
  rv_WALTailDigest :: string
  rv_History :: "RecoveryTimeline list"
  rv_Fingerprint :: string

record RecoveryProof =
  pf_CandidateID :: rid
  pf_OtherID :: rid
  pf_CandidateFingerprint :: string
  pf_OtherFingerprint :: string
  pf_CommonWALVerified :: bool
  pf_DiscardedWALVerified :: bool
  pf_DiscardedTransactions :: bool

record RecoveryEvent =
  rn_At :: go_time
  rn_Stage :: RecoveryStage
  rn_InstanceID :: rid
  rn_Message :: string

record RecoveryTask =
  rt_ResourceID :: rid
  rt_MetadataRevision :: uint64
  rt_CreatedAt :: go_time
  rt_UpdatedAt :: go_time
  rt_ClusterID :: rid
  rt_Engine :: Engine
  rt_RequestedBy :: string
  rt_Stage :: RecoveryStage
  rt_PlanDigest :: string
  rt_InventoryGeneration :: uint64
  rt_Members :: "DatabaseInstance list"
  rt_Evidence :: "RecoveryEvidence list"
  rt_Proofs :: "RecoveryProof list"
  rt_PrimaryID :: rid
  rt_LeaseID :: rid
  rt_Events :: "RecoveryEvent list"
  rt_Message :: string
  rt_CommittedAt :: go_time
  rt_AttemptStartedAt :: go_time
  rt_VerifiedAt :: go_time
  rt_CompletedAt :: go_time

text \<open>A planned power lifecycle and the gate of a software update.\<close>

datatype PowerState =
  PowerNormal | PowerPrechecking | PowerMaintenance | PowerShutdownPlanned | PowerShuttingDown | PowerPoweredOff | PowerBootDetected
  | PowerRecovering | PowerVerifying | PowerCompleted | PowerFailed | PowerStateOther string

definition TerminalPowerState :: "PowerState \<Rightarrow> bool" where
  "TerminalPowerState state \<longleftrightarrow> state = PowerCompleted \<or> state = PowerFailed"

datatype PowerOperationType = PowerService | PowerPowerOff | PowerOperationTypeOther string

record PowerInstanceRef =
  pi_InstanceID :: rid
  pi_Hostname :: string
  pi_IPAddress :: string
  pi_Port :: int

record PowerVIPRef =
  pv_EndpointID :: rid
  pv_IPAddress :: string
  pv_Interface :: string

record PowerSnapshot =
  pn_ClusterID :: rid
  pn_ClusterName :: string
  pn_Engine :: Engine
  pn_Primary :: PowerInstanceRef
  pn_Replicas :: "PowerInstanceRef list"
  pn_VIP :: "PowerVIPRef option"
  pn_CapturedAt :: go_time
  pn_LocalInstanceID :: rid
  pn_LocalServiceName :: string

record PowerOperation =
  po_ResourceID :: rid
  po_MetadataRevision :: uint64
  po_CreatedAt :: go_time
  po_UpdatedAt :: go_time
  po_ClusterID :: rid
  po_Engine :: Engine
  po_OperationType :: PowerOperationType
  po_State :: PowerState
  po_Mode :: string
  po_RequestedBy :: string
  po_ApprovedBy :: string
  po_OperationID :: rid
  po_AutoRecovery :: bool
  po_Snapshot :: "PowerSnapshot option"
  po_Message :: string
  po_StartedAt :: go_time
  po_CompletedAt :: go_time

record SoftwareUpdateGate =
  su_PatchID :: string
  su_ExecutionID :: string
  su_AcquiredAt :: go_time
  su_UpdatedAt :: go_time

record Operation =
  op_ResourceID :: rid
  op_MetadataRevision :: uint64
  op_CreatedAt :: go_time
  op_UpdatedAt :: go_time
  op_ClusterID :: rid
  op_Engine :: Engine
  op_Kind :: OperationKind
  op_Status :: OperationStatus
  op_RequestedBy :: string

record PlanStep =
  ps_Index :: int
  ps_Name :: string
  ps_Owner :: string
  ps_TargetID :: rid
  ps_Mutating :: bool
  ps_Postcondition :: string

record OperationPlan =
  pl_ResourceID :: rid
  pl_MetadataRevision :: uint64
  pl_CreatedAt :: go_time
  pl_UpdatedAt :: go_time
  pl_OperationID :: rid
  pl_ClusterID :: rid
  pl_SourceID :: rid
  pl_TargetID :: rid
  pl_Stage :: WorkflowStage
  pl_ObservationToken :: string
  pl_ResourceRevisions :: "(rid \<times> uint64) list"
  pl_Checks :: "Check list"
  pl_Steps :: "PlanStep list"
  pl_Digest :: string
  pl_Summary :: string
  pl_Mutating :: bool

record Execution =
  ex_OperationID :: rid
  ex_Status :: OperationStatus
  ex_StartedAt :: go_time
  ex_FinishedAt :: go_time
  ex_Message :: string

record StepAttempt =
  sa_Step :: string
  sa_Attempt :: uint64
  sa_Status :: OperationStatus
  sa_StartedAt :: go_time
  sa_FinishedAt :: go_time
  sa_Message :: string
  sa_FailureClass :: string

datatype ReviewDisposition = AcknowledgedIndeterminate | DispositionOther string

record OperationReview =
  rv_ReviewedAt :: go_time
  rv_ReviewedBy :: string
  rv_Disposition :: ReviewDisposition
  rv_Note :: string

record OperationRecord =
  or_ResourceID :: rid
  or_MetadataRevision :: uint64
  or_CreatedAt :: go_time
  or_UpdatedAt :: go_time
  or_Operation :: Operation
  or_TargetID :: rid
  or_IdempotencyKey :: string
  or_Stage :: WorkflowStage
  or_Status :: OperationStatus
  or_Observation :: string
  or_Precheck :: "Check list"
  or_Plan :: OperationPlan
  or_Attempts :: "StepAttempt list"
  or_Execution :: Execution
  or_Verification :: Verification
  or_Review :: "OperationReview option"
  or_FailureClass :: string
  or_Message :: string

definition RequiresReview :: "OperationRecord \<Rightarrow> bool" where
  "RequiresReview r \<longleftrightarrow> or_Status r = OperationIndeterminate \<and> or_Review r = None"

datatype ApprovalGrantStatus =
  ApprovalGrantActive | ApprovalGrantConsumed | ApprovalGrantExpired | ApprovalGrantRevoked
  | ApprovalGrantOther string

record ApprovalGrant =
  ag_ResourceID :: rid
  ag_MetadataRevision :: uint64
  ag_CreatedAt :: go_time
  ag_UpdatedAt :: go_time
  ag_TokenHash :: string
  ag_OperationID :: rid
  ag_ClusterID :: rid
  ag_Engine :: Engine
  ag_OperationKind :: OperationKind
  ag_TargetID :: rid
  ag_PlanDigest :: string
  ag_ObservationDigest :: string
  ag_IssuedBy :: string
  ag_IssuedAt :: go_time
  ag_ExpiresAt :: go_time
  ag_ConsumedAt :: go_time
  ag_ConsumedByOperationID :: rid
  ag_Status :: ApprovalGrantStatus

record AuditEvent =
  ae_ResourceID :: rid
  ae_MetadataRevision :: uint64
  ae_CreatedAt :: go_time
  ae_UpdatedAt :: go_time
  ae_OperationID :: rid
  ae_Stage :: WorkflowStage
  ae_Actor :: string
  ae_Message :: string

record Report =
  rp_ResourceID :: rid
  rp_MetadataRevision :: uint64
  rp_CreatedAt :: go_time
  rp_UpdatedAt :: go_time
  rp_OperationID :: rid
  rp_Title :: string
  rp_Status :: OperationStatus
  rp_Summary :: string

record PlatformSession =
  se_ResourceID :: rid
  se_UpdatedAt :: go_time
  se_UserID :: rid
  se_ExpiresAt :: go_time
  se_RevokedAt :: go_time

datatype TaskStatus =
  TaskPlanned | TaskQueued | TaskRunning | TaskVerifying | TaskSucceeded | TaskFailed
  | TaskInterrupted | TaskIndeterminate

record LifecycleTask =
  lt_ResourceID :: rid
  lt_UpdatedAt :: go_time
  lt_Status :: TaskStatus

record SecurityEvent =
  sv_ResourceID :: rid
  sv_UserID :: rid
  sv_Username :: string
  sv_Kind :: string
  sv_Outcome :: string
  sv_Message :: string

record snapshot =
  Clusters :: "(rid \<times> DatabaseCluster) list"
  PlatformSessions :: "(rid \<times> PlatformSession) list"
  ApprovalGrants :: "(rid \<times> ApprovalGrant) list"
  CoordinationLeases :: "(rid \<times> LeaseRecord) list"
  OperationLocks :: "(rid \<times> OperationLockRecord) list"
  LifecycleTasks :: "(rid \<times> LifecycleTask) list"
  Operations :: "(rid \<times> OperationRecord) list"
  OperationKeys :: "(string \<times> rid) list"
  RecoveryTasks :: "(rid \<times> RecoveryTask) list"
  Audits :: "AuditEvent list"
  Reports :: "Report list"
  SecurityEvents :: "SecurityEvent list"
  ConfigurationTasksActive :: "(string \<times> bool) list"
  Instances :: "(rid \<times> DatabaseInstance) list"
  InventoryGenerations :: "(rid \<times> uint64) list"
  TopologySnapshots :: "(rid \<times> TopologySnapshot) list"
  HAEndpoints :: "(rid \<times> HAEndpoint) list"
  Endpoints :: "(rid \<times> (rid \<times> Endpoint) list) list"
  ReplicationLinks :: "(rid \<times> ReplicationLink list) list"
  ObservationWatermarks :: "(rid \<times> go_time) list"
  PowerOperations :: "(rid \<times> PowerOperation) list"
  UpdateGate :: "SoftwareUpdateGate option"

datatype store_error =
  ErrValidation string
  | ErrConflict string
  | ErrNotFound string
  | ErrPostCommitDurability
  | ErrPersist string

text \<open>Zero values, as Go's composite literals leave the fields they do not name.\<close>

definition zeroOperation :: Operation where
  "zeroOperation = \<lparr>op_ResourceID = [], op_MetadataRevision = 0, op_CreatedAt = 0, op_UpdatedAt = 0, op_ClusterID = [],
     op_Engine = EngineOther [], op_Kind = OperationKindOther [], op_Status = OperationStatusNone, op_RequestedBy = []\<rparr>"

definition zeroPlan :: OperationPlan where
  "zeroPlan = \<lparr>pl_ResourceID = [], pl_MetadataRevision = 0, pl_CreatedAt = 0, pl_UpdatedAt = 0, pl_OperationID = [],
     pl_ClusterID = [], pl_SourceID = [], pl_TargetID = [], pl_Stage = StageNone, pl_ObservationToken = [],
     pl_ResourceRevisions = [], pl_Checks = [], pl_Steps = [], pl_Digest = [], pl_Summary = [], pl_Mutating = False\<rparr>"

definition zeroExecution :: Execution where
  "zeroExecution = \<lparr>ex_OperationID = [], ex_Status = OperationStatusNone, ex_StartedAt = 0, ex_FinishedAt = 0, ex_Message = []\<rparr>"

definition zeroOperationRecord :: OperationRecord where
  "zeroOperationRecord = \<lparr>or_ResourceID = [], or_MetadataRevision = 0, or_CreatedAt = 0, or_UpdatedAt = 0,
     or_Operation = zeroOperation, or_TargetID = [], or_IdempotencyKey = [], or_Stage = StageNone,
     or_Status = OperationStatusNone, or_Observation = [], or_Precheck = [], or_Plan = zeroPlan, or_Attempts = [],
     or_Execution = zeroExecution,
     or_Verification = \<lparr>ve_OperationID = [], ve_Passed = False, ve_Checks = [], ve_ObservedAt = 0\<rparr>,
     or_Review = None, or_FailureClass = [], or_Message = []\<rparr>"

definition zeroHealth :: Health where
  "zeroHealth = \<lparr>h_State = HealthUnknown, h_Summary = [], h_ObservedAt = 0\<rparr>"

definition zeroCluster :: DatabaseCluster where
  "zeroCluster = \<lparr>cl_ResourceID = [], cl_MetadataRevision = 0, cl_UpdatedAt = 0, cl_Engine = EngineOther [], cl_EngineIdentity = [], cl_Health = zeroHealth,
     cl_RecoveryFreeze = False, cl_Recovery = None\<rparr>"

definition zeroRecoveryState :: RecoveryState where
  "zeroRecoveryState = \<lparr>rs_RecoveredAt = 0, rs_TaskID = [], rs_CurrentPrimaryID = [], rs_ExpectedState = [], rs_ActualState = [], rs_IncidentActive = False,
     rs_IncidentRecovered = False, rs_LastRecoveryStatus = [], rs_LastShutdownClassification = []\<rparr>"

definition zeroRecoveryTask :: RecoveryTask where
  "zeroRecoveryTask = \<lparr>rt_ResourceID = [], rt_MetadataRevision = 0, rt_CreatedAt = 0, rt_UpdatedAt = 0, rt_ClusterID = [], rt_Engine = EngineOther [],
     rt_RequestedBy = [], rt_Stage = RecoveryStageNone, rt_PlanDigest = [], rt_InventoryGeneration = 0, rt_Members = [], rt_Evidence = [], rt_Proofs = [],
     rt_PrimaryID = [], rt_LeaseID = [], rt_Events = [], rt_Message = [], rt_CommittedAt = 0, rt_AttemptStartedAt = 0, rt_VerifiedAt = 0, rt_CompletedAt = 0\<rparr>"

definition emptySnapshot :: snapshot where
  "emptySnapshot = \<lparr>Clusters = [], PlatformSessions = [], ApprovalGrants = [], CoordinationLeases = [],
     OperationLocks = [], LifecycleTasks = [], Operations = [], OperationKeys = [], RecoveryTasks = [],
     Audits = [], Reports = [], SecurityEvents = [], ConfigurationTasksActive = [],
     Instances = [], InventoryGenerations = [], TopologySnapshots = [], HAEndpoints = [], Endpoints = [],
     ReplicationLinks = [], ObservationWatermarks = [], PowerOperations = [], UpdateGate = None\<rparr>"

section \<open>Retention\<close>

definition newestResourceIDs :: "(rid \<times> go_time) list \<Rightarrow> nat \<Rightarrow> rid list" where
  "newestResourceIDs resources limit =
     map fst (take limit (rev (sort_key (\<lambda>(resourceID, updatedAt). (updatedAt, resourceID)) resources)))"

definition retain :: "rid list \<Rightarrow> (rid \<times> 'v) list \<Rightarrow> (rid \<times> 'v) list" where
  "retain ids m = filter (\<lambda>p. fst p \<in> set ids) m"

fun validOperationStatus :: "OperationStatus \<Rightarrow> bool" where
  "validOperationStatus OperationStatusNone = False"
| "validOperationStatus (OperationStatusOther _) = False"
| "validOperationStatus _ = True"

fun terminalOperationStatus :: "OperationStatus \<Rightarrow> bool" where
  "terminalOperationStatus OperationBlocked = True"
| "terminalOperationStatus OperationSucceeded = True"
| "terminalOperationStatus OperationFailed = True"
| "terminalOperationStatus OperationIndeterminate = True"
| "terminalOperationStatus OperationUnsupported = True"
| "terminalOperationStatus _ = False"

definition compactSessions :: "(rid \<times> PlatformSession) list \<Rightarrow> go_time \<Rightarrow> (rid \<times> PlatformSession) list" where
  "compactSessions originalSessions now =
     (let active = (\<lambda>s. IsZero (se_RevokedAt s) \<and> se_ExpiresAt s > now);
          stamp = (\<lambda>p. (fst p, se_UpdatedAt (snd p)));
          activeSessions = map stamp (filter (\<lambda>p. active (snd p)) originalSessions);
          terminalSessions = map stamp (filter (\<lambda>p. \<not> active (snd p)) originalSessions)
      in retain (newestResourceIDs activeSessions 1024 @ newestResourceIDs terminalSessions 512) originalSessions)"

definition compactGrants :: "(rid \<times> ApprovalGrant) list \<Rightarrow> (rid \<times> ApprovalGrant) list" where
  "compactGrants originalGrants =
     retain (newestResourceIDs (map (\<lambda>p. (fst p, ag_UpdatedAt (snd p))) originalGrants) 1024) originalGrants"

definition keptOperationIDs :: "(rid \<times> OperationRecord) list \<Rightarrow> rid list" where
  "keptOperationIDs originalOperations =
     (let stamp = (\<lambda>p. (fst p, or_UpdatedAt (snd p)));
          planned = filter (\<lambda>p. or_Status (snd p) = OperationPlanned) originalOperations;
          terminal = filter (\<lambda>p. or_Status (snd p) \<noteq> OperationPlanned \<and> terminalOperationStatus (or_Status (snd p))) originalOperations;
          others = filter (\<lambda>p. or_Status (snd p) \<noteq> OperationPlanned \<and> \<not> terminalOperationStatus (or_Status (snd p))) originalOperations
      in map fst others @ newestResourceIDs (map stamp planned) 128 @ newestResourceIDs (map stamp terminal) 512)"

definition indexOperationKey :: "(string \<times> rid) list \<Rightarrow> rid \<times> OperationRecord \<Rightarrow> (string \<times> rid) list" where
  "indexOperationKey keys p =
     (let key = TrimSpace (or_IdempotencyKey (snd p)) in
      if key \<noteq> [] then AList.update key (fst p) keys else keys)"

definition compactOperationKeys :: "(rid \<times> OperationRecord) list \<Rightarrow> (string \<times> rid) list \<Rightarrow> (string \<times> rid) list" where
  "compactOperationKeys operations originalKeys =
     foldl indexOperationKey
       (filter (\<lambda>p. snd p \<in> fst ` set operations) originalKeys) operations"

fun terminalTaskStatus :: "TaskStatus \<Rightarrow> bool" where
  "terminalTaskStatus TaskSucceeded = True"
| "terminalTaskStatus TaskFailed = True"
| "terminalTaskStatus TaskInterrupted = True"
| "terminalTaskStatus TaskIndeterminate = True"
| "terminalTaskStatus _ = False"

definition compactTasks :: "(rid \<times> LifecycleTask) list \<Rightarrow> (rid \<times> LifecycleTask) list" where
  "compactTasks originalTasks =
     (let terminalTasks = filter (\<lambda>p. terminalTaskStatus (lt_Status (snd p))) originalTasks;
          others = filter (\<lambda>p. \<not> terminalTaskStatus (lt_Status (snd p))) originalTasks
      in retain (map fst others @
           newestResourceIDs (map (\<lambda>p. (fst p, lt_UpdatedAt (snd p))) terminalTasks) 256) originalTasks)"

definition lastN :: "nat \<Rightarrow> 'a list \<Rightarrow> 'a list" where
  "lastN n xs = (if length xs > n then drop (length xs - n) xs else xs)"

definition compactSnapshotHistory :: "snapshot \<Rightarrow> go_time \<Rightarrow> snapshot" where
  "compactSnapshotHistory s now =
     (let operations = retain (keptOperationIDs (Operations s)) (Operations s) in
      s\<lparr>PlatformSessions := compactSessions (PlatformSessions s) now,
        ApprovalGrants := compactGrants (ApprovalGrants s),
        Operations := operations,
        OperationKeys := compactOperationKeys operations (OperationKeys s),
        LifecycleTasks := compactTasks (LifecycleTasks s),
        Audits := lastN 1024 (Audits s),
        Reports := lastN 512 (Reports s),
        SecurityEvents := lastN 2048 (SecurityEvents s)\<rparr>)"

section \<open>Commit\<close>

datatype commit_outcome = CommitApplied | CommitAppliedError store_error | CommitRejected store_error

record repo_env =
  env_now :: go_time
  env_commit :: "snapshot \<Rightarrow> snapshot \<Rightarrow> commit_outcome"

definition commitSnapshotLocked :: "repo_env \<Rightarrow> snapshot \<Rightarrow> snapshot \<Rightarrow> store_error option \<times> snapshot" where
  "commitSnapshotLocked env current value =
     (let compacted = compactSnapshotHistory value (env_now env) in
      case env_commit env current compacted of
        CommitApplied \<Rightarrow> (None, compacted)
      | CommitAppliedError e \<Rightarrow> (Some e, compacted)
      | CommitRejected e \<Rightarrow> (Some e, current))"

section \<open>Coordination records\<close>

definition recoveryLeaseValid :: "snapshot \<Rightarrow> RecoveryTask \<Rightarrow> go_time \<Rightarrow> bool" where
  "recoveryLeaseValid s task now =
     (case map_of (OperationLocks s) (rt_LeaseID task) of
        None \<Rightarrow> False
      | Some lock \<Rightarrow> ol_ClusterID lock = rt_ClusterID task \<and> ol_OperationID lock = rt_ResourceID task \<and>
                     ol_ExpiresAt lock > now)"

text \<open>The zero cluster of a missing map key has no recovery, so the check then passes.\<close>

definition recoveryWriterLeaseAllowed :: "snapshot \<Rightarrow> LeaseRecord \<Rightarrow> go_time \<Rightarrow> bool" where
  "recoveryWriterLeaseAllowed s record' now =
     (let lease = lr_Lease record' in
      case map_of (Clusters s) (l_ClusterID lease) of
        None \<Rightarrow> True
      | Some cluster \<Rightarrow>
          if \<not> DisasterRecoveryActive cluster \<or> \<not> l_Active lease \<or> \<not> l_ExpiresAt lease > now then True
          else case cl_Recovery cluster of
            None \<Rightarrow> True
          | Some recovery \<Rightarrow>
             (case map_of (RecoveryTasks s) (rs_TaskID recovery) of
                None \<Rightarrow> False
              | Some task \<Rightarrow>
                  rt_Stage task = RecoveryCommitted \<and> \<not> IsZero (rt_CommittedAt task) \<and>
                  rs_LastRecoveryStatus recovery = ''committed'' \<and> rt_PrimaryID task = l_OwnerID lease \<and>
                  l_OperationID lease = l_HAEndpointID lease \<and> recoveryLeaseValid s task now))"

definition CoordinationLeases_list :: "snapshot \<Rightarrow> LeaseRecord list" where
  "CoordinationLeases_list s = sorted_values (\<lambda>r. l_ResourceID (lr_Lease r)) (CoordinationLeases s)"

definition leaseFieldsValid :: "Lease \<Rightarrow> bool" where
  "leaseFieldsValid lease \<longleftrightarrow>
     ValidResourceID (l_ResourceID lease) \<and> ValidResourceID (l_ClusterID lease) \<and>
     ValidResourceID (l_HAEndpointID lease) \<and> ValidResourceID (l_OperationID lease) \<and>
     ValidResourceID (l_OwnerID lease) \<and> \<not> IsZero (l_ExpiresAt lease)"

definition PutCoordinationLease :: "repo_env \<Rightarrow> LeaseRecord \<Rightarrow> snapshot \<Rightarrow> store_error option \<times> snapshot" where
  "PutCoordinationLease env record' s =
     (let lease = lr_Lease record' in
      if \<not> leaseFieldsValid lease then (Some (ErrValidation ''coordination lease is invalid''), s)
      else if map_of (Clusters s) (l_ClusterID lease) = None
      then (Some (ErrNotFound ''coordination lease cluster does not exist''), s)
      else if \<not> recoveryWriterLeaseAllowed s record' (env_now env)
      then (Some (ErrConflict ''disaster recovery has not committed this writer''), s)
      else commitSnapshotLocked env s
        (s\<lparr>CoordinationLeases := AList.update (l_ResourceID lease) record' (CoordinationLeases s)\<rparr>))"

definition DeleteCoordinationLease :: "repo_env \<Rightarrow> rid \<Rightarrow> snapshot \<Rightarrow> store_error option \<times> snapshot" where
  "DeleteCoordinationLease env resourceID s =
     (if \<not> ValidResourceID resourceID then (Some (ErrValidation ''coordination lease ID is invalid''), s)
      else if map_of (CoordinationLeases s) resourceID = None then (None, s)
      else commitSnapshotLocked env s
        (s\<lparr>CoordinationLeases := AList.delete resourceID (CoordinationLeases s)\<rparr>))"

fun replace_loop :: "LeaseRecord list \<Rightarrow> (rid \<times> LeaseRecord) list \<Rightarrow> store_error + (rid \<times> LeaseRecord) list" where
  "replace_loop [] nextRecords = Inr nextRecords"
| "replace_loop (r # rs) nextRecords =
     (if \<not> leaseFieldsValid (lr_Lease r) \<or> IsZero (lr_CreatedAt r) \<or> IsZero (lr_UpdatedAt r)
      then Inl (ErrValidation ''coordination lease batch contains an invalid record'')
      else if map_of nextRecords (l_ResourceID (lr_Lease r)) \<noteq> None
      then Inl (ErrValidation ''coordination lease batch contains duplicate resource IDs'')
      else replace_loop rs (AList.update (l_ResourceID (lr_Lease r)) r nextRecords))"

fun replace_check :: "snapshot \<Rightarrow> go_time \<Rightarrow> LeaseRecord list \<Rightarrow> store_error option" where
  "replace_check s now [] = None"
| "replace_check s now (r # rs) =
     (if map_of (Clusters s) (l_ClusterID (lr_Lease r)) = None
      then Some (ErrNotFound ''coordination lease cluster does not exist'')
      else if \<not> recoveryWriterLeaseAllowed s r now
      then Some (ErrConflict ''writer lease batch conflicts with disaster recovery freeze'')
      else replace_check s now rs)"

definition ReplaceCoordinationLeases :: "repo_env \<Rightarrow> LeaseRecord list \<Rightarrow> snapshot \<Rightarrow> store_error option \<times> snapshot" where
  "ReplaceCoordinationLeases env records s =
     (case replace_loop records [] of
        Inl e \<Rightarrow> (Some e, s)
      | Inr nextRecords \<Rightarrow>
          (case replace_check s (env_now env) (map snd nextRecords) of
             Some e \<Rightarrow> (Some e, s)
           | None \<Rightarrow> commitSnapshotLocked env s (s\<lparr>CoordinationLeases := nextRecords\<rparr>)))"

definition CoordinationOperationLocks :: "snapshot \<Rightarrow> OperationLockRecord list" where
  "CoordinationOperationLocks s = sorted_values ol_ResourceID (OperationLocks s)"

definition PutCoordinationOperationLock :: "repo_env \<Rightarrow> OperationLockRecord \<Rightarrow> snapshot \<Rightarrow> store_error option \<times> snapshot" where
  "PutCoordinationOperationLock env r s =
     (if \<not> ValidResourceID (ol_ResourceID r) \<or> \<not> ValidResourceID (ol_ClusterID r) \<or>
         \<not> ValidResourceID (ol_OperationID r) \<or> IsZero (ol_ExpiresAt r) \<or> IsZero (ol_CreatedAt r) \<or>
         IsZero (ol_UpdatedAt r)
      then (Some (ErrValidation ''coordination operation lock is invalid''), s)
      else commitSnapshotLocked env s
        (s\<lparr>OperationLocks := AList.update (ol_ResourceID r) r (OperationLocks s)\<rparr>))"

definition DeleteCoordinationOperationLock :: "repo_env \<Rightarrow> rid \<Rightarrow> snapshot \<Rightarrow> store_error option \<times> snapshot" where
  "DeleteCoordinationOperationLock env resourceID s =
     (if \<not> ValidResourceID resourceID
      then (Some (ErrValidation ''coordination operation lock ID is invalid''), s)
      else if map_of (OperationLocks s) resourceID = None then (None, s)
      else commitSnapshotLocked env s
        (s\<lparr>OperationLocks := AList.delete resourceID (OperationLocks s)\<rparr>))"

section \<open>What a commit keeps\<close>

lemma compact_fields [simp]:
  "Clusters (compactSnapshotHistory s now) = Clusters s"
  "CoordinationLeases (compactSnapshotHistory s now) = CoordinationLeases s"
  "OperationLocks (compactSnapshotHistory s now) = OperationLocks s"
  "RecoveryTasks (compactSnapshotHistory s now) = RecoveryTasks s"
  "ConfigurationTasksActive (compactSnapshotHistory s now) = ConfigurationTasksActive s"
  by (simp_all add: compactSnapshotHistory_def Let_def)

lemma commit_cases:
  obtains (applied) e where "commitSnapshotLocked env s v = (e, compactSnapshotHistory v (env_now env))"
  | (rejected) e where "commitSnapshotLocked env s v = (Some e, s)"
  by (cases "env_commit env s (compactSnapshotHistory v (env_now env))")
    (auto simp: commitSnapshotLocked_def Let_def)

lemma commit_None:
  "commitSnapshotLocked env s v = (None, s') \<Longrightarrow> s' = compactSnapshotHistory v (env_now env)"
  by (auto simp: commitSnapshotLocked_def Let_def split: commit_outcome.splits)

text \<open>A field that the proposed snapshot leaves alone and compaction does not trim is kept.\<close>

lemma commit_keeps:
  assumes "commitSnapshotLocked env s v = (e, s')"
    "\<And>w now. f (compactSnapshotHistory w now) = f w" "f v = f s"
  shows "f s' = f s"
  using assms by (cases rule: commit_cases [of env s v]) auto

section \<open>Retention keeps the newest history\<close>

lemma newestResourceIDs_subset: "set (newestResourceIDs rs n) \<subseteq> fst ` set rs"
  using set_take_subset [of n "rev (sort_key (\<lambda>(i, t). (t, i)) rs)"]
  by (fastforce simp: newestResourceIDs_def)

lemma newestResourceIDs_length: "length (newestResourceIDs rs n) = min n (length rs)"
  by (simp add: newestResourceIDs_def)

lemma newestResourceIDs_distinct: "distinct (map fst rs) \<Longrightarrow> distinct (newestResourceIDs rs n)"
proof -
  assume d: "distinct (map fst rs)"
  let ?ys = "rev (sort_key (\<lambda>(i, t). (t, i)) rs)"
  have "mset (map fst ?ys) = mset (map fst rs)" by simp
  with d have "distinct (map fst ?ys)" by (metis mset_eq_imp_distinct_iff)
  then have "distinct (take n (map fst ?ys))" by (rule distinct_take)
  then show ?thesis by (simp add: newestResourceIDs_def take_map)
qed

lemma newestResourceIDs_newest:
  assumes d: "distinct (map fst rs)" and m: "(i, t) \<in> set rs" and out: "i \<notin> set (newestResourceIDs rs n)"
    and j: "(j, u) \<in> set rs" "j \<in> set (newestResourceIDs rs n)"
  shows "(t, i) \<le> (u, j)"
proof -
  define ys where "ys = rev (sort_key (\<lambda>(i, t). (t, i)) rs)"
  have sorted: "sorted_wrt (\<lambda>a b. (snd b, fst b) \<le> (snd a, fst a)) ys"
    using sorted_sort_key [of "\<lambda>(i, t). (t, i)" rs]
    by (simp add: ys_def sorted_wrt_rev sorted_map case_prod_beta)
  have split: "ys = take n ys @ drop n ys" by simp
  have mem: "set ys = set rs" by (simp add: ys_def)
  have newest: "newestResourceIDs rs n = map fst (take n ys)" by (simp add: newestResourceIDs_def ys_def)
  have "(i, t) \<notin> set (take n ys)" using out newest by force
  with m mem split have it: "(i, t) \<in> set (drop n ys)" by (metis Un_iff set_append)
  obtain u' where u': "(j, u') \<in> set (take n ys)" using j(2) newest by auto
  then have "(j, u') \<in> set rs" using mem by (metis in_set_takeD)
  with d j(1) have "u' = u" by (metis eq_key_imp_eq_value)
  moreover from sorted have "sorted_wrt (\<lambda>a b. (snd b, fst b) \<le> (snd a, fst a)) (take n ys @ drop n ys)"
    by simp
  then have "\<forall>a\<in>set (take n ys). \<forall>b\<in>set (drop n ys). (snd b, fst b) \<le> (snd a, fst a)"
    unfolding sorted_wrt_append by (elim conjE)
  with it u' have "(snd (i, t), fst (i, t)) \<le> (snd (j, u'), fst (j, u'))" by blast
  ultimately show ?thesis by simp
qed

lemma set_retain [simp]: "set (retain ids m) = {p \<in> set m. fst p \<in> set ids}"
  by (auto simp: retain_def)

lemma keyed_by_retain [wf_intros]: "keyed_by kf m \<Longrightarrow> keyed_by kf (retain ids m)"
  by (auto simp: keyed_by_def retain_def distinct_map_filter)

lemma length_retain_filter:
  assumes "distinct (map fst m)" "\<And>p. p \<in> set m \<Longrightarrow> P (snd p) \<Longrightarrow> fst p \<in> set ids \<longleftrightarrow> fst p \<in> set ks"
    "length ks \<le> n"
  shows "length (filter (\<lambda>p. P (snd p)) (retain ids m)) \<le> n"
proof -
  let ?xs = "filter (\<lambda>p. P (snd p)) (retain ids m)"
  have "distinct (map fst ?xs)"
    using assms(1) by (simp add: retain_def distinct_map_filter)
  moreover have "set (map fst ?xs) \<subseteq> set ks" using assms(2) by auto
  ultimately have "length (map fst ?xs) \<le> length ks"
    by (metis List.finite_set card_length card_mono distinct_card le_trans)
  with assms(3) show ?thesis by simp
qed

lemma compact_Operations:
  "Operations (compactSnapshotHistory s now) = retain (keptOperationIDs (Operations s)) (Operations s)"
  "OperationKeys (compactSnapshotHistory s now) =
     compactOperationKeys (retain (keptOperationIDs (Operations s)) (Operations s)) (OperationKeys s)"
  by (simp_all add: compactSnapshotHistory_def Let_def)

abbreviation ops_stamps :: "(OperationRecord \<Rightarrow> bool) \<Rightarrow> (rid \<times> OperationRecord) list \<Rightarrow> (rid \<times> go_time) list" where
  "ops_stamps P ops \<equiv> map (\<lambda>p. (fst p, or_UpdatedAt (snd p))) (filter (\<lambda>p. P (snd p)) ops)"

abbreviation op_planned :: "OperationRecord \<Rightarrow> bool" where
  "op_planned r \<equiv> or_Status r = OperationPlanned"

abbreviation op_finished :: "OperationRecord \<Rightarrow> bool" where
  "op_finished r \<equiv> or_Status r \<noteq> OperationPlanned \<and> terminalOperationStatus (or_Status r)"

lemma terminal_not_planned: "op_finished r \<longleftrightarrow> terminalOperationStatus (or_Status r)"
  by (cases "or_Status r") auto

lemma distinct_ops_stamps: "distinct (map fst ops) \<Longrightarrow> distinct (map fst (ops_stamps P ops))"
  by (simp add: comp_def distinct_map_filter)

lemma mem_ops_stamps: "p \<in> set ops \<Longrightarrow> P (snd p) \<Longrightarrow> (fst p, or_UpdatedAt (snd p)) \<in> set (ops_stamps P ops)"
  by force

lemma newest_class:
  assumes "distinct (map fst ops)" "p \<in> set ops" "fst p \<in> set (newestResourceIDs (ops_stamps P ops) n)"
  shows "P (snd p)"
proof -
  from assms(3) have "fst p \<in> fst ` set (ops_stamps P ops)" using newestResourceIDs_subset by blast
  then obtain q where q: "q \<in> set ops" "P (snd q)" "fst q = fst p" by auto
  with assms(1,2) have "q = p" by (metis eq_key_imp_eq_value prod.collapse)
  with q show ?thesis by simp
qed

lemma others_class:
  assumes "distinct (map fst ops)" "p \<in> set ops"
  shows "fst p \<in> fst ` set (filter (\<lambda>p. P (snd p)) ops) \<longleftrightarrow> P (snd p)"
proof
  assume "fst p \<in> fst ` set (filter (\<lambda>p. P (snd p)) ops)"
  then obtain q where q: "q \<in> set ops" "P (snd q)" "fst q = fst p" by auto
  with assms have "q = p" by (metis eq_key_imp_eq_value prod.collapse)
  with q show "P (snd p)" by simp
qed (use assms in auto)

lemma kept_iff:
  assumes d: "distinct (map fst ops)" and m: "p \<in> set ops"
  shows "fst p \<in> set (keptOperationIDs ops) \<longleftrightarrow>
      (\<not> op_planned (snd p) \<and> \<not> terminalOperationStatus (or_Status (snd p))) \<or>
      fst p \<in> set (newestResourceIDs (ops_stamps op_planned ops) 128) \<or>
      fst p \<in> set (newestResourceIDs (ops_stamps op_finished ops) 512)"
  unfolding keptOperationIDs_def Let_def set_append set_map
    others_class [OF d m, of "\<lambda>r. \<not> op_planned r \<and> \<not> terminalOperationStatus (or_Status r)"] Un_iff
  by (rule refl)

lemma kept_planned:
  assumes "distinct (map fst ops)" "p \<in> set ops" "op_planned (snd p)"
  shows "fst p \<in> set (keptOperationIDs ops) \<longleftrightarrow> fst p \<in> set (newestResourceIDs (ops_stamps op_planned ops) 128)"
  using kept_iff [OF assms(1,2)] newest_class [OF assms(1,2), of op_finished 512] assms(3) by blast

lemma kept_finished:
  assumes "distinct (map fst ops)" "p \<in> set ops" "op_finished (snd p)"
  shows "fst p \<in> set (keptOperationIDs ops) \<longleftrightarrow> fst p \<in> set (newestResourceIDs (ops_stamps op_finished ops) 512)"
  using kept_iff [OF assms(1,2)] newest_class [OF assms(1,2), of op_planned 128] assms(3) by blast

lemmas kept_terminal = kept_finished [unfolded terminal_not_planned]

lemma dropped_older:
  assumes "distinct (map fst ops)" "p \<in> set ops" "q \<in> set ops" "P (snd p)" "P (snd q)"
    "fst p \<notin> set (newestResourceIDs (ops_stamps P ops) n)" "fst q \<in> set (newestResourceIDs (ops_stamps P ops) n)"
  shows "or_UpdatedAt (snd p) \<le> or_UpdatedAt (snd q)"
proof -
  have "(or_UpdatedAt (snd p), fst p) \<le> (or_UpdatedAt (snd q), fst q)"
    by (rule newestResourceIDs_newest [where rs = "ops_stamps P ops" and n = n])
      (use assms distinct_ops_stamps mem_ops_stamps [of _ ops P] in auto)
  then show ?thesis by (auto simp: less_eq_prod_def)
qed

text \<open>The key index after compaction.\<close>

lemma indexOperationKey_keys:
  "fst ` set (indexOperationKey keys p) =
     (let key = TrimSpace (or_IdempotencyKey (snd p)) in
      if key \<noteq> [] then insert key (fst ` set keys) else fst ` set keys)"
  by (simp add: indexOperationKey_def Let_def AList.dom_update)

lemma indexOperationKey_wf:
  "distinct (map fst keys) \<Longrightarrow> distinct (map fst (indexOperationKey keys p))"
  "distinct (map fst keys) \<Longrightarrow> snd ` set keys \<subseteq> S \<Longrightarrow> fst p \<in> S \<Longrightarrow>
     snd ` set (indexOperationKey keys p) \<subseteq> S"
  by (auto simp: indexOperationKey_def Let_def AList.distinct_update set_update_distinct)

lemma index_keys_range:
  "snd ` set keys \<subseteq> S \<Longrightarrow> fst ` set ops \<subseteq> S \<Longrightarrow> distinct (map fst keys) \<Longrightarrow>
   snd ` set (foldl indexOperationKey keys ops) \<subseteq> S \<and> distinct (map fst (foldl indexOperationKey keys ops))"
  by (induction ops arbitrary: keys) (simp_all add: indexOperationKey_wf)

lemma index_keys_keep: "k \<in> fst ` set keys \<Longrightarrow> k \<in> fst ` set (foldl indexOperationKey keys ops)"
  by (induction ops arbitrary: keys) (simp_all add: indexOperationKey_keys Let_def)

lemma index_keys_mem:
  "p \<in> set ops \<Longrightarrow> TrimSpace (or_IdempotencyKey (snd p)) \<noteq> [] \<Longrightarrow>
   TrimSpace (or_IdempotencyKey (snd p)) \<in> fst ` set (foldl indexOperationKey keys ops)"
proof (induction ops arbitrary: keys)
  case (Cons q ops)
  show ?case
  proof (cases "p = q")
    case True
    then show ?thesis using Cons.prems(2) by (simp add: index_keys_keep indexOperationKey_keys Let_def)
  next
    case False
    with Cons show ?thesis by simp
  qed
qed simp

lemma compactOperationKeys_wf:
  assumes "distinct (map fst keys)"
  shows "snd ` set (compactOperationKeys ops keys) \<subseteq> fst ` set ops"
    and "distinct (map fst (compactOperationKeys ops keys))"
  using index_keys_range [of "filter (\<lambda>p. snd p \<in> fst ` set ops) keys" "fst ` set ops" ops] assms
  by (auto simp: compactOperationKeys_def distinct_map_filter)

text \<open>
  Retention never forgets work in progress. Compaction before a commit keeps every
  operation that is neither planned nor finished and invents none; of the planned and of
  the finished ones it keeps at most 128 and 512, and what it drops is never newer than
  what it keeps; the idempotency index afterwards refers only to kept operations and still
  finds every kept operation that has a key.
\<close>

theorem compactSnapshotHistory_operations:
  assumes "keyed_by or_ResourceID (Operations s)" "distinct (map fst (OperationKeys s))"
    and "ops = Operations (compactSnapshotHistory s now)" "keys = OperationKeys (compactSnapshotHistory s now)"
  shows "set ops \<subseteq> set (Operations s) \<and>
    (\<forall>p \<in> set (Operations s). or_Status (snd p) \<noteq> OperationPlanned \<and>
           \<not> terminalOperationStatus (or_Status (snd p)) \<longrightarrow> p \<in> set ops) \<and>
    length (filter (\<lambda>p. or_Status (snd p) = OperationPlanned) ops) \<le> 128 \<and>
    length (filter (\<lambda>p. terminalOperationStatus (or_Status (snd p))) ops) \<le> 512 \<and>
    (\<forall>p \<in> set (Operations s) - set ops. \<forall>q \<in> set ops.
           (or_Status (snd p) = OperationPlanned \<and> or_Status (snd q) = OperationPlanned \<or>
            terminalOperationStatus (or_Status (snd p)) \<and> terminalOperationStatus (or_Status (snd q))) \<longrightarrow>
           or_UpdatedAt (snd p) \<le> or_UpdatedAt (snd q)) \<and>
    snd ` set keys \<subseteq> fst ` set ops \<and>
    (\<forall>p \<in> set ops. TrimSpace (or_IdempotencyKey (snd p)) \<noteq> [] \<longrightarrow>
           map_of keys (TrimSpace (or_IdempotencyKey (snd p))) \<noteq> None)"
proof (intro conjI)
  have d: "distinct (map fst (Operations s))" using assms(1) by (simp add: keyed_by_def)
  note ops = assms(3) [unfolded compact_Operations]
  note keys = assms(4) [unfolded compact_Operations, folded ops]
  show "set ops \<subseteq> set (Operations s)" by (auto simp: ops)
  show "\<forall>p \<in> set (Operations s). or_Status (snd p) \<noteq> OperationPlanned \<and>
      \<not> terminalOperationStatus (or_Status (snd p)) \<longrightarrow> p \<in> set ops"
    using kept_iff [OF d] by (auto simp: ops)
  show "length (filter (\<lambda>p. or_Status (snd p) = OperationPlanned) ops) \<le> 128"
    unfolding ops
    by (rule length_retain_filter [OF d kept_planned [OF d]]) (simp_all add: newestResourceIDs_length)
  show "length (filter (\<lambda>p. terminalOperationStatus (or_Status (snd p))) ops) \<le> 512"
    unfolding ops
    by (rule length_retain_filter [OF d kept_terminal [OF d]]) (simp_all add: newestResourceIDs_length)
  show "\<forall>p \<in> set (Operations s) - set ops. \<forall>q \<in> set ops.
      (or_Status (snd p) = OperationPlanned \<and> or_Status (snd q) = OperationPlanned \<or>
       terminalOperationStatus (or_Status (snd p)) \<and> terminalOperationStatus (or_Status (snd q))) \<longrightarrow>
      or_UpdatedAt (snd p) \<le> or_UpdatedAt (snd q)"
    unfolding ops
    using kept_planned [OF d] kept_terminal [OF d] dropped_older [OF d, of _ _ op_planned 128]
      dropped_older [OF d, of _ _ "\<lambda>r. terminalOperationStatus (or_Status r)" 512]
    by auto
  show "snd ` set keys \<subseteq> fst ` set ops"
    unfolding keys by (rule compactOperationKeys_wf [OF assms(2)])
  show "\<forall>p \<in> set ops. TrimSpace (or_IdempotencyKey (snd p)) \<noteq> [] \<longrightarrow>
      map_of keys (TrimSpace (or_IdempotencyKey (snd p))) \<noteq> None"
    by (auto simp: keys map_of_eq_None_iff compactOperationKeys_def index_keys_mem)
qed

abbreviation sampleOps :: snapshot where
  "sampleOps \<equiv> emptySnapshot\<lparr>Operations :=
     [(''a'', zeroOperationRecord\<lparr>or_ResourceID := ''a'', or_Status := OperationRunning, or_IdempotencyKey := ''k''\<rparr>),
      (''b'', zeroOperationRecord\<lparr>or_ResourceID := ''b'', or_Status := OperationFailed\<rparr>)]\<rparr>"

theorem compactSnapshotHistory_operations_witness:
  "(''a'', zeroOperationRecord\<lparr>or_ResourceID := ''a'', or_Status := OperationRunning, or_IdempotencyKey := ''k''\<rparr>)
     \<in> set (Operations (compactSnapshotHistory sampleOps 5)) \<and>
   map_of (OperationKeys (compactSnapshotHistory sampleOps 5)) ''k'' \<noteq> None"
proof -
  have wf: "keyed_by or_ResourceID (Operations sampleOps)" "distinct (map fst (OperationKeys sampleOps))"
    by (simp_all add: keyed_by_def emptySnapshot_def)
  let ?p = "(''a'', zeroOperationRecord\<lparr>or_ResourceID := ''a'', or_Status := OperationRunning, or_IdempotencyKey := ''k''\<rparr>)"
  note post = compactSnapshotHistory_operations [OF wf refl refl, of 5]
  have "?p \<in> set (Operations sampleOps)" by (simp add: emptySnapshot_def)
  with post have kept: "?p \<in> set (Operations (compactSnapshotHistory sampleOps 5))" by auto
  moreover have "TrimSpace (or_IdempotencyKey (snd ?p)) = ''k''" by (simp add: go_defs)
  ultimately show ?thesis using post by fastforce
qed

end
