(* ===== verification/Disaster_Selection.thy ===== *)
theory Disaster_Selection
  imports Gtid Repository
begin

text \<open>
  Which member of a lost cluster has the authoritative history (\<^verbatim>\<open>internal/disaster/selection.go\<close> and
  \<^verbatim>\<open>wal.go\<close>). Every member is fenced and reports what its disk holds: executed and purged transactions for
  MySQL, the timeline history and log positions for PostgreSQL. A primary is selected only when
  its history provably contains every other member's; ties go to the smallest identifier.

  The digest of a report (\<^verbatim>\<open>Digest\<close>: SHA-256 over its JSON encoding) is the argument \<open>digest\<close>. The log reader of
  a fenced agent is a Go interface: \<open>we_read\<close> gives its answers by the number of the call.
\<close>

unbundle bit_operations_syntax

section \<open>Log positions\<close>

definition hex_value :: "char \<Rightarrow> nat" where
  "hex_value c = (if is_digit c then of_char c - 48 else if (97 :: nat) \<le> of_char c then of_char c - 87 else of_char c - 55)"

text \<open>\<^verbatim>\<open>strconv.ParseUint(s, 16, 32)\<close>\<close>

definition ParseHex32 :: "string \<Rightarrow> uint64 option" where
  "ParseHex32 s =
     (let n = foldl (\<lambda>n c. 16 * n + hex_value c) 0 s in
      if s = [] \<or> \<not> list_all is_hex s then None else if n < 2 ^ 32 then Some (of_nat n) else None)"

datatype selection_error =
  InvalidWALPosition | MembersIncomplete | MembersMixed | EvidenceUnusable | NativeIdentityChanged | SystemIdentifierChanged | NativeIdentityUnknown
  | EngineUnqualified | NoAuthoritativeMember | InvalidExecuted | InvalidPurged | InvalidPeer | InconsistentGTID
  | ConflictingHistory | NoCommonTimeline | ControlIncomplete | HistoryInvalid | AncestryIncomplete | DifferentSystems | StaleProof

definition LSN :: "string \<Rightarrow> selection_error + uint64" where
  "LSN val =
     (case Split (CHR ''/'') val of
        [hiPart, loPart] \<Rightarrow>
          if length hiPart = 0 \<or> length loPart = 0 \<or> length hiPart > 8 \<or> length loPart > 8 then Inl InvalidWALPosition
          else (case ParseHex32 hiPart of
              None \<Rightarrow> Inl InvalidWALPosition
            | Some hi \<Rightarrow> (case ParseHex32 loPart of
                None \<Rightarrow> Inl InvalidWALPosition
              | Some lo \<Rightarrow> Inr (push_bit 32 hi OR lo)))
      | _ \<Rightarrow> Inl InvalidWALPosition)"

text \<open>The position when the error is ignored, as in \<^verbatim>\<open>x, _ := LSN(...)\<close>.\<close>

definition lsn0 :: "string \<Rightarrow> uint64" where
  "lsn0 val = (case LSN val of Inl _ \<Rightarrow> 0 | Inr position \<Rightarrow> position)"

section \<open>Evidence\<close>

definition EvidenceFingerprint :: "(RecoveryEvidence \<Rightarrow> string) \<Rightarrow> RecoveryEvidence \<Rightarrow> string" where
  "EvidenceFingerprint digest e = digest (e\<lparr>rv_Fingerprint := [], rv_ObservedAt := 0\<rparr>)"

definition nativeKey :: "DatabaseInstance \<Rightarrow> string" where
  "nativeKey member = (if di_Engine member = EngineMySQL then ''server_uuid'' else ''resource_id'')"

fun member_loop :: "RecoveryEvidence \<Rightarrow> DatabaseInstance list \<Rightarrow> bool \<Rightarrow> selection_error + bool" where
  "member_loop e [] found = Inr found"
| "member_loop e (member # members) found =
     (if di_ResourceID member \<noteq> rv_InstanceID e then member_loop e members found
      else if rv_Engine e \<noteq> di_Engine member \<or> rv_NativeID e = [] \<or> \<not> EqualFold (rv_NativeID e) (mget (di_EngineIdentity member) (nativeKey member))
      then Inl NativeIdentityChanged
      else if rv_Engine e = EnginePostgreSQL \<and>
              (rv_SystemIdentifier e = [] \<or> rv_SystemIdentifier e \<noteq> mget (di_EngineIdentity member) ''system_identifier'')
      then Inl SystemIdentifierChanged
      else member_loop e members True)"

fun evidence_loop :: "(RecoveryEvidence \<Rightarrow> string) \<Rightarrow> DatabaseInstance list \<Rightarrow> RecoveryEvidence list \<Rightarrow> rid list \<Rightarrow> string list \<Rightarrow> selection_error option" where
  "evidence_loop digest members [] seen native = None"
| "evidence_loop digest members (e # es) seen native =
     (if rv_InstanceID e \<in> set seen \<or> \<not> rv_Fenced e \<or> \<not> rv_Complete e \<or> rv_PreparedTransactions e \<or> IsZero (rv_ObservedAt e) \<or>
         rv_Fingerprint e \<noteq> EvidenceFingerprint digest e
      then Some EvidenceUnusable
      else case member_loop e members False of
          Inl err \<Rightarrow> Some err
        | Inr found \<Rightarrow>
            if \<not> found \<or> ToLower (rv_NativeID e) \<in> set native then Some NativeIdentityUnknown
            else evidence_loop digest members es (rv_InstanceID e # seen) (ToLower (rv_NativeID e) # native))"

definition ValidateEvidence :: "(RecoveryEvidence \<Rightarrow> string) \<Rightarrow> DatabaseInstance list \<Rightarrow> RecoveryEvidence list \<Rightarrow> selection_error option" where
  "ValidateEvidence digest members evidence =
     (if length members < 2 \<or> length evidence \<noteq> length members then Some MembersIncomplete
      else if list_ex (\<lambda>member. di_Engine member \<noteq> di_Engine (hd members) \<or> di_ClusterID member \<noteq> di_ClusterID (hd members) \<or>
                \<not> ValidResourceID (di_ResourceID member)) members
      then Some MembersMixed
      else evidence_loop digest members evidence [] [])"

section \<open>MySQL histories\<close>

definition mysqlContains :: "RecoveryEvidence \<Rightarrow> RecoveryEvidence \<Rightarrow> selection_error + bool" where
  "mysqlContains candidate other =
     (case ParseGTIDSet (rv_GTIDExecuted candidate) of
        Inl _ \<Rightarrow> Inl InvalidExecuted
      | Inr c \<Rightarrow> (case ParseGTIDSet (rv_GTIDPurged candidate) of
          Inl _ \<Rightarrow> Inl InvalidPurged
        | Inr p \<Rightarrow> (case ParseGTIDSet (rv_GTIDExecuted other) of
            Inl _ \<Rightarrow> Inl InvalidPeer
          | Inr h \<Rightarrow> (case AssessGTIDRecovery c p h of
              Inl _ \<Rightarrow> Inl InconsistentGTID
            | Inr assessment \<Rightarrow> Inr (ra_ErrantTransactions assessment = 0)))))"

section \<open>PostgreSQL timelines\<close>

fun path_ok :: "uint32 \<Rightarrow> uint64 \<Rightarrow> RecoveryTimeline list \<Rightarrow> bool" where
  "path_ok lastTimeline lastLSN [] = True"
| "path_ok lastTimeline lastLSN (entry # path) =
     (case LSN (ti_SwitchLSN entry) of
        Inl _ \<Rightarrow> False
      | Inr position \<Rightarrow>
          if ti_Timeline entry \<le> lastTimeline \<or> position = 0 \<or> position < lastLSN then False
          else path_ok (ti_Timeline entry) position path)"

definition timelinePath :: "RecoveryEvidence \<Rightarrow> selection_error + RecoveryTimeline list" where
  "timelinePath e =
     (if rv_Timeline e = 0 \<or> rv_SystemIdentifier e = [] then Inl ControlIncomplete
      else
        let path = rv_History e @ [\<lparr>ti_Timeline = rv_Timeline e, ti_SwitchLSN = rv_Position e\<rparr>] in
        if \<not> path_ok 0 0 path then Inl HistoryInvalid
        else if ti_Timeline (hd path) \<noteq> 1 then Inl AncestryIncomplete
        else Inr path)"

definition sameHistory :: "RecoveryTimeline list \<Rightarrow> RecoveryTimeline list \<Rightarrow> bool" where
  "sameHistory a b \<longleftrightarrow> length a = length b \<and> list_all2 (\<lambda>x y. ti_Timeline x = ti_Timeline y \<and> lsn0 (ti_SwitchLSN x) = lsn0 (ti_SwitchLSN y)) a b"

fun common_loop :: "RecoveryTimeline list \<Rightarrow> RecoveryTimeline list \<Rightarrow> uint32 \<times> uint64 \<Rightarrow> uint32 \<times> uint64" where
  "common_loop (a # as) (b # bs) acc =
     (if ti_Timeline a \<noteq> ti_Timeline b then acc
      else
        let aend = lsn0 (ti_SwitchLSN a); bend = lsn0 (ti_SwitchLSN b); acc = (ti_Timeline a, min aend bend) in
        if aend \<noteq> bend \<or> as = [] \<or> bs = [] then acc else common_loop as bs acc)"
| "common_loop _ _ acc = acc"

definition CommonTimeline :: "RecoveryEvidence \<Rightarrow> RecoveryEvidence \<Rightarrow> selection_error + uint32 \<times> uint64" where
  "CommonTimeline a b =
     bindR (timelinePath a) (\<lambda>ap. bindR (timelinePath b) (\<lambda>bp.
       if rv_Timeline a = rv_Timeline b \<and> \<not> sameHistory (rv_History a) (rv_History b) then Inl ConflictingHistory
       else
         let (timeline, commonEnd) = common_loop ap bp (0, 0) in
         if timeline = 0 \<or> commonEnd = 0 then Inl NoCommonTimeline else Inr (timeline, commonEnd)))"

fun proof_loop :: "RecoveryEvidence \<Rightarrow> RecoveryEvidence \<Rightarrow> uint64 \<Rightarrow> uint64 \<Rightarrow> RecoveryProof list \<Rightarrow> selection_error + bool" where
  "proof_loop candidate other oend commonEnd [] = Inr False"
| "proof_loop candidate other oend commonEnd (p # proofs) =
     (if pf_CandidateID p \<noteq> rv_InstanceID candidate \<or> pf_OtherID p \<noteq> rv_InstanceID other then proof_loop candidate other oend commonEnd proofs
      else if pf_CandidateFingerprint p \<noteq> rv_Fingerprint candidate \<or> pf_OtherFingerprint p \<noteq> rv_Fingerprint other then Inl StaleProof
      else if \<not> pf_CommonWALVerified p then Inr False
      else if rv_Timeline other = rv_Timeline candidate \<or> rv_Timeline other < rv_Timeline candidate \<and> oend \<le> commonEnd then Inr True
      else Inr (pf_DiscardedWALVerified p \<and> \<not> pf_DiscardedTransactions p))"

definition PostgreSQLContains :: "RecoveryEvidence \<Rightarrow> RecoveryEvidence \<Rightarrow> RecoveryProof list \<Rightarrow> selection_error + bool" where
  "PostgreSQLContains candidate other proofs =
     (if rv_SystemIdentifier candidate \<noteq> rv_SystemIdentifier other then Inl DifferentSystems
      else bindR (CommonTimeline candidate other) (\<lambda>(timeline, commonEnd).
        bindR (LSN (rv_Position candidate)) (\<lambda>cend.
        bindR (LSN (rv_Position other)) (\<lambda>oend.
          if rv_Timeline candidate = rv_Timeline other \<and> cend < oend then Inr False
          else proof_loop candidate other oend commonEnd proofs))))"

section \<open>Selection\<close>

fun contains_loop :: "RecoveryEvidence \<Rightarrow> RecoveryProof list \<Rightarrow> RecoveryEvidence list \<Rightarrow> selection_error + bool" where
  "contains_loop candidate proofs [] = Inr True"
| "contains_loop candidate proofs (other # others) =
     (if rv_InstanceID candidate = rv_InstanceID other then contains_loop candidate proofs others
      else bindR (if rv_Engine candidate = EngineMySQL then mysqlContains candidate other
                  else if rv_Engine candidate = EnginePostgreSQL then PostgreSQLContains candidate other proofs
                  else Inl EngineUnqualified)
             (\<lambda>contains. if \<not> contains then Inr False else contains_loop candidate proofs others))"

fun candidates_loop :: "RecoveryProof list \<Rightarrow> RecoveryEvidence list \<Rightarrow> RecoveryEvidence list \<Rightarrow> selection_error + rid list" where
  "candidates_loop proofs evidence [] = Inr []"
| "candidates_loop proofs evidence (candidate # rest) =
     bindR (contains_loop candidate proofs evidence) (\<lambda>containsAll.
       bindR (candidates_loop proofs evidence rest) (\<lambda>candidates. Inr (if containsAll then rv_InstanceID candidate # candidates else candidates)))"

definition Select :: "(RecoveryEvidence \<Rightarrow> string) \<Rightarrow> DatabaseInstance list \<Rightarrow> RecoveryEvidence list \<Rightarrow> RecoveryProof list \<Rightarrow> selection_error + rid" where
  "Select digest members evidence proofs =
     (case ValidateEvidence digest members evidence of
        Some err \<Rightarrow> Inl err
      | None \<Rightarrow> bindR (candidates_loop proofs evidence evidence) (\<lambda>candidates.
          if candidates = [] then Inl NoAuthoritativeMember else Inr (hd (sort candidates))))"

section \<open>Comparing write-ahead logs\<close>

record RecoveryWALRequest =
  wr_Fingerprint :: string
  wr_Timeline :: uint32
  wr_Start :: string
  wr_End :: string

record RecoveryWALResult =
  ws_Digest :: string
  ws_Transactions :: bool

record wal_env =
  we_done :: "nat \<Rightarrow> string option"
  we_read :: "nat \<Rightarrow> RecoveryEvidence \<Rightarrow> RecoveryWALRequest \<Rightarrow> string + RecoveryWALResult"

datatype wal_error =
  WalCancelled string | WalSelection selection_error | WalNoRange | WalCandidate string | WalPeer string | WalConflict | WalIncomplete | WalBranch string

definition hex_upper_digit :: "nat \<Rightarrow> char" where
  "hex_upper_digit n = (if n < 10 then char_of (48 + n) else char_of (55 + n))"

text \<open>\<^verbatim>\<open>fmt.Sprintf("%X", n)\<close>\<close>

function hex_upper :: "nat \<Rightarrow> string" where
  "hex_upper n = (if n < 16 then [hex_upper_digit n] else hex_upper (n div 16) @ [hex_upper_digit (n mod 16)])"
  by pat_completeness auto
termination by (relation "measure id") auto

declare hex_upper.simps [simp del]

definition formatLSN :: "uint64 \<Rightarrow> string" where
  "formatLSN val = hex_upper (unat (drop_bit 32 val)) @ ''/'' @ hex_upper (unat (val AND 0xffffffff))"

definition walRequest :: "RecoveryEvidence \<Rightarrow> uint32 \<Rightarrow> uint64 \<Rightarrow> uint64 \<Rightarrow> RecoveryWALRequest" where
  "walRequest e timeline start finish = \<lparr>wr_Fingerprint = rv_Fingerprint e, wr_Timeline = timeline, wr_Start = formatLSN start, wr_End = formatLSN finish\<rparr>"

fun shared_loop :: "wal_env \<Rightarrow> RecoveryEvidence \<Rightarrow> RecoveryEvidence \<Rightarrow> uint32 \<Rightarrow> uint64 \<Rightarrow> RecoveryTimeline list \<Rightarrow> uint64 \<Rightarrow> nat \<Rightarrow> (wal_error + uint64) \<times> nat" where
  "shared_loop env candidate other timeline upper [] position n = (Inr position, n)"
| "shared_loop env candidate other timeline upper (branch # path) position n =
     (let branchEnd = min (lsn0 (ti_SwitchLSN branch)) upper in
      if branchEnd \<le> position then shared_loop env candidate other timeline upper path position n
      else case we_read env n candidate (walRequest candidate (ti_Timeline branch) position branchEnd) of
          Inl e \<Rightarrow> (Inl (WalCandidate e), n + 1)
        | Inr left \<Rightarrow>
           (case we_read env (n + 1) other (walRequest other (ti_Timeline branch) position branchEnd) of
              Inl e \<Rightarrow> (Inl (WalPeer e), n + 2)
            | Inr right \<Rightarrow>
                if \<not> HasPrefix (ws_Digest left) ''sha256:'' \<or> length (ws_Digest left) \<noteq> 71 \<or> ws_Digest left \<noteq> ws_Digest right then (Inl WalConflict, n + 2)
                else if ti_Timeline branch = timeline then (Inr branchEnd, n + 2)
                else shared_loop env candidate other timeline upper path branchEnd (n + 2)))"

fun discard_loop :: "wal_env \<Rightarrow> RecoveryEvidence \<Rightarrow> RecoveryTimeline list \<Rightarrow> uint64 \<Rightarrow> bool \<Rightarrow> nat \<Rightarrow> (wal_error + uint64 \<times> bool) \<times> nat" where
  "discard_loop env other [] position transactions n = (Inr (position, transactions), n)"
| "discard_loop env other (branch # path) position transactions n =
     (let branchEnd = lsn0 (ti_SwitchLSN branch) in
      if branchEnd \<le> position then discard_loop env other path position transactions n
      else case we_read env n other (walRequest other (ti_Timeline branch) position branchEnd) of
          Inl e \<Rightarrow> (Inl (WalBranch e), n + 1)
        | Inr result \<Rightarrow> discard_loop env other path branchEnd (transactions \<or> ws_Transactions result) (n + 1))"

definition sharedProof :: "RecoveryEvidence \<Rightarrow> RecoveryEvidence \<Rightarrow> RecoveryProof" where
  "sharedProof candidate other = \<lparr>pf_CandidateID = rv_InstanceID candidate, pf_OtherID = rv_InstanceID other, pf_CandidateFingerprint = rv_Fingerprint candidate,
     pf_OtherFingerprint = rv_Fingerprint other, pf_CommonWALVerified = True, pf_DiscardedWALVerified = False, pf_DiscardedTransactions = False\<rparr>"

definition discardProof :: "wal_env \<Rightarrow> RecoveryEvidence \<Rightarrow> RecoveryEvidence \<Rightarrow> uint64 \<Rightarrow> nat \<Rightarrow> (wal_error + RecoveryProof) \<times> nat" where
  "discardProof env candidate other upper n =
     (case timelinePath other of
        Inl e \<Rightarrow> (Inl (WalSelection e), n)
      | Inr path \<Rightarrow>
         (case discard_loop env other path upper False n of
            (Inl e, n1) \<Rightarrow> (Inl e, n1)
          | (Inr (position, transactions), n1) \<Rightarrow>
              (Inr ((sharedProof candidate other)\<lparr>pf_DiscardedTransactions := transactions,
                 pf_DiscardedWALVerified := (position = lsn0 (rv_Position other))\<rparr>), n1)))"

definition comparePair :: "wal_env \<Rightarrow> RecoveryEvidence \<Rightarrow> RecoveryEvidence \<Rightarrow> nat \<Rightarrow> (wal_error + RecoveryProof) \<times> nat" where
  "comparePair env candidate other n =
     (case bindR (CommonTimeline candidate other) (\<lambda>(timeline, upper).
             bindR (LSN (rv_Redo candidate)) (\<lambda>cstart. bindR (LSN (rv_Redo other)) (\<lambda>ostart. Inr (timeline, upper, min cstart ostart)))) of
        Inl e \<Rightarrow> (Inl (WalSelection e), n)
      | Inr (timeline, upper, start) \<Rightarrow>
          if start \<ge> upper then (Inl WalNoRange, n)
          else case timelinePath candidate of
              Inl e \<Rightarrow> (Inl (WalSelection e), n)
            | Inr path \<Rightarrow>
               (case shared_loop env candidate other timeline upper path start n of
                  (Inl e, n1) \<Rightarrow> (Inl e, n1)
                | (Inr position, n1) \<Rightarrow>
                    if position \<noteq> upper then (Inl WalIncomplete, n1)
                    else if lsn0 (rv_Position other) > upper \<and> rv_Timeline other \<noteq> rv_Timeline candidate
                    then discardProof env candidate other upper n1
                    else (Inr (sharedProof candidate other), n1)))"

fun compare_others :: "wal_env \<Rightarrow> RecoveryEvidence \<Rightarrow> RecoveryEvidence list \<Rightarrow> RecoveryProof list \<Rightarrow> nat \<Rightarrow> (wal_error + RecoveryProof list) \<times> nat" where
  "compare_others env candidate [] proofs n = (Inr proofs, n)"
| "compare_others env candidate (other # others) proofs n =
     (if rv_InstanceID candidate = rv_InstanceID other then compare_others env candidate others proofs n
      else case we_done env n of
          Some e \<Rightarrow> (Inl (WalCancelled e), n)
        | None \<Rightarrow>
           (case comparePair env candidate other n of
              (Inl e, n1) \<Rightarrow> (Inl e, n1)
            | (Inr p, n1) \<Rightarrow> compare_others env candidate others (proofs @ [p]) n1))"

fun compare_loop :: "wal_env \<Rightarrow> RecoveryEvidence list \<Rightarrow> RecoveryEvidence list \<Rightarrow> RecoveryProof list \<Rightarrow> nat \<Rightarrow> (wal_error + RecoveryProof list) \<times> nat" where
  "compare_loop env evidence [] proofs n = (Inr proofs, n)"
| "compare_loop env evidence (candidate # candidates) proofs n =
     (case compare_others env candidate evidence proofs n of
        (Inl e, n1) \<Rightarrow> (Inl e, n1)
      | (Inr proofs1, n1) \<Rightarrow> compare_loop env evidence candidates proofs1 n1)"

definition CompareWAL :: "wal_env \<Rightarrow> RecoveryEvidence list \<Rightarrow> nat \<Rightarrow> (wal_error + RecoveryProof list) \<times> nat" where
  "CompareWAL env evidence n = compare_loop env evidence evidence [] n"

section \<open>Positions round trip\<close>

lemma hex_upper_digit_facts:
  assumes "d < 16"
  shows "hex_value (hex_upper_digit d) = d \<and> is_hex (hex_upper_digit d) \<and> hex_upper_digit d \<noteq> CHR ''/''"
proof -
  have "\<forall>d \<in> set [0..<16]. hex_value (hex_upper_digit d) = d \<and> is_hex (hex_upper_digit d) \<and> hex_upper_digit d \<noteq> CHR ''/''"
    by code_simp
  with assms show ?thesis by auto
qed

lemma hex_upper_value: "foldl (\<lambda>n c. 16 * n + hex_value c) 0 (hex_upper n) = n"
proof (induction n rule: hex_upper.induct)
  case (1 n)
  then show ?case by (subst hex_upper.simps) (auto simp: hex_upper_digit_facts)
qed

lemma hex_upper_chars: "list_all is_hex (hex_upper n) \<and> CHR ''/'' \<notin> set (hex_upper n) \<and> hex_upper n \<noteq> []"
proof (induction n rule: hex_upper.induct)
  case (1 n)
  have "is_hex (hex_upper_digit (n mod 16)) \<and> CHR ''/'' \<noteq> hex_upper_digit (n mod 16)" using hex_upper_digit_facts [of "n mod 16"] by auto
  with 1 show ?case by (subst (1 2 3) hex_upper.simps) (auto simp: mod_less)
qed

lemma hex_upper_length: "n < 16 ^ k \<Longrightarrow> 0 < k \<Longrightarrow> length (hex_upper n) \<le> k"
proof (induction n arbitrary: k rule: hex_upper.induct)
  case (1 n)
  show ?case
  proof (cases "n < 16")
    case True
    with 1(3) show ?thesis by (subst hex_upper.simps) simp
  next
    case False
    with 1(2) obtain j where k: "k = Suc j" "0 < j" by (cases k; cases "k - 1") auto
    with 1(2) have "n div 16 < 16 ^ j" by (simp add: less_mult_imp_div_less mult.commute)
    with 1(1) [OF False this k(2)] k False show ?thesis by (subst hex_upper.simps) simp
  qed
qed

lemma Split_none: "sep \<notin> set a \<Longrightarrow> Split sep a = [a]"
  by (induction a) auto

lemma ParseHex32_upper: "n < 2 ^ 32 \<Longrightarrow> ParseHex32 (hex_upper n) = Some (of_nat n)"
  using hex_upper_chars by (simp add: ParseHex32_def hex_upper_value)

text \<open>
  (C36) A log position survives its text form: what the controller sends to an agent is read back as the same
  64-bit position, for every position.
\<close>

theorem LSN_formatLSN: "LSN (formatLSN position) = Inr position"
proof -
  let ?hi = "unat (drop_bit 32 position)" and ?lo = "unat (position AND 0xffffffff)"
  have m: "(0xffffffff :: uint64) = mask 32" by (simp add: mask_eq_exp_minus_1)
  have lo: "position AND 0xffffffff = take_bit 32 position" unfolding m by (simp add: take_bit_eq_mask)
  have p: "unat position < 2 ^ 64" using unsigned_less [where 'a = nat, of position] by simp
  have "?hi = unat position div 2 ^ 32" by (simp add: drop_bit_eq_div unat_div)
  moreover have "?lo = unat position mod 2 ^ 32" unfolding lo by (simp add: take_bit_eq_mod unat_mod)
  ultimately have bounds: "?hi < 2 ^ 32" "?lo < 2 ^ 32" using p by simp_all
  then have len: "length (hex_upper ?hi) \<le> 8" "length (hex_upper ?lo) \<le> 8" by (auto intro: hex_upper_length)
  have "push_bit 32 (drop_bit 32 position) OR (position AND 0xffffffff) = position"
    unfolding lo by (rule bit_word_eqI) (auto simp: bit_simps)
  then have "push_bit 32 (of_nat ?hi) OR of_nat ?lo = position" by simp
  moreover have "Split (CHR ''/'') (formatLSN position) = [hex_upper ?hi, hex_upper ?lo]"
    using hex_upper_chars by (simp add: formatLSN_def Split_append Split_none)
  ultimately show ?thesis using bounds len hex_upper_chars by (simp add: LSN_def ParseHex32_upper)
qed

section \<open>Valid evidence covers the members\<close>

definition evidenceFor :: "(RecoveryEvidence \<Rightarrow> string) \<Rightarrow> RecoveryEvidence \<Rightarrow> DatabaseInstance \<Rightarrow> bool" where
  "evidenceFor digest e member \<longleftrightarrow> di_ResourceID member = rv_InstanceID e \<and> rv_Fenced e \<and> rv_Complete e \<and> \<not> rv_PreparedTransactions e \<and>
     rv_Fingerprint e = EvidenceFingerprint digest e \<and> rv_Engine e = di_Engine member \<and> EqualFold (rv_NativeID e) (mget (di_EngineIdentity member) (nativeKey member)) \<and>
     (rv_Engine e = EnginePostgreSQL \<longrightarrow> rv_SystemIdentifier e = mget (di_EngineIdentity member) ''system_identifier'')"

lemma member_loop_Inr:
  assumes "member_loop e members found = Inr True" "\<not> found"
  shows "\<exists>m \<in> set members. di_ResourceID m = rv_InstanceID e \<and> rv_Engine e = di_Engine m \<and> EqualFold (rv_NativeID e) (mget (di_EngineIdentity m) (nativeKey m)) \<and>
    (rv_Engine e = EnginePostgreSQL \<longrightarrow> rv_SystemIdentifier e = mget (di_EngineIdentity m) ''system_identifier'')"
  using assms
proof (induction members arbitrary: found)
  case (Cons m ms)
  then show ?case by (cases "di_ResourceID m = rv_InstanceID e") (auto split: if_splits)
qed simp

lemma evidence_loop_None:
  assumes "evidence_loop digest members es seen native = None"
  shows "distinct (map rv_InstanceID es) \<and> rv_InstanceID ` set es \<inter> set seen = {} \<and> (\<forall>e \<in> set es. \<exists>m \<in> set members. evidenceFor digest e m)"
  using assms
proof (induction es arbitrary: seen native)
  case (Cons e es)
  from Cons.prems have e: "member_loop e members False = Inr True" "rv_InstanceID e \<notin> set seen" "rv_Fenced e" "rv_Complete e" "\<not> rv_PreparedTransactions e"
      "rv_Fingerprint e = EvidenceFingerprint digest e"
      "evidence_loop digest members es (rv_InstanceID e # seen) (ToLower (rv_NativeID e) # native) = None"
    by (auto split: if_splits sum.splits)
  have "\<exists>m \<in> set members. evidenceFor digest e m"
    using member_loop_Inr [OF e(1)] e(3-6) by (auto simp: evidenceFor_def)
  with Cons.IH [OF e(7)] e(2) show ?case by auto
qed simp

text \<open>Every member has exactly one piece of evidence, and every piece belongs to a member.\<close>

lemma ValidateEvidence_None:
  assumes "ValidateEvidence digest members evidence = None"
  shows "distinct (map rv_InstanceID evidence)" "rv_InstanceID ` set evidence = di_ResourceID ` set members" "2 \<le> length evidence"
    "\<forall>e \<in> set evidence. \<exists>m \<in> set members. evidenceFor digest e m" "\<forall>m \<in> set members. di_Engine m = di_Engine (hd members)"
    "\<forall>m \<in> set members. \<exists>e \<in> set evidence. evidenceFor digest e m"
proof -
  from assms have v: "evidence_loop digest members evidence [] [] = None" "length evidence = length members" "2 \<le> length members"
      "\<forall>m \<in> set members. di_Engine m = di_Engine (hd members)"
    by (auto simp: ValidateEvidence_def list_ex_iff split: if_splits)
  note l = evidence_loop_None [OF v(1)]
  have sub: "rv_InstanceID ` set evidence \<subseteq> di_ResourceID ` set members" using l by (force simp: evidenceFor_def)
  have "card (di_ResourceID ` set members) \<le> length members" by (metis card_image_le card_length finite_set le_trans)
  also have len: "length members = card (rv_InstanceID ` set evidence)" using l v(2) by (metis distinct_card length_map set_map)
  finally show ids: "rv_InstanceID ` set evidence = di_ResourceID ` set members" using sub by (intro card_seteq) auto
  have d: "distinct (map di_ResourceID members)" using len unfolding ids by (intro card_distinct) simp
  have "\<exists>e \<in> set evidence. evidenceFor digest e m" if m: "m \<in> set members" for m
  proof -
    from m ids obtain e where e: "e \<in> set evidence" "rv_InstanceID e = di_ResourceID m" by (metis imageE imageI)
    with l obtain m' where m': "m' \<in> set members" "evidenceFor digest e m'" by blast
    then have "m' = m" using d m e(2) by (auto simp: evidenceFor_def distinct_map inj_on_def)
    with e(1) m'(2) show ?thesis by blast
  qed
  then show "\<forall>m \<in> set members. \<exists>e \<in> set evidence. evidenceFor digest e m" by blast
  show "distinct (map rv_InstanceID evidence)" "2 \<le> length evidence" "\<forall>e \<in> set evidence. \<exists>m \<in> set members. evidenceFor digest e m"
    "\<forall>m \<in> set members. di_Engine m = di_Engine (hd members)"
    using l v by auto
qed

section \<open>What a selected member contains\<close>

definition contains :: "RecoveryProof list \<Rightarrow> RecoveryEvidence \<Rightarrow> RecoveryEvidence \<Rightarrow> selection_error + bool" where
  "contains proofs candidate other =
     (if rv_Engine candidate = EngineMySQL then mysqlContains candidate other
      else if rv_Engine candidate = EnginePostgreSQL then PostgreSQLContains candidate other proofs else Inl EngineUnqualified)"

lemma contains_loop_True:
  "contains_loop candidate proofs others = Inr True \<longleftrightarrow>
     (\<forall>e \<in> set others. rv_InstanceID e \<noteq> rv_InstanceID candidate \<longrightarrow> contains proofs candidate e = Inr True)"
  by (induction others) (auto simp: contains_def bindR_Inr_iff)

lemma contains_loop_no_error:
  assumes "\<forall>e \<in> set others. rv_InstanceID e \<noteq> rv_InstanceID candidate \<longrightarrow> contains proofs candidate e \<noteq> Inr False" "contains_loop candidate proofs others = Inr b"
  shows b
  using assms by (induction others) (auto simp: contains_def bindR_Inr_iff split: if_splits)

lemma candidates_loop_Inr:
  assumes "candidates_loop proofs evidence cs = Inr ids"
  shows "ids = map rv_InstanceID (filter (\<lambda>c. contains_loop c proofs evidence = Inr True) cs) \<and> (\<forall>c \<in> set cs. \<exists>b. contains_loop c proofs evidence = Inr b)"
  using assms by (induction cs arbitrary: ids) (auto simp: bindR_Inr_iff)

lemma hd_sort_least:
  assumes "xs \<noteq> ([] :: 'a :: linorder list)"
  shows "hd (sort xs) \<in> set xs \<and> (\<forall>x \<in> set xs. hd (sort xs) \<le> x)"
proof -
  obtain y ys where y: "sort xs = y # ys" using assms by (metis list.exhaust list.size(3) length_0_conv length_sort)
  then have "sorted (y # ys)" "set (y # ys) = set xs" by (metis sorted_sort, metis set_sort)
  with y show ?thesis by auto
qed

lemma Select_Inr:
  assumes "Select digest members evidence proofs = Inr p"
  obtains c where "ValidateEvidence digest members evidence = None" "c \<in> set evidence" "rv_InstanceID c = p"
    "\<forall>e \<in> set evidence. rv_InstanceID e \<noteq> p \<longrightarrow> contains proofs c e = Inr True"
    "\<forall>q \<in> set evidence. (\<forall>e \<in> set evidence. rv_InstanceID e \<noteq> rv_InstanceID q \<longrightarrow> contains proofs q e \<noteq> Inr False) \<longrightarrow> p \<le> rv_InstanceID q"
proof -
  from assms obtain ids where s: "ValidateEvidence digest members evidence = None" "candidates_loop proofs evidence evidence = Inr ids" "ids \<noteq> []" "p = hd (sort ids)"
    by (auto simp: Select_def bindR_Inr_iff split: option.splits if_splits)
  note c = candidates_loop_Inr [OF s(2)]
  have l: "p \<in> set ids" "\<forall>x \<in> set ids. p \<le> x" using hd_sort_least [OF s(3)] s(4) by auto
  from l(1) c obtain e where e: "e \<in> set evidence" "contains_loop e proofs evidence = Inr True" "rv_InstanceID e = p" by auto
  have "p \<le> rv_InstanceID q" if q: "q \<in> set evidence" "\<forall>e \<in> set evidence. rv_InstanceID e \<noteq> rv_InstanceID q \<longrightarrow> contains proofs q e \<noteq> Inr False" for q
  proof -
    obtain b where b: "contains_loop q proofs evidence = Inr b" using bspec [OF conjunct2 [OF c] q(1)] by blast
    with contains_loop_no_error [OF q(2) b] have "contains_loop q proofs evidence = Inr True" by simp
    with q(1) have "rv_InstanceID q \<in> set ids" unfolding conjunct1 [OF c] by simp
    with l(2) show ?thesis by blast
  qed
  then show ?thesis using that [OF s(1) e(1,3)] e(2) unfolding contains_loop_True e(3) by blast
qed

lemma mysqlContains_Inr:
  assumes "mysqlContains c e = Inr b"
  obtains C E where "ParseGTIDSet (rv_GTIDExecuted c) = Inr C" "ParseGTIDSet (rv_GTIDExecuted e) = Inr E" "b \<longleftrightarrow> gtid_txs E \<subseteq> gtid_txs C"
proof -
  from assms obtain C P E a where p: "ParseGTIDSet (rv_GTIDExecuted c) = Inr C" "ParseGTIDSet (rv_GTIDPurged c) = Inr P" "ParseGTIDSet (rv_GTIDExecuted e) = Inr E"
      "AssessGTIDRecovery C P E = Inr a" "b = (ra_ErrantTransactions a = 0)"
    by (auto simp: mysqlContains_def split: sum.splits)
  note wf = p(1,2,3) [THEN ParseGTIDSet_gtid_wf]
  from p(4) obtain k where k: "CompareGTIDSets C E = Inr k" "ra_ErrantTransactions a = ErrantTransactions k"
    by (auto simp: AssessGTIDRecovery_def bindR_Inr_iff split: if_splits)
  from k(1) have n: "card (gtid_txs E) < 2 ^ 64" "ErrantTransactions k = of_nat (card (gtid_txs E - gtid_txs C))"
    by (auto simp: CompareGTIDSets_eq [OF wf(1,3)] not_le split: if_splits)
  show ?thesis
    by (rule that [OF p(1,3)]) (simp only: p(5) k(2) n(2) txs_diff_empty_iff [OF n(1)])
qed

text \<open>
  (C5) The recovered MySQL primary loses no committed transaction. When a primary is selected, every registered
  member has reported, fenced and with complete history under its own native identity, and the transactions
  executed on any of them are all executed on the selected member. No member with a smaller
  identifier has that complete history, so the choice does not depend on the order of the reports.
\<close>

theorem Select_mysql_complete:
  assumes "Select digest members evidence proofs = Inr p" "di_Engine (hd members) = EngineMySQL"
  shows "\<exists>c C. c \<in> set evidence \<and> rv_InstanceID c = p \<and> p \<in> di_ResourceID ` set members \<and> ParseGTIDSet (rv_GTIDExecuted c) = Inr C \<and>
    (\<forall>m \<in> set members. \<exists>e \<in> set evidence. evidenceFor digest e m \<and>
      (\<exists>E. ParseGTIDSet (rv_GTIDExecuted e) = Inr E \<and> gtid_txs E \<subseteq> gtid_txs C)) \<and>
    (\<forall>q \<in> set evidence. \<forall>Q. ParseGTIDSet (rv_GTIDExecuted q) = Inr Q \<and>
      (\<forall>e \<in> set evidence. \<exists>E. ParseGTIDSet (rv_GTIDExecuted e) = Inr E \<and> gtid_txs E \<subseteq> gtid_txs Q) \<longrightarrow> p \<le> rv_InstanceID q)"
proof -
  from Select_Inr [OF assms(1)] obtain c where c: "ValidateEvidence digest members evidence = None" "c \<in> set evidence" "rv_InstanceID c = p"
      "\<forall>e \<in> set evidence. rv_InstanceID e \<noteq> p \<longrightarrow> contains proofs c e = Inr True"
      "\<forall>q \<in> set evidence. (\<forall>e \<in> set evidence. rv_InstanceID e \<noteq> rv_InstanceID q \<longrightarrow> contains proofs q e \<noteq> Inr False) \<longrightarrow> p \<le> rv_InstanceID q"
    by blast
  note v = ValidateEvidence_None [OF c(1)]
  have engine: "rv_Engine e = EngineMySQL" if "e \<in> set evidence" for e using v(4,5) that assms(2) by (fastforce simp: evidenceFor_def)
  have con: "contains proofs q e = mysqlContains q e" if "q \<in> set evidence" for q e using engine [OF that] by (simp add: contains_def)
  have unique: "e = q" if "e \<in> set evidence" "q \<in> set evidence" "rv_InstanceID e = rv_InstanceID q" for e q
    using v(1) that by (auto simp: distinct_map inj_on_def)
  obtain e0 where e0: "e0 \<in> set evidence" "e0 \<noteq> c"
    using v(1,3) c(2) by (cases evidence; cases "tl evidence") auto
  then have "mysqlContains c e0 = Inr True" using c(2-4) con unique by metis
  then obtain C where C: "ParseGTIDSet (rv_GTIDExecuted c) = Inr C" by (elim mysqlContains_Inr)
  have hist: "\<exists>E. ParseGTIDSet (rv_GTIDExecuted e) = Inr E \<and> gtid_txs E \<subseteq> gtid_txs C" if "e \<in> set evidence" for e
  proof (cases "e = c")
    case False
    then have "mysqlContains c e = Inr True" using that c(2-4) con unique by metis
    with C show ?thesis by (elim mysqlContains_Inr) auto
  qed (use C in auto)
  have least: "p \<le> rv_InstanceID q" if "q \<in> set evidence" "ParseGTIDSet (rv_GTIDExecuted q) = Inr Q"
      "\<forall>e \<in> set evidence. \<exists>E. ParseGTIDSet (rv_GTIDExecuted e) = Inr E \<and> gtid_txs E \<subseteq> gtid_txs Q" for q Q
    using c(5) that con [OF that(1)] by (metis mysqlContains_Inr sum.inject(2))
  have "p \<in> di_ResourceID ` set members" using c(2,3) v(2) by (metis imageI)
  moreover have "\<exists>e \<in> set evidence. evidenceFor digest e m \<and> (\<exists>E. ParseGTIDSet (rv_GTIDExecuted e) = Inr E \<and> gtid_txs E \<subseteq> gtid_txs C)"
    if "m \<in> set members" for m using v(6) that hist by blast
  ultimately show ?thesis
    using c(2,3) C least by (intro exI [of _ c] exI [of _ C] conjI ballI allI impI) auto
qed

section \<open>What a comparison of logs proves\<close>

text \<open>
  \<open>shared_wal\<close>: the two members returned equal digests for adjoining ranges from one position to another.
  \<open>idle_wal\<close>: a member read adjoining ranges and found no transaction in them.
\<close>

inductive shared_wal :: "wal_env \<Rightarrow> RecoveryEvidence \<Rightarrow> RecoveryEvidence \<Rightarrow> uint64 \<Rightarrow> uint64 \<Rightarrow> bool" for env c e where
  shared_done: "shared_wal env c e a a"
| shared_range: "a < b \<Longrightarrow> we_read env n c (walRequest c t a b) = Inr left \<Longrightarrow> we_read env m e (walRequest e t a b) = Inr right \<Longrightarrow>
    ws_Digest left = ws_Digest right \<Longrightarrow> length (ws_Digest left) = 71 \<Longrightarrow> shared_wal env c e b u \<Longrightarrow> shared_wal env c e a u"

inductive idle_wal :: "wal_env \<Rightarrow> RecoveryEvidence \<Rightarrow> uint64 \<Rightarrow> uint64 \<Rightarrow> bool" for env e where
  idle_done: "idle_wal env e a a"
| idle_range: "a < b \<Longrightarrow> we_read env n e (walRequest e t a b) = Inr result \<Longrightarrow> \<not> ws_Transactions result \<Longrightarrow> idle_wal env e b u \<Longrightarrow> idle_wal env e a u"

lemma shared_loop_Inr:
  assumes "shared_loop env c e t u path a n = (Inr b, n')"
  shows "shared_wal env c e a b"
  using assms
proof (induction path arbitrary: a n)
  case (Cons branch path)
  let ?b = "min (lsn0 (ti_SwitchLSN branch)) u"
  show ?case
  proof (cases "?b \<le> a")
    case True
    with Cons show ?thesis by simp
  next
    case False
    from Cons.prems False obtain left right where r: "we_read env n c (walRequest c (ti_Timeline branch) a ?b) = Inr left"
        "we_read env (n + 1) e (walRequest e (ti_Timeline branch) a ?b) = Inr right" "ws_Digest left = ws_Digest right" "length (ws_Digest left) = 71"
        "b = ?b \<or> shared_loop env c e t u path ?b (n + 2) = (Inr b, n')"
      by (auto simp: Let_def split: sum.splits if_splits)
    have lt: "a < ?b" using False by (simp only: not_le)
    have "shared_wal env c e ?b b" using r(5) Cons.IH shared_done by blast
    from shared_range [OF lt r(1-4) this] show ?thesis .
  qed
qed (auto intro: shared_done)

lemma discard_loop_Inr:
  assumes "discard_loop env e path a transactions n = (Inr (b, False), n')"
  shows "\<not> transactions \<and> idle_wal env e a b"
  using assms
proof (induction path arbitrary: a transactions n)
  case (Cons branch path)
  let ?b = "lsn0 (ti_SwitchLSN branch)"
  show ?case
  proof (cases "?b \<le> a")
    case True
    with Cons.prems have "discard_loop env e path a transactions n = (Inr (b, False), n')" by (simp add: Let_def)
    from Cons.IH [OF this] show ?thesis .
  next
    case False
    from Cons.prems False obtain result where r: "we_read env n e (walRequest e (ti_Timeline branch) a ?b) = Inr result"
        "discard_loop env e path ?b (transactions \<or> ws_Transactions result) (n + 1) = (Inr (b, False), n')"
      by (auto simp: Let_def split: sum.splits)
    have lt: "a < ?b" using False by (simp only: not_le)
    from Cons.IH [OF r(2)] idle_range [OF lt r(1)] show ?thesis by blast
  qed
qed (auto intro: idle_done)

definition pairProof :: "wal_env \<Rightarrow> RecoveryEvidence \<Rightarrow> RecoveryEvidence \<Rightarrow> RecoveryProof \<Rightarrow> bool" where
  "pairProof env c e p \<longleftrightarrow> pf_CandidateID p = rv_InstanceID c \<and> pf_OtherID p = rv_InstanceID e \<and>
     (\<exists>t u cstart ostart. CommonTimeline c e = Inr (t, u) \<and> LSN (rv_Redo c) = Inr cstart \<and> LSN (rv_Redo e) = Inr ostart \<and> min cstart ostart < u \<and>
       shared_wal env c e (min cstart ostart) u \<and> (pf_DiscardedWALVerified p \<and> \<not> pf_DiscardedTransactions p \<longrightarrow> idle_wal env e u (lsn0 (rv_Position e))))"

lemma comparePair_Inr:
  assumes "comparePair env c e n = (Inr p, n')"
  shows "pairProof env c e p"
proof -
  obtain t u where t: "CommonTimeline c e = Inr (t, u)"
    using assms by (cases "CommonTimeline c e") (auto simp: comparePair_def)
  from assms t obtain cs os where st: "LSN (rv_Redo c) = Inr cs" "LSN (rv_Redo e) = Inr os"
    by (cases "LSN (rv_Redo c)"; cases "LSN (rv_Redo e)") (auto simp: comparePair_def)
  have lt: "min cs os < u"
  proof (rule ccontr)
    assume "\<not> min cs os < u"
    then have "u \<le> min cs os" by (simp only: not_less)
    with assms t st show False by (simp add: comparePair_def)
  qed
  then have nle: "\<not> u \<le> min cs os" by (simp only: not_le not_not)
  from assms t st nle obtain path where path: "timelinePath c = Inr path" by (cases "timelinePath c") (auto simp: comparePair_def simp del: min.bounded_iff)
  obtain x n1 where x: "shared_loop env c e t u path (min cs os) n = (x, n1)" by fastforce
  from assms t st nle path x have xu: "x = Inr u" by (cases x) (auto simp: comparePair_def simp del: min.bounded_iff split: if_splits)
  have sh: "shared_wal env c e (min cs os) u" using shared_loop_Inr x xu by blast
  from assms t st nle path x xu have p: "p = sharedProof c e \<or> discardProof env c e u n1 = (Inr p, n')"
    by (auto simp: comparePair_def simp del: min.bounded_iff split: if_splits)
  then have "pf_CandidateID p = rv_InstanceID c \<and> pf_OtherID p = rv_InstanceID e \<and>
      (pf_DiscardedWALVerified p \<and> \<not> pf_DiscardedTransactions p \<longrightarrow> idle_wal env e u (lsn0 (rv_Position e)))"
    using discard_loop_Inr by (auto simp: sharedProof_def discardProof_def split: sum.splits prod.splits)
  with t st lt sh show ?thesis by (auto simp: pairProof_def)
qed

lemma compare_others_Inr:
  assumes "compare_others env c es proofs n = (Inr proofs', n')"
  shows "\<forall>p \<in> set proofs'. p \<in> set proofs \<or> (\<exists>e \<in> set es. pairProof env c e p)"
  using assms
proof (induction es arbitrary: proofs n)
  case (Cons e es)
  show ?case
  proof (cases "rv_InstanceID c = rv_InstanceID e")
    case False
    with Cons.prems obtain p n1 where p: "comparePair env c e n = (Inr p, n1)" "compare_others env c es (proofs @ [p]) n1 = (Inr proofs', n')"
      by (auto split: option.splits prod.splits sum.splits)
    from Cons.IH [OF p(2)] comparePair_Inr [OF p(1)] show ?thesis by auto
  qed (use Cons in auto)
qed simp

lemma compare_loop_Inr:
  assumes "compare_loop env evidence cs proofs n = (Inr proofs', n')"
  shows "\<forall>p \<in> set proofs'. p \<in> set proofs \<or> (\<exists>c \<in> set cs. \<exists>e \<in> set evidence. pairProof env c e p)"
  using assms
proof (induction cs arbitrary: proofs n)
  case (Cons c cs)
  then obtain ps n1 where ps: "compare_others env c evidence proofs n = (Inr ps, n1)" "compare_loop env evidence cs ps n1 = (Inr proofs', n')"
    by (auto split: prod.splits sum.splits)
  from Cons.IH [OF ps(2)] compare_others_Inr [OF ps(1)] show ?case by fastforce
qed simp

lemma common_loop_same:
  assumes "list_all2 (\<lambda>x y. ti_Timeline x = ti_Timeline y \<and> lsn0 (ti_SwitchLSN x) = lsn0 (ti_SwitchLSN y)) a b" "ti_Timeline x = ti_Timeline y"
  shows "common_loop (a @ [x]) (b @ [y]) acc = (ti_Timeline x, min (lsn0 (ti_SwitchLSN x)) (lsn0 (ti_SwitchLSN y)))"
  using assms
proof (induction arbitrary: acc rule: list_all2_induct)
  case (Cons u us v vs)
  have "us @ [x] \<noteq> []" "vs @ [y] \<noteq> []" by simp_all
  with Cons show ?case by (simp add: Let_def)
qed (simp add: Let_def)

lemma CommonTimeline_same:
  assumes "CommonTimeline a b = Inr (t, u)" "rv_Timeline a = rv_Timeline b"
  shows "u = min (lsn0 (rv_Position a)) (lsn0 (rv_Position b))"
proof -
  from assms obtain ap bp where p: "timelinePath a = Inr ap" "timelinePath b = Inr bp" "sameHistory (rv_History a) (rv_History b)" "common_loop ap bp (0, 0) = (t, u)"
    by (auto simp: CommonTimeline_def bindR_Inr_iff split: if_splits prod.splits)
  have "ap = rv_History a @ [\<lparr>ti_Timeline = rv_Timeline a, ti_SwitchLSN = rv_Position a\<rparr>]" "bp = rv_History b @ [\<lparr>ti_Timeline = rv_Timeline b, ti_SwitchLSN = rv_Position b\<rparr>]"
    using p(1,2) by (auto simp: timelinePath_def Let_def split: if_splits)
  with p(3,4) assms(2) show ?thesis by (simp add: sameHistory_def common_loop_same)
qed

lemma proof_loop_True:
  assumes "proof_loop c e oend u proofs = Inr True"
  shows "\<exists>p \<in> set proofs. pf_CandidateID p = rv_InstanceID c \<and> pf_OtherID p = rv_InstanceID e \<and>
    (rv_Timeline e = rv_Timeline c \<or> oend \<le> u \<or> pf_DiscardedWALVerified p \<and> \<not> pf_DiscardedTransactions p)"
  using assms
proof (induction proofs)
  case (Cons p ps)
  then show ?case
    by (cases "pf_CandidateID p = rv_InstanceID c \<and> pf_OtherID p = rv_InstanceID e") (auto split: if_splits)
qed simp

text \<open>
  (C13) The recovered PostgreSQL primary loses no committed transaction. When a primary is selected from the comparisons
  that the controller made of the fenced members' logs, then for every other member the two logs were read from a common checkpoint
  and agree byte for byte up to the end of the shared timeline; and what the other member wrote
  beyond it, up to its last position, was read completely and contains no transaction.
\<close>

theorem Select_postgresql_complete:
  assumes "Select digest members evidence proofs = Inr p" "di_Engine (hd members) = EnginePostgreSQL" "CompareWAL env evidence n = (Inr proofs, n')"
  shows "\<exists>c. c \<in> set evidence \<and> rv_InstanceID c = p \<and> (\<forall>m \<in> set members. \<exists>e \<in> set evidence. evidenceFor digest e m) \<and>
    (\<forall>e \<in> set evidence. rv_InstanceID e \<noteq> p \<longrightarrow> rv_SystemIdentifier e = rv_SystemIdentifier c \<and>
      (\<exists>t u cstart ostart. CommonTimeline c e = Inr (t, u) \<and> LSN (rv_Redo c) = Inr cstart \<and> LSN (rv_Redo e) = Inr ostart \<and> min cstart ostart < u \<and>
        shared_wal env c e (min cstart ostart) u \<and> (\<exists>last. LSN (rv_Position e) = Inr last \<and> (last \<le> u \<or> idle_wal env e u last))))"
proof -
  from Select_Inr [OF assms(1)] obtain c where c: "ValidateEvidence digest members evidence = None" "c \<in> set evidence" "rv_InstanceID c = p"
      "\<forall>e \<in> set evidence. rv_InstanceID e \<noteq> p \<longrightarrow> contains proofs c e = Inr True"
      "\<forall>q \<in> set evidence. (\<forall>e \<in> set evidence. rv_InstanceID e \<noteq> rv_InstanceID q \<longrightarrow> contains proofs q e \<noteq> Inr False) \<longrightarrow> p \<le> rv_InstanceID q"
    by blast
  note v = ValidateEvidence_None [OF c(1)]
  have "rv_Engine c = EnginePostgreSQL" using v(4,5) c(2) assms(2) by (fastforce simp: evidenceFor_def)
  then have pc: "PostgreSQLContains c e proofs = Inr True" if "e \<in> set evidence" "rv_InstanceID e \<noteq> p" for e
    using c(4) that by (simp add: contains_def)
  have unique: "e = q" if "e \<in> set evidence" "q \<in> set evidence" "rv_InstanceID e = rv_InstanceID q" for e q
    using v(1) that by (auto simp: distinct_map inj_on_def)
  have other: "rv_SystemIdentifier e = rv_SystemIdentifier c \<and>
      (\<exists>t u cstart ostart. CommonTimeline c e = Inr (t, u) \<and> LSN (rv_Redo c) = Inr cstart \<and> LSN (rv_Redo e) = Inr ostart \<and> min cstart ostart < u \<and>
        shared_wal env c e (min cstart ostart) u \<and> (\<exists>last. LSN (rv_Position e) = Inr last \<and> (last \<le> u \<or> idle_wal env e u last)))"
    if e: "e \<in> set evidence" "rv_InstanceID e \<noteq> p" for e
  proof -
    from pc [OF e] obtain t u cend oend where g: "CommonTimeline c e = Inr (t, u)" "LSN (rv_Position c) = Inr cend" "LSN (rv_Position e) = Inr oend"
        "\<not> (rv_Timeline c = rv_Timeline e \<and> cend < oend)" "proof_loop c e oend u proofs = Inr True" "rv_SystemIdentifier e = rv_SystemIdentifier c"
      by (auto simp: PostgreSQLContains_def bindR_Inr_iff split: if_splits)
    from proof_loop_True [OF g(5)] obtain q where q: "q \<in> set proofs" "pf_CandidateID q = rv_InstanceID c" "pf_OtherID q = rv_InstanceID e"
        "rv_Timeline e = rv_Timeline c \<or> oend \<le> u \<or> pf_DiscardedWALVerified q \<and> \<not> pf_DiscardedTransactions q"
      by blast
    from compare_loop_Inr [OF assms(3) [unfolded CompareWAL_def]] q(1) obtain c' e' where "c' \<in> set evidence" "e' \<in> set evidence" "pairProof env c' e' q" by auto
    then have "pairProof env c e q" using unique c(2) e(1) q(2,3) by (metis pairProof_def)
    then obtain cs os where w: "LSN (rv_Redo c) = Inr cs" "LSN (rv_Redo e) = Inr os" "min cs os < u" "shared_wal env c e (min cs os) u"
        "pf_DiscardedWALVerified q \<and> \<not> pf_DiscardedTransactions q \<longrightarrow> idle_wal env e u (lsn0 (rv_Position e))"
      using g(1) by (auto simp: pairProof_def)
    have l: "lsn0 (rv_Position e) = oend" "lsn0 (rv_Position c) = cend" using g(2,3) by (simp_all add: lsn0_def)
    have "oend \<le> u \<or> idle_wal env e u oend"
      using q(4) w(5) l g(4) CommonTimeline_same [OF g(1)] by (cases "rv_Timeline e = rv_Timeline c") auto
    with g w show ?thesis by blast
  qed
  with c(2,3) v(6) show ?thesis by blast
qed

section \<open>Sample selections\<close>

definition sampleSurvivor :: "Engine \<Rightarrow> char \<Rightarrow> DatabaseInstance" where
  "sampleSurvivor engine c = zeroInstance\<lparr>di_ResourceID := sampleID c, di_ClusterID := sampleID (CHR ''1''), di_Engine := engine,
     di_EngineIdentity := [(''server_uuid'', [c]), (''resource_id'', [c]), (''system_identifier'', ''7'')]\<rparr>"

definition sampleEvidence :: "Engine \<Rightarrow> char \<Rightarrow> string \<Rightarrow> string \<Rightarrow> RecoveryEvidence" where
  "sampleEvidence engine c gtid position = \<lparr>rv_InstanceID = sampleID c, rv_NativeID = [c], rv_Engine = engine, rv_ObservedAt = 5, rv_Fenced = True, rv_Complete = True,
     rv_PreparedTransactions = False, rv_GTIDExecuted = gtid, rv_GTIDPurged = [], rv_SystemIdentifier = ''7'', rv_Timeline = 1, rv_Position = position,
     rv_Checkpoint = [], rv_Redo = ''0/20'', rv_WALSegmentBytes = 0, rv_ControlState = [], rv_ControlDigest = [], rv_WALTailDigest = [], rv_History = [],
     rv_Fingerprint = ''f''\<rparr>"

abbreviation sampleHistories :: "RecoveryEvidence list" where
  "sampleHistories \<equiv> [sampleEvidence EngineMySQL (CHR ''4'') ''3E11fa47-71ca-11e1-9e33-c80aa9429562:1-2:7:3-5'' [],
     sampleEvidence EngineMySQL (CHR ''5'') ''3e11fa47-71ca-11e1-9e33-c80aa9429562:1-3'' []]"

abbreviation sampleLogs :: "RecoveryEvidence list" where
  "sampleLogs \<equiv> [sampleEvidence EnginePostgreSQL (CHR ''4'') [] ''0/30'', sampleEvidence EnginePostgreSQL (CHR ''5'') [] ''0/40'']"

definition sampleWAL :: wal_env where
  "sampleWAL = \<lparr>we_done = \<lambda>_. None, we_read = \<lambda>_ _ _. Inr \<lparr>ws_Digest = ''sha256:'' @ replicate 64 (CHR ''0''), ws_Transactions = False\<rparr>\<rparr>"

lemma sample_lsn: "LSN ''0/20'' = Inr 0x20" "LSN ''0/30'' = Inr 0x30" "LSN ''0/40'' = Inr 0x40"
  by (simp_all add: LSN_def ParseHex32_def hex_value_def go_defs)

lemma sample_path:
  assumes "LSN position = Inr l" "l \<noteq> 0"
  shows "timelinePath (sampleEvidence EnginePostgreSQL c g position) = Inr [\<lparr>ti_Timeline = 1, ti_SwitchLSN = position\<rparr>]"
  using assms by (simp add: timelinePath_def sampleEvidence_def)

lemma sample_common: "CommonTimeline (sampleLogs ! 0) (sampleLogs ! 1) = Inr (1, 0x30)" "CommonTimeline (sampleLogs ! 1) (sampleLogs ! 0) = Inr (1, 0x30)"
proof -
  have e: "rv_Timeline (sampleEvidence eng c g p) = 1" "rv_History (sampleEvidence eng c g p) = []" for eng c g p by (simp_all add: sampleEvidence_def)
  show "CommonTimeline (sampleLogs ! 0) (sampleLogs ! 1) = Inr (1, 0x30)" "CommonTimeline (sampleLogs ! 1) (sampleLogs ! 0) = Inr (1, 0x30)"
    by (simp_all add: CommonTimeline_def sample_path sample_lsn e sameHistory_def lsn0_def)
qed

lemma sample_pair: "comparePair sampleWAL (sampleLogs ! 0) (sampleLogs ! 1) n = (Inr (sharedProof (sampleLogs ! 0) (sampleLogs ! 1)), n + 2)"
    "comparePair sampleWAL (sampleLogs ! 1) (sampleLogs ! 0) n = (Inr (sharedProof (sampleLogs ! 1) (sampleLogs ! 0)), n + 2)"
proof -
  have e: "rv_Timeline (sampleEvidence eng c g p) = 1" "rv_Redo (sampleEvidence eng c g p) = ''0/20''" "rv_Position (sampleEvidence eng c g p) = p" for eng c g p
    by (simp_all add: sampleEvidence_def)
  note c = sample_common [simplified]
  show "comparePair sampleWAL (sampleLogs ! 0) (sampleLogs ! 1) n = (Inr (sharedProof (sampleLogs ! 0) (sampleLogs ! 1)), n + 2)"
    "comparePair sampleWAL (sampleLogs ! 1) (sampleLogs ! 0) n = (Inr (sharedProof (sampleLogs ! 1) (sampleLogs ! 0)), n + 2)"
    by (simp_all add: comparePair_def c e sample_lsn sample_path lsn0_def sampleWAL_def HasPrefix_def Let_def)
qed

lemma sample_ids: "rv_InstanceID (sampleEvidence engine c g p) = sampleID c" "rv_Engine (sampleEvidence engine c g p) = engine"
    "sampleID (CHR ''4'') \<noteq> sampleID (CHR ''5'')" "sampleID (CHR ''5'') \<noteq> sampleID (CHR ''4'')"
  by (simp_all add: sampleEvidence_def sampleID_def)

lemma sample_wal: "CompareWAL sampleWAL sampleLogs 0 = (Inr [sharedProof (sampleLogs ! 0) (sampleLogs ! 1), sharedProof (sampleLogs ! 1) (sampleLogs ! 0)], 4)"
proof -
  have "we_done sampleWAL n = None" for n by (simp add: sampleWAL_def)
  then show ?thesis by (simp add: CompareWAL_def sample_ids sample_pair [simplified])
qed

lemma sample_valid:
  assumes "engine = EngineMySQL \<or> engine = EnginePostgreSQL"
  shows "ValidateEvidence (\<lambda>_. ''f'') [sampleSurvivor engine (CHR ''4''), sampleSurvivor engine (CHR ''5'')]
    [sampleEvidence engine (CHR ''4'') g p, sampleEvidence engine (CHR ''5'') h q] = None"
  using assms by (auto simp: ValidateEvidence_def sampleSurvivor_def sampleEvidence_def EvidenceFingerprint_def sample_ids nativeKey_def mget_def EqualFold_def IsZero_def
      ToLower_def lower_char_def)

lemma sample_select_postgresql:
  "Select (\<lambda>_. ''f'') [sampleSurvivor EnginePostgreSQL (CHR ''4''), sampleSurvivor EnginePostgreSQL (CHR ''5'')] sampleLogs
     [sharedProof (sampleLogs ! 0) (sampleLogs ! 1), sharedProof (sampleLogs ! 1) (sampleLogs ! 0)] = Inr (sampleID (CHR ''5''))"
proof -
  have e: "rv_Timeline (sampleEvidence eng c g p) = 1" "rv_SystemIdentifier (sampleEvidence eng c g p) = ''7''" "rv_Position (sampleEvidence eng c g p) = p"
    "rv_Fingerprint (sampleEvidence eng c g p) = ''f''" for eng c g p
    by (simp_all add: sampleEvidence_def)
  show ?thesis
    by (simp add: Select_def sample_valid sample_ids PostgreSQLContains_def sample_common [simplified] sample_lsn e sharedProof_def)
qed

lemma sample_select_mysql:
  "Select (\<lambda>_. ''f'') [sampleSurvivor EngineMySQL (CHR ''4''), sampleSurvivor EngineMySQL (CHR ''5'')] sampleHistories [] = Inr (sampleID (CHR ''4''))"
proof -
  have e: "rv_GTIDExecuted (sampleEvidence eng c g p) = g" "rv_GTIDPurged (sampleEvidence eng c g p) = []" for eng c g p by (simp_all add: sampleEvidence_def)
  have p: "ParseGTIDSet [] = Inr []" by (simp add: ParseGTIDSet_def TrimSpace_def)
  have a: "\<exists>a. AssessGTIDRecovery setA17 [] setA13 = Inr a \<and> ra_ErrantTransactions a = 0"
    by (simp add: AssessGTIDRecovery_def CompareGTIDSets_def validateGTIDTransactionCount_def transactionDifference_def intervals_of_def
        intervalTransactionCount_def overlapTransactionCount_def checkedAddTransactions_def)
  have b: "\<exists>a. AssessGTIDRecovery setA13 [] setA17 = Inr a \<and> ra_ErrantTransactions a \<noteq> 0"
    by (simp add: AssessGTIDRecovery_def CompareGTIDSets_def validateGTIDTransactionCount_def transactionDifference_def intervals_of_def
        intervalTransactionCount_def overlapTransactionCount_def checkedAddTransactions_def)
  have "mysqlContains (sampleHistories ! 0) (sampleHistories ! 1) = Inr True" "mysqlContains (sampleHistories ! 1) (sampleHistories ! 0) = Inr False"
    using a b by (auto simp: mysqlContains_def e p parse_A17 parse_A13)
  then show ?thesis by (simp add: Select_def sample_valid sample_ids)
qed

theorem Select_mysql_complete_witness:
  "Select (\<lambda>_. ''f'') [sampleSurvivor EngineMySQL (CHR ''4''), sampleSurvivor EngineMySQL (CHR ''5'')] sampleHistories [] = Inr (sampleID (CHR ''4'')) \<and>
   (\<exists>c C. c \<in> set sampleHistories \<and> rv_InstanceID c = sampleID (CHR ''4'') \<and> ParseGTIDSet (rv_GTIDExecuted c) = Inr C)"
proof -
  have "di_Engine (hd [sampleSurvivor EngineMySQL (CHR ''4''), sampleSurvivor EngineMySQL (CHR ''5'')]) = EngineMySQL" by (simp add: sampleSurvivor_def)
  from Select_mysql_complete [OF sample_select_mysql this] sample_select_mysql show ?thesis by blast
qed

theorem Select_postgresql_complete_witness:
  "\<exists>c u. c \<in> set sampleLogs \<and> rv_InstanceID c = sampleID (CHR ''5'') \<and> shared_wal sampleWAL c (sampleLogs ! 0) 0x20 u \<and> 0x20 < u"
proof -
  have "di_Engine (hd [sampleSurvivor EnginePostgreSQL (CHR ''4''), sampleSurvivor EnginePostgreSQL (CHR ''5'')]) = EnginePostgreSQL" by (simp add: sampleSurvivor_def)
  note s = Select_postgresql_complete [OF sample_select_postgresql this sample_wal]
  obtain c where c: "c \<in> set sampleLogs" "rv_InstanceID c = sampleID (CHR ''5'')"
      "\<forall>e \<in> set sampleLogs. rv_InstanceID e \<noteq> sampleID (CHR ''5'') \<longrightarrow> (\<exists>u cstart ostart. LSN (rv_Redo c) = Inr cstart \<and> LSN (rv_Redo e) = Inr ostart \<and>
        min cstart ostart < u \<and> shared_wal sampleWAL c e (min cstart ostart) u)"
    using s by (elim exE conjE) (metis (no_types, lifting))
  have r: "rv_Redo e = ''0/20''" if "e \<in> set sampleLogs" for e using that by (auto simp: sampleEvidence_def)
  have f: "sampleLogs ! 0 \<in> set sampleLogs" "rv_InstanceID (sampleLogs ! 0) \<noteq> sampleID (CHR ''5'')" by (simp_all add: sample_ids)
  from c(3) f have "\<exists>u cstart ostart. LSN (rv_Redo c) = Inr cstart \<and> LSN (rv_Redo (sampleLogs ! 0)) = Inr ostart \<and>
        min cstart ostart < u \<and> shared_wal sampleWAL c (sampleLogs ! 0) (min cstart ostart) u"
    by blast
  with r [OF c(1)] r [OF f(1)] sample_lsn(1) c(1,2) show ?thesis by auto
qed

end
