(* ===== verification/Candidates.thy ===== *)
theory Candidates
  imports Gtid Disaster_Selection
begin

text \<open>
  The choice of a promotion target: the assessment of failover candidates by the MySQL and PostgreSQL adapters
  (\<^verbatim>\<open>adapters/mysql/candidates.go\<close>, \<^verbatim>\<open>adapters/postgresql/candidates.go\<close>) and the selector of automatic
  recovery (\<^verbatim>\<open>internal/recovery/mysql_selector.go\<close>). Each check of the source is a definition; an evaluation adds
  the checks in the order of the source, and the candidates are sorted and ranked.

  What the two adapters promise to the selector is the locale \<open>candidate_ranking\<close>.
\<close>

section \<open>Requests and assessments\<close>

record CandidatePolicy =
  cp_MaximumLagSeconds :: int
  cp_RequireGTID :: bool
  cp_AllowSourceDisconnected :: bool

record CandidateAssessment =
  ca_InstanceID :: rid
  ca_Eligible :: bool
  ca_Rank :: int
  ca_RiskLevel :: string
  ca_DataLossRisk :: string
  ca_Checks :: "Check list"

record CandidateRequest =
  cr_Cluster :: DatabaseCluster
  cr_Primary :: DatabaseInstance
  cr_Instances :: "DatabaseInstance list"
  cr_Links :: "ReplicationLink list"
  cr_Probes :: "ProbeStatus list"
  cr_ObservedAt :: go_time
  cr_Policy :: CandidatePolicy

section \<open>Library calls\<close>

text \<open>Decimal output (\<^verbatim>\<open>%d\<close>), \<^verbatim>\<open>strconv.ParseBool\<close>, and \<^verbatim>\<open>strconv.ParseUint(s, 10, 32)\<close>.\<close>

fun decimal :: "nat \<Rightarrow> string" where
  "decimal n = (if n < 10 then [char_of (48 + n)] else decimal (n div 10) @ [char_of (48 + n mod 10)])"

declare decimal.simps [simp del]

definition decimal_int :: "int \<Rightarrow> string" where
  "decimal_int n = (if n < 0 then CHR ''-'' # decimal (nat (- n)) else decimal (nat n))"

definition ParseBool :: "string \<Rightarrow> bool option" where
  "ParseBool s =
     (if s \<in> {''1'', ''t'', ''T'', ''TRUE'', ''true'', ''True''} then Some True
      else if s \<in> {''0'', ''f'', ''F'', ''FALSE'', ''false'', ''False''} then Some False else None)"

definition ParseUint32 :: "string \<Rightarrow> uint64 option" where
  "ParseUint32 s = (case ParseUint s of None \<Rightarrow> None | Some n \<Rightarrow> if n < 2 ^ 32 then Some n else None)"

section \<open>Adding checks\<close>

text \<open>A failed check makes the candidate ineligible, a warning is remembered.\<close>

definition addCheck :: "Check \<Rightarrow> CandidateAssessment \<times> bool \<Rightarrow> CandidateAssessment \<times> bool" where
  "addCheck check p =
     (let (assessment, warnings) = p in
      (assessment\<lparr>ca_Checks := ca_Checks assessment @ [check], ca_Eligible := ca_Eligible assessment \<and> ck_Status check \<noteq> CheckFail\<rparr>,
       warnings \<or> ck_Status check = CheckWarn))"

definition newAssessment :: "DatabaseInstance \<Rightarrow> string \<Rightarrow> CandidateAssessment" where
  "newAssessment instance' dataLossRisk = \<lparr>ca_InstanceID = di_ResourceID instance', ca_Eligible = True, ca_Rank = 0, ca_RiskLevel = ''low'',
     ca_DataLossRisk = dataLossRisk, ca_Checks = []\<rparr>"

definition riskLevel :: "CandidateAssessment \<times> bool \<Rightarrow> CandidateAssessment" where
  "riskLevel p =
     (let (assessment, warnings) = p in
      if \<not> ca_Eligible assessment then assessment\<lparr>ca_RiskLevel := ''blocked''\<rparr>
      else if warnings then assessment\<lparr>ca_RiskLevel := ''warning''\<rparr> else assessment)"

fun rank_loop :: "int \<Rightarrow> CandidateAssessment list \<Rightarrow> CandidateAssessment list" where
  "rank_loop nextRank [] = []"
| "rank_loop nextRank (a # as) =
     (if ca_Eligible a then a\<lparr>ca_Rank := nextRank\<rparr> # rank_loop (nextRank + 1) as else a # rank_loop nextRank as)"

abbreviation primaryDown :: "DatabaseInstance \<Rightarrow> bool" where
  "primaryDown primary \<equiv> h_State (di_Health primary) = HealthUnhealthy \<or> h_State (di_Health primary) = HealthUnknown"

section \<open>MySQL\<close>

record mysqlEvaluation =
  me_assessment :: CandidateAssessment
  me_hasWarnings :: bool
  me_missingTransactions :: uint64
  me_lagSeconds :: int
  me_exactVersion :: bool

definition hasIncompleteProbeCoverage :: "ProbeStatus list \<Rightarrow> go_time \<Rightarrow> bool" where
  "hasIncompleteProbeCoverage probes observedAt =
     (probes = [] \<or> list_ex (\<lambda>p. h_State (pb_Health p) \<noteq> HealthHealthy \<or> IsZero observedAt \<or> pb_DiscoveryObservedAt p \<noteq> observedAt) probes)"

fun bound_loop :: "(ProbeStatus \<Rightarrow> bool) \<Rightarrow> rid \<Rightarrow> ProbeStatus list \<Rightarrow> bool \<Rightarrow> bool" where
  "bound_loop good instanceID [] bound = bound"
| "bound_loop good instanceID (p # ps) bound =
     (if pb_InstanceID p \<noteq> instanceID then bound_loop good instanceID ps bound
      else if \<not> good p then False else bound_loop good instanceID ps True)"

definition hasHealthyBoundProbe :: "ProbeStatus list \<Rightarrow> rid \<Rightarrow> go_time \<Rightarrow> bool" where
  "hasHealthyBoundProbe probes instanceID observedAt =
     (if IsZero observedAt then False
      else bound_loop (\<lambda>p. h_State (pb_Health p) = HealthHealthy \<and> pb_DiscoveryObservedAt p = observedAt) instanceID probes False)"

definition hasReachableBoundProbe :: "ProbeStatus list \<Rightarrow> rid \<Rightarrow> go_time \<Rightarrow> bool" where
  "hasReachableBoundProbe probes instanceID observedAt =
     (if IsZero observedAt then False
      else bound_loop (\<lambda>p. pb_DiscoveryObservedAt p = observedAt \<and> (h_State (pb_Health p) = HealthHealthy \<or> h_State (pb_Health p) = HealthDegraded)) instanceID probes False)"

definition candidateReadOnly :: "metadata \<Rightarrow> bool \<times> bool" where
  "candidateReadOnly m =
     (case ParseBool (TrimSpace (mget m ''read_only'')) of
        None \<Rightarrow> (False, False)
      | Some readOnly \<Rightarrow> (case ParseBool (TrimSpace (mget m ''super_read_only'')) of
          None \<Rightarrow> (False, False)
        | Some superReadOnly \<Rightarrow> (readOnly \<or> superReadOnly, True)))"

definition mysqlReleaseFamily :: "string \<Rightarrow> string option" where
  "mysqlReleaseFamily version =
     (let parts = Split (CHR ''.'') version in
      if length parts < 2 then None
      else case ParseUint (parts ! 0) of
          None \<Rightarrow> None
        | Some major \<Rightarrow> (case ParseUint (parts ! 1) of
            None \<Rightarrow> None
          | Some minor \<Rightarrow> Some (decimal (unat major) @ ''.'' @ decimal (unat minor))))"

definition sourceReconnect :: "CandidateRequest \<Rightarrow> DatabaseInstance \<Rightarrow> bool" where
  "sourceReconnect request i \<longleftrightarrow> cp_AllowSourceDisconnected (cr_Policy request) \<and> primaryDown (cr_Primary request) \<and>
     hasReachableBoundProbe (cr_Probes request) (di_ResourceID i) (cr_ObservedAt request) \<and>
     rs_IOThread (di_Replication i) = ThreadConnecting \<and> rs_SQLThread (di_Replication i) = ThreadRunning \<and> TrimSpace (rs_LastSQLError (di_Replication i)) = []"

definition healthyBound :: "CandidateRequest \<Rightarrow> DatabaseInstance \<Rightarrow> bool" where
  "healthyBound request i = hasHealthyBoundProbe (cr_Probes request) (di_ResourceID i) (cr_ObservedAt request)"

definition inventoryCheck :: "CandidateRequest \<Rightarrow> DatabaseInstance \<Rightarrow> Check" where
  "inventoryCheck request i =
     (if ValidResourceID (di_ResourceID i) \<and> di_ClusterID i = cl_ResourceID (cr_Cluster request) \<and> di_Engine i = EngineMySQL \<and>
         cl_Engine (cr_Cluster request) = EngineMySQL \<and> (healthyBound request i \<or> sourceReconnect request i)
      then mk_check ''inventory_membership'' CheckPass ''candidate belongs to the selected MySQL cluster inventory''
      else mk_check ''inventory_membership'' CheckFail ''candidate lacks healthy bound probe evidence for the selected MySQL cluster inventory'')"

definition roleCheck :: "DatabaseInstance \<Rightarrow> Check" where
  "roleCheck i = (if di_Role i = RoleReplica then mk_check ''candidate_role'' CheckPass ''candidate is a replica''
     else mk_check ''candidate_role'' CheckFail ''candidate is not a replica'')"

definition reachabilityCheck :: "CandidateRequest \<Rightarrow> DatabaseInstance \<Rightarrow> Check" where
  "reachabilityCheck request i =
     (if healthyBound request i then mk_check ''reachability'' CheckPass ''current bound probe confirms candidate reachability''
      else if sourceReconnect request i
      then mk_check ''reachability'' CheckWarn ''current bound probe confirms the candidate is reachable while its failed source reconnects''
      else mk_check ''reachability'' CheckFail ''current bound probe does not confirm candidate reachability'')"

definition eligibilityCheck :: "CandidateRequest \<Rightarrow> DatabaseInstance \<Rightarrow> Check" where
  "eligibilityCheck request i =
     (if di_PromotionEligible i then mk_check ''promotion_eligibility'' CheckPass ''candidate is marked promotion eligible''
      else if sourceReconnect request i
      then mk_check ''promotion_eligibility'' CheckWarn ''failover eligibility is derived from current source-loss evidence''
      else mk_check ''promotion_eligibility'' CheckFail ''candidate is not marked promotion eligible'')"

definition readOnlyCheck :: "DatabaseInstance \<Rightarrow> Check" where
  "readOnlyCheck i =
     (let (readOnly, known) = candidateReadOnly (di_EngineMetadata i) in
      if known \<and> readOnly then mk_check ''replica_read_only'' CheckPass ''candidate is read-only''
      else mk_check ''replica_read_only'' CheckFail ''candidate must have current read-only evidence'')"

definition maintenanceCheck :: "DatabaseInstance \<Rightarrow> Check" where
  "maintenanceCheck i = (if \<not> di_Maintenance i then mk_check ''maintenance'' CheckPass ''candidate is not in maintenance''
     else mk_check ''maintenance'' CheckFail ''candidate is in maintenance'')"

definition threadsCheck :: "CandidateRequest \<Rightarrow> DatabaseInstance \<Rightarrow> Check" where
  "threadsCheck request i =
     (if rs_IOThread (di_Replication i) = ThreadRunning \<and> rs_SQLThread (di_Replication i) = ThreadRunning
      then mk_check ''replication_threads'' CheckPass ''replication IO and SQL threads are running''
      else if sourceReconnect request i
      then mk_check ''replication_threads'' CheckWarn ''SQL apply is running while the IO thread reconnects to the failed primary''
      else mk_check ''replication_threads'' CheckFail ''replication IO and SQL threads must both be running'')"

definition sqlErrorCheck :: "DatabaseInstance \<Rightarrow> Check" where
  "sqlErrorCheck i = (if TrimSpace (rs_LastSQLError (di_Replication i)) = []
     then mk_check ''replication_sql_error'' CheckPass ''replication SQL channel has no current error''
     else mk_check ''replication_sql_error'' CheckFail ''replication SQL channel has an unresolved error'')"

definition serverUUID :: "metadata \<Rightarrow> string" where
  "serverUUID m = ToLower (TrimSpace (mget m ''server_uuid''))"

definition sourceCheck :: "CandidateRequest \<Rightarrow> DatabaseInstance \<Rightarrow> Check" where
  "sourceCheck request i =
     (let primaryServerUUID = serverUUID (di_EngineIdentity (cr_Primary request)) in
      if primaryServerUUID \<noteq> [] \<and> serverUUID (rs_SourceIdentity (di_Replication i)) = primaryServerUUID
      then mk_check ''replication_source'' CheckPass ''candidate replicates from the current primary''
      else mk_check ''replication_source'' CheckFail ''candidate replication source does not match the current primary'')"

text \<open>The lag check with the lag it records.\<close>

definition lagVerdict :: "CandidateRequest \<Rightarrow> DatabaseInstance \<Rightarrow> int \<times> Check" where
  "lagVerdict request i =
     (let lag = rs_LagSeconds (di_Replication i) in
      if sourceReconnect request i \<and> lag = None
      then (0, mk_check ''replication_lag'' CheckWarn ''replication lag is unavailable after source loss; GTID position determines data-loss risk'')
      else case lag of
          None \<Rightarrow> (0, mk_check ''replication_lag'' CheckFail ''candidate replication lag is unknown or invalid'')
        | Some v \<Rightarrow>
            if v < 0 then (0, mk_check ''replication_lag'' CheckFail ''candidate replication lag is unknown or invalid'')
            else (v,
              if v > cp_MaximumLagSeconds (cr_Policy request)
              then mk_check ''replication_lag'' CheckFail (''candidate lag '' @ decimal_int v @ ''s exceeds policy maximum '' @ decimal_int (cp_MaximumLagSeconds (cr_Policy request)) @ ''s'')
              else if v > 0 then mk_check ''replication_lag'' CheckWarn (''candidate is '' @ decimal_int v @ ''s behind the current primary'')
              else mk_check ''replication_lag'' CheckPass ''candidate has zero observed replication lag''))"

definition gtidModeCheck :: "CandidateRequest \<Rightarrow> DatabaseInstance \<Rightarrow> Check" where
  "gtidModeCheck request i =
     (if \<not> cp_RequireGTID (cr_Policy request) \<or>
         EqualFold (TrimSpace (mget (di_EngineMetadata (cr_Primary request)) ''gtid_mode'')) ''ON'' \<and> EqualFold (TrimSpace (mget (di_EngineMetadata i) ''gtid_mode'')) ''ON''
      then mk_check ''gtid_mode'' CheckPass ''GTID mode satisfies candidate policy''
      else mk_check ''gtid_mode'' CheckFail ''GTID mode is required on the primary and candidate'')"

text \<open>The GTID check with the number of missing transactions and the data-loss risk it records.\<close>

definition gtidVerdict :: "CandidateRequest \<Rightarrow> DatabaseInstance \<Rightarrow> uint64 \<times> string \<times> Check" where
  "gtidVerdict request i =
     (let primary = cr_Primary request; name = ''gtid_consistency'' in
      case (ParseGTIDSet (mget (di_EngineMetadata primary) ''gtid_executed''), ParseGTIDSet (rs_ExecutedPosition (di_Replication i))) of
        (Inr primaryGTID, Inr candidateGTID) \<Rightarrow>
          (case CompareGTIDSets primaryGTID candidateGTID of
             Inl _ \<Rightarrow> (0, ''unknown'', mk_check name CheckFail ''primary or candidate GTID transaction count exceeds supported limits'')
           | Inr comparison \<Rightarrow>
               let missing = MissingTransactions comparison; errant = ErrantTransactions comparison;
                   risk = (if missing > 0 then decimal (unat missing) @ '' missing transactions'' else if errant = 0 then ''none'' else ''unknown'')
               in if errant > 0
                  then (case LikelyTemporalSamplingSkew primaryGTID candidateGTID (serverUUID (di_EngineIdentity primary)) (h_ObservedAt (di_Health primary)) (h_ObservedAt (di_Health i)) of
                      Inl _ \<Rightarrow> (missing, risk, mk_check name CheckFail ''primary or candidate GTID transaction count exceeds supported limits'')
                    | Inr temporalSkew \<Rightarrow>
                        if temporalSkew
                        then (missing, ''live GTID validation required'',
                              mk_check name CheckWarn ''candidate has source-owned GTIDs from a later sample; live validation is required before execution'')
                        else (missing, risk, mk_check name CheckFail (''candidate has '' @ decimal (unat errant) @ '' errant transactions'')))
                  else if missing > 0 then (missing, risk, mk_check name CheckWarn (''candidate is missing '' @ decimal (unat missing) @ '' transactions''))
                  else (missing, risk, mk_check name CheckPass ''candidate has no missing or errant transactions''))
      | _ \<Rightarrow> (0, ''unknown'', mk_check name CheckFail ''primary or candidate GTID position is invalid''))"

definition versionOf :: "DatabaseInstance \<Rightarrow> string" where
  "versionOf i = TrimSpace (mget (di_EngineMetadata i) ''version'')"

definition versionVerdict :: "CandidateRequest \<Rightarrow> DatabaseInstance \<Rightarrow> bool \<times> Check" where
  "versionVerdict request i =
     (case (mysqlReleaseFamily (versionOf (cr_Primary request)), mysqlReleaseFamily (versionOf i)) of
        (Some primaryFamily, Some candidateFamily) \<Rightarrow>
          if primaryFamily = candidateFamily
          then (versionOf (cr_Primary request) = versionOf i, mk_check ''version_compatibility'' CheckPass (''candidate is in MySQL release family '' @ candidateFamily))
          else (False, mk_check ''version_compatibility'' CheckFail ''candidate MySQL release family is incompatible with the current primary'')
      | _ \<Rightarrow> (False, mk_check ''version_compatibility'' CheckFail ''candidate MySQL release family is incompatible with the current primary''))"

definition coverageCheck :: "bool \<Rightarrow> Check" where
  "coverageCheck incompleteCoverage =
     (if incompleteCoverage then mk_check ''probe_coverage'' CheckWarn ''one or more explicit inventory probes are incomplete''
      else mk_check ''probe_coverage'' CheckPass ''explicit probe observations are complete'')"

definition mysqlChecks :: "CandidateRequest \<Rightarrow> DatabaseInstance \<Rightarrow> bool \<Rightarrow> Check list" where
  "mysqlChecks request i incompleteCoverage =
     [inventoryCheck request i, roleCheck i, reachabilityCheck request i, eligibilityCheck request i, readOnlyCheck i, maintenanceCheck i, threadsCheck request i,
      sqlErrorCheck i, sourceCheck request i, snd (lagVerdict request i), gtidModeCheck request i, snd (snd (gtidVerdict request i)),
      snd (versionVerdict request i), coverageCheck incompleteCoverage]"

definition mysql_evaluateCandidate :: "CandidateRequest \<Rightarrow> bool \<Rightarrow> DatabaseInstance \<Rightarrow> mysqlEvaluation" where
  "mysql_evaluateCandidate request incompleteCoverage i =
     (let (missing, risk, _) = gtidVerdict request i;
          result = fold addCheck (mysqlChecks request i incompleteCoverage) (newAssessment i risk, False)
      in \<lparr>me_assessment = riskLevel result, me_hasWarnings = snd result, me_missingTransactions = missing, me_lagSeconds = fst (lagVerdict request i),
          me_exactVersion = fst (versionVerdict request i)\<rparr>)"

definition mysqlLess :: "mysqlEvaluation \<Rightarrow> mysqlEvaluation \<Rightarrow> bool" where
  "mysqlLess left right =
     (let le = ca_Eligible (me_assessment left); re = ca_Eligible (me_assessment right); li = ca_InstanceID (me_assessment left); ri = ca_InstanceID (me_assessment right) in
      if le \<noteq> re then le
      else if \<not> le then li < ri
      else if me_hasWarnings left \<noteq> me_hasWarnings right then \<not> me_hasWarnings left
      else if me_missingTransactions left \<noteq> me_missingTransactions right then me_missingTransactions left < me_missingTransactions right
      else if me_lagSeconds left \<noteq> me_lagSeconds right then me_lagSeconds left < me_lagSeconds right
      else if me_exactVersion left \<noteq> me_exactVersion right then me_exactVersion left
      else li < ri)"

definition mysqlKey :: "mysqlEvaluation \<Rightarrow> bool \<times> (bool \<times> uint64 \<times> int \<times> bool) \<times> rid" where
  "mysqlKey e = (\<not> ca_Eligible (me_assessment e),
     if ca_Eligible (me_assessment e) then (me_hasWarnings e, me_missingTransactions e, me_lagSeconds e, \<not> me_exactVersion e) else (False, 0, 0, False),
     ca_InstanceID (me_assessment e))"

text \<open>\<^verbatim>\<open>sort.Slice\<close> with that comparison; equal keys mean equal identifiers.\<close>

definition mysql_evaluateCandidates :: "CandidateRequest \<Rightarrow> CandidateAssessment list" where
  "mysql_evaluateCandidates request =
     (let incompleteCoverage = hasIncompleteProbeCoverage (cr_Probes request) (cr_ObservedAt request)
      in rank_loop 1 (map me_assessment (sort_key mysqlKey (map (mysql_evaluateCandidate request incompleteCoverage) (cr_Instances request)))))"

section \<open>PostgreSQL\<close>

record postgresqlEvaluation =
  pe_assessment :: CandidateAssessment
  pe_replayLSN :: uint64
  pe_lagSeconds :: int
  pe_warnings :: bool

definition parseLSN :: "string \<Rightarrow> uint64 option" where
  "parseLSN val =
     (case Split (CHR ''/'') (TrimSpace val) of
        [highPart, lowPart] \<Rightarrow>
          if highPart = [] \<or> lowPart = [] then None
          else (case ParseHex32 highPart of
              None \<Rightarrow> None
            | Some high \<Rightarrow> (case ParseHex32 lowPart of None \<Rightarrow> None | Some low \<Rightarrow> Some (push_bit 32 high OR low)))
      | _ \<Rightarrow> None)"

definition parsePostgreSQLBoolean :: "string \<Rightarrow> bool option" where
  "parsePostgreSQLBoolean val =
     (let v = ToLower (TrimSpace val) in
      if v \<in> {''true'', ''t'', ''on'', ''1'', ''yes''} then Some True
      else if v \<in> {''false'', ''f'', ''off'', ''0'', ''no''} then Some False else None)"

definition hasCurrentHealthyProbe :: "ProbeStatus list \<Rightarrow> rid \<Rightarrow> go_time \<Rightarrow> bool" where
  "hasCurrentHealthyProbe probes instanceID observedAt =
     (if IsZero observedAt then False
      else list_ex (\<lambda>p. pb_InstanceID p = instanceID \<and> pb_DiscoveryObservedAt p = observedAt \<and> h_State (pb_Health p) = HealthHealthy) probes)"

definition hasCurrentReachableProbe :: "ProbeStatus list \<Rightarrow> rid \<Rightarrow> go_time \<Rightarrow> bool" where
  "hasCurrentReachableProbe probes instanceID observedAt =
     (if IsZero observedAt then False
      else list_ex (\<lambda>p. pb_InstanceID p = instanceID \<and> pb_DiscoveryObservedAt p = observedAt \<and>
             (h_State (pb_Health p) = HealthHealthy \<or> h_State (pb_Health p) = HealthDegraded)) probes)"

definition postgresqlStableInstanceIdentity :: "DatabaseInstance \<Rightarrow> string \<Rightarrow> bool" where
  "postgresqlStableInstanceIdentity i systemIdentifier \<longleftrightarrow> ValidResourceID (di_ResourceID i) \<and> di_Engine i = EnginePostgreSQL \<and>
     ValidResourceID (TrimSpace (mget (di_EngineIdentity i) ''resource_id'')) \<and> TrimSpace systemIdentifier \<noteq> [] \<and>
     mget (di_EngineIdentity i) ''system_identifier'' = systemIdentifier"

definition postgresqlNativeNodeID :: "DatabaseInstance \<Rightarrow> rid" where
  "postgresqlNativeNodeID i = (let val = TrimSpace (mget (di_EngineIdentity i) ''resource_id'') in if \<not> ValidResourceID val then [] else val)"

definition postgresqlSourceIdentityMatches :: "metadata \<Rightarrow> DatabaseInstance \<Rightarrow> string \<Rightarrow> bool" where
  "postgresqlSourceIdentityMatches source expected systemIdentifier \<longleftrightarrow> postgresqlNativeNodeID expected \<noteq> [] \<and>
     mget source ''resource_id'' = postgresqlNativeNodeID expected \<and> TrimSpace systemIdentifier \<noteq> [] \<and> mget source ''system_identifier'' = systemIdentifier"

definition timelineOf :: "DatabaseInstance \<Rightarrow> uint64 option" where
  "timelineOf i = ParseUint32 (TrimSpace (mget (di_EngineMetadata i) ''timeline_id''))"

definition sameTimeline :: "DatabaseInstance \<Rightarrow> DatabaseInstance \<Rightarrow> bool" where
  "sameTimeline primary candidate = (case (timelineOf primary, timelineOf candidate) of (Some p, Some c) \<Rightarrow> p > 0 \<and> p = c | _ \<Rightarrow> False)"

definition firstPosition :: "string \<Rightarrow> DatabaseInstance \<Rightarrow> string \<Rightarrow> string" where
  "firstPosition position i key = (if TrimSpace position = [] then TrimSpace (mget (di_EngineMetadata i) key) else TrimSpace position)"

definition replayOf :: "DatabaseInstance \<Rightarrow> uint64 option" where
  "replayOf i = parseLSN (firstPosition (rs_ExecutedPosition (di_Replication i)) i ''replay_lsn'')"

definition primaryLSN :: "DatabaseInstance \<Rightarrow> uint64 option" where
  "primaryLSN primary = parseLSN (TrimSpace (mget (di_EngineMetadata primary) ''current_lsn''))"

definition postgresqlSafeSourceLossEvidence :: "string \<Rightarrow> DatabaseInstance \<Rightarrow> DatabaseInstance \<Rightarrow> bool" where
  "postgresqlSafeSourceLossEvidence systemIdentifier primary candidate =
     (let r = di_Replication candidate; m = di_EngineMetadata candidate; system = TrimSpace systemIdentifier in
      if \<not> primaryDown primary \<or> \<not> (di_Role primary = RolePrimary \<or> di_Role primary = RoleUnknown) \<or> di_Role candidate \<noteq> RoleStandby \<or>
         h_State (di_Health candidate) \<noteq> HealthHealthy \<and> h_State (di_Health candidate) \<noteq> HealthDegraded \<or>
         di_Engine candidate \<noteq> EnginePostgreSQL \<or> di_Engine primary \<noteq> EnginePostgreSQL \<or> di_ClusterID candidate \<noteq> di_ClusterID primary \<or> di_Maintenance candidate
      then False
      else if \<not> postgresqlStableInstanceIdentity primary system \<or> \<not> postgresqlStableInstanceIdentity candidate system \<or>
              \<not> postgresqlSourceIdentityMatches (rs_SourceIdentity r) primary system then False
      else if parsePostgreSQLBoolean (mget m ''in_recovery'') \<noteq> Some True \<or> parsePostgreSQLBoolean (mget m ''transaction_read_only'') \<noteq> Some True \<or>
              parsePostgreSQLBoolean (mget m ''replay_paused'') \<noteq> Some False then False
      else if rs_IOThread r \<noteq> ThreadStopped \<and> rs_IOThread r \<noteq> ThreadConnecting \<or> rs_SQLThread r \<noteq> ThreadRunning \<or> TrimSpace (rs_LastSQLError r) \<noteq> [] \<or>
              rs_LagSeconds r \<noteq> Some 0 then False
      else if \<not> sameTimeline primary candidate then False
      else case (primaryLSN primary, parseLSN (firstPosition (rs_RetrievedPosition r) candidate ''receive_lsn''), replayOf candidate) of
          (Some primaryEnd, Some receiveLSN, Some replayLSN) \<Rightarrow> receiveLSN = replayLSN \<and> replayLSN \<ge> primaryEnd
        | _ \<Rightarrow> False)"

definition sourceDisconnected :: "CandidateRequest \<Rightarrow> DatabaseInstance \<Rightarrow> bool" where
  "sourceDisconnected request i \<longleftrightarrow> cp_AllowSourceDisconnected (cr_Policy request) \<and> hasCurrentReachableProbe (cr_Probes request) (di_ResourceID i) (cr_ObservedAt request) \<and>
     postgresqlSafeSourceLossEvidence (mget (cl_EngineIdentity (cr_Cluster request)) ''system_identifier'') (cr_Primary request) i"

definition pg_inventoryCheck :: "CandidateRequest \<Rightarrow> DatabaseInstance \<Rightarrow> Check" where
  "pg_inventoryCheck request i =
     (if ValidResourceID (di_ResourceID i) \<and> di_ClusterID i = cl_ResourceID (cr_Cluster request) \<and> di_Engine i = EnginePostgreSQL \<and> cl_Engine (cr_Cluster request) = EnginePostgreSQL
      then mk_check ''inventory_membership'' CheckPass ''candidate belongs to the selected PostgreSQL cluster inventory''
      else mk_check ''inventory_membership'' CheckFail ''candidate is outside the selected PostgreSQL cluster inventory'')"

definition pg_probeCheck :: "CandidateRequest \<Rightarrow> DatabaseInstance \<Rightarrow> Check" where
  "pg_probeCheck request i =
     (if hasCurrentHealthyProbe (cr_Probes request) (di_ResourceID i) (cr_ObservedAt request)
      then mk_check ''probe_evidence'' CheckPass ''current bound probe confirms candidate reachability''
      else if sourceDisconnected request i
      then mk_check ''probe_evidence'' CheckWarn ''current bound probe confirms the standby is reachable after primary source loss''
      else mk_check ''probe_evidence'' CheckFail ''current bound probe evidence is missing or stale'')"

definition pg_roleCheck :: "DatabaseInstance \<Rightarrow> Check" where
  "pg_roleCheck i = (if di_Role i = RoleStandby then mk_check ''candidate_role'' CheckPass ''candidate is a PostgreSQL standby''
     else mk_check ''candidate_role'' CheckFail ''candidate is not a PostgreSQL standby'')"

definition pg_healthCheck :: "CandidateRequest \<Rightarrow> DatabaseInstance \<Rightarrow> Check" where
  "pg_healthCheck request i =
     (if h_State (di_Health i) = HealthHealthy \<and> di_PromotionEligible i then mk_check ''candidate_health'' CheckPass ''standby health and promotion evidence are current''
      else if sourceDisconnected request i
      then mk_check ''candidate_health'' CheckWarn ''failover eligibility is derived from current read-only recovery and WAL evidence''
      else mk_check ''candidate_health'' CheckFail ''standby is not healthy or promotion eligible'')"

definition pg_systemCheck :: "CandidateRequest \<Rightarrow> DatabaseInstance \<Rightarrow> Check" where
  "pg_systemCheck request i =
     (let clusterSystemID = TrimSpace (mget (cl_EngineIdentity (cr_Cluster request)) ''system_identifier'');
          primarySystemID = TrimSpace (mget (di_EngineIdentity (cr_Primary request)) ''system_identifier'');
          candidateSystemID = TrimSpace (mget (di_EngineIdentity i) ''system_identifier'') in
      if clusterSystemID \<noteq> [] \<and> clusterSystemID = primarySystemID \<and> primarySystemID = candidateSystemID
      then mk_check ''system_identifier'' CheckPass ''cluster, primary, and candidate share one PostgreSQL system identifier''
      else mk_check ''system_identifier'' CheckFail ''PostgreSQL system identifiers do not match'')"

definition pg_sourceCheck :: "CandidateRequest \<Rightarrow> DatabaseInstance \<Rightarrow> Check" where
  "pg_sourceCheck request i =
     (let primaryNodeID = ToLower (TrimSpace (mget (di_EngineIdentity (cr_Primary request)) ''resource_id''));
          upstreamNodeID = ToLower (TrimSpace (mget (rs_SourceIdentity (di_Replication i)) ''resource_id'')) in
      if ValidResourceID primaryNodeID \<and> upstreamNodeID = primaryNodeID
      then mk_check ''replication_source'' CheckPass ''standby follows the current primary identity''
      else mk_check ''replication_source'' CheckFail ''standby upstream identity does not match the current primary'')"

definition pg_streamingCheck :: "CandidateRequest \<Rightarrow> DatabaseInstance \<Rightarrow> Check" where
  "pg_streamingCheck request i =
     (if rs_IOThread (di_Replication i) = ThreadRunning \<and> rs_SQLThread (di_Replication i) = ThreadRunning \<and>
         \<not> EqualFold (TrimSpace (mget (di_EngineMetadata i) ''replay_paused'')) ''true''
      then mk_check ''wal_streaming'' CheckPass ''WAL receiver and replay are active''
      else if sourceDisconnected request i
      then mk_check ''wal_streaming'' CheckWarn ''WAL replay is complete while the receiver is stopped by confirmed primary source loss''
      else mk_check ''wal_streaming'' CheckFail ''WAL receiver or replay is not active'')"

definition pg_timelineCheck :: "CandidateRequest \<Rightarrow> DatabaseInstance \<Rightarrow> Check" where
  "pg_timelineCheck request i =
     (if sameTimeline (cr_Primary request) i then mk_check ''timeline'' CheckPass ''candidate is on the current primary timeline''
      else mk_check ''timeline'' CheckFail ''candidate timeline does not match the current primary'')"

text \<open>The position check with the replay position and the data-loss risk it records.\<close>

definition pg_positionVerdict :: "CandidateRequest \<Rightarrow> DatabaseInstance \<Rightarrow> uint64 \<times> string \<times> Check" where
  "pg_positionVerdict request i =
     (case (replayOf i, primaryLSN (cr_Primary request)) of
        (Some replay, Some primaryEnd) \<Rightarrow>
          if replay < primaryEnd
          then let risk = decimal (unat (primaryEnd - replay)) @ '' WAL bytes behind'' in (replay, risk, mk_check ''wal_position'' CheckWarn risk)
          else if replay = primaryEnd then (replay, ''none'', mk_check ''wal_position'' CheckPass ''candidate replay position matches the primary sample'')
          else if sourceDisconnected request i
          then (replay, ''none'', mk_check ''wal_position'' CheckPass ''candidate replay position is at or beyond the last primary sample'')
          else (replay, ''unknown'', mk_check ''wal_position'' CheckFail ''candidate replay position is ahead of the primary sample'')
      | _ \<Rightarrow> (0, ''unknown'', mk_check ''wal_position'' CheckFail ''primary or candidate WAL position is unavailable or invalid''))"

definition pg_lagVerdict :: "CandidateRequest \<Rightarrow> DatabaseInstance \<Rightarrow> int \<times> Check" where
  "pg_lagVerdict request i =
     (case rs_LagSeconds (di_Replication i) of
        None \<Rightarrow> (0, mk_check ''replication_lag'' CheckFail ''candidate replication lag is unknown'')
      | Some v \<Rightarrow>
          if v < 0 then (0, mk_check ''replication_lag'' CheckFail ''candidate replication lag is unknown'')
          else (v,
            if v > cp_MaximumLagSeconds (cr_Policy request)
            then mk_check ''replication_lag'' CheckFail (''candidate lag '' @ decimal_int v @ ''s exceeds policy maximum '' @ decimal_int (cp_MaximumLagSeconds (cr_Policy request)) @ ''s'')
            else if v > 0 then mk_check ''replication_lag'' CheckWarn (''candidate replay is delayed by '' @ decimal_int v @ ''s'')
            else mk_check ''replication_lag'' CheckPass ''candidate has zero observed replay delay''))"

definition postgresqlChecks :: "CandidateRequest \<Rightarrow> DatabaseInstance \<Rightarrow> Check list" where
  "postgresqlChecks request i =
     [pg_inventoryCheck request i, pg_probeCheck request i, pg_roleCheck i, pg_healthCheck request i, maintenanceCheck i, pg_systemCheck request i, pg_sourceCheck request i,
      pg_streamingCheck request i, pg_timelineCheck request i, snd (snd (pg_positionVerdict request i)), snd (pg_lagVerdict request i)]"

definition pg_evaluateCandidate :: "CandidateRequest \<Rightarrow> DatabaseInstance \<Rightarrow> postgresqlEvaluation" where
  "pg_evaluateCandidate request i =
     (let (replay, risk, _) = pg_positionVerdict request i;
          result = fold addCheck (postgresqlChecks request i) (newAssessment i risk, False)
      in \<lparr>pe_assessment = riskLevel result, pe_replayLSN = replay, pe_lagSeconds = fst (pg_lagVerdict request i), pe_warnings = snd result\<rparr>)"

definition pgLess :: "postgresqlEvaluation \<Rightarrow> postgresqlEvaluation \<Rightarrow> bool" where
  "pgLess left right =
     (let le = ca_Eligible (pe_assessment left); re = ca_Eligible (pe_assessment right); li = ca_InstanceID (pe_assessment left); ri = ca_InstanceID (pe_assessment right) in
      if le \<noteq> re then le
      else if \<not> le then li < ri
      else if pe_replayLSN left \<noteq> pe_replayLSN right then pe_replayLSN left > pe_replayLSN right
      else if pe_lagSeconds left \<noteq> pe_lagSeconds right then pe_lagSeconds left < pe_lagSeconds right
      else li < ri)"

definition pgKey :: "postgresqlEvaluation \<Rightarrow> bool \<times> (int \<times> int) \<times> rid" where
  "pgKey e = (\<not> ca_Eligible (pe_assessment e), if ca_Eligible (pe_assessment e) then (- uint (pe_replayLSN e), pe_lagSeconds e) else (0, 0), ca_InstanceID (pe_assessment e))"

definition pg_evaluateCandidates :: "CandidateRequest \<Rightarrow> CandidateAssessment list" where
  "pg_evaluateCandidates request = rank_loop 1 (map pe_assessment (sort_key pgKey (map (pg_evaluateCandidate request) (cr_Instances request))))"

section \<open>The selector of automatic recovery\<close>

datatype selector_error =
  SelectorUnconfigured | SelectorEngine | SelectorScope | SelectorEmpty | SelectorNoSource | SelectorForeign | SelectorOtherPrimary | SelectorSourceMissing
  | SelectorSourceHealthy | SelectorEvaluator string | SelectorNone

record DatabaseCandidateSelector =
  sl_evaluator :: "(CandidateRequest \<Rightarrow> string + CandidateAssessment list) option"
  sl_engine :: Engine
  sl_policy :: CandidatePolicy

definition NewMySQLCandidateSelector :: "(CandidateRequest \<Rightarrow> string + CandidateAssessment list) option \<Rightarrow> DatabaseCandidateSelector" where
  "NewMySQLCandidateSelector evaluator = \<lparr>sl_evaluator = evaluator, sl_engine = EngineMySQL,
     sl_policy = \<lparr>cp_MaximumLagSeconds = 30, cp_RequireGTID = True, cp_AllowSourceDisconnected = True\<rparr>\<rparr>"

definition NewPostgreSQLCandidateSelector :: "(CandidateRequest \<Rightarrow> string + CandidateAssessment list) option \<Rightarrow> DatabaseCandidateSelector" where
  "NewPostgreSQLCandidateSelector evaluator = \<lparr>sl_evaluator = evaluator, sl_engine = EnginePostgreSQL,
     sl_policy = \<lparr>cp_MaximumLagSeconds = 0, cp_RequireGTID = False, cp_AllowSourceDisconnected = True\<rparr>\<rparr>"

text \<open>The adapters' entry points never fail.\<close>

definition mysql_EvaluateCandidates :: "CandidateRequest \<Rightarrow> string + CandidateAssessment list" where
  "mysql_EvaluateCandidates request = Inr (mysql_evaluateCandidates request)"

definition pg_EvaluateCandidates :: "CandidateRequest \<Rightarrow> string + CandidateAssessment list" where
  "pg_EvaluateCandidates request = Inr (pg_evaluateCandidates request)"

fun split_loop :: "DatabaseCluster \<Rightarrow> rid \<Rightarrow> DatabaseInstance list \<Rightarrow> DatabaseInstance \<Rightarrow> DatabaseInstance list \<Rightarrow> selector_error + DatabaseInstance \<times> DatabaseInstance list" where
  "split_loop cluster sourceID [] primary candidates = Inr (primary, candidates)"
| "split_loop cluster sourceID (i # is) primary candidates =
     (if \<not> ValidResourceID (di_ResourceID i) \<or> di_ClusterID i \<noteq> cl_ResourceID cluster \<or> di_Engine i \<noteq> cl_Engine cluster then Inl SelectorForeign
      else if di_ResourceID i = sourceID then split_loop cluster sourceID is i candidates
      else if di_Role i = RolePrimary then Inl SelectorOtherPrimary
      else split_loop cluster sourceID is primary (candidates @ [i]))"

definition selector_Select :: "DatabaseCandidateSelector \<Rightarrow> DatabaseCluster \<Rightarrow> TopologySnapshot \<Rightarrow> rid \<Rightarrow> selector_error + rid" where
  "selector_Select selector cluster snap sourceID =
     (case sl_evaluator selector of
        None \<Rightarrow> Inl SelectorUnconfigured
      | Some evaluator \<Rightarrow>
          if cl_Engine cluster \<noteq> sl_engine selector then Inl SelectorEngine
          else if \<not> ValidResourceID (cl_ResourceID cluster) \<or> ts_ClusterID snap \<noteq> cl_ResourceID cluster then Inl SelectorScope
          else if ts_Instances snap = [] then Inl SelectorEmpty
          else if \<not> ValidResourceID sourceID then Inl SelectorNoSource
          else case split_loop cluster sourceID (ts_Instances snap) zeroInstance [] of
              Inl e \<Rightarrow> Inl e
            | Inr (primary, candidates) \<Rightarrow>
                if \<not> ValidResourceID (di_ResourceID primary) then Inl SelectorSourceMissing
                else if h_State (di_Health primary) \<noteq> HealthUnhealthy \<and> h_State (di_Health primary) \<noteq> HealthUnknown then Inl SelectorSourceHealthy
                else case evaluator \<lparr>cr_Cluster = cluster, cr_Primary = primary, cr_Instances = candidates, cr_Links = ts_Links snap, cr_Probes = ts_Probes snap,
                       cr_ObservedAt = ts_ObservedAt snap, cr_Policy = sl_policy selector\<rparr> of
                    Inl e \<Rightarrow> Inl (SelectorEvaluator e)
                  | Inr assessments \<Rightarrow>
                     (case List.find (\<lambda>a. ca_Eligible a \<and> ca_Rank a = 1) assessments of
                        None \<Rightarrow> Inl SelectorNone
                      | Some a \<Rightarrow> Inr (ca_InstanceID a)))"

section \<open>Evaluations\<close>

abbreviation passes :: "Check list \<Rightarrow> bool" where
  "passes cs \<equiv> list_all (\<lambda>c. ck_Status c \<noteq> CheckFail) cs"

abbreviation warns :: "Check list \<Rightarrow> bool" where
  "warns cs \<equiv> list_ex (\<lambda>c. ck_Status c = CheckWarn) cs"

lemma fold_addCheck:
  "fold addCheck cs (a, w) = (a\<lparr>ca_Checks := ca_Checks a @ cs, ca_Eligible := ca_Eligible a \<and> passes cs\<rparr>, w \<or> warns cs)"
  by (induction cs arbitrary: a w) (auto simp: addCheck_def)

lemma riskLevel_sel [simp]: "ca_InstanceID (riskLevel (a, w)) = ca_InstanceID a" "ca_Eligible (riskLevel (a, w)) = ca_Eligible a"
    "ca_Rank (riskLevel (a, w)) = ca_Rank a" "ca_Checks (riskLevel (a, w)) = ca_Checks a"
    "ca_RiskLevel a = ''low'' \<Longrightarrow> ca_RiskLevel (riskLevel (a, w)) = (if \<not> ca_Eligible a then ''blocked'' else if w then ''warning'' else ''low'')"
  by (simp_all add: riskLevel_def)

lemma mysql_evaluation [simp]:
  "ca_InstanceID (me_assessment (mysql_evaluateCandidate request cov i)) = di_ResourceID i"
  "ca_Rank (me_assessment (mysql_evaluateCandidate request cov i)) = 0"
  "ca_Checks (me_assessment (mysql_evaluateCandidate request cov i)) = mysqlChecks request i cov"
  "ca_Eligible (me_assessment (mysql_evaluateCandidate request cov i)) = passes (mysqlChecks request i cov)"
  "ca_RiskLevel (me_assessment (mysql_evaluateCandidate request cov i)) =
     (if \<not> passes (mysqlChecks request i cov) then ''blocked'' else if warns (mysqlChecks request i cov) then ''warning'' else ''low'')"
  "me_hasWarnings (mysql_evaluateCandidate request cov i) = warns (mysqlChecks request i cov)"
  "me_missingTransactions (mysql_evaluateCandidate request cov i) = fst (gtidVerdict request i)"
  "me_lagSeconds (mysql_evaluateCandidate request cov i) = fst (lagVerdict request i)"
  by (cases "gtidVerdict request i"; simp add: mysql_evaluateCandidate_def fold_addCheck newAssessment_def)+

lemma pg_evaluation [simp]:
  "ca_InstanceID (pe_assessment (pg_evaluateCandidate request i)) = di_ResourceID i"
  "ca_Rank (pe_assessment (pg_evaluateCandidate request i)) = 0"
  "ca_Checks (pe_assessment (pg_evaluateCandidate request i)) = postgresqlChecks request i"
  "ca_Eligible (pe_assessment (pg_evaluateCandidate request i)) = passes (postgresqlChecks request i)"
  "ca_RiskLevel (pe_assessment (pg_evaluateCandidate request i)) =
     (if \<not> passes (postgresqlChecks request i) then ''blocked'' else if warns (postgresqlChecks request i) then ''warning'' else ''low'')"
  "pe_replayLSN (pg_evaluateCandidate request i) = fst (pg_positionVerdict request i)"
  "pe_lagSeconds (pg_evaluateCandidate request i) = fst (pg_lagVerdict request i)"
  by (cases "pg_positionVerdict request i"; simp add: pg_evaluateCandidate_def fold_addCheck newAssessment_def)+

text \<open>The keys order the evaluations as the comparisons of the source do.\<close>

lemma mysqlLess_key: "mysqlLess a b \<longleftrightarrow> mysqlKey a < mysqlKey b"
  by (auto simp: mysqlLess_def mysqlKey_def Let_def less_prod_simp)

lemma pgLess_key: "pgLess a b \<longleftrightarrow> pgKey a < pgKey b"
  by (auto simp: pgLess_def pgKey_def Let_def less_prod_simp word_less_def word_uint_eq_iff)

section \<open>What a ranking promises\<close>

lemma map_rank_loop [simp]: "map ca_InstanceID (rank_loop n as) = map ca_InstanceID as" "map ca_Eligible (rank_loop n as) = map ca_Eligible as"
    "map ca_Checks (rank_loop n as) = map ca_Checks as" "map ca_RiskLevel (rank_loop n as) = map ca_RiskLevel as" "length (rank_loop n as) = length as"
  by (induction as arbitrary: n) simp_all

lemma rank_loop_eligible: "list_all ca_Eligible as \<Longrightarrow> k < length as \<Longrightarrow> rank_loop n as ! k = (as ! k)\<lparr>ca_Rank := n + int k\<rparr>"
  by (induction as arbitrary: n k) (auto simp: nth_Cons split: nat.splits)

lemma rank_loop_blocked: "list_all (Not \<circ> ca_Eligible) as \<Longrightarrow> rank_loop n as = as"
  by (induction as) auto

lemma rank_loop_append: "list_all ca_Eligible as \<Longrightarrow> rank_loop n (as @ bs) = rank_loop n as @ rank_loop (n + int (length as)) bs"
  by (induction as arbitrary: n) (auto simp: algebra_simps)

lemma sorted_partition:
  assumes "sorted (map f xs)" "\<And>a b. P a \<Longrightarrow> \<not> P b \<Longrightarrow> f a < (f b :: 'k::linorder)"
  shows "xs = filter P xs @ filter (Not \<circ> P) xs"
  using assms(1)
proof (induction xs)
  case (Cons x xs)
  show ?case
  proof (cases "P x")
    case True
    with Cons show ?thesis by simp
  next
    case False
    have "\<not> P y" if "y \<in> set xs" for y using Cons(2) that assms(2) [of y x] False by (auto simp: not_le [symmetric])
    with False Cons show ?thesis by (auto simp: filter_empty_conv comp_def intro!: filter_True [symmetric])
  qed
qed simp

lemma split_loop_ok:
  "split_loop cluster source is p cs = Inr (primary, cs') \<Longrightarrow>
   cs' = cs @ filter (\<lambda>i. di_ResourceID i \<noteq> source) is \<and> (primary = p \<or> primary \<in> set is \<and> di_ResourceID primary = source) \<and>
   (\<forall>j \<in> set is. di_ResourceID j \<noteq> source \<longrightarrow> di_Role j \<noteq> RolePrimary)"
proof (induction "is" arbitrary: p cs)
  case (Cons a "is")
  from Cons(2) Cons(1) [of a cs] Cons(1) [of p "cs @ [a]"] show ?case by (auto split: if_splits)
qed simp

locale candidate_ranking =
  fixes evaluate :: "CandidateRequest \<Rightarrow> DatabaseInstance \<Rightarrow> 'e" and assessment :: "'e \<Rightarrow> CandidateAssessment" and key :: "'e \<Rightarrow> 'k::linorder"
    and evaluateCandidates :: "CandidateRequest \<Rightarrow> CandidateAssessment list"
  assumes ranked: "evaluateCandidates request = rank_loop 1 (map assessment (sort_key key (map (evaluate request) (cr_Instances request))))"
    and eligible_first: "ca_Eligible (assessment a) \<Longrightarrow> \<not> ca_Eligible (assessment b) \<Longrightarrow> key a < key b"
    and subject: "ca_InstanceID (assessment (evaluate request i)) = di_ResourceID i"
    and unranked: "ca_Rank (assessment (evaluate request i)) = 0"
    and judged: "ca_Eligible (assessment (evaluate request i)) \<longleftrightarrow> passes (ca_Checks (assessment (evaluate request i)))"
    and risky: "ca_RiskLevel (assessment (evaluate request i)) =
      (if \<not> passes (ca_Checks (assessment (evaluate request i))) then ''blocked'' else if warns (ca_Checks (assessment (evaluate request i))) then ''warning'' else ''low'')"
begin

abbreviation order :: "CandidateRequest \<Rightarrow> 'e list" where
  "order request \<equiv> sort_key key (map (evaluate request) (cr_Instances request))"

abbreviation good :: "CandidateRequest \<Rightarrow> 'e list" where
  "good request \<equiv> filter (ca_Eligible \<circ> assessment) (order request)"

abbreviation bad :: "CandidateRequest \<Rightarrow> 'e list" where
  "bad request \<equiv> filter (Not \<circ> (ca_Eligible \<circ> assessment)) (order request)"

lemma order_split: "order request = good request @ bad request"
  by (rule sorted_partition [of key]) (simp_all add: eligible_first)

lemma result_split: "evaluateCandidates request = rank_loop 1 (map assessment (good request)) @ map assessment (bad request)"
proof -
  have "evaluateCandidates request = rank_loop 1 (map assessment (good request) @ map assessment (bad request))"
    unfolding ranked by (subst order_split) simp
  then show ?thesis by (simp add: rank_loop_append list_all_iff rank_loop_blocked)
qed

lemma order_mem: "e \<in> set (order request) \<longleftrightarrow> (\<exists>i \<in> set (cr_Instances request). e = evaluate request i)"
  by auto

lemma result_ids: "mset (map ca_InstanceID (evaluateCandidates request)) = mset (map di_ResourceID (cr_Instances request))"
proof -
  have "mset (map ca_InstanceID (evaluateCandidates request)) = image_mset (ca_InstanceID \<circ> assessment) (mset (order request))"
    unfolding ranked by (simp add: multiset.map_comp)
  also have "\<dots> = mset (map (\<lambda>i. ca_InstanceID (assessment (evaluate request i))) (cr_Instances request))"
    by (simp add: multiset.map_comp comp_def)
  finally show ?thesis by (simp add: subject)
qed

lemma result_nth:
  assumes "n < length (evaluateCandidates request)"
  shows "(ca_Eligible (evaluateCandidates request ! n) \<longleftrightarrow> n < length (filter ca_Eligible (evaluateCandidates request))) \<and>
    ca_Rank (evaluateCandidates request ! n) = (if ca_Eligible (evaluateCandidates request ! n) then int n + 1 else 0)"
proof -
  have el: "map ca_Eligible (evaluateCandidates request) = map (ca_Eligible \<circ> assessment) (good request) @ map (ca_Eligible \<circ> assessment) (bad request)"
    unfolding result_split by simp
  have "length (filter ca_Eligible (evaluateCandidates request)) = length (filter id (map ca_Eligible (evaluateCandidates request)))"
    by (simp add: filter_map comp_def)
  also have "\<dots> = length (good request)" unfolding el by (simp add: filter_map comp_def filter_empty_conv)
  finally have k: "length (filter ca_Eligible (evaluateCandidates request)) = length (good request)" .
  show ?thesis
  proof (cases "n < length (good request)")
    case True
    then have "evaluateCandidates request ! n = (assessment (good request ! n))\<lparr>ca_Rank := 1 + int n\<rparr>"
      unfolding result_split by (simp add: nth_append rank_loop_eligible list_all_iff)
    moreover have "good request ! n \<in> set (good request)" using True by (rule nth_mem)
    ultimately show ?thesis unfolding k using True by simp
  next
    case False
    then have m: "n - length (good request) < length (bad request)" using assms unfolding result_split by simp
    then have "evaluateCandidates request ! n = assessment (bad request ! (n - length (good request)))"
      unfolding result_split using False by (simp add: nth_append)
    moreover have b: "bad request ! (n - length (good request)) \<in> set (bad request)" using m by (rule nth_mem)
    then have "bad request ! (n - length (good request)) \<in> set (order request)" by simp
    then obtain i where "bad request ! (n - length (good request)) = evaluate request i" using order_mem by blast
    ultimately show ?thesis unfolding k using False b by (simp add: unranked)
  qed
qed

lemma result_checks:
  assumes "a \<in> set (evaluateCandidates request)"
  shows "(ca_Eligible a \<longleftrightarrow> passes (ca_Checks a)) \<and> ca_RiskLevel a = (if \<not> passes (ca_Checks a) then ''blocked'' else if warns (ca_Checks a) then ''warning'' else ''low'')"
proof -
  let ?v = "\<lambda>a. (ca_Eligible a, ca_Checks a, ca_RiskLevel a)"
  have "map ?v (rank_loop n as) = map ?v as" for n as by (induction as arbitrary: n) auto
  then have m: "map ?v (evaluateCandidates request) = map ?v (map assessment (order request))" unfolding ranked .
  have "?v a \<in> set (map ?v (evaluateCandidates request))" unfolding set_map using assms by (rule imageI)
  then have "?v a \<in> ?v ` assessment ` set (order request)" unfolding m by (simp only: set_map)
  then obtain e where e: "e \<in> set (order request)" "?v a = ?v (assessment e)" by blast
  then obtain i where "e = evaluate request i" using order_mem by blast
  with e(2) have "?v a = ?v (assessment (evaluate request i))" by simp
  then show ?thesis using judged [of request i] risky [of request i] by simp
qed

lemma best:
  assumes "List.find (\<lambda>a. ca_Eligible a \<and> ca_Rank a = 1) (evaluateCandidates request) = Some a"
  obtains i where "i \<in> set (cr_Instances request)" "ca_InstanceID a = di_ResourceID i" "ca_Eligible (assessment (evaluate request i))"
    "\<And>j. j \<in> set (cr_Instances request) \<Longrightarrow> key (evaluate request i) \<le> key (evaluate request j)"
proof -
  from find_SomeD [OF assms] have a: "a \<in> set (evaluateCandidates request)" "ca_Eligible a" "ca_Rank a = 1" by auto
  then obtain n where n: "n < length (evaluateCandidates request)" "evaluateCandidates request ! n = a" by (auto simp: in_set_conv_nth)
  with result_nth [OF n(1)] a have "n = 0" by simp
  have "order request \<noteq> []"
  proof
    assume "order request = []"
    then have "length (evaluateCandidates request) = 0" unfolding ranked by (simp only: list.map rank_loop.simps list.size)
    with n(1) show False by simp
  qed
  then obtain e es where o: "order request = e # es" by (cases "order request") auto
  have "e \<in> set (order request)" unfolding o by simp
  then obtain i where i: "i \<in> set (cr_Instances request)" "e = evaluate request i" using order_mem by blast
  have "a = (if ca_Eligible (assessment e) then (assessment e)\<lparr>ca_Rank := 1\<rparr> else assessment e)"
    using n(2) \<open>n = 0\<close> unfolding ranked o by (auto split: if_splits)
  with a(2) have e: "ca_Eligible (assessment e)" "a = (assessment e)\<lparr>ca_Rank := 1\<rparr>" by (auto split: if_splits)
  have "sorted (map key (e # es))" unfolding o [symmetric] by simp
  moreover have "evaluate request j \<in> set (e # es)" if "j \<in> set (cr_Instances request)" for j
    using that unfolding o [symmetric] by simp
  ultimately have "key e \<le> key (evaluate request j)" if "j \<in> set (cr_Instances request)" for j using that by fastforce
  with i e that [OF i(1)] show ?thesis by (simp add: subject)
qed

lemma none:
  assumes "List.find (\<lambda>a. ca_Eligible a \<and> ca_Rank a = 1) (evaluateCandidates request) = None" "i \<in> set (cr_Instances request)"
  shows "\<not> ca_Eligible (assessment (evaluate request i))"
proof
  assume e: "ca_Eligible (assessment (evaluate request i))"
  then have "evaluate request i \<in> set (good request)" using assms(2) by simp
  then have g: "0 < length (good request)" by (cases "good request") auto
  then have l: "0 < length (evaluateCandidates request)" unfolding result_split by simp
  have "good request ! 0 \<in> set (good request)" using g by (rule nth_mem)
  then have "ca_Eligible (evaluateCandidates request ! 0) \<and> ca_Rank (evaluateCandidates request ! 0) = 1"
    using g unfolding result_split by (simp add: nth_append rank_loop_eligible list_all_iff)
  with assms(1) l show False by (auto simp: find_None_iff)
qed

text \<open>What the selector promises over such an evaluator: the target is the best eligible candidate, and the source has failed.\<close>

lemma selected:
  assumes "selector_Select \<lparr>sl_evaluator = Some (\<lambda>request. Inr (evaluateCandidates request)), sl_engine = engine, sl_policy = policy\<rparr> cluster snap source = Inr target"
  obtains primary i request where "request = \<lparr>cr_Cluster = cluster, cr_Primary = primary, cr_Instances = filter (\<lambda>i. di_ResourceID i \<noteq> source) (ts_Instances snap),
      cr_Links = ts_Links snap, cr_Probes = ts_Probes snap, cr_ObservedAt = ts_ObservedAt snap, cr_Policy = policy\<rparr>"
    "primary \<in> set (ts_Instances snap)" "di_ResourceID primary = source" "primaryDown primary" "i \<in> set (ts_Instances snap)" "di_ResourceID i = target" "target \<noteq> source"
    "ca_Eligible (assessment (evaluate request i))" "\<And>j. j \<in> set (ts_Instances snap) \<Longrightarrow> di_ResourceID j \<noteq> source \<Longrightarrow> di_Role j \<noteq> RolePrimary"
    "\<And>j. j \<in> set (ts_Instances snap) \<Longrightarrow> di_ResourceID j \<noteq> source \<Longrightarrow> key (evaluate request i) \<le> key (evaluate request j)"
proof -
  from assms obtain primary cs a where s: "split_loop cluster source (ts_Instances snap) zeroInstance [] = Inr (primary, cs)" "ValidResourceID (di_ResourceID primary)"
      "primaryDown primary" "List.find (\<lambda>a. ca_Eligible a \<and> ca_Rank a = 1) (evaluateCandidates \<lparr>cr_Cluster = cluster, cr_Primary = primary, cr_Instances = cs,
        cr_Links = ts_Links snap, cr_Probes = ts_Probes snap, cr_ObservedAt = ts_ObservedAt snap, cr_Policy = policy\<rparr>) = Some a" "target = ca_InstanceID a"
    unfolding selector_Select_def by (auto split: if_splits sum.splits prod.splits option.splits)
  note sp = split_loop_ok [OF s(1)]
  have "primary \<noteq> zeroInstance" using s(2) by (auto simp: zeroInstance_def ValidResourceID_def)
  then have p: "primary \<in> set (ts_Instances snap)" "di_ResourceID primary = source" using sp by auto
  from best [OF s(4)] obtain i where i: "i \<in> set cs" "ca_InstanceID a = di_ResourceID i"
      "ca_Eligible (assessment (evaluate \<lparr>cr_Cluster = cluster, cr_Primary = primary, cr_Instances = cs, cr_Links = ts_Links snap, cr_Probes = ts_Probes snap,
        cr_ObservedAt = ts_ObservedAt snap, cr_Policy = policy\<rparr> i))"
      "\<And>j. j \<in> set cs \<Longrightarrow> key (evaluate \<lparr>cr_Cluster = cluster, cr_Primary = primary, cr_Instances = cs, cr_Links = ts_Links snap, cr_Probes = ts_Probes snap,
        cr_ObservedAt = ts_ObservedAt snap, cr_Policy = policy\<rparr> i) \<le> key (evaluate \<lparr>cr_Cluster = cluster, cr_Primary = primary, cr_Instances = cs,
        cr_Links = ts_Links snap, cr_Probes = ts_Probes snap, cr_ObservedAt = ts_ObservedAt snap, cr_Policy = policy\<rparr> j)"
    by (auto simp only: CandidateRequest.select_convs)
  have cs: "cs = filter (\<lambda>i. di_ResourceID i \<noteq> source) (ts_Instances snap)" using sp by simp
  show ?thesis
    by (rule that [OF refl p s(3), where i = i]) (use i s(5) sp in \<open>auto simp: cs\<close>)
qed

end

interpretation mysql: candidate_ranking
  "\<lambda>request. mysql_evaluateCandidate request (hasIncompleteProbeCoverage (cr_Probes request) (cr_ObservedAt request))" me_assessment mysqlKey mysql_evaluateCandidates
  by unfold_locales (simp_all add: mysql_evaluateCandidates_def Let_def mysqlKey_def less_prod_simp)

interpretation pg: candidate_ranking pg_evaluateCandidate pe_assessment pgKey pg_evaluateCandidates
  by unfold_locales (simp_all add: pg_evaluateCandidates_def pgKey_def less_prod_simp)

section \<open>The candidates that are chosen\<close>

abbreviation failoverRequest :: "CandidatePolicy \<Rightarrow> DatabaseCluster \<Rightarrow> TopologySnapshot \<Rightarrow> DatabaseInstance \<Rightarrow> CandidateRequest" where
  "failoverRequest policy cluster snap primary \<equiv> \<lparr>cr_Cluster = cluster, cr_Primary = primary,
     cr_Instances = filter (\<lambda>i. di_ResourceID i \<noteq> di_ResourceID primary) (ts_Instances snap), cr_Links = ts_Links snap, cr_Probes = ts_Probes snap,
     cr_ObservedAt = ts_ObservedAt snap, cr_Policy = policy\<rparr>"

lemma mk_check_status [simp]: "ck_Status (mk_check n st m) = st"
  by (simp add: mk_check_def)

lemmas check_defs = inventoryCheck_def roleCheck_def reachabilityCheck_def eligibilityCheck_def readOnlyCheck_def maintenanceCheck_def threadsCheck_def
  sqlErrorCheck_def sourceCheck_def gtidModeCheck_def coverageCheck_def

lemma gtidVerdict_ok:
  assumes "ck_Status (snd (snd (gtidVerdict request i))) \<noteq> CheckFail"
  obtains p c where "ParseGTIDSet (mget (di_EngineMetadata (cr_Primary request)) ''gtid_executed'') = Inr p"
    "ParseGTIDSet (rs_ExecutedPosition (di_Replication i)) = Inr c" "fst (gtidVerdict request i) = of_nat (card (gtid_txs p - gtid_txs c))"
    "card (gtid_txs p - gtid_txs c) < 2 ^ 64"
    "ck_Status (snd (snd (gtidVerdict request i))) = CheckWarn \<or> card (gtid_txs p - gtid_txs c) = 0"
    "\<And>u n. (u, n) \<in> gtid_txs c - gtid_txs p \<Longrightarrow> gtidSourceUUID u = ToLower (TrimSpace (serverUUID (di_EngineIdentity (cr_Primary request))))"
proof -
  let ?P = "ParseGTIDSet (mget (di_EngineMetadata (cr_Primary request)) ''gtid_executed'')" and ?C = "ParseGTIDSet (rs_ExecutedPosition (di_Replication i))"
  from assms obtain p c where pc: "?P = Inr p" "?C = Inr c" by (cases ?P; cases ?C) (auto simp: gtidVerdict_def Let_def)
  note wf = pc [THEN ParseGTIDSet_gtid_wf]
  have cards: "card (gtid_txs p) < 2 ^ 64" "card (gtid_txs c) < 2 ^ 64"
    using assms pc wf by (auto simp: gtidVerdict_def Let_def CompareGTIDSets_eq split: if_splits)
  note cmp = CompareGTIDSets_eq [OF wf] card_txs_diff_bound [OF cards(1), of c] card_txs_diff_bound [OF cards(2), of p]
  have e: "gtid_txs c - gtid_txs p = {}" if "(of_nat (card (gtid_txs c - gtid_txs p)) :: uint64) = 0" using that cmp(3) of_nat64_eq_0_iff by simp
  have m: "card (gtid_txs p - gtid_txs c) = 0" if "(of_nat (card (gtid_txs p - gtid_txs c)) :: uint64) = 0" using that cmp(2) of_nat64_eq_0_iff by simp
  show ?thesis
  proof (rule that [OF pc])
    show "fst (gtidVerdict request i) = of_nat (card (gtid_txs p - gtid_txs c))"
      using pc cards by (simp add: gtidVerdict_def Let_def cmp(1) split: sum.splits)
    show "card (gtid_txs p - gtid_txs c) < 2 ^ 64" by (rule cmp(2))
    show "ck_Status (snd (snd (gtidVerdict request i))) = CheckWarn \<or> card (gtid_txs p - gtid_txs c) = 0"
      using assms pc cards m by (auto simp: gtidVerdict_def Let_def cmp(1) word_gt_0 split: sum.splits if_splits simp del: of_nat_eq_0_iff)
    fix u n assume un: "(u, n) \<in> gtid_txs c - gtid_txs p"
    then have "(of_nat (card (gtid_txs c - gtid_txs p)) :: uint64) \<noteq> 0" using e by auto
    then have "LikelyTemporalSamplingSkew p c (serverUUID (di_EngineIdentity (cr_Primary request))) (h_ObservedAt (di_Health (cr_Primary request))) (h_ObservedAt (di_Health i)) = Inr True"
      using assms pc cards by (auto simp: gtidVerdict_def Let_def cmp(1) word_gt_0 split: sum.splits if_splits)
    with LikelyTemporalSamplingSkew_correct [OF pc cards] un
    show "gtidSourceUUID u = ToLower (TrimSpace (serverUUID (di_EngineIdentity (cr_Primary request))))" by auto
  qed
qed

lemma mysql_eligible:
  assumes "passes (mysqlChecks request i cov)"
  shows "di_Role i = RoleReplica" "\<not> di_Maintenance i" "candidateReadOnly (di_EngineMetadata i) = (True, True)"
    "serverUUID (rs_SourceIdentity (di_Replication i)) = serverUUID (di_EngineIdentity (cr_Primary request))" "serverUUID (di_EngineIdentity (cr_Primary request)) \<noteq> []"
    "rs_LagSeconds (di_Replication i) = Some v \<Longrightarrow> 0 \<le> v \<and> v \<le> cp_MaximumLagSeconds (cr_Policy request)"
    "ck_Status (snd (snd (gtidVerdict request i))) \<noteq> CheckFail"
proof -
  from assms have c: "ck_Status (roleCheck i) \<noteq> CheckFail" "ck_Status (maintenanceCheck i) \<noteq> CheckFail" "ck_Status (readOnlyCheck i) \<noteq> CheckFail"
      "ck_Status (sourceCheck request i) \<noteq> CheckFail" "ck_Status (snd (lagVerdict request i)) \<noteq> CheckFail"
      "ck_Status (snd (snd (gtidVerdict request i))) \<noteq> CheckFail"
    by (simp_all add: mysqlChecks_def)
  show "di_Role i = RoleReplica" using c(1) by (simp add: roleCheck_def split: if_splits)
  show "\<not> di_Maintenance i" using c(2) by (simp add: maintenanceCheck_def split: if_splits)
  show "candidateReadOnly (di_EngineMetadata i) = (True, True)" using c(3) by (simp add: readOnlyCheck_def split: if_splits prod.splits)
  show "serverUUID (rs_SourceIdentity (di_Replication i)) = serverUUID (di_EngineIdentity (cr_Primary request))" "serverUUID (di_EngineIdentity (cr_Primary request)) \<noteq> []"
    using c(4) by (auto simp: sourceCheck_def Let_def split: if_splits)
  show "rs_LagSeconds (di_Replication i) = Some v \<Longrightarrow> 0 \<le> v \<and> v \<le> cp_MaximumLagSeconds (cr_Policy request)"
    using c(5) by (auto simp: lagVerdict_def Let_def split: if_splits)
  show "ck_Status (snd (snd (gtidVerdict request i))) \<noteq> CheckFail" by (rule c(6))
qed

text \<open>
  (C3) Automatic failover of a MySQL cluster promotes the candidate that loses least. When the selector names a target, the source is a
  failed instance of the topology, no other primary is observed, and the target is a read-only replica of that source, not in maintenance,
  at most thirty seconds behind as far as its lag is known. It has no transaction the source lacks except ones issued by the
  source itself, and it misses no more of the source's transactions than any other eligible candidate.
\<close>

theorem mysql_target_safe:
  assumes "selector_Select (NewMySQLCandidateSelector (Some mysql_EvaluateCandidates)) cluster snap source = Inr target"
  shows "\<exists>primary i p c. primary \<in> set (ts_Instances snap) \<and> di_ResourceID primary = source \<and> primaryDown primary \<and>
    (\<forall>j \<in> set (ts_Instances snap). di_ResourceID j \<noteq> source \<longrightarrow> di_Role j \<noteq> RolePrimary) \<and>
    i \<in> set (ts_Instances snap) \<and> di_ResourceID i = target \<and> target \<noteq> source \<and> di_Role i = RoleReplica \<and> \<not> di_Maintenance i \<and>
    candidateReadOnly (di_EngineMetadata i) = (True, True) \<and> serverUUID (rs_SourceIdentity (di_Replication i)) = serverUUID (di_EngineIdentity primary) \<and>
    (\<forall>v. rs_LagSeconds (di_Replication i) = Some v \<longrightarrow> 0 \<le> v \<and> v \<le> 30) \<and>
    ParseGTIDSet (mget (di_EngineMetadata primary) ''gtid_executed'') = Inr p \<and> ParseGTIDSet (rs_ExecutedPosition (di_Replication i)) = Inr c \<and>
    (\<forall>u n. (u, n) \<in> gtid_txs c - gtid_txs p \<longrightarrow> gtidSourceUUID u = ToLower (TrimSpace (serverUUID (di_EngineIdentity primary)))) \<and>
    (\<forall>j \<in> set (ts_Instances snap). \<forall>d. di_ResourceID j \<noteq> source \<and> ParseGTIDSet (rs_ExecutedPosition (di_Replication j)) = Inr d \<and>
       passes (mysqlChecks (failoverRequest \<lparr>cp_MaximumLagSeconds = 30, cp_RequireGTID = True, cp_AllowSourceDisconnected = True\<rparr> cluster snap primary) j
         (hasIncompleteProbeCoverage (ts_Probes snap) (ts_ObservedAt snap))) \<longrightarrow>
       card (gtid_txs p - gtid_txs c) \<le> card (gtid_txs p - gtid_txs d))"
proof -
  let ?policy = "\<lparr>cp_MaximumLagSeconds = 30, cp_RequireGTID = True, cp_AllowSourceDisconnected = True\<rparr>" and ?cov = "hasIncompleteProbeCoverage (ts_Probes snap) (ts_ObservedAt snap)"
  have "mysql_EvaluateCandidates = (\<lambda>request. Inr (mysql_evaluateCandidates request))" by (simp add: fun_eq_iff mysql_EvaluateCandidates_def)
  with assms have "selector_Select \<lparr>sl_evaluator = Some (\<lambda>request. Inr (mysql_evaluateCandidates request)), sl_engine = EngineMySQL, sl_policy = ?policy\<rparr> cluster snap source = Inr target"
    by (simp add: NewMySQLCandidateSelector_def)
  then obtain primary i request where rq: "request = \<lparr>cr_Cluster = cluster, cr_Primary = primary, cr_Instances = filter (\<lambda>i. di_ResourceID i \<noteq> source) (ts_Instances snap),
      cr_Links = ts_Links snap, cr_Probes = ts_Probes snap, cr_ObservedAt = ts_ObservedAt snap, cr_Policy = ?policy\<rparr>"
    and s: "primary \<in> set (ts_Instances snap)" "di_ResourceID primary = source" "primaryDown primary" "i \<in> set (ts_Instances snap)" "di_ResourceID i = target" "target \<noteq> source"
      "\<And>j. j \<in> set (ts_Instances snap) \<Longrightarrow> di_ResourceID j \<noteq> source \<Longrightarrow> di_Role j \<noteq> RolePrimary"
    and el: "ca_Eligible (me_assessment (mysql_evaluateCandidate request (hasIncompleteProbeCoverage (cr_Probes request) (cr_ObservedAt request)) i))"
    and key: "\<And>j. j \<in> set (ts_Instances snap) \<Longrightarrow> di_ResourceID j \<noteq> source \<Longrightarrow>
        mysqlKey (mysql_evaluateCandidate request (hasIncompleteProbeCoverage (cr_Probes request) (cr_ObservedAt request)) i) \<le>
        mysqlKey (mysql_evaluateCandidate request (hasIncompleteProbeCoverage (cr_Probes request) (cr_ObservedAt request)) j)"
    by (rule mysql.selected) (rule that)
  let ?r = "failoverRequest ?policy cluster snap primary"
  have r: "request = ?r" unfolding rq s(2) ..
  have el: "passes (mysqlChecks ?r i ?cov)" using el unfolding r by simp
  have key: "mysqlKey (mysql_evaluateCandidate ?r ?cov i) \<le> mysqlKey (mysql_evaluateCandidate ?r ?cov j)" if "j \<in> set (ts_Instances snap)" "di_ResourceID j \<noteq> source" for j
    using key [OF that] unfolding r by simp
  note e = mysql_eligible [OF el, simplified]
  obtain p c where g: "ParseGTIDSet (mget (di_EngineMetadata primary) ''gtid_executed'') = Inr p"
      "ParseGTIDSet (rs_ExecutedPosition (di_Replication i)) = Inr c" "fst (gtidVerdict ?r i) = of_nat (card (gtid_txs p - gtid_txs c))" "card (gtid_txs p - gtid_txs c) < 2 ^ 64"
      "ck_Status (snd (snd (gtidVerdict ?r i))) = CheckWarn \<or> card (gtid_txs p - gtid_txs c) = 0"
      "\<And>u n. (u, n) \<in> gtid_txs c - gtid_txs p \<Longrightarrow> gtidSourceUUID u = ToLower (TrimSpace (serverUUID (di_EngineIdentity primary)))"
    by (rule gtidVerdict_ok [OF mysql_eligible(7) [OF el]]) (rule that, simp_all)
  have best: "card (gtid_txs p - gtid_txs c) \<le> card (gtid_txs p - gtid_txs d)"
    if j: "j \<in> set (ts_Instances snap)" "di_ResourceID j \<noteq> source" "ParseGTIDSet (rs_ExecutedPosition (di_Replication j)) = Inr d" "passes (mysqlChecks ?r j ?cov)" for j d
  proof (cases "card (gtid_txs p - gtid_txs c) = 0")
    case False
    with g(5) have "warns (mysqlChecks ?r i ?cov)" by (simp add: mysqlChecks_def)
    with key [OF j(1,2)] el j(4) have "fst (gtidVerdict ?r i) \<le> fst (gtidVerdict ?r j)" by (auto simp: mysqlKey_def less_eq_prod_simp)
    moreover have "fst (gtidVerdict ?r j) = of_nat (card (gtid_txs p - gtid_txs d)) \<and> card (gtid_txs p - gtid_txs d) < 2 ^ 64"
      by (rule gtidVerdict_ok [OF mysql_eligible(7) [OF j(4)]]) (use g(1) j(3) in simp)
    ultimately show ?thesis using g(3,4) of_nat64_less_iff by (metis not_le)
  qed linarith
  have lag: "\<forall>v. rs_LagSeconds (di_Replication i) = Some v \<longrightarrow> 0 \<le> v \<and> v \<le> 30" using e(6) by blast
  from s e(1-4) lag g(1,2,6) best show ?thesis by blast
qed

lemma pg_eligible:
  assumes "passes (postgresqlChecks request i)"
  shows "di_Role i = RoleStandby" "\<not> di_Maintenance i" "sameTimeline (cr_Primary request) i"
    "\<exists>v. rs_LagSeconds (di_Replication i) = Some v \<and> 0 \<le> v \<and> v \<le> cp_MaximumLagSeconds (cr_Policy request)"
    "\<exists>r. replayOf i = Some r \<and> fst (pg_positionVerdict request i) = r"
proof -
  from assms have c: "ck_Status (pg_roleCheck i) \<noteq> CheckFail" "ck_Status (maintenanceCheck i) \<noteq> CheckFail" "ck_Status (pg_timelineCheck request i) \<noteq> CheckFail"
      "ck_Status (snd (pg_lagVerdict request i)) \<noteq> CheckFail" "ck_Status (snd (snd (pg_positionVerdict request i))) \<noteq> CheckFail"
    by (simp_all add: postgresqlChecks_def)
  show "di_Role i = RoleStandby" using c(1) by (simp add: pg_roleCheck_def split: if_splits)
  show "\<not> di_Maintenance i" using c(2) by (simp add: maintenanceCheck_def split: if_splits)
  show "sameTimeline (cr_Primary request) i" using c(3) by (simp add: pg_timelineCheck_def split: if_splits)
  show "\<exists>v. rs_LagSeconds (di_Replication i) = Some v \<and> 0 \<le> v \<and> v \<le> cp_MaximumLagSeconds (cr_Policy request)"
    using c(4) by (auto simp: pg_lagVerdict_def split: option.splits if_splits)
  show "\<exists>r. replayOf i = Some r \<and> fst (pg_positionVerdict request i) = r"
    using c(5) by (auto simp: pg_positionVerdict_def Let_def split: option.splits if_splits)
qed

text \<open>
  (C39) Automatic failover of a PostgreSQL cluster promotes the most advanced standby. When the selector names a target, the source is a failed
  instance of the topology, no other primary is observed, and the target is a standby on the source's timeline, not in maintenance, without
  replay delay, whose replay position is at least that of every other eligible candidate.
\<close>

theorem postgresql_target_latest:
  assumes "selector_Select (NewPostgreSQLCandidateSelector (Some pg_EvaluateCandidates)) cluster snap source = Inr target"
  shows "\<exists>primary i replay. primary \<in> set (ts_Instances snap) \<and> di_ResourceID primary = source \<and> primaryDown primary \<and>
    (\<forall>j \<in> set (ts_Instances snap). di_ResourceID j \<noteq> source \<longrightarrow> di_Role j \<noteq> RolePrimary) \<and>
    i \<in> set (ts_Instances snap) \<and> di_ResourceID i = target \<and> target \<noteq> source \<and> di_Role i = RoleStandby \<and> \<not> di_Maintenance i \<and>
    sameTimeline primary i \<and> rs_LagSeconds (di_Replication i) = Some 0 \<and> replayOf i = Some replay \<and>
    (\<forall>j \<in> set (ts_Instances snap). di_ResourceID j \<noteq> source \<and>
       passes (postgresqlChecks (failoverRequest \<lparr>cp_MaximumLagSeconds = 0, cp_RequireGTID = False, cp_AllowSourceDisconnected = True\<rparr> cluster snap primary) j) \<longrightarrow>
       (\<exists>r. replayOf j = Some r \<and> r \<le> replay))"
proof -
  let ?policy = "\<lparr>cp_MaximumLagSeconds = 0, cp_RequireGTID = False, cp_AllowSourceDisconnected = True\<rparr>"
  have "pg_EvaluateCandidates = (\<lambda>request. Inr (pg_evaluateCandidates request))" by (simp add: fun_eq_iff pg_EvaluateCandidates_def)
  with assms have "selector_Select \<lparr>sl_evaluator = Some (\<lambda>request. Inr (pg_evaluateCandidates request)), sl_engine = EnginePostgreSQL, sl_policy = ?policy\<rparr> cluster snap source = Inr target"
    by (simp add: NewPostgreSQLCandidateSelector_def)
  then obtain primary i request where rq: "request = \<lparr>cr_Cluster = cluster, cr_Primary = primary, cr_Instances = filter (\<lambda>i. di_ResourceID i \<noteq> source) (ts_Instances snap),
      cr_Links = ts_Links snap, cr_Probes = ts_Probes snap, cr_ObservedAt = ts_ObservedAt snap, cr_Policy = ?policy\<rparr>"
    and s: "primary \<in> set (ts_Instances snap)" "di_ResourceID primary = source" "primaryDown primary" "i \<in> set (ts_Instances snap)" "di_ResourceID i = target" "target \<noteq> source"
      "\<And>j. j \<in> set (ts_Instances snap) \<Longrightarrow> di_ResourceID j \<noteq> source \<Longrightarrow> di_Role j \<noteq> RolePrimary"
    and el: "ca_Eligible (pe_assessment (pg_evaluateCandidate request i))"
    and key: "\<And>j. j \<in> set (ts_Instances snap) \<Longrightarrow> di_ResourceID j \<noteq> source \<Longrightarrow> pgKey (pg_evaluateCandidate request i) \<le> pgKey (pg_evaluateCandidate request j)"
    by (rule pg.selected) (rule that)
  let ?r = "failoverRequest ?policy cluster snap primary"
  have r: "request = ?r" unfolding rq s(2) ..
  have el: "passes (postgresqlChecks ?r i)" using el unfolding r by simp
  note e = pg_eligible [OF el]
  from e(4) have lag: "rs_LagSeconds (di_Replication i) = Some 0" by auto
  from e(5) obtain replay where replay: "replayOf i = Some replay" "fst (pg_positionVerdict ?r i) = replay" by blast
  have best: "\<exists>r. replayOf j = Some r \<and> r \<le> replay" if j: "j \<in> set (ts_Instances snap)" "di_ResourceID j \<noteq> source" "passes (postgresqlChecks ?r j)" for j
  proof -
    from pg_eligible(5) [OF j(3)] obtain r' where r': "replayOf j = Some r'" "fst (pg_positionVerdict ?r j) = r'" by blast
    have "uint r' \<le> uint replay" using key [OF j(1,2)] el j(3) unfolding r by (auto simp: pgKey_def less_eq_prod_simp replay(2) r'(2))
    with r'(1) show ?thesis by (simp add: word_le_def)
  qed
  have "sameTimeline primary i" using e(3) by simp
  with s e(1,2) lag replay(1) best show ?thesis by blast
qed

text \<open>
  (C40) An assessment of candidates is well formed, for either engine: there is one assessment per instance; the eligible ones come first and are
  ranked from one without gaps, the others have rank zero; a candidate is eligible exactly when none of its checks failed, and its risk level
  is blocked, warning or low accordingly.
\<close>

theorem candidate_assessments_wellformed:
  assumes "evaluate \<in> {mysql_evaluateCandidates, pg_evaluateCandidates}" "as = evaluate request"
  shows "mset (map ca_InstanceID as) = mset (map di_ResourceID (cr_Instances request)) \<and>
    (\<forall>n < length as. (ca_Eligible (as ! n) \<longleftrightarrow> n < length (filter ca_Eligible as)) \<and>
       ca_Rank (as ! n) = (if ca_Eligible (as ! n) then int n + 1 else 0) \<and> (ca_Eligible (as ! n) \<longleftrightarrow> passes (ca_Checks (as ! n))) \<and>
       ca_RiskLevel (as ! n) = (if \<not> passes (ca_Checks (as ! n)) then ''blocked'' else if warns (ca_Checks (as ! n)) then ''warning'' else ''low''))"
  using assms(1)
proof (elim insertE emptyE)
  assume "evaluate = mysql_evaluateCandidates"
  then show ?thesis unfolding assms(2) using mysql.result_ids mysql.result_nth mysql.result_checks nth_mem by blast
next
  assume "evaluate = pg_evaluateCandidates"
  then show ?thesis unfolding assms(2) using pg.result_ids pg.result_nth pg.result_checks nth_mem by blast
qed

section \<open>A concrete cluster\<close>

definition sampleBelieved :: "Engine \<Rightarrow> char \<Rightarrow> DatabaseInstance" where
  "sampleBelieved engine c = zeroInstance\<lparr>di_ResourceID := sampleID c, di_ClusterID := sampleID (CHR ''1''), di_Engine := engine,
     di_EngineIdentity := [(''server_uuid'', ''3e11fa47-71ca-11e1-9e33-c80aa9429562''), (''resource_id'', sampleID c), (''system_identifier'', ''77'')],
     di_EngineMetadata := [(''gtid_mode'', ''ON''), (''gtid_executed'', []), (''version'', ''8.0.36''), (''read_only'', ''true''), (''super_read_only'', ''true''),
       (''timeline_id'', ''3''), (''current_lsn'', ''0/20''), (''replay_paused'', ''false'')]\<rparr>"

definition sampleStandby :: "Engine \<Rightarrow> char \<Rightarrow> DatabaseInstance" where
  "sampleStandby engine c = (sampleBelieved engine c)\<lparr>di_Role := (if engine = EngineMySQL then RoleReplica else RoleStandby), di_PromotionEligible := True,
     di_Health := \<lparr>h_State = HealthHealthy, h_Summary = [], h_ObservedAt = 7\<rparr>,
     di_Replication := zeroReplication\<lparr>rs_SourceIdentity := [(''server_uuid'', ''3e11fa47-71ca-11e1-9e33-c80aa9429562''), (''resource_id'', sampleID (CHR ''4'')), (''system_identifier'', ''77'')],
       rs_IOThread := ThreadRunning, rs_SQLThread := ThreadRunning, rs_LagSeconds := Some 0, rs_ExecutedPosition := (if engine = EngineMySQL then [] else ''0/20'')\<rparr>\<rparr>"

definition sampleOutage :: "Engine \<Rightarrow> TopologySnapshot" where
  "sampleOutage engine = \<lparr>ts_ClusterID = sampleID (CHR ''1''), ts_Instances = [sampleBelieved engine (CHR ''4''), sampleStandby engine (CHR ''5'')], ts_Links = [],
     ts_Probes = [\<lparr>pb_InstanceID = sampleID (CHR ''5''), pb_Outcome = ProbeOutcomeReachable, pb_DiscoveryObservedAt = 7,
       pb_Health = \<lparr>h_State = HealthHealthy, h_Summary = [], h_ObservedAt = 7\<rparr>\<rparr>],
     ts_Health = zeroHealth, ts_Anomalies = [], ts_ObservedAt = 7\<rparr>"

definition sampleFailedCluster :: "Engine \<Rightarrow> DatabaseCluster" where
  "sampleFailedCluster engine = zeroCluster\<lparr>cl_ResourceID := sampleID (CHR ''1''), cl_Engine := engine, cl_EngineIdentity := [(''system_identifier'', ''77'')]\<rparr>"

text \<open>A selection among a single candidate depends on the eligibility of that candidate.\<close>

lemma single_selected:
  assumes "cl_Engine cluster = sl_engine selector" "ValidResourceID (cl_ResourceID cluster)" "ts_ClusterID snap = cl_ResourceID cluster" "ts_Instances snap \<noteq> []"
    and "ValidResourceID source" "split_loop cluster source (ts_Instances snap) zeroInstance [] = Inr (primary, [i])" "di_ResourceID primary = source" "primaryDown primary"
    and "sl_evaluator selector = Some (\<lambda>request. Inr (rank_loop 1 (map f (sort_key key (map (g request) (cr_Instances request))))))"
    and "f (g \<lparr>cr_Cluster = cluster, cr_Primary = primary, cr_Instances = [i], cr_Links = ts_Links snap, cr_Probes = ts_Probes snap, cr_ObservedAt = ts_ObservedAt snap,
           cr_Policy = sl_policy selector\<rparr> i) = a" "ca_Eligible a" "ca_InstanceID a = target"
  shows "selector_Select selector cluster snap source = Inr target"
  using assms by (simp add: selector_Select_def)

lemma sample_numbers:
  "mysqlReleaseFamily ''8.0.36'' = Some ''8.0''" "ParseUint32 ''3'' = Some 3" "parseLSN ''0/20'' = Some 32" "ParseGTIDSet [] = Inr []"
  "CompareGTIDSets [] [] = Inr \<lparr>MissingTransactions = 0, ErrantTransactions = 0\<rparr>"
proof -
  have "ParseUint ''8'' = Some 8" "ParseUint ''0'' = Some 0" "ParseUint ''3'' = Some 3" by (simp_all add: go_defs)
  then show "mysqlReleaseFamily ''8.0.36'' = Some ''8.0''" "ParseUint32 ''3'' = Some 3"
    by (simp_all add: mysqlReleaseFamily_def ParseUint32_def decimal.simps char_of_def bit_iff_odd)
  show "parseLSN ''0/20'' = Some 32" by (simp add: parseLSN_def ParseHex32_def hex_value_def go_defs)
  show "ParseGTIDSet [] = Inr []" by (simp add: gtid_eval)
  show "CompareGTIDSets [] [] = Inr \<lparr>MissingTransactions = 0, ErrantTransactions = 0\<rparr>" by code_simp
qed

lemmas sample_defs = sampleOutage_def sampleStandby_def sampleBelieved_def sampleFailedCluster_def zeroInstance_def zeroReplication_def zeroCluster_def zeroHealth_def

abbreviation sampleRequest :: "Engine \<Rightarrow> CandidatePolicy \<Rightarrow> CandidateRequest" where
  "sampleRequest engine policy \<equiv> \<lparr>cr_Cluster = sampleFailedCluster engine, cr_Primary = sampleBelieved engine (CHR ''4''), cr_Instances = [sampleStandby engine (CHR ''5'')],
     cr_Links = ts_Links (sampleOutage engine), cr_Probes = ts_Probes (sampleOutage engine), cr_ObservedAt = ts_ObservedAt (sampleOutage engine), cr_Policy = policy\<rparr>"

lemma sampleCandidate_ids: "ValidResourceID (sampleID (CHR ''1''))" "ValidResourceID (sampleID (CHR ''4''))" "ValidResourceID (sampleID (CHR ''5''))"
    "TrimSpace (sampleID (CHR ''4'')) = sampleID (CHR ''4'')" "ToLower (sampleID (CHR ''4'')) = sampleID (CHR ''4'')" "sampleID (CHR ''4'') \<noteq> sampleID (CHR ''5'')"
  by code_simp+

lemma sample_bound: "healthyBound (sampleRequest EngineMySQL policy) (sampleStandby EngineMySQL (CHR ''5''))"
   "hasCurrentHealthyProbe (ts_Probes (sampleOutage EnginePostgreSQL)) (sampleID (CHR ''5'')) 7"
  by (simp_all add: healthyBound_def hasHealthyBoundProbe_def hasCurrentHealthyProbe_def sample_defs IsZero_def)

lemma sample_mysql_passes: "passes (mysqlChecks (sampleRequest EngineMySQL \<lparr>cp_MaximumLagSeconds = 30, cp_RequireGTID = True, cp_AllowSourceDisconnected = True\<rparr>) (sampleStandby EngineMySQL (CHR ''5'')) cov)"
proof -
  let ?r = "sampleRequest EngineMySQL \<lparr>cp_MaximumLagSeconds = 30, cp_RequireGTID = True, cp_AllowSourceDisconnected = True\<rparr>" and ?i = "sampleStandby EngineMySQL (CHR ''5'')"
  have "ck_Status (inventoryCheck ?r ?i) \<noteq> CheckFail" "ck_Status (reachabilityCheck ?r ?i) \<noteq> CheckFail"
    by (simp_all add: inventoryCheck_def reachabilityCheck_def sample_bound) (simp add: sample_defs sampleCandidate_ids)
  moreover have "ck_Status (roleCheck ?i) \<noteq> CheckFail" "ck_Status (eligibilityCheck ?r ?i) \<noteq> CheckFail"  "ck_Status (maintenanceCheck ?i) \<noteq> CheckFail"
     "ck_Status (threadsCheck ?r ?i) \<noteq> CheckFail" "ck_Status (snd (lagVerdict ?r ?i)) \<noteq> CheckFail" "ck_Status (coverageCheck cov) \<noteq> CheckFail"
    by (simp_all add: check_defs lagVerdict_def sample_defs coverageCheck_def)
  moreover have "ck_Status (readOnlyCheck ?i) \<noteq> CheckFail" "ck_Status (sqlErrorCheck ?i) \<noteq> CheckFail" "ck_Status (sourceCheck ?r ?i) \<noteq> CheckFail" "ck_Status (gtidModeCheck ?r ?i) \<noteq> CheckFail"
    by (simp_all add: readOnlyCheck_def candidateReadOnly_def ParseBool_def sqlErrorCheck_def sourceCheck_def serverUUID_def gtidModeCheck_def sample_defs go_defs mget_def)
  moreover have "ck_Status (snd (snd (gtidVerdict ?r ?i))) \<noteq> CheckFail" by (simp add: gtidVerdict_def sample_defs mget_def sample_numbers)
  moreover have "ck_Status (snd (versionVerdict ?r ?i)) \<noteq> CheckFail"
  proof -
    have "versionOf ?i = ''8.0.36''" "versionOf (sampleBelieved EngineMySQL (CHR ''4'')) = ''8.0.36''" by (simp_all add: versionOf_def sample_defs mget_def go_defs)
    then show ?thesis by (simp add: versionVerdict_def sample_numbers)
  qed
  ultimately show ?thesis by (simp add: mysqlChecks_def)
qed

lemma sample_pg_passes: "passes (postgresqlChecks (sampleRequest EnginePostgreSQL \<lparr>cp_MaximumLagSeconds = 0, cp_RequireGTID = False, cp_AllowSourceDisconnected = True\<rparr>) (sampleStandby EnginePostgreSQL (CHR ''5'')))"
proof -
  let ?r = "sampleRequest EnginePostgreSQL \<lparr>cp_MaximumLagSeconds = 0, cp_RequireGTID = False, cp_AllowSourceDisconnected = True\<rparr>" and ?i = "sampleStandby EnginePostgreSQL (CHR ''5'')"
  have n: "TrimSpace ''0/20'' = ''0/20''" "TrimSpace ''3'' = ''3''" "TrimSpace ''77'' = ''77''" by (simp_all add: go_defs)
  have "ck_Status (pg_probeCheck ?r ?i) \<noteq> CheckFail" using sample_bound(2) by (simp add: pg_probeCheck_def sample_defs)
  moreover have "ck_Status (pg_inventoryCheck ?r ?i) \<noteq> CheckFail" "ck_Status (pg_roleCheck ?i) \<noteq> CheckFail" "ck_Status (pg_healthCheck ?r ?i) \<noteq> CheckFail" "ck_Status (maintenanceCheck ?i) \<noteq> CheckFail"
      "ck_Status (snd (pg_lagVerdict ?r ?i)) \<noteq> CheckFail"
    by (simp_all add: pg_inventoryCheck_def pg_roleCheck_def pg_healthCheck_def maintenanceCheck_def pg_lagVerdict_def sample_defs sampleCandidate_ids)
  moreover have "ck_Status (pg_systemCheck ?r ?i) \<noteq> CheckFail" "ck_Status (pg_sourceCheck ?r ?i) \<noteq> CheckFail"
    by (simp_all add: pg_systemCheck_def pg_sourceCheck_def sample_defs mget_def n sampleCandidate_ids)
  moreover have "ck_Status (pg_streamingCheck ?r ?i) \<noteq> CheckFail" by (simp add: pg_streamingCheck_def sample_defs mget_def go_defs)
  moreover have "ck_Status (pg_timelineCheck ?r ?i) \<noteq> CheckFail"
    by (simp add: pg_timelineCheck_def sameTimeline_def timelineOf_def sample_defs mget_def n sample_numbers)
  moreover have "ck_Status (snd (snd (pg_positionVerdict ?r ?i))) \<noteq> CheckFail"
    by (simp add: pg_positionVerdict_def replayOf_def primaryLSN_def firstPosition_def sample_defs mget_def n sample_numbers)
  ultimately show ?thesis by (simp add: postgresqlChecks_def)
qed

lemma sample_split: "split_loop (sampleFailedCluster engine) (sampleID (CHR ''4'')) (ts_Instances (sampleOutage engine)) zeroInstance [] =
    Inr (sampleBelieved engine (CHR ''4''), [sampleStandby engine (CHR ''5'')])"
  by (simp add: sample_defs sampleCandidate_ids)

lemma sample_selected:
  "selector_Select (NewMySQLCandidateSelector (Some mysql_EvaluateCandidates)) (sampleFailedCluster EngineMySQL) (sampleOutage EngineMySQL) (sampleID (CHR ''4'')) = Inr (sampleID (CHR ''5''))"
  "selector_Select (NewPostgreSQLCandidateSelector (Some pg_EvaluateCandidates)) (sampleFailedCluster EnginePostgreSQL) (sampleOutage EnginePostgreSQL) (sampleID (CHR ''4'')) = Inr (sampleID (CHR ''5''))"
  subgoal
    by (rule single_selected [OF _ _ _ _ _ sample_split _ _ _ refl, where f = me_assessment and key = mysqlKey and g = "\<lambda>request. mysql_evaluateCandidate request (hasIncompleteProbeCoverage (cr_Probes request) (cr_ObservedAt request))"])
      (use sample_mysql_passes in \<open>simp_all add: NewMySQLCandidateSelector_def mysql_EvaluateCandidates_def mysql_evaluateCandidates_def fun_eq_iff Let_def sampleCandidate_ids\<close>,
       simp_all add: sample_defs sampleCandidate_ids)
  subgoal
    by (rule single_selected [OF _ _ _ _ _ sample_split _ _ _ refl, where f = pe_assessment and key = pgKey and g = pg_evaluateCandidate])
      (use sample_pg_passes in \<open>simp_all add: NewPostgreSQLCandidateSelector_def pg_EvaluateCandidates_def pg_evaluateCandidates_def fun_eq_iff sampleCandidate_ids\<close>,
       simp_all add: sample_defs sampleCandidate_ids)
  done

theorem mysql_target_safe_witness:
  "\<exists>i. i \<in> set (ts_Instances (sampleOutage EngineMySQL)) \<and> di_ResourceID i = sampleID (CHR ''5'') \<and> di_Role i = RoleReplica \<and> \<not> di_Maintenance i"
  using mysql_target_safe [OF sample_selected(1)] by blast

theorem postgresql_target_latest_witness:
  "\<exists>i replay. i \<in> set (ts_Instances (sampleOutage EnginePostgreSQL)) \<and> di_ResourceID i = sampleID (CHR ''5'') \<and> replayOf i = Some replay \<and> rs_LagSeconds (di_Replication i) = Some 0"
  using postgresql_target_latest [OF sample_selected(2)] by blast

theorem candidate_assessments_wellformed_witness:
  "mset (map ca_InstanceID (mysql_evaluateCandidates (failoverRequest \<lparr>cp_MaximumLagSeconds = 30, cp_RequireGTID = True, cp_AllowSourceDisconnected = True\<rparr>
     (sampleFailedCluster EngineMySQL) (sampleOutage EngineMySQL) (sampleBelieved EngineMySQL (CHR ''4''))))) = {#sampleID (CHR ''5'')#}"
proof -
  let ?r = "failoverRequest \<lparr>cp_MaximumLagSeconds = 30, cp_RequireGTID = True, cp_AllowSourceDisconnected = True\<rparr>
     (sampleFailedCluster EngineMySQL) (sampleOutage EngineMySQL) (sampleBelieved EngineMySQL (CHR ''4''))"
  have "mset (map di_ResourceID (cr_Instances ?r)) = {#sampleID (CHR ''5'')#}" by (simp add: sampleOutage_def sampleBelieved_def sampleStandby_def sampleID_def)
  with candidate_assessments_wellformed [of mysql_evaluateCandidates "mysql_evaluateCandidates ?r" ?r] show ?thesis by simp
qed

end
