(* ===== verification/Membership.thy ===== *)
theory Membership
  imports Model_Types
begin

text \<open>
  The fixed controller membership (\<^verbatim>\<open>internal/coordination/membership.go\<close>): an odd set of at
  least three controllers, the health recorded of each, and the authority to mutate cluster
  state, which the local controller has when it is the leader and a majority is healthy.
  Two majorities of one membership meet, so two controllers whose healthy sides are disjoint
  never both have it; that argument is made once in the locale \<open>majority_quorum\<close>.
\<close>

section \<open>Model\<close>

record Controller =
  co_ResourceID :: rid
  co_Healthy :: bool

record Membership =
  mb_localID :: rid
  mb_leaderID :: rid
  mb_controllers :: "(rid \<times> Controller) list"

datatype membership_error =
  MembershipSize | ControllerIDInvalid | ControllerDuplicate | LocalOutside | LeaderOutside | ControllerOutside

datatype authority_error = ErrNoQuorum | ErrNotLeader | ContextError string

fun new_membership_loop :: "Controller list \<Rightarrow> (rid \<times> Controller) list \<Rightarrow> membership_error + (rid \<times> Controller) list" where
  "new_membership_loop [] known = Inr known"
| "new_membership_loop (c # cs) known =
     (if \<not> ValidResourceID (co_ResourceID c) then Inl ControllerIDInvalid
      else if map_of known (co_ResourceID c) \<noteq> None then Inl ControllerDuplicate
      else new_membership_loop cs (AList.update (co_ResourceID c) c known))"

definition NewMembership :: "rid \<Rightarrow> rid \<Rightarrow> Controller list \<Rightarrow> membership_error + Membership" where
  "NewMembership localID leaderID controllers =
     (if \<not> ValidResourceID localID \<or> \<not> ValidResourceID leaderID \<or> length controllers < 3 \<or>
         length controllers mod 2 = 0
      then Inl MembershipSize
      else bindR (new_membership_loop controllers []) (\<lambda>known.
        if map_of known localID = None then Inl LocalOutside
        else if map_of known leaderID = None then Inl LeaderOutside
        else Inr \<lparr>mb_localID = localID, mb_leaderID = leaderID, mb_controllers = known\<rparr>))"

definition Majority :: "Membership \<Rightarrow> nat" where
  "Majority m = length (mb_controllers m) div 2 + 1"

definition RequireMutationAuthority :: "string option \<Rightarrow> Membership \<Rightarrow> authority_error option" where
  "RequireMutationAuthority ctx m =
     (case ctx of
        Some e \<Rightarrow> Some (ContextError e)
      | None \<Rightarrow>
          if mb_localID m \<noteq> mb_leaderID m then Some ErrNotLeader
          else let healthy = length (filter (\<lambda>p. co_Healthy (snd p)) (mb_controllers m)) in
            if healthy < length (mb_controllers m) div 2 + 1 then Some ErrNoQuorum else None)"

definition SetHealth :: "rid \<Rightarrow> bool \<Rightarrow> Membership \<Rightarrow> membership_error + Membership" where
  "SetHealth controllerID healthy m =
     (case map_of (mb_controllers m) controllerID of
        None \<Rightarrow> Inl ControllerOutside
      | Some c \<Rightarrow> Inr (m\<lparr>mb_controllers := AList.update controllerID (c\<lparr>co_Healthy := healthy\<rparr>) (mb_controllers m)\<rparr>))"

section \<open>Invariant\<close>

definition membership_wf :: "Membership \<Rightarrow> bool" where
  "membership_wf m \<longleftrightarrow> keyed_by co_ResourceID (mb_controllers m) \<and> odd (length (mb_controllers m)) \<and>
     3 \<le> length (mb_controllers m) \<and>
     mb_localID m \<in> fst ` set (mb_controllers m) \<and> mb_leaderID m \<in> fst ` set (mb_controllers m)"

definition healthy_ids :: "Membership \<Rightarrow> rid set" where
  "healthy_ids m = fst ` set (filter (\<lambda>p. co_Healthy (snd p)) (mb_controllers m))"

lemma new_membership_loop_wf:
  "new_membership_loop cs known = Inr known' \<Longrightarrow> keyed_by co_ResourceID known \<Longrightarrow>
   keyed_by co_ResourceID known' \<and> length known' = length known + length cs"
proof (induction cs known rule: new_membership_loop.induct)
  case (2 c cs known)
  then have new: "co_ResourceID c \<notin> fst ` set known" by (auto simp: map_of_eq_None_iff split: if_splits)
  then have len: "length (AList.update (co_ResourceID c) c known) = Suc (length known)"
    by (simp add: length_alist_update)
  from 2 show ?case
    by (auto simp: len keyed_by_update split: if_splits)
qed simp

lemma NewMembership_wf: "NewMembership l d cs = Inr m \<Longrightarrow> membership_wf m"
  using new_membership_loop_wf [of cs "[]"]
  by (auto simp: NewMembership_def membership_wf_def map_of_eq_None_iff even_iff_mod_2_eq_zero
      result_simps split: if_splits intro: rev_image_eqI)

lemma length_update_mem: "k \<in> fst ` set m \<Longrightarrow> length (AList.update k v m) = length m"
  by (simp add: length_alist_update)

lemma SetHealth_wf: "SetHealth c h m = Inr m' \<Longrightarrow> membership_wf m \<Longrightarrow> membership_wf m'"
proof -
  assume "SetHealth c h m = Inr m'" and wf: "membership_wf m"
  then obtain k where k: "map_of (mb_controllers m) c = Some k"
    and m': "m' = m\<lparr>mb_controllers := AList.update c (k\<lparr>co_Healthy := h\<rparr>) (mb_controllers m)\<rparr>"
    by (auto simp: SetHealth_def split: option.splits)
  have mem: "(c, k) \<in> set (mb_controllers m)" using k by (rule map_of_SomeD)
  then have "co_ResourceID k = c" using wf by (auto simp: membership_wf_def keyed_by_def)
  moreover have "c \<in> fst ` set (mb_controllers m)" using mem by force
  ultimately show ?thesis
    using wf by (auto simp: membership_wf_def m' keyed_by_update length_update_mem AList.dom_update)
qed

lemma card_healthy:
  "membership_wf m \<Longrightarrow> card (healthy_ids m) = length (filter (\<lambda>p. co_Healthy (snd p)) (mb_controllers m))"
proof -
  assume "membership_wf m"
  then have "distinct (map fst (filter (\<lambda>p. co_Healthy (snd p)) (mb_controllers m)))"
    by (simp add: membership_wf_def keyed_by_def distinct_map_filter)
  from distinct_card [OF this] show ?thesis by (simp add: healthy_ids_def)
qed

text \<open>The memberships a controller can hold: constructed, then updated by health reports.\<close>

inductive membership_built :: "Membership \<Rightarrow> bool" where
  built_new: "NewMembership localID leaderID controllers = Inr m \<Longrightarrow> membership_built m"
| built_health: "membership_built m \<Longrightarrow> SetHealth controllerID healthy m = Inr m' \<Longrightarrow> membership_built m'"

lemma membership_built_wf: "membership_built m \<Longrightarrow> membership_wf m"
  by (induction rule: membership_built.induct) (auto intro: NewMembership_wf SetHealth_wf)

section \<open>Majorities meet\<close>

locale majority_quorum =
  fixes members :: "'m set"
    and threshold :: nat
    and quorum :: "'v \<Rightarrow> 'm set"
    and authorised :: "'v \<Rightarrow> bool"
  assumes finite_members: "finite members"
    and threshold: "card members < 2 * threshold"
    and quorum_members: "authorised v \<Longrightarrow> quorum v \<subseteq> members"
    and quorum_size: "authorised v \<Longrightarrow> threshold \<le> card (quorum v)"
begin

lemma quorums_meet:
  assumes "authorised v" "authorised w"
  shows "quorum v \<inter> quorum w \<noteq> {}"
proof
  assume "quorum v \<inter> quorum w = {}"
  moreover have "finite (quorum v)" "finite (quorum w)"
    using quorum_members assms finite_members by (auto intro: finite_subset)
  ultimately have "card (quorum v) + card (quorum w) = card (quorum v \<union> quorum w)"
    by (simp add: card_Un_disjoint)
  also have "\<dots> \<le> card members"
    using quorum_members assms finite_members by (intro card_mono) auto
  finally show False using quorum_size [OF assms(1)] quorum_size [OF assms(2)] threshold by simp
qed

lemma no_disjoint_authority:
  "authorised v \<Longrightarrow> quorum v \<inter> quorum w = {} \<Longrightarrow> \<not> authorised w"
  using quorums_meet by blast

end

text \<open>
  The interpretation on the model: the views are memberships over the same controller set,
  a view's quorum is the set of controllers it believes healthy.
\<close>

definition views_of :: "rid set \<Rightarrow> Membership \<Rightarrow> bool" where
  "views_of ids m \<longleftrightarrow> membership_wf m \<and> fst ` set (mb_controllers m) = ids"

lemma views_of_size: "views_of ids m \<Longrightarrow> card ids = length (mb_controllers m) \<and> finite ids"
  using distinct_card [of "map fst (mb_controllers m)"]
  by (auto simp: views_of_def membership_wf_def keyed_by_def)

interpretation controllers: majority_quorum
  "if finite ids then ids else {}" "(if finite ids then card ids else 0) div 2 + 1" healthy_ids
  "\<lambda>m. views_of ids m \<and> RequireMutationAuthority None m = None" for ids
proof
  show "finite (if finite ids then ids else {})" by simp
  show "card (if finite ids then ids else {}) < 2 * ((if finite ids then card ids else 0) div 2 + 1)"
    by (simp; presburger)
next
  fix m assume "views_of ids m \<and> RequireMutationAuthority None m = None"
  then show "healthy_ids m \<subseteq> (if finite ids then ids else {})"
    using views_of_size [of ids m] by (auto simp: views_of_def healthy_ids_def)
next
  fix m assume "views_of ids m \<and> RequireMutationAuthority None m = None"
  then show "(if finite ids then card ids else 0) div 2 + 1 \<le> card (healthy_ids m)"
    using views_of_size [of ids m] card_healthy [of m]
    by (auto simp: views_of_def RequireMutationAuthority_def Let_def split: if_splits)
qed

section \<open>Properties\<close>

text \<open>
  (C8) Mutation authority is exclusive across a partition. Take two memberships built by
  \<^verbatim>\<open>NewMembership\<close> over the same controllers and updated by health reports. If the sets of
  controllers they hold healthy are disjoint, at most one of them is granted authority; and
  authority is granted exactly to the leader that sees at least a majority healthy.
\<close>

theorem mutation_authority_exclusive:
  assumes "membership_built m" "membership_built n"
    and "fst ` set (mb_controllers m) = fst ` set (mb_controllers n)"
    and "healthy_ids m \<inter> healthy_ids n = {}"
  shows "\<not> (RequireMutationAuthority None m = None \<and> RequireMutationAuthority None n = None) \<and>
    (RequireMutationAuthority None m = None \<longleftrightarrow>
       mb_localID m = mb_leaderID m \<and> Majority m \<le> card (healthy_ids m))"
proof
  have wf: "membership_wf m" "membership_wf n"
    using assms(1,2) by (auto intro: membership_built_wf)
  then show "\<not> (RequireMutationAuthority None m = None \<and> RequireMutationAuthority None n = None)"
    using controllers.no_disjoint_authority [of "fst ` set (mb_controllers m)" m n] assms(3,4)
    by (auto simp: views_of_def)
  show "RequireMutationAuthority None m = None \<longleftrightarrow>
       mb_localID m = mb_leaderID m \<and> Majority m \<le> card (healthy_ids m)"
    using card_healthy [OF wf(1)] by (auto simp: RequireMutationAuthority_def Majority_def Let_def)
qed

abbreviation sampleView :: "char \<Rightarrow> bool \<Rightarrow> bool \<Rightarrow> bool \<Rightarrow> Membership" where
  "sampleView me a b c \<equiv> \<lparr>mb_localID = sampleID me, mb_leaderID = sampleID me,
     mb_controllers =
       [(sampleID (CHR ''1''), \<lparr>co_ResourceID = sampleID (CHR ''1''), co_Healthy = a\<rparr>),
        (sampleID (CHR ''2''), \<lparr>co_ResourceID = sampleID (CHR ''2''), co_Healthy = b\<rparr>),
        (sampleID (CHR ''3''), \<lparr>co_ResourceID = sampleID (CHR ''3''), co_Healthy = c\<rparr>)]\<rparr>"

lemma sampleView_built:
  "me \<in> {CHR ''1'', CHR ''2'', CHR ''3''} \<Longrightarrow> membership_built (sampleView me a b c)"
  by (rule built_new [of "sampleID me" "sampleID me" "map snd (mb_controllers (sampleView me a b c))"])
    (auto simp: NewMembership_def sampleID_valid)

theorem mutation_authority_exclusive_witness:
  "RequireMutationAuthority None (sampleView (CHR ''1'') True True False) = None \<and>
   RequireMutationAuthority None (sampleView (CHR ''3'') False False True) \<noteq> None"
proof -
  have built: "membership_built (sampleView (CHR ''1'') True True False)"
    "membership_built (sampleView (CHR ''3'') False False True)"
    by (rule sampleView_built; simp)+
  have "RequireMutationAuthority None (sampleView (CHR ''1'') True True False) = None"
    by (simp add: RequireMutationAuthority_def)
  moreover have "healthy_ids (sampleView (CHR ''1'') True True False) \<inter>
      healthy_ids (sampleView (CHR ''3'') False False True) = {}"
    by (simp add: healthy_ids_def)
  then have "\<not> (RequireMutationAuthority None (sampleView (CHR ''1'') True True False) = None \<and>
      RequireMutationAuthority None (sampleView (CHR ''3'') False False True) = None)"
    by (intro mutation_authority_exclusive [OF built, THEN conjunct1]) simp
  ultimately show ?thesis by argo
qed

end
