(* ===== verification/Lease_Contract.thy ===== *)
theory Lease_Contract
  imports Repository Membership
begin

text \<open>
  Writer leases. A lease on an HA endpoint of a cluster authorises one instance to hold the
  VIP and accept writes; it is stable (its operation is the endpoint itself) or belongs to a
  transition from a previous owner. This theory holds the interface \<^verbatim>\<open>endpoint.LeaseStore\<close>
  (\<^verbatim>\<open>internal/endpoint/lease.go\<close>) as a record of functions, its client, the transition
  authorisation of \<^verbatim>\<open>internal/endpoint/lease_authorization.go\<close>, and the contract between the
  two as the locale \<open>writer_leases\<close>. The stores that implement it are in the theories
  \<open>Leases\<close> and \<open>Memory_Leases\<close>.
\<close>

section \<open>Requests and lease identity\<close>

record LeaseRequest =
  rq_ClusterID :: rid
  rq_HAEndpointID :: rid
  rq_OperationID :: rid
  rq_OwnerID :: rid
  rq_PreviousOwnerID :: rid
  rq_TTL :: duration
  rq_RenewOnly :: bool

datatype lease_error =
  ErrLeaseConflict string
  | LeaseScopeInvalid
  | LeaseAuthority authority_error
  | LeaseContext string
  | LeasePersist string store_error
  | LeaseRequestRejected rid lease_error
  | LeaseRequestInvalid string

definition SameLeaseIdentity :: "Lease \<Rightarrow> Lease \<Rightarrow> bool" where
  "SameLeaseIdentity current presented \<longleftrightarrow>
     l_ResourceID current = l_ResourceID presented \<and> l_ClusterID current = l_ClusterID presented \<and>
     l_HAEndpointID current = l_HAEndpointID presented \<and> l_OperationID current = l_OperationID presented \<and>
     l_OwnerID current = l_OwnerID presented \<and> l_PreviousOwnerID current = l_PreviousOwnerID presented \<and>
     l_Active current = l_Active presented"

definition CanHandoffStableLease :: "Lease \<Rightarrow> LeaseRequest \<Rightarrow> bool" where
  "CanHandoffStableLease current request \<longleftrightarrow>
     ValidResourceID (rq_PreviousOwnerID request) \<and> l_OperationID current = rq_HAEndpointID request \<and>
     rq_OperationID request \<noteq> rq_HAEndpointID request \<and> l_OwnerID current = rq_PreviousOwnerID request \<and>
     rq_OwnerID request \<noteq> rq_PreviousOwnerID request"

text \<open>The interface \<^verbatim>\<open>endpoint.LeaseStore\<close> with \<^verbatim>\<open>endpoint.CurrentLeaseReader\<close>.\<close>

record ('e, 's) LeaseStore =
  ls_Acquire :: "'e \<Rightarrow> LeaseRequest \<Rightarrow> rid \<Rightarrow> 's \<Rightarrow> (lease_error + Lease) \<times> 's"
  ls_Validate :: "'e \<Rightarrow> Lease \<Rightarrow> 's \<Rightarrow> lease_error option"
  ls_Current :: "'e \<Rightarrow> rid \<Rightarrow> rid \<Rightarrow> 's \<Rightarrow> (lease_error + Lease) \<times> 's"
  ls_FinalizeTransition :: "'e \<Rightarrow> Lease \<Rightarrow> duration \<Rightarrow> 's \<Rightarrow> (lease_error + Lease) \<times> 's"
  ls_RollbackTransition :: "'e \<Rightarrow> Lease \<Rightarrow> duration \<Rightarrow> 's \<Rightarrow> (lease_error + Lease) \<times> 's"
  ls_Release :: "'e \<Rightarrow> rid \<Rightarrow> 's \<Rightarrow> lease_error option \<times> 's"

text \<open>Tests the operations share.\<close>

abbreviation leaseLive :: "go_time \<Rightarrow> Lease \<Rightarrow> bool" where
  "leaseLive now lease \<equiv> l_Active lease \<and> l_ExpiresAt lease > now"

abbreviation leaseFor :: "Lease \<Rightarrow> LeaseRequest \<Rightarrow> bool" where
  "leaseFor lease request \<equiv> l_ClusterID lease = rq_ClusterID request \<and> l_HAEndpointID lease = rq_HAEndpointID request"

abbreviation leaseOwned :: "Lease \<Rightarrow> LeaseRequest \<Rightarrow> bool" where
  "leaseOwned lease request \<equiv> l_OperationID lease = rq_OperationID request \<and> l_OwnerID lease = rq_OwnerID request \<and>
     l_PreviousOwnerID lease = rq_PreviousOwnerID request"

definition grantLease :: "LeaseRequest \<Rightarrow> rid \<Rightarrow> go_time \<Rightarrow> Lease" where
  "grantLease request fresh expires =
     \<lparr>l_ResourceID = fresh, l_ClusterID = rq_ClusterID request, l_HAEndpointID = rq_HAEndpointID request,
      l_OperationID = rq_OperationID request, l_OwnerID = rq_OwnerID request,
      l_PreviousOwnerID = rq_PreviousOwnerID request, l_ExpiresAt = expires, l_Active = True\<rparr>"

definition handoffLease :: "Lease \<Rightarrow> LeaseRequest \<Rightarrow> go_time \<Rightarrow> Lease" where
  "handoffLease lease request expires =
     lease\<lparr>l_OperationID := rq_OperationID request, l_OwnerID := rq_OwnerID request,
           l_PreviousOwnerID := rq_PreviousOwnerID request, l_ExpiresAt := expires\<rparr>"

definition finalizeLease :: "Lease \<Rightarrow> go_time \<Rightarrow> Lease" where
  "finalizeLease current expires =
     current\<lparr>l_OperationID := l_HAEndpointID current, l_PreviousOwnerID := [], l_ExpiresAt := expires\<rparr>"

definition rollbackLease :: "Lease \<Rightarrow> go_time \<Rightarrow> Lease" where
  "rollbackLease current expires =
     current\<lparr>l_OperationID := l_HAEndpointID current, l_OwnerID := l_PreviousOwnerID current,
             l_PreviousOwnerID := [], l_ExpiresAt := expires\<rparr>"

section \<open>The transition session\<close>

text \<open>
  \<^verbatim>\<open>authorizeTransitionLease\<close> acquires a lease and starts a renewal task; the closures it
  returns share the variables of this record. The mutexes make each renewal, finalisation
  and abort one step. \<open>ts_cancelled\<close> is the cause the guarded context was cancelled with,
  \<open>ts_renewing\<close> that the renewal task still runs.
\<close>

datatype session_cause = CauseRenew lease_error | CauseIdentityChanged | CauseFinalize lease_error | CauseRollback lease_error
  | CauseCanceled

datatype terminal_action = NoAction | FinalizeAction | AbortAction

datatype session_error = SessionLease lease_error | SessionCause session_cause | AlreadyAborted | AlreadyFinalized

record TransitionSession =
  ts_request :: LeaseRequest
  ts_current :: Lease
  ts_ttl :: duration
  ts_cancelled :: "session_cause option"
  ts_renewing :: bool
  ts_terminalAction :: terminal_action
  ts_terminalErr :: "lease_error option"

definition cancelCause :: "session_cause \<Rightarrow> TransitionSession \<Rightarrow> TransitionSession" where
  "cancelCause cause ses = (case ts_cancelled ses of None \<Rightarrow> ses\<lparr>ts_cancelled := Some cause\<rparr> | Some _ \<Rightarrow> ses)"

definition authorizeTransitionLease ::
  "('e, 's) LeaseStore \<Rightarrow> 'e \<Rightarrow> rid \<Rightarrow> rid \<Rightarrow> rid \<Rightarrow> rid \<Rightarrow> rid \<Rightarrow> duration \<Rightarrow> rid \<Rightarrow> 's \<Rightarrow>
   (lease_error + TransitionSession) \<times> 's" where
  "authorizeTransitionLease st env clusterID haEndpointID operationID targetID primaryID ttl fresh s =
     (let ttl = (if ttl \<le> 0 then 30 * second else ttl);
          request = \<lparr>rq_ClusterID = clusterID, rq_HAEndpointID = haEndpointID, rq_OperationID = operationID,
                     rq_OwnerID = targetID, rq_PreviousOwnerID = primaryID, rq_TTL = ttl, rq_RenewOnly = False\<rparr> in
      case ls_Acquire st env request fresh s of
        (Inl e, s') \<Rightarrow> (Inl e, s')
      | (Inr lease, s') \<Rightarrow>
          (Inr \<lparr>ts_request = request\<lparr>rq_RenewOnly := True\<rparr>, ts_current = lease, ts_ttl = ttl, ts_cancelled = None,
                ts_renewing = True, ts_terminalAction = NoAction, ts_terminalErr = None\<rparr>, s'))"

definition session_tick :: "('e, 's) LeaseStore \<Rightarrow> 'e \<Rightarrow> rid \<Rightarrow> TransitionSession \<Rightarrow> 's \<Rightarrow> TransitionSession \<times> 's" where
  "session_tick st env fresh ses s =
     (if \<not> ts_renewing ses \<or> ts_cancelled ses \<noteq> None then (ses\<lparr>ts_renewing := False\<rparr>, s)
      else case ls_Acquire st env (ts_request ses) fresh s of
        (Inl e, s') \<Rightarrow> ((cancelCause (CauseRenew e) ses)\<lparr>ts_renewing := False\<rparr>, s')
      | (Inr renewed, s') \<Rightarrow>
          if \<not> SameLeaseIdentity (ts_current ses) renewed
          then ((cancelCause CauseIdentityChanged ses)\<lparr>ts_renewing := False\<rparr>, s')
          else (ses\<lparr>ts_current := renewed\<rparr>, s'))"

definition stableRenewal :: "Lease \<Rightarrow> duration \<Rightarrow> LeaseRequest" where
  "stableRenewal owned ttl =
     \<lparr>rq_ClusterID = l_ClusterID owned, rq_HAEndpointID = l_HAEndpointID owned, rq_OperationID = l_HAEndpointID owned,
      rq_OwnerID = l_OwnerID owned, rq_PreviousOwnerID = [], rq_TTL = ttl, rq_RenewOnly = True\<rparr>"

definition session_finalize ::
  "('e, 's) LeaseStore \<Rightarrow> 'e \<Rightarrow> TransitionSession \<Rightarrow> 's \<Rightarrow> session_error option \<times> TransitionSession \<times> 's" where
  "session_finalize st env ses s =
     (if ts_terminalAction ses = FinalizeAction then (map_option SessionLease (ts_terminalErr ses), ses, s)
      else if ts_terminalAction ses = AbortAction then (Some AlreadyAborted, ses, s)
      else case ts_cancelled ses of
        Some cause \<Rightarrow> (Some (SessionCause cause), ses, s)
      | None \<Rightarrow>
          let ses = ses\<lparr>ts_terminalAction := FinalizeAction\<rparr> in
          case ls_FinalizeTransition st env (ts_current ses) (ts_ttl ses) s of
            (Inr owned, s') \<Rightarrow>
              (None, ses\<lparr>ts_current := owned, ts_terminalErr := None,
                 ts_request := stableRenewal owned (ts_ttl ses)\<rparr>, s')
          | (Inl e, s') \<Rightarrow>
              (Some (SessionLease e), cancelCause (CauseFinalize e) (ses\<lparr>ts_terminalErr := Some e\<rparr>), s'))"

definition session_abort ::
  "('e, 's) LeaseStore \<Rightarrow> 'e \<Rightarrow> TransitionSession \<Rightarrow> 's \<Rightarrow> session_error option \<times> TransitionSession \<times> 's" where
  "session_abort st env ses s =
     (if ts_terminalAction ses = AbortAction then (map_option SessionLease (ts_terminalErr ses), ses, s)
      else if ts_terminalAction ses = FinalizeAction then (Some AlreadyFinalized, ses, s)
      else let ses = ses\<lparr>ts_renewing := False, ts_terminalAction := AbortAction\<rparr> in
        case ls_RollbackTransition st env (ts_current ses) (ts_ttl ses) s of
          (Inr _, s') \<Rightarrow> (None, ses\<lparr>ts_terminalErr := None\<rparr>, s')
        | (Inl e, s') \<Rightarrow>
            (Some (SessionLease e), cancelCause (CauseRollback e) (ses\<lparr>ts_terminalErr := Some e\<rparr>), s'))"

definition session_cancel :: "TransitionSession \<Rightarrow> TransitionSession" where
  "session_cancel ses = cancelCause CauseCanceled (ses\<lparr>ts_renewing := False\<rparr>)"

section \<open>The contract\<close>

text \<open>At most one live lease for a cluster and endpoint.\<close>

definition exclusive :: "go_time \<Rightarrow> Lease set \<Rightarrow> bool" where
  "exclusive now L \<longleftrightarrow> (\<forall>a \<in> L. \<forall>b \<in> L. leaseLive now a \<and> leaseLive now b \<and>
     l_ClusterID a = l_ClusterID b \<and> l_HAEndpointID a = l_HAEndpointID b \<longrightarrow> a = b)"

lemma exclusive_later: "exclusive now L \<Longrightarrow> now \<le> now' \<Longrightarrow> exclusive now' L"
  unfolding exclusive_def by (meson le_less_trans)

lemma exclusive_live:
  "(\<And>l. l \<in> L' \<Longrightarrow> leaseLive now l \<Longrightarrow> l \<in> L) \<Longrightarrow> exclusive now L \<Longrightarrow> exclusive now L'"
  unfolding exclusive_def by blast

lemma SameLeaseIdentity_refl [simp]: "SameLeaseIdentity l l"
  by (simp add: SameLeaseIdentity_def)

lemma SameLeaseIdentity_trans: "SameLeaseIdentity a b \<Longrightarrow> SameLeaseIdentity b c \<Longrightarrow> SameLeaseIdentity a c"
  by (simp add: SameLeaseIdentity_def)

text \<open>The session's lease matches the request it renews with, as long as it is not aborted.\<close>

definition session_ok :: "TransitionSession \<Rightarrow> bool" where
  "session_ok ses \<longleftrightarrow> leaseFor (ts_current ses) (ts_request ses) \<and> leaseOwned (ts_current ses) (ts_request ses) \<and>
     l_Active (ts_current ses) \<and> rq_RenewOnly (ts_request ses) \<and> (ts_terminalAction ses = NoAction \<longrightarrow> ts_terminalErr ses = None)"

text \<open>
  What a client of \<^verbatim>\<open>endpoint.LeaseStore\<close> relies on. \<open>clock\<close> reads the instant at which a call
  runs, \<open>may_act\<close> that the store accepts calls at all, \<open>leases\<close> is the lease table, \<open>wf\<close> the
  store's representation invariant. No law promises that a call succeeds: a commit can fail.
\<close>

locale writer_leases =
  fixes st :: "('e, 's) LeaseStore"
    and clock :: "'e \<Rightarrow> go_time"
    and may_act :: "'e \<Rightarrow> 's \<Rightarrow> bool"
    and leases :: "'s \<Rightarrow> Lease set"
    and wf :: "'s \<Rightarrow> bool"
  assumes wf_unique: "\<lbrakk>wf s; a \<in> leases s; b \<in> leases s; l_ResourceID a = l_ResourceID b\<rbrakk> \<Longrightarrow> a = b"
    and acquire_wf: "\<lbrakk>wf s; fresh \<notin> l_ResourceID ` leases s; ls_Acquire st env rq fresh s = (r, s')\<rbrakk> \<Longrightarrow> wf s'"
    and acquire_exclusive: "\<lbrakk>wf s; exclusive (clock env) (leases s); fresh \<notin> l_ResourceID ` leases s;
         ls_Acquire st env rq fresh s = (r, s')\<rbrakk> \<Longrightarrow> exclusive (clock env) (leases s')"
    and acquire_grants: "\<lbrakk>wf s; fresh \<notin> l_ResourceID ` leases s; ls_Acquire st env rq fresh s = (Inr l, s')\<rbrakk> \<Longrightarrow>
         l \<in> leases s' \<and> leaseLive (clock env) l \<and> leaseFor l rq \<and> leaseOwned l rq"
    and acquire_refused: "\<lbrakk>wf s; exclusive (clock env) (leases s); c \<in> leases s; leaseLive (clock env) c; leaseFor c rq;
         \<not> leaseOwned c rq; rq_RenewOnly rq \<or> \<not> CanHandoffStableLease c rq\<rbrakk> \<Longrightarrow>
         \<exists>e s'. ls_Acquire st env rq fresh s = (Inl e, s')"
    and validate_iff: "\<lbrakk>wf s; may_act env s\<rbrakk> \<Longrightarrow>
         ls_Validate st env l s = None \<longleftrightarrow> (\<exists>c \<in> leases s. leaseLive (clock env) c \<and> SameLeaseIdentity c l)"
    and finalize_wf: "\<lbrakk>wf s; ls_FinalizeTransition st env t ttl s = (r, s')\<rbrakk> \<Longrightarrow> wf s'"
    and finalize_exclusive: "\<lbrakk>wf s; exclusive (clock env) (leases s); ls_FinalizeTransition st env t ttl s = (r, s')\<rbrakk> \<Longrightarrow>
         exclusive (clock env) (leases s')"
    and finalize_grants: "\<lbrakk>wf s; ls_FinalizeTransition st env t ttl s = (Inr l, s')\<rbrakk> \<Longrightarrow>
         l_OperationID t \<noteq> l_HAEndpointID t \<and> l \<in> leases s' \<and> leaseLive (clock env) l \<and>
         SameLeaseIdentity l (finalizeLease t 0)"
    and rollback_wf: "\<lbrakk>wf s; ls_RollbackTransition st env t ttl s = (r, s')\<rbrakk> \<Longrightarrow> wf s'"
    and rollback_exclusive: "\<lbrakk>wf s; exclusive (clock env) (leases s); ls_RollbackTransition st env t ttl s = (r, s')\<rbrakk> \<Longrightarrow>
         exclusive (clock env) (leases s')"
    and rollback_grants: "\<lbrakk>wf s; ls_RollbackTransition st env t ttl s = (Inr l, s')\<rbrakk> \<Longrightarrow>
         l_OperationID t \<noteq> l_HAEndpointID t \<and> l \<in> leases s' \<and> leaseLive (clock env) l \<and>
         SameLeaseIdentity l (rollbackLease t 0)"
    and release_wf: "\<lbrakk>wf s; ls_Release st env i s = (err, s')\<rbrakk> \<Longrightarrow> wf s'"
    and release_subset: "\<lbrakk>wf s; ls_Release st env i s = (err, s')\<rbrakk> \<Longrightarrow> leases s' \<subseteq> leases s"
begin

text \<open>A granted lease validates until it expires.\<close>

lemma acquired_validates:
  assumes "wf s" "fresh \<notin> l_ResourceID ` leases s" "ls_Acquire st env rq fresh s = (Inr l, s')"
    and "may_act env' s'" "clock env' < l_ExpiresAt l"
  shows "ls_Validate st env' l s' = None"
  using acquire_grants [OF assms(1-3)] acquire_wf [OF assms(1-3)] validate_iff [of s' env' l] assms(4,5)
  by (metis SameLeaseIdentity_refl)

text \<open>While a transition's lease lives, every other request for the endpoint is refused.\<close>

lemma transition_excludes:
  assumes "wf s" "exclusive (clock env) (leases s)" "fresh \<notin> l_ResourceID ` leases s"
    and "ls_Acquire st env rq fresh s = (Inr l, s')" "rq_OperationID rq \<noteq> rq_HAEndpointID rq"
    and "clock env \<le> clock env'" "clock env' < l_ExpiresAt l"
    and "rq_ClusterID rq' = rq_ClusterID rq" "rq_HAEndpointID rq' = rq_HAEndpointID rq"
    and "\<not> leaseOwned l rq'"
  shows "\<exists>e t. ls_Acquire st env' rq' fresh' s' = (Inl e, t)"
proof -
  have l: "l \<in> leases s'" "leaseLive (clock env) l" "leaseFor l rq" "leaseOwned l rq"
    using acquire_grants [OF assms(1,3,4)] by auto
  have ex: "exclusive (clock env') (leases s')"
    using acquire_exclusive [OF assms(1-4)] assms(6) by (rule exclusive_later)
  have "\<not> CanHandoffStableLease l rq'"
    using l assms(5,9) by (simp add: CanHandoffStableLease_def)
  with acquire_refused [OF acquire_wf [OF assms(1,3,4)] ex l(1), of rq' fresh'] l assms(7-10)
  show ?thesis by auto
qed

text \<open>After a transition is finalised its old lease no longer validates.\<close>

lemma finalized_invalidates:
  assumes "wf s" "ls_FinalizeTransition st env t ttl s = (Inr l, s')" "may_act env' s'"
  shows "ls_Validate st env' t s' \<noteq> None"
proof
  assume "ls_Validate st env' t s' = None"
  then obtain c where c: "c \<in> leases s'" "SameLeaseIdentity c t"
    using validate_iff [OF finalize_wf [OF assms(1,2)] assms(3)] by auto
  note g = finalize_grants [OF assms(1,2)]
  have "l_ResourceID c = l_ResourceID l" using c(2) g by (simp add: SameLeaseIdentity_def finalizeLease_def)
  with wf_unique [OF finalize_wf [OF assms(1,2)] c(1)] g have "c = l" by blast
  with c(2) g show False by (auto simp: SameLeaseIdentity_def finalizeLease_def)
qed

subsection \<open>Sessions\<close>

lemma authorize_ok:
  assumes "wf s" "fresh \<notin> l_ResourceID ` leases s"
    and "authorizeTransitionLease st env c h p tgt prim ttl fresh s = (Inr ses, s')"
  shows "session_ok ses \<and> ts_terminalAction ses = NoAction \<and> ts_current ses \<in> leases s' \<and>
    l_OwnerID (ts_current ses) = tgt \<and> l_PreviousOwnerID (ts_current ses) = prim \<and> l_OperationID (ts_current ses) = p"
proof -
  from assms(3) obtain rq l where a: "ls_Acquire st env rq fresh s = (Inr l, s')"
    and rq: "rq_OwnerID rq = tgt" "rq_PreviousOwnerID rq = prim" "rq_OperationID rq = p"
    and ses: "ts_current ses = l" "ts_request ses = rq\<lparr>rq_RenewOnly := True\<rparr>" "ts_terminalAction ses = NoAction"
      "ts_terminalErr ses = None"
    by (auto simp: authorizeTransitionLease_def Let_def split: prod.splits sum.splits)
  from acquire_grants [OF assms(1,2) a] rq ses show ?thesis by (auto simp: session_ok_def)
qed

lemma tick_ok:
  assumes "wf s" "fresh \<notin> l_ResourceID ` leases s" "session_ok ses" "session_tick st env fresh ses s = (ses', s')"
  shows "wf s' \<and> session_ok ses' \<and> SameLeaseIdentity (ts_current ses) (ts_current ses') \<and>
    (ts_renewing ses' \<longrightarrow> ts_current ses' \<in> leases s' \<and> leaseLive (clock env) (ts_current ses'))"
proof (cases "\<not> ts_renewing ses \<or> ts_cancelled ses \<noteq> None")
  case True
  with assms show ?thesis by (auto simp: session_tick_def session_ok_def)
next
  case False
  obtain r t where a: "ls_Acquire st env (ts_request ses) fresh s = (r, t)" by fastforce
  show ?thesis
  proof (cases r)
    case (Inl e)
    with False a assms acquire_wf [OF assms(1,2) a] show ?thesis
      by (auto simp: session_tick_def session_ok_def cancelCause_def split: option.splits)
  next
    case (Inr l)
    with False a assms acquire_wf [OF assms(1,2) a] acquire_grants [OF assms(1,2) a [unfolded Inr]] show ?thesis
      by (auto simp: session_tick_def session_ok_def cancelCause_def split: option.splits if_splits)
  qed
qed

text \<open>
  A successful finalisation makes the target the stable owner, and from then on the session
  renews that stable lease; an abort afterwards is refused and changes nothing.
\<close>

lemma finalize_session:
  assumes "wf s" "session_ok ses" "ts_terminalAction ses = NoAction"
    and "session_finalize st env ses s = (None, ses', s')"
  shows "session_ok ses' \<and> ts_current ses' \<in> leases s' \<and> leaseLive (clock env) (ts_current ses') \<and>
    l_OperationID (ts_current ses') = l_HAEndpointID (ts_current ses') \<and>
    l_OwnerID (ts_current ses') = l_OwnerID (ts_current ses) \<and>
    session_abort st env2 ses' s2 = (Some AlreadyFinalized, ses', s2)"
proof -
  from assms(3,4) obtain l where f: "ls_FinalizeTransition st env (ts_current ses) (ts_ttl ses) s = (Inr l, s')"
    and ses': "ts_current ses' = l" "ts_terminalAction ses' = FinalizeAction" "ts_terminalErr ses' = None"
      "ts_request ses' = stableRenewal l (ts_ttl ses)"
    by (auto simp: session_finalize_def Let_def split: option.splits prod.splits sum.splits)
  from finalize_grants [OF assms(1) f] ses' show ?thesis
    by (auto simp: session_ok_def SameLeaseIdentity_def finalizeLease_def stableRenewal_def session_abort_def)
qed

lemma abort_session:
  assumes "wf s" "session_ok ses" "ts_terminalAction ses = NoAction"
    and "session_abort st env ses s = (None, ses', s')"
  shows "(\<exists>l \<in> leases s'. leaseLive (clock env) l \<and> SameLeaseIdentity l (rollbackLease (ts_current ses) 0)) \<and>
    \<not> ts_renewing ses' \<and> session_finalize st env2 ses' s2 = (Some AlreadyAborted, ses', s2)"
proof -
  from assms(3,4) obtain l where f: "ls_RollbackTransition st env (ts_current ses) (ts_ttl ses) s = (Inr l, s')"
    and ses': "ts_terminalAction ses' = AbortAction" "\<not> ts_renewing ses'"
    by (auto simp: session_abort_def Let_def split: prod.splits sum.splits)
  from rollback_grants [OF assms(1) f] ses' show ?thesis by (auto simp: session_finalize_def)
qed

end

end
