(* ===== verification/Leases.thy ===== *)
theory Leases
  imports Lease_Contract Membership
begin

text \<open>
  The quorum-backed lease store (\<^verbatim>\<open>internal/coordination/lease.go\<close>): leases as records of the
  replicated repository. Each operation takes an environment with what it reads from
  outside: the answer of the authority check, the store's clock and the repository's
  environment. Identifiers that \<^verbatim>\<open>model.NewResourceID\<close> draws are arguments. A store whose
  dependencies are nil pointers is not modelled. The theory ends with the interpretation of
  the contract \<open>writer_leases\<close> and with the invariant of every reachable lease table: at most
  one live lease per cluster and endpoint.
\<close>

section \<open>The quorum lease store\<close>

record lease_env =
  le_authority :: "authority_error option"
  le_now :: go_time
  le_repo :: repo_env

definition maxLeaseTTL :: duration where
  "maxLeaseTTL = minute"

definition leaseTTL :: "duration \<Rightarrow> duration" where
  "leaseTTL ttl = (if ttl \<le> 0 \<or> ttl > maxLeaseTTL then 30 * second else ttl)"

definition putLease :: "lease_env \<Rightarrow> string \<Rightarrow> LeaseRecord \<Rightarrow> snapshot \<Rightarrow> (lease_error + Lease) \<times> snapshot" where
  "putLease env what record' s =
     (case PutCoordinationLease (le_repo env) record' s of
        (Some e, s') \<Rightarrow> (Inl (LeasePersist what e), s')
      | (None, s') \<Rightarrow> (Inr (lr_Lease record'), s'))"

definition acquire_hit :: "lease_env \<Rightarrow> LeaseRequest \<Rightarrow> LeaseRecord \<Rightarrow> snapshot \<Rightarrow> (lease_error + Lease) \<times> snapshot" where
  "acquire_hit env request record' s =
     (let lease = lr_Lease record'; now = le_now env in
      if leaseOwned lease request
      then let requestedExpiry = time_add now (rq_TTL request);
               lease' = (if requestedExpiry > l_ExpiresAt lease \<or> time_sub (l_ExpiresAt lease) now > maxLeaseTTL
                         then lease\<lparr>l_ExpiresAt := requestedExpiry\<rparr> else lease)
           in putLease env ''renew quorum lease'' (record'\<lparr>lr_Lease := lease', lr_UpdatedAt := now\<rparr>) s
      else if \<not> rq_RenewOnly request \<and> CanHandoffStableLease lease request
      then putLease env ''promote stable ownership lease to transition''
             (record'\<lparr>lr_Lease := handoffLease lease request (time_add now (rq_TTL request)), lr_UpdatedAt := now\<rparr>) s
      else (Inl (ErrLeaseConflict ''active quorum lease belongs to another operation''), s))"

fun acquire_loop :: "lease_env \<Rightarrow> LeaseRequest \<Rightarrow> LeaseRecord list \<Rightarrow> snapshot \<Rightarrow> (lease_error + Lease) option \<times> snapshot" where
  "acquire_loop env request [] s = (None, s)"
| "acquire_loop env request (r # rs) s =
     (if \<not> leaseLive (le_now env) (lr_Lease r)
      then acquire_loop env request rs (snd (DeleteCoordinationLease (le_repo env) (l_ResourceID (lr_Lease r)) s))
      else if \<not> leaseFor (lr_Lease r) request then acquire_loop env request rs s
      else (case acquire_hit env request r s of (res, s') \<Rightarrow> (Some res, s')))"

definition LeaseStore_Acquire :: "lease_env \<Rightarrow> LeaseRequest \<Rightarrow> rid \<Rightarrow> snapshot \<Rightarrow> (lease_error + Lease) \<times> snapshot" where
  "LeaseStore_Acquire env request fresh s =
     (case le_authority env of
        Some e \<Rightarrow> (Inl (LeaseAuthority e), s)
      | None \<Rightarrow>
          if \<not> ValidResourceID (rq_ClusterID request) \<or> \<not> ValidResourceID (rq_HAEndpointID request) \<or>
             \<not> ValidResourceID (rq_OperationID request) \<or> \<not> ValidResourceID (rq_OwnerID request)
          then (Inl LeaseScopeInvalid, s)
          else let request = request\<lparr>rq_TTL := leaseTTL (rq_TTL request)\<rparr>; now = le_now env in
            case acquire_loop env request (CoordinationLeases_list s) s of
              (Some res, s') \<Rightarrow> (res, s')
            | (None, s') \<Rightarrow>
                if rq_RenewOnly request
                then (Inl (ErrLeaseConflict ''renew-only quorum lease is missing or expired''), s')
                else putLease env ''persist quorum lease''
                  \<lparr>lr_Lease = grantLease request fresh (time_add now (rq_TTL request)),
                   lr_CreatedAt = now, lr_UpdatedAt = now\<rparr> s')"

definition LeaseStore_Validate :: "lease_env \<Rightarrow> Lease \<Rightarrow> snapshot \<Rightarrow> lease_error option" where
  "LeaseStore_Validate env lease s =
     (case le_authority env of
        Some e \<Rightarrow> Some (LeaseAuthority e)
      | None \<Rightarrow>
          if list_ex (\<lambda>r. l_ResourceID (lr_Lease r) = l_ResourceID lease \<and> leaseLive (le_now env) (lr_Lease r) \<and>
                          SameLeaseIdentity (lr_Lease r) lease) (CoordinationLeases_list s)
          then None else Some (ErrLeaseConflict ''quorum lease is missing, expired, or changed''))"

fun current_loop :: "go_time \<Rightarrow> rid \<Rightarrow> rid \<Rightarrow> Lease list \<Rightarrow> Lease option \<Rightarrow> lease_error + Lease option" where
  "current_loop now clusterID haEndpointID [] selected = Inr selected"
| "current_loop now clusterID haEndpointID (lease # rest) selected =
     (if \<not> leaseLive now lease \<or> l_ClusterID lease \<noteq> clusterID \<or> l_HAEndpointID lease \<noteq> haEndpointID
      then current_loop now clusterID haEndpointID rest selected
      else if selected \<noteq> None \<and> l_ResourceID (the selected) \<noteq> []
      then Inl (ErrLeaseConflict ''multiple active quorum leases'')
      else current_loop now clusterID haEndpointID rest (Some lease))"

definition selectedLease :: "lease_error + Lease option \<Rightarrow> string \<Rightarrow> lease_error + Lease" where
  "selectedLease selected missing =
     bindR selected (\<lambda>sel. case sel of
        None \<Rightarrow> Inl (ErrLeaseConflict missing)
      | Some lease \<Rightarrow> if l_ResourceID lease = [] then Inl (ErrLeaseConflict missing) else Inr lease)"

definition LeaseStore_Current :: "lease_env \<Rightarrow> rid \<Rightarrow> rid \<Rightarrow> snapshot \<Rightarrow> (lease_error + Lease) \<times> snapshot" where
  "LeaseStore_Current env clusterID haEndpointID s =
     (case le_authority env of
        Some e \<Rightarrow> (Inl (LeaseAuthority e), s)
      | None \<Rightarrow> (selectedLease (current_loop (le_now env) clusterID haEndpointID
                   (map lr_Lease (CoordinationLeases_list s)) None) ''active quorum lease is missing'', s))"

text \<open>
  \<^verbatim>\<open>FinalizeTransition\<close> and \<^verbatim>\<open>RollbackTransition\<close> skip records until one has the transition's
  identifier, and then either rewrite it or break out of the loop.
\<close>

definition LeaseStore_FinalizeTransition :: "lease_env \<Rightarrow> Lease \<Rightarrow> duration \<Rightarrow> snapshot \<Rightarrow> (lease_error + Lease) \<times> snapshot" where
  "LeaseStore_FinalizeTransition env transition ttl s =
     (case le_authority env of
        Some e \<Rightarrow> (Inl (LeaseAuthority e), s)
      | None \<Rightarrow>
          let now = le_now env;
              refuse = (Inl (ErrLeaseConflict ''transition quorum lease is missing, expired, changed, or already stable''), s) in
          case List.find (\<lambda>r. l_ResourceID (lr_Lease r) = l_ResourceID transition) (CoordinationLeases_list s) of
            None \<Rightarrow> refuse
          | Some r \<Rightarrow>
              let current = lr_Lease r in
              if \<not> leaseLive now current \<or> \<not> SameLeaseIdentity current transition \<or>
                 l_OperationID current = l_HAEndpointID current
              then refuse
              else putLease env ''finalize quorum transition lease''
                     (r\<lparr>lr_Lease := finalizeLease current (time_add now (leaseTTL ttl)), lr_UpdatedAt := now\<rparr>) s)"

definition LeaseStore_RollbackTransition :: "lease_env \<Rightarrow> Lease \<Rightarrow> duration \<Rightarrow> snapshot \<Rightarrow> (lease_error + Lease) \<times> snapshot" where
  "LeaseStore_RollbackTransition env transition ttl s =
     (case le_authority env of
        Some e \<Rightarrow> (Inl (LeaseAuthority e), s)
      | None \<Rightarrow>
          let now = le_now env;
              refuse = (Inl (ErrLeaseConflict ''transition quorum lease is missing, expired, changed, or cannot be rolled back''), s) in
          case List.find (\<lambda>r. l_ResourceID (lr_Lease r) = l_ResourceID transition) (CoordinationLeases_list s) of
            None \<Rightarrow> refuse
          | Some r \<Rightarrow>
              let current = lr_Lease r in
              if \<not> leaseLive now current \<or> \<not> SameLeaseIdentity current transition \<or>
                 l_OperationID current = l_HAEndpointID current \<or> \<not> ValidResourceID (l_PreviousOwnerID current)
              then refuse
              else putLease env ''rollback quorum transition lease''
                     (r\<lparr>lr_Lease := rollbackLease current (time_add now (leaseTTL ttl)), lr_UpdatedAt := now\<rparr>) s)"

definition LeaseStore_Release :: "lease_env \<Rightarrow> rid \<Rightarrow> snapshot \<Rightarrow> lease_error option \<times> snapshot" where
  "LeaseStore_Release env resourceID s =
     (case le_authority env of
        Some e \<Rightarrow> (Some (LeaseAuthority e), s)
      | None \<Rightarrow>
          (case DeleteCoordinationLease (le_repo env) resourceID s of
             (Some e, s') \<Rightarrow> (Some (LeasePersist ''release quorum lease'' e), s')
           | (None, s') \<Rightarrow> (None, s')))"

definition quorumLeaseStore :: "(lease_env, snapshot) LeaseStore" where
  "quorumLeaseStore = \<lparr>ls_Acquire = LeaseStore_Acquire, ls_Validate = LeaseStore_Validate,
     ls_Current = LeaseStore_Current, ls_FinalizeTransition = LeaseStore_FinalizeTransition,
     ls_RollbackTransition = LeaseStore_RollbackTransition, ls_Release = LeaseStore_Release\<rparr>"

section \<open>The lease table\<close>

abbreviation recordID :: "LeaseRecord \<Rightarrow> rid" where
  "recordID r \<equiv> l_ResourceID (lr_Lease r)"

definition lease_records :: "snapshot \<Rightarrow> LeaseRecord set" where
  "lease_records s = snd ` set (CoordinationLeases s)"

definition lease_set :: "snapshot \<Rightarrow> Lease set" where
  "lease_set s = lr_Lease ` lease_records s"

text \<open>The representation invariant: keyed by identifier, every record as \<^verbatim>\<open>PutCoordinationLease\<close> accepts it.\<close>

definition leases_wf :: "snapshot \<Rightarrow> bool" where
  "leases_wf s \<longleftrightarrow> keyed_by recordID (CoordinationLeases s) \<and>
     (\<forall>r \<in> lease_records s. leaseFieldsValid (lr_Lease r))"

lemma set_CoordinationLeases_list [simp]: "set (CoordinationLeases_list s) = lease_records s"
  by (simp add: CoordinationLeases_list_def lease_records_def)

lemma leases_wf_unique:
  "leases_wf s \<Longrightarrow> a \<in> lease_records s \<Longrightarrow> b \<in> lease_records s \<Longrightarrow> recordID a = recordID b \<Longrightarrow> a = b"
  by (auto simp: leases_wf_def lease_records_def dest: keyed_by_unique)

lemma lease_set_unique:
  "leases_wf s \<Longrightarrow> a \<in> lease_set s \<Longrightarrow> b \<in> lease_set s \<Longrightarrow> l_ResourceID a = l_ResourceID b \<Longrightarrow> a = b"
  by (auto simp: lease_set_def dest: leases_wf_unique)

lemma find_record:
  assumes "leases_wf s" "List.find (\<lambda>r. recordID r = i) (CoordinationLeases_list s) = Some r"
  shows "r \<in> lease_records s \<and> recordID r = i"
  using assms by (auto simp: find_Some_iff simp flip: set_CoordinationLeases_list)

text \<open>A commit of a changed lease table replaces the table or keeps it, and nothing else we read.\<close>

lemma commit_leases:
  assumes "commitSnapshotLocked env s (s\<lparr>CoordinationLeases := m\<rparr>) = (e, s')"
  shows "CoordinationLeases s' = m \<or> e \<noteq> None \<and> CoordinationLeases s' = CoordinationLeases s"
    and "Clusters s' = Clusters s" "RecoveryTasks s' = RecoveryTasks s" "OperationLocks s' = OperationLocks s"
  using assms by (cases rule: commit_cases [of env s "s\<lparr>CoordinationLeases := m\<rparr>"]; auto)+

text \<open>What the disaster-recovery check reads besides the record.\<close>

definition frozen_view :: "snapshot \<Rightarrow> (rid \<times> DatabaseCluster) list \<times> (rid \<times> RecoveryTask) list \<times> (rid \<times> OperationLockRecord) list" where
  "frozen_view s = (Clusters s, RecoveryTasks s, OperationLocks s)"

lemma recoveryWriterLeaseAllowed_view:
  "frozen_view s' = frozen_view s \<Longrightarrow> recoveryWriterLeaseAllowed s' r now = recoveryWriterLeaseAllowed s r now"
proof -
  assume "frozen_view s' = frozen_view s"
  then have v: "Clusters s' = Clusters s" "RecoveryTasks s' = RecoveryTasks s" "OperationLocks s' = OperationLocks s"
    by (simp_all add: frozen_view_def)
  then have "recoveryLeaseValid s' = recoveryLeaseValid s" by (intro ext) (simp add: recoveryLeaseValid_def)
  with v show ?thesis unfolding recoveryWriterLeaseAllowed_def by metis
qed

lemma leases_wf_table: "CoordinationLeases s' = CoordinationLeases s \<Longrightarrow> leases_wf s' = leases_wf s"
  "CoordinationLeases s' = CoordinationLeases s \<Longrightarrow> lease_records s' = lease_records s"
  by (simp_all add: leases_wf_def lease_records_def)

lemma leases_wf_delete:
  assumes "leases_wf s" "CoordinationLeases s' = AList.delete i (CoordinationLeases s)"
  shows "lease_records s' = {r \<in> lease_records s. recordID r \<noteq> i}" and "leases_wf s'"
proof -
  show r: "lease_records s' = {r \<in> lease_records s. recordID r \<noteq> i}"
    using assms keyed_by_values_delete [of recordID "CoordinationLeases s" i]
    by (simp add: leases_wf_def lease_records_def)
  show "leases_wf s'"
    using assms r by (simp add: leases_wf_def keyed_by_delete)
qed

lemma leases_wf_update:
  assumes "leases_wf s" "leaseFieldsValid (lr_Lease r)"
    and "CoordinationLeases s' = AList.update (recordID r) r (CoordinationLeases s)"
  shows "lease_records s' = insert r {q \<in> lease_records s. recordID q \<noteq> recordID r}" and "leases_wf s'"
proof -
  show r: "lease_records s' = insert r {q \<in> lease_records s. recordID q \<noteq> recordID r}"
    using assms keyed_by_values_update [of recordID "CoordinationLeases s" r "recordID r"]
    by (simp add: leases_wf_def lease_records_def)
  show "leases_wf s'"
    using assms r by (simp add: leases_wf_def keyed_by_update)
qed

text \<open>Deleting a record: it is gone or nothing changed.\<close>

lemma delete_lease:
  assumes "DeleteCoordinationLease env i s = (e, s')" "leases_wf s"
  shows "leases_wf s' \<and> frozen_view s' = frozen_view s \<and>
    (lease_records s' = lease_records s \<or> lease_records s' = {r \<in> lease_records s. recordID r \<noteq> i})"
proof (cases "\<not> ValidResourceID i \<or> map_of (CoordinationLeases s) i = None")
  case True
  with assms show ?thesis by (auto simp: DeleteCoordinationLease_def split: if_splits)
next
  case False
  with assms(1) have "commitSnapshotLocked env s (s\<lparr>CoordinationLeases := AList.delete i (CoordinationLeases s)\<rparr>) = (e, s')"
    by (auto simp: DeleteCoordinationLease_def)
  note c = commit_leases [OF this]
  have "leases_wf s' \<and> (lease_records s' = lease_records s \<or> lease_records s' = {r \<in> lease_records s. recordID r \<noteq> i})"
    using c(1) assms(2) leases_wf_delete leases_wf_table by metis
  with c(2-4) show ?thesis by (simp add: frozen_view_def)
qed

text \<open>Storing a record: refused, or it replaces the record of its identifier.\<close>

definition put_records :: "LeaseRecord \<Rightarrow> LeaseRecord set \<Rightarrow> LeaseRecord set" where
  "put_records r R = insert r {q \<in> R. recordID q \<noteq> recordID r}"

lemma put_lease:
  assumes "PutCoordinationLease env r s = (e, s')" "leases_wf s"
  shows "leases_wf s' \<and> (lease_records s' = put_records r (lease_records s) \<or>
           e \<noteq> None \<and> lease_records s' = lease_records s)"
    and "e = None \<Longrightarrow> recoveryWriterLeaseAllowed s r (env_now env)"
proof -
  let ?ok = "leaseFieldsValid (lr_Lease r) \<and> map_of (Clusters s) (l_ClusterID (lr_Lease r)) \<noteq> None \<and>
      recoveryWriterLeaseAllowed s r (env_now env)"
  show "leases_wf s' \<and> (lease_records s' = put_records r (lease_records s) \<or>
           e \<noteq> None \<and> lease_records s' = lease_records s)"
  proof (cases ?ok)
    case False
    with assms show ?thesis by (auto simp: PutCoordinationLease_def Let_def split: if_splits)
  next
    case True
    with assms(1) have
      "commitSnapshotLocked env s (s\<lparr>CoordinationLeases := AList.update (recordID r) r (CoordinationLeases s)\<rparr>) = (e, s')"
      by (auto simp: PutCoordinationLease_def Let_def)
    from commit_leases(1) [OF this] show ?thesis
    proof
      assume "CoordinationLeases s' = AList.update (recordID r) r (CoordinationLeases s)"
      with leases_wf_update [OF assms(2) _ this] True show ?thesis by (simp add: put_records_def)
    next
      assume "e \<noteq> None \<and> CoordinationLeases s' = CoordinationLeases s"
      with assms(2) leases_wf_table [of s' s] show ?thesis by simp
    qed
  qed
  show "e = None \<Longrightarrow> recoveryWriterLeaseAllowed s r (env_now env)"
    using assms(1) by (auto simp: PutCoordinationLease_def Let_def split: if_splits)
qed

lemma putLease_cases:
  assumes "putLease env what r s = (res, s')"
  obtains e where "PutCoordinationLease (le_repo env) r s = (e, s')"
    "res = (case e of Some x \<Rightarrow> Inl (LeasePersist what x) | None \<Rightarrow> Inr (lr_Lease r))"
  using assms by (cases "PutCoordinationLease (le_repo env) r s")
    (auto simp: putLease_def split: option.splits)

text \<open>Replacing one record by one for the same endpoint keeps exclusivity when no other live lease is there.\<close>

lemma exclusive_put:
  assumes "exclusive now (lr_Lease ` R)"
    and other: "\<And>q. q \<in> R \<Longrightarrow> recordID q \<noteq> recordID r \<Longrightarrow> leaseLive now (lr_Lease q) \<Longrightarrow>
      l_ClusterID (lr_Lease q) = l_ClusterID (lr_Lease r) \<Longrightarrow>
      l_HAEndpointID (lr_Lease q) = l_HAEndpointID (lr_Lease r) \<Longrightarrow> False"
  shows "exclusive now (lr_Lease ` put_records r R)"
proof -
  have cases: "\<exists>q. x = lr_Lease q \<and> (q = r \<or> q \<in> R \<and> recordID q \<noteq> recordID r)"
    if "x \<in> lr_Lease ` put_records r R" for x
    using that by (auto simp: put_records_def)
  show ?thesis
    unfolding exclusive_def
  proof (intro ballI impI)
    fix a b
    assume "a \<in> lr_Lease ` put_records r R" "b \<in> lr_Lease ` put_records r R"
      and same: "leaseLive now a \<and> leaseLive now b \<and> l_ClusterID a = l_ClusterID b \<and> l_HAEndpointID a = l_HAEndpointID b"
    then obtain p q where p: "a = lr_Lease p" "p = r \<or> p \<in> R \<and> recordID p \<noteq> recordID r"
      and q: "b = lr_Lease q" "q = r \<or> q \<in> R \<and> recordID q \<noteq> recordID r"
      using cases by metis
    show "a = b"
    proof (cases "p = r \<or> q = r")
      case True
      with p q same other show ?thesis by metis
    next
      case False
      with p q have "a \<in> lr_Lease ` R" "b \<in> lr_Lease ` R" by auto
      with assms(1) same show ?thesis unfolding exclusive_def by blast
    qed
  qed
qed

section \<open>Acquisition\<close>

text \<open>What the loop of \<^verbatim>\<open>Acquire\<close> leaves behind: only records that are not live are gone.\<close>

definition cleaned :: "go_time \<Rightarrow> snapshot \<Rightarrow> snapshot \<Rightarrow> bool" where
  "cleaned now s s' \<longleftrightarrow> leases_wf s' \<and> frozen_view s' = frozen_view s \<and> lease_records s' \<subseteq> lease_records s \<and>
     (\<forall>r \<in> lease_records s. leaseLive now (lr_Lease r) \<longrightarrow> r \<in> lease_records s')"

lemma cleaned_refl: "leases_wf s \<Longrightarrow> cleaned now s s"
  by (simp add: cleaned_def)

lemma cleaned_delete:
  assumes "leases_wf s0" "cleaned now s0 s" "r \<in> lease_records s0" "\<not> leaseLive now (lr_Lease r)"
  shows "cleaned now s0 (snd (DeleteCoordinationLease env (recordID r) s))"
proof -
  obtain e s' where d: "DeleteCoordinationLease env (recordID r) s = (e, s')" by fastforce
  have "q = r" if "q \<in> lease_records s0" "recordID q = recordID r" for q
    using leases_wf_unique [OF assms(1) that(1) assms(3)] that(2) by simp
  with delete_lease [OF d] assms show ?thesis by (auto simp: d cleaned_def)
qed

lemma acquire_loop_spec:
  assumes "leases_wf s0" "cleaned (le_now env) s0 s" "set rs \<subseteq> lease_records s0" "acquire_loop env rq rs s = (res, s')"
  shows "(res = None \<and> cleaned (le_now env) s0 s' \<and>
      (\<forall>r \<in> set rs. leaseLive (le_now env) (lr_Lease r) \<longrightarrow> \<not> leaseFor (lr_Lease r) rq)) \<or>
    (\<exists>r s1 x. r \<in> set rs \<and> leaseLive (le_now env) (lr_Lease r) \<and> leaseFor (lr_Lease r) rq \<and>
      cleaned (le_now env) s0 s1 \<and> acquire_hit env rq r s1 = (x, s') \<and> res = Some x)"
  using assms(2-)
proof (induction rs arbitrary: s)
  case (Cons r rs)
  show ?case
  proof (cases "leaseLive (le_now env) (lr_Lease r)")
    case False
    then have "cleaned (le_now env) s0 (snd (DeleteCoordinationLease (le_repo env) (recordID r) s))"
      using cleaned_delete [OF assms(1)] Cons.prems by simp
    from Cons.IH [OF this] Cons.prems False show ?thesis by auto
  next
    case True
    with Cons show ?thesis by (auto split: if_splits prod.splits)
  qed
qed simp

text \<open>What happens to the live record of the requested endpoint.\<close>

definition hit_post :: "lease_env \<Rightarrow> LeaseRequest \<Rightarrow> LeaseRecord \<Rightarrow> snapshot \<Rightarrow> lease_error + Lease \<Rightarrow> snapshot \<Rightarrow> bool" where
  "hit_post env rq r s x s' \<longleftrightarrow> leases_wf s' \<and>
     ((\<exists>e. x = Inl e \<and> lease_records s' = lease_records s) \<or>
      (\<exists>r'. recordID r' = recordID r \<and> leaseFor (lr_Lease r') rq \<and> leaseOwned (lr_Lease r') rq \<and>
         leaseLive (le_now env) (lr_Lease r') \<and> l_ExpiresAt (lr_Lease r') \<le> time_add (le_now env) maxLeaseTTL \<and>
         lease_records s' = put_records r' (lease_records s) \<and>
         (x = Inr (lr_Lease r') \<and> recoveryWriterLeaseAllowed s r' (env_now (le_repo env)) \<or> (\<exists>e. x = Inl e))))"

lemma putLease_spec:
  assumes "putLease env what r' s = (x, s')" "leases_wf s"
  shows "leases_wf s' \<and> ((\<exists>e. x = Inl e) \<and> lease_records s' = lease_records s \<or>
      lease_records s' = put_records r' (lease_records s) \<and>
      (x = Inr (lr_Lease r') \<and> recoveryWriterLeaseAllowed s r' (env_now (le_repo env)) \<or> (\<exists>e. x = Inl e)))"
  using assms(1)
proof (rule putLease_cases)
  fix e
  assume p: "PutCoordinationLease (le_repo env) r' s = (e, s')"
    and x: "x = (case e of Some x \<Rightarrow> Inl (LeasePersist what x) | None \<Rightarrow> Inr (lr_Lease r'))"
  from put_lease [OF p assms(2)] x show ?thesis by (cases e) auto
qed

lemma putLease_hit:
  assumes "putLease env what r' s = (x, s')" "leases_wf s"
    and "recordID r' = recordID r" "leaseFor (lr_Lease r') rq" "leaseOwned (lr_Lease r') rq"
      "leaseLive (le_now env) (lr_Lease r')" "l_ExpiresAt (lr_Lease r') \<le> time_add (le_now env) maxLeaseTTL"
  shows "hit_post env rq r s x s'"
  using putLease_spec [OF assms(1,2)] assms(3-) unfolding hit_post_def by blast

lemma acquire_hit_spec:
  assumes "acquire_hit env rq r s = (x, s')" "leases_wf s" "leaseLive (le_now env) (lr_Lease r)"
    and "leaseFor (lr_Lease r) rq" "0 < rq_TTL rq" "rq_TTL rq \<le> maxLeaseTTL"
  shows "hit_post env rq r s x s'"
proof -
  let ?l = "lr_Lease r" and ?exp = "time_add (le_now env) (rq_TTL rq)"
  consider (renew) "leaseOwned ?l rq" | (handoff) "\<not> leaseOwned ?l rq" "\<not> rq_RenewOnly rq" "CanHandoffStableLease ?l rq"
    | (refuse) "\<not> leaseOwned ?l rq" "rq_RenewOnly rq \<or> \<not> CanHandoffStableLease ?l rq" by blast
  then show ?thesis
  proof cases
    case renew
    define l' where "l' = (if ?exp > l_ExpiresAt ?l \<or> time_sub (l_ExpiresAt ?l) (le_now env) > maxLeaseTTL
      then ?l\<lparr>l_ExpiresAt := ?exp\<rparr> else ?l)"
    have "putLease env ''renew quorum lease'' (r\<lparr>lr_Lease := l', lr_UpdatedAt := le_now env\<rparr>) s = (x, s')"
      using assms(1) renew by (simp add: acquire_hit_def Let_def l'_def)
    moreover have "l_ExpiresAt l' \<le> time_add (le_now env) maxLeaseTTL"
      using assms(6) minute_in_range
      by (auto simp: l'_def maxLeaseTTL_def time_add_def time_sub_gt_iff not_less)
    moreover have "l_ResourceID l' = recordID r" "leaseFor l' rq" "leaseOwned l' rq" "leaseLive (le_now env) l'"
      using assms renew by (auto simp: l'_def time_add_def)
    ultimately show ?thesis
      using putLease_hit [OF _ assms(2), of env _ "r\<lparr>lr_Lease := l', lr_UpdatedAt := le_now env\<rparr>" x s' r rq] by simp
  next
    case handoff
    then have "putLease env ''promote stable ownership lease to transition''
      (r\<lparr>lr_Lease := handoffLease ?l rq ?exp, lr_UpdatedAt := le_now env\<rparr>) s = (x, s')"
      using assms(1) by (auto simp: acquire_hit_def Let_def split: if_splits)
    from putLease_hit [OF this assms(2), of r rq] assms(3-) show ?thesis
      by (auto simp: handoffLease_def time_add_def)
  next
    case refuse
    with assms show ?thesis by (auto simp: acquire_hit_def Let_def hit_post_def split: if_splits)
  qed
qed

text \<open>The request with its time to live bounded, as the loop sees it.\<close>

abbreviation bounded :: "LeaseRequest \<Rightarrow> LeaseRequest" where
  "bounded rq \<equiv> rq\<lparr>rq_TTL := leaseTTL (rq_TTL rq)\<rparr>"

lemma leaseTTL_bounds: "0 < leaseTTL t" "leaseTTL t \<le> maxLeaseTTL"
  by (auto simp: leaseTTL_def maxLeaseTTL_def minute_def second_def)

lemma CanHandoff_bounded [simp]: "CanHandoffStableLease l (bounded rq) = CanHandoffStableLease l rq"
  by (simp add: CanHandoffStableLease_def)

lemma SameScope_exclusive:
  assumes "exclusive now (lr_Lease ` R)" "\<And>a b. a \<in> R \<Longrightarrow> b \<in> R \<Longrightarrow> recordID a = recordID b \<Longrightarrow> a = b"
    and "r \<in> R" "q \<in> R" "leaseLive now (lr_Lease r)" "leaseLive now (lr_Lease q)"
    and "leaseFor (lr_Lease r) rq" "leaseFor (lr_Lease q) rq"
  shows "q = r"
proof -
  have "lr_Lease q = lr_Lease r"
    using assms(1,3-) unfolding exclusive_def by (metis imageI)
  with assms(2-4) show ?thesis by simp
qed

text \<open>
  Everything an acquisition can do to the lease table: nothing but clean up, or store one
  record for the requested endpoint in the place of the live one there, or a fresh one when
  there is none.
\<close>

definition acquire_post :: "lease_env \<Rightarrow> LeaseRequest \<Rightarrow> snapshot \<Rightarrow> lease_error + Lease \<Rightarrow> snapshot \<Rightarrow> bool" where
  "acquire_post env rq s x s' \<longleftrightarrow> leases_wf s' \<and>
     (\<exists>s1. cleaned (le_now env) s s1 \<and>
       ((\<exists>e. x = Inl e \<and> lease_records s' = lease_records s1) \<or>
        (\<exists>r'. leaseFor (lr_Lease r') rq \<and> leaseOwned (lr_Lease r') rq \<and> leaseLive (le_now env) (lr_Lease r') \<and>
           l_ExpiresAt (lr_Lease r') \<le> time_add (le_now env) maxLeaseTTL \<and>
           lease_records s' = put_records r' (lease_records s1) \<and>
           (x = Inr (lr_Lease r') \<and> recoveryWriterLeaseAllowed s1 r' (env_now (le_repo env)) \<or> (\<exists>e. x = Inl e)) \<and>
           ((\<exists>r \<in> lease_records s. recordID r = recordID r' \<and> leaseLive (le_now env) (lr_Lease r) \<and> leaseFor (lr_Lease r) rq) \<or>
            (recordID r' \<notin> recordID ` lease_records s \<and> \<not> rq_RenewOnly rq \<and>
             (\<forall>r \<in> lease_records s. leaseLive (le_now env) (lr_Lease r) \<longrightarrow> \<not> leaseFor (lr_Lease r) rq))))))"

lemma hit_acquire_post:
  assumes "hit_post env (bounded rq) r s1 x s'" "cleaned (le_now env) s s1" "r \<in> lease_records s"
    "leaseLive (le_now env) (lr_Lease r)" "leaseFor (lr_Lease r) rq"
  shows "acquire_post env rq s x s'"
proof -
  have wf: "leases_wf s'" using assms(1) by (simp add: hit_post_def)
  have ex: "\<exists>r \<in> lease_records s. recordID r = i \<and> leaseLive (le_now env) (lr_Lease r) \<and> leaseFor (lr_Lease r) rq"
    if "i = recordID r" for i
    using that assms(3-5) by blast
  from assms(1) consider e where "x = Inl e" "lease_records s' = lease_records s1"
    | r' where "recordID r' = recordID r" "leaseFor (lr_Lease r') rq" "leaseOwned (lr_Lease r') rq"
      "leaseLive (le_now env) (lr_Lease r')" "l_ExpiresAt (lr_Lease r') \<le> time_add (le_now env) maxLeaseTTL"
      "lease_records s' = put_records r' (lease_records s1)"
      "x = Inr (lr_Lease r') \<and> recoveryWriterLeaseAllowed s1 r' (env_now (le_repo env)) \<or> (\<exists>e. x = Inl e)"
    unfolding hit_post_def by auto
  then show ?thesis
  proof cases
    case 1
    with wf assms(2) show ?thesis unfolding acquire_post_def by blast
  next
    case (2 r')
    with wf assms(2) ex [of "recordID r'"] show ?thesis unfolding acquire_post_def by blast
  qed
qed

lemma putLease_fresh:
  assumes "putLease env what r' s1 = (x, s')" "cleaned (le_now env) s s1"
    and "leaseFor (lr_Lease r') rq" "leaseOwned (lr_Lease r') rq" "leaseLive (le_now env) (lr_Lease r')"
      "l_ExpiresAt (lr_Lease r') \<le> time_add (le_now env) maxLeaseTTL"
    and "recordID r' \<notin> recordID ` lease_records s" "\<not> rq_RenewOnly rq"
      "\<forall>r \<in> lease_records s. leaseLive (le_now env) (lr_Lease r) \<longrightarrow> \<not> leaseFor (lr_Lease r) rq"
  shows "acquire_post env rq s x s'"
proof -
  have "leases_wf s1" using assms(2) by (simp add: cleaned_def)
  from putLease_spec [OF assms(1) this] assms(2-) show ?thesis unfolding acquire_post_def by blast
qed

lemma LeaseStore_Acquire_post:
  assumes "LeaseStore_Acquire env rq fresh s = (x, s')" "leases_wf s" "fresh \<notin> recordID ` lease_records s"
  shows "acquire_post env rq s x s'"
proof (cases "le_authority env = None \<and> ValidResourceID (rq_ClusterID rq) \<and> ValidResourceID (rq_HAEndpointID rq) \<and>
    ValidResourceID (rq_OperationID rq) \<and> ValidResourceID (rq_OwnerID rq)")
  case False
  then have "s' = s" "\<exists>e. x = Inl e" using assms(1)
    by (auto simp: LeaseStore_Acquire_def split: option.splits)
  with assms(2) cleaned_refl [OF assms(2), of "le_now env"] show ?thesis unfolding acquire_post_def by blast
next
  case True
  obtain res s1 where loop: "acquire_loop env (bounded rq) (CoordinationLeases_list s) s = (res, s1)" by fastforce
  note post = acquire_loop_spec [OF assms(2) cleaned_refl [OF assms(2)] _ loop]
  show ?thesis
  proof (cases res)
    case None
    let ?l = "grantLease (bounded rq) fresh (time_add (le_now env) (leaseTTL (rq_TTL rq)))"
    let ?r = "\<lparr>lr_Lease = ?l, lr_CreatedAt = le_now env, lr_UpdatedAt = le_now env\<rparr>"
    have c: "cleaned (le_now env) s s1" and none: "\<forall>r \<in> lease_records s. leaseLive (le_now env) (lr_Lease r) \<longrightarrow> \<not> leaseFor (lr_Lease r) rq"
      using post None by auto
    then have wf1: "leases_wf s1" by (simp add: cleaned_def)
    show ?thesis
    proof (cases "rq_RenewOnly rq")
      case True
      with assms(1) loop None \<open>le_authority env = None \<and> _\<close> have "s' = s1" "\<exists>e. x = Inl e"
        by (auto simp: LeaseStore_Acquire_def Let_def)
      with c wf1 show ?thesis unfolding acquire_post_def by blast
    next
      case False
      with assms(1) loop None \<open>le_authority env = None \<and> _\<close>
      have put: "putLease env ''persist quorum lease'' ?r s1 = (x, s')"
        by (auto simp: LeaseStore_Acquire_def Let_def)
      have l: "leaseFor ?l rq" "leaseOwned ?l rq" "leaseLive (le_now env) ?l" "l_ResourceID ?l = fresh"
        "l_ExpiresAt ?l \<le> time_add (le_now env) maxLeaseTTL"
        using leaseTTL_bounds by (auto simp: grantLease_def time_add_def)
      show ?thesis
        by (rule putLease_fresh [OF put c]) (use l none False assms(3) in simp_all)
    qed
  next
    case (Some y)
    then obtain r s2 where r: "r \<in> lease_records s" "leaseLive (le_now env) (lr_Lease r)" "leaseFor (lr_Lease r) rq"
      "cleaned (le_now env) s s2" "acquire_hit env (bounded rq) r s2 = (y, s1)"
      using post by auto
    moreover have "x = y" "s' = s1" using assms(1) loop Some True
      by (auto simp: LeaseStore_Acquire_def Let_def)
    moreover have "hit_post env (bounded rq) r s2 y s1"
      using r leaseTTL_bounds by (intro acquire_hit_spec) (auto simp: cleaned_def)
    ultimately show ?thesis using hit_acquire_post by blast
  qed
qed

lemma lease_set_live:
  "cleaned now s s1 \<Longrightarrow> exclusive now (lease_set s) \<Longrightarrow> exclusive now (lease_set s1)"
  unfolding lease_set_def by (erule exclusive_live [rotated]) (auto simp: cleaned_def)

lemma same_scope_record:
  assumes "leases_wf s" "exclusive now (lease_set s)" "r \<in> lease_records s" "q \<in> lease_records s"
    and "leaseLive now (lr_Lease r)" "leaseLive now (lr_Lease q)" "leaseFor (lr_Lease r) rq" "leaseFor (lr_Lease q) rq"
  shows "q = r"
  using SameScope_exclusive [OF assms(2) [unfolded lease_set_def] _ assms(3-)] leases_wf_unique [OF assms(1)] by blast

lemma acquire_post_exclusive:
  assumes "acquire_post env rq s x s'" "leases_wf s" "exclusive (le_now env) (lease_set s)"
  shows "exclusive (le_now env) (lease_set s')"
proof -
  let ?now = "le_now env"
  from assms(1) obtain s1 where c: "cleaned ?now s s1" and
    "lease_records s' = lease_records s1 \<or>
     (\<exists>r'. leaseFor (lr_Lease r') rq \<and> lease_records s' = put_records r' (lease_records s1) \<and>
       ((\<exists>r \<in> lease_records s. recordID r = recordID r' \<and> leaseLive ?now (lr_Lease r) \<and> leaseFor (lr_Lease r) rq) \<or>
        (\<forall>r \<in> lease_records s. leaseLive ?now (lr_Lease r) \<longrightarrow> \<not> leaseFor (lr_Lease r) rq)))"
    unfolding acquire_post_def by blast
  then consider "lease_records s' = lease_records s1"
    | r' where "leaseFor (lr_Lease r') rq" "lease_records s' = put_records r' (lease_records s1)"
      "\<And>q. q \<in> lease_records s \<Longrightarrow> leaseLive ?now (lr_Lease q) \<Longrightarrow> leaseFor (lr_Lease q) rq \<Longrightarrow> recordID q = recordID r'"
    using same_scope_record [OF assms(2,3)] by metis
  then show ?thesis
  proof cases
    case 1
    with lease_set_live [OF c assms(3)] show ?thesis by (simp add: lease_set_def)
  next
    case (2 r')
    have sub: "q \<in> lease_records s1 \<Longrightarrow> q \<in> lease_records s" for q using c by (auto simp: cleaned_def)
    show ?thesis
      using lease_set_live [OF c assms(3)] 2 sub
      unfolding lease_set_def 2(2) by (intro exclusive_put) auto
  qed
qed

lemma acquire_post_Inr:
  assumes "acquire_post env rq s (Inr l) s'"
  shows "l \<in> lease_set s' \<and> leaseLive (le_now env) l \<and> leaseFor l rq \<and> leaseOwned l rq \<and>
    l_ExpiresAt l \<le> time_add (le_now env) maxLeaseTTL"
  using assms unfolding acquire_post_def lease_set_def put_records_def by auto

lemma acquire_post_allowed:
  assumes "acquire_post env rq s (Inr l) s'"
  obtains s1 r' where "cleaned (le_now env) s s1" "leaseFor (lr_Lease r') rq" "leaseOwned (lr_Lease r') rq"
    "l_Active (lr_Lease r')" "l = lr_Lease r'" "recoveryWriterLeaseAllowed s1 r' (env_now (le_repo env))"
proof -
  have inl: "(\<exists>e. Inr l = Inl e) \<longleftrightarrow> False" by simp
  from assms that show thesis unfolding acquire_post_def inl sum.inject by blast
qed

text \<open>Live leases of other endpoints are the same before and after.\<close>

lemma acquire_post_frame:
  assumes "acquire_post env rq s x s'" "leases_wf s" "leaseLive (le_now env) l" "\<not> leaseFor l rq"
  shows "l \<in> lease_set s' \<longleftrightarrow> l \<in> lease_set s"
proof -
  let ?now = "le_now env"
  from assms(1) obtain s1 where c: "cleaned ?now s s1" and
    "lease_records s' = lease_records s1 \<or>
     (\<exists>r'. leaseFor (lr_Lease r') rq \<and> lease_records s' = put_records r' (lease_records s1) \<and>
       ((\<exists>r \<in> lease_records s. recordID r = recordID r' \<and> leaseFor (lr_Lease r) rq) \<or>
        recordID r' \<notin> recordID ` lease_records s))"
    unfolding acquire_post_def by blast
  then consider "lease_records s' = lease_records s1"
    | r' where "leaseFor (lr_Lease r') rq" "lease_records s' = put_records r' (lease_records s1)"
      "\<And>q. q \<in> lease_records s \<Longrightarrow> \<not> leaseFor (lr_Lease q) rq \<Longrightarrow> recordID q \<noteq> recordID r'"
    using leases_wf_unique [OF assms(2)] by (metis imageI)
  then show ?thesis
    using c assms(3,4) by cases (auto simp: lease_set_def cleaned_def put_records_def)
qed

lemma LeaseStore_Acquire_refused:
  assumes "leases_wf s" "exclusive (le_now env) (lease_set s)"
    and c: "c \<in> lease_set s" "leaseLive (le_now env) c" "leaseFor c rq" "\<not> leaseOwned c rq"
      "rq_RenewOnly rq \<or> \<not> CanHandoffStableLease c rq"
  shows "\<exists>e s'. LeaseStore_Acquire env rq fresh s = (Inl e, s') \<and> cleaned (le_now env) s s'"
proof (cases "le_authority env = None \<and> ValidResourceID (rq_ClusterID rq) \<and> ValidResourceID (rq_HAEndpointID rq) \<and>
    ValidResourceID (rq_OperationID rq) \<and> ValidResourceID (rq_OwnerID rq)")
  case False
  with cleaned_refl [OF assms(1), of "le_now env"] show ?thesis
    by (auto simp: LeaseStore_Acquire_def split: option.splits)
next
  case True
  from c(1) obtain q where q: "q \<in> lease_records s" "c = lr_Lease q" by (auto simp: lease_set_def)
  obtain res s1 where loop: "acquire_loop env (bounded rq) (CoordinationLeases_list s) s = (res, s1)" by fastforce
  from acquire_loop_spec [OF assms(1) cleaned_refl [OF assms(1)] _ loop] q c
  obtain r s2 x where r: "r \<in> lease_records s" "leaseLive (le_now env) (lr_Lease r)" "leaseFor (lr_Lease r) rq"
    "cleaned (le_now env) s s2" "acquire_hit env (bounded rq) r s2 = (x, s1)" "res = Some x"
    by auto
  have "r = q" using same_scope_record [OF assms(1,2) q(1) r(1)] q r c by simp
  then have hit: "x = Inl (ErrLeaseConflict ''active quorum lease belongs to another operation'')" "s1 = s2"
    using r(5) c q(2) by (auto simp: acquire_hit_def Let_def split: if_splits)
  with loop r True show ?thesis by (auto simp: LeaseStore_Acquire_def Let_def)
qed

section \<open>Finalisation, rollback, release\<close>

text \<open>Both rewrite the live record of the transition to a stable one.\<close>

definition settle_post :: "lease_env \<Rightarrow> Lease \<Rightarrow> (Lease \<Rightarrow> go_time \<Rightarrow> Lease) \<Rightarrow> snapshot \<Rightarrow> lease_error + Lease \<Rightarrow> snapshot \<Rightarrow> bool" where
  "settle_post env t f s x s' \<longleftrightarrow> leases_wf s' \<and>
     ((\<exists>e. x = Inl e) \<and> lease_records s' = lease_records s \<or>
      (\<exists>r \<in> lease_records s. \<exists>r' ex. leaseLive (le_now env) (lr_Lease r) \<and> SameLeaseIdentity (lr_Lease r) t \<and>
         l_OperationID t \<noteq> l_HAEndpointID t \<and> lr_Lease r' = f (lr_Lease r) ex \<and>
         le_now env < ex \<and> ex \<le> time_add (le_now env) maxLeaseTTL \<and>
         lease_records s' = put_records r' (lease_records s) \<and>
         (x = Inr (lr_Lease r') \<and> recoveryWriterLeaseAllowed s r' (env_now (le_repo env)) \<or> (\<exists>e. x = Inl e))))"

lemma settle_post_put:
  assumes "putLease env what (r\<lparr>lr_Lease := f (lr_Lease r) (time_add (le_now env) (leaseTTL ttl)), lr_UpdatedAt := u\<rparr>) s = (x, s')"
    and "leases_wf s" "r \<in> lease_records s" "leaseLive (le_now env) (lr_Lease r)" "SameLeaseIdentity (lr_Lease r) t"
      "l_OperationID (lr_Lease r) \<noteq> l_HAEndpointID (lr_Lease r)"
  shows "settle_post env t f s x s'"
proof -
  define r' where "r' = r\<lparr>lr_Lease := f (lr_Lease r) (time_add (le_now env) (leaseTTL ttl)), lr_UpdatedAt := u\<rparr>"
  have r': "lr_Lease r' = f (lr_Lease r) (time_add (le_now env) (leaseTTL ttl))" by (simp add: r'_def)
  have ex: "le_now env < time_add (le_now env) (leaseTTL ttl)"
    "time_add (le_now env) (leaseTTL ttl) \<le> time_add (le_now env) maxLeaseTTL"
    using leaseTTL_bounds by (auto simp: time_add_def)
  have "l_OperationID t \<noteq> l_HAEndpointID t" using assms(5,6) by (simp add: SameLeaseIdentity_def)
  with putLease_spec [OF assms(1) [folded r'_def] assms(2)] assms(3-5) r' ex show ?thesis
    unfolding settle_post_def by blast
qed

lemma FinalizeTransition_post:
  assumes "LeaseStore_FinalizeTransition env t ttl s = (x, s')" "leases_wf s"
  shows "settle_post env t finalizeLease s x s'"
proof (cases "le_authority env = None \<and> (\<exists>r. List.find (\<lambda>r. recordID r = l_ResourceID t) (CoordinationLeases_list s) = Some r \<and>
    leaseLive (le_now env) (lr_Lease r) \<and> SameLeaseIdentity (lr_Lease r) t \<and> l_OperationID (lr_Lease r) \<noteq> l_HAEndpointID (lr_Lease r))")
  case False
  with assms show ?thesis
    by (auto simp: LeaseStore_FinalizeTransition_def Let_def settle_post_def split: option.splits if_splits)
next
  case True
  then obtain r where r: "le_authority env = None"
    "List.find (\<lambda>r. recordID r = l_ResourceID t) (CoordinationLeases_list s) = Some r"
    "leaseLive (le_now env) (lr_Lease r)" "SameLeaseIdentity (lr_Lease r) t" "l_OperationID (lr_Lease r) \<noteq> l_HAEndpointID (lr_Lease r)"
    by blast
  with assms(1) have "putLease env ''finalize quorum transition lease''
    (r\<lparr>lr_Lease := finalizeLease (lr_Lease r) (time_add (le_now env) (leaseTTL ttl)), lr_UpdatedAt := le_now env\<rparr>) s = (x, s')"
    by (simp add: LeaseStore_FinalizeTransition_def Let_def)
  then show ?thesis
    by (rule settle_post_put) (use find_record [OF assms(2) r(2)] assms(2) r in auto)
qed

lemma RollbackTransition_post:
  assumes "LeaseStore_RollbackTransition env t ttl s = (x, s')" "leases_wf s"
  shows "settle_post env t rollbackLease s x s'"
proof (cases "le_authority env = None \<and> (\<exists>r. List.find (\<lambda>r. recordID r = l_ResourceID t) (CoordinationLeases_list s) = Some r \<and>
    leaseLive (le_now env) (lr_Lease r) \<and> SameLeaseIdentity (lr_Lease r) t \<and> l_OperationID (lr_Lease r) \<noteq> l_HAEndpointID (lr_Lease r) \<and>
    ValidResourceID (l_PreviousOwnerID (lr_Lease r)))")
  case False
  with assms show ?thesis
    by (auto simp: LeaseStore_RollbackTransition_def Let_def settle_post_def split: option.splits if_splits)
next
  case True
  then obtain r where r: "le_authority env = None"
    "List.find (\<lambda>r. recordID r = l_ResourceID t) (CoordinationLeases_list s) = Some r"
    "leaseLive (le_now env) (lr_Lease r)" "SameLeaseIdentity (lr_Lease r) t" "l_OperationID (lr_Lease r) \<noteq> l_HAEndpointID (lr_Lease r)"
    "ValidResourceID (l_PreviousOwnerID (lr_Lease r))"
    by blast
  with assms(1) have "putLease env ''rollback quorum transition lease''
    (r\<lparr>lr_Lease := rollbackLease (lr_Lease r) (time_add (le_now env) (leaseTTL ttl)), lr_UpdatedAt := le_now env\<rparr>) s = (x, s')"
    by (simp add: LeaseStore_RollbackTransition_def Let_def)
  then show ?thesis
    by (rule settle_post_put) (use find_record [OF assms(2) r(2)] assms(2) r in auto)
qed

lemma settle_post_spec:
  assumes "settle_post env t f s x s'" "leases_wf s"
    and f: "\<And>l e. l_ResourceID (f l e) = l_ResourceID l" "\<And>l e. l_ClusterID (f l e) = l_ClusterID l"
      "\<And>l e. l_HAEndpointID (f l e) = l_HAEndpointID l" "\<And>l e. l_Active (f l e) = l_Active l" "\<And>l e. l_ExpiresAt (f l e) = e"
  shows "exclusive (le_now env) (lease_set s) \<Longrightarrow> exclusive (le_now env) (lease_set s')"
    and "x = Inr l \<Longrightarrow> l_OperationID t \<noteq> l_HAEndpointID t \<and> l \<in> lease_set s' \<and> leaseLive (le_now env) l \<and>
      l_ExpiresAt l \<le> time_add (le_now env) maxLeaseTTL \<and> (\<exists>c ex. SameLeaseIdentity c t \<and> l = f c ex)"
proof -
  show "exclusive (le_now env) (lease_set s')" if ex: "exclusive (le_now env) (lease_set s)"
  proof (cases "lease_records s' = lease_records s")
    case True
    with ex show ?thesis by (simp add: lease_set_def)
  next
    case False
    then obtain r r' e where r: "r \<in> lease_records s" "leaseLive (le_now env) (lr_Lease r)" "lr_Lease r' = f (lr_Lease r) e"
      "lease_records s' = put_records r' (lease_records s)"
      using assms(1) unfolding settle_post_def by blast
    have uniq: "q = r" if "q \<in> lease_records s" "leaseLive (le_now env) (lr_Lease q)"
      "l_ClusterID (lr_Lease q) = l_ClusterID (lr_Lease r)" "l_HAEndpointID (lr_Lease q) = l_HAEndpointID (lr_Lease r)" for q
      using that r ex leases_wf_unique [OF assms(2) that(1) r(1)]
      unfolding exclusive_def lease_set_def by (metis imageI)
    show ?thesis
      unfolding lease_set_def r(4)
    proof (rule exclusive_put)
      show "exclusive (le_now env) (lr_Lease ` lease_records s)" using ex by (simp add: lease_set_def)
      fix q
      assume "q \<in> lease_records s" "recordID q \<noteq> recordID r'" "leaseLive (le_now env) (lr_Lease q)"
        "l_ClusterID (lr_Lease q) = l_ClusterID (lr_Lease r')" "l_HAEndpointID (lr_Lease q) = l_HAEndpointID (lr_Lease r')"
      with uniq [of q] r(3) f(1-3) show False by simp
    qed
  qed
  show "l_OperationID t \<noteq> l_HAEndpointID t \<and> l \<in> lease_set s' \<and> leaseLive (le_now env) l \<and>
      l_ExpiresAt l \<le> time_add (le_now env) maxLeaseTTL \<and> (\<exists>c ex. SameLeaseIdentity c t \<and> l = f c ex)" if "x = Inr l"
  proof -
    have inl: "(\<exists>e. x = Inl e) \<longleftrightarrow> False" using that by simp
    from assms(1) obtain r r' :: LeaseRecord and e where r: "leaseLive (le_now env) (lr_Lease r)" "SameLeaseIdentity (lr_Lease r) t"
      "l_OperationID t \<noteq> l_HAEndpointID t" "lr_Lease r' = f (lr_Lease r) e" "x = Inr (lr_Lease r')"
      "le_now env < e" "e \<le> time_add (le_now env) maxLeaseTTL" "lease_records s' = put_records r' (lease_records s)"
      unfolding settle_post_def inl by blast
    with that f(4,5) show ?thesis by (auto simp: lease_set_def put_records_def)
  qed
qed

lemma FinalizeTransition_spec:
  assumes "LeaseStore_FinalizeTransition env t ttl s = (x, s')" "leases_wf s"
  shows "leases_wf s'" and "exclusive (le_now env) (lease_set s) \<Longrightarrow> exclusive (le_now env) (lease_set s')"
    and "x = Inr l \<Longrightarrow> l_OperationID t \<noteq> l_HAEndpointID t \<and> l \<in> lease_set s' \<and> leaseLive (le_now env) l \<and>
      l_ExpiresAt l \<le> time_add (le_now env) maxLeaseTTL \<and> SameLeaseIdentity l (finalizeLease t 0)"
proof -
  note post = FinalizeTransition_post [OF assms]
  show "leases_wf s'" using post by (simp add: settle_post_def)
  note spec = settle_post_spec [OF post assms(2)]
  show "exclusive (le_now env) (lease_set s) \<Longrightarrow> exclusive (le_now env) (lease_set s')"
    by (rule spec) (simp_all add: finalizeLease_def)
  show "l_OperationID t \<noteq> l_HAEndpointID t \<and> l \<in> lease_set s' \<and> leaseLive (le_now env) l \<and>
      l_ExpiresAt l \<le> time_add (le_now env) maxLeaseTTL \<and> SameLeaseIdentity l (finalizeLease t 0)" if "x = Inr l"
    using spec(2) [OF _ _ _ _ _ that] by (auto simp: finalizeLease_def SameLeaseIdentity_def)
qed

lemma RollbackTransition_spec:
  assumes "LeaseStore_RollbackTransition env t ttl s = (x, s')" "leases_wf s"
  shows "leases_wf s'" and "exclusive (le_now env) (lease_set s) \<Longrightarrow> exclusive (le_now env) (lease_set s')"
    and "x = Inr l \<Longrightarrow> l_OperationID t \<noteq> l_HAEndpointID t \<and> l \<in> lease_set s' \<and> leaseLive (le_now env) l \<and>
      l_ExpiresAt l \<le> time_add (le_now env) maxLeaseTTL \<and> SameLeaseIdentity l (rollbackLease t 0)"
proof -
  note post = RollbackTransition_post [OF assms]
  show "leases_wf s'" using post by (simp add: settle_post_def)
  note spec = settle_post_spec [OF post assms(2)]
  show "exclusive (le_now env) (lease_set s) \<Longrightarrow> exclusive (le_now env) (lease_set s')"
    by (rule spec) (simp_all add: rollbackLease_def)
  show "l_OperationID t \<noteq> l_HAEndpointID t \<and> l \<in> lease_set s' \<and> leaseLive (le_now env) l \<and>
      l_ExpiresAt l \<le> time_add (le_now env) maxLeaseTTL \<and> SameLeaseIdentity l (rollbackLease t 0)" if "x = Inr l"
    using spec(2) [OF _ _ _ _ _ that] by (auto simp: rollbackLease_def SameLeaseIdentity_def)
qed

lemma Release_spec:
  assumes "LeaseStore_Release env i s = (e, s')" "leases_wf s"
  shows "leases_wf s' \<and> lease_set s' \<subseteq> lease_set s"
proof (cases "le_authority env")
  case None
  obtain e' s'' where d: "DeleteCoordinationLease (le_repo env) i s = (e', s'')" by fastforce
  with None assms(1) have "s'' = s'" by (auto simp: LeaseStore_Release_def split: option.splits)
  with delete_lease [OF d assms(2)] show ?thesis by (auto simp: lease_set_def)
qed (use assms in \<open>auto simp: LeaseStore_Release_def\<close>)

lemma Validate_iff:
  "le_authority env = None \<Longrightarrow> LeaseStore_Validate env l s = None \<longleftrightarrow>
     (\<exists>c \<in> lease_set s. leaseLive (le_now env) c \<and> SameLeaseIdentity c l)"
  by (auto simp: LeaseStore_Validate_def list_ex_iff lease_set_def SameLeaseIdentity_def)

text \<open>The current lease of an endpoint is the only live one.\<close>

lemma current_loop_spec:
  assumes "\<And>a b. a \<in> set ls \<Longrightarrow> b \<in> set ls \<Longrightarrow> leaseLive now a \<Longrightarrow> leaseLive now b \<Longrightarrow>
      l_ClusterID a = c \<Longrightarrow> l_HAEndpointID a = h \<Longrightarrow> l_ClusterID b = c \<Longrightarrow> l_HAEndpointID b = h \<Longrightarrow> a = b"
    and "distinct ls"
  shows "current_loop now c h ls None =
    Inr (List.find (\<lambda>l. leaseLive now l \<and> l_ClusterID l = c \<and> l_HAEndpointID l = h) ls)"
proof -
  have skip: "current_loop now c h ls sel = Inr sel"
    if "\<forall>l \<in> set ls. \<not> (leaseLive now l \<and> l_ClusterID l = c \<and> l_HAEndpointID l = h)" for ls sel
    using that by (induction ls) auto
  show ?thesis
    using assms
  proof (induction ls)
    case (Cons l ls)
    show ?case
    proof (cases "leaseLive now l \<and> l_ClusterID l = c \<and> l_HAEndpointID l = h")
      case True
      have "\<not> (leaseLive now x \<and> l_ClusterID x = c \<and> l_HAEndpointID x = h)" if "x \<in> set ls" for x
        using Cons.prems(1) [of l x] Cons.prems(2) that True by auto
      with True skip [of ls "Some l"] show ?thesis by simp
    next
      case False
      have "current_loop now c h ls None = Inr (List.find (\<lambda>l. leaseLive now l \<and> l_ClusterID l = c \<and> l_HAEndpointID l = h) ls)"
        using Cons.prems by (intro Cons.IH) auto
      with False show ?thesis by auto
    qed
  qed simp
qed

lemma LeaseStore_Current_iff:
  assumes "leases_wf s" "exclusive (le_now env) (lease_set s)" "le_authority env = None"
  shows "LeaseStore_Current env c h s = (Inr l, s) \<longleftrightarrow>
    l \<in> lease_set s \<and> leaseLive (le_now env) l \<and> l_ClusterID l = c \<and> l_HAEndpointID l = h"
proof -
  let ?ls = "map lr_Lease (CoordinationLeases_list s)" and ?P = "\<lambda>l. leaseLive (le_now env) l \<and> l_ClusterID l = c \<and> l_HAEndpointID l = h"
  have set: "set ?ls = lease_set s" by (simp add: lease_set_def)
  have "distinct (map l_ResourceID ?ls)"
    using assms(1) keyed_by_sorted_values [of recordID "CoordinationLeases s"]
    by (simp add: CoordinationLeases_list_def leases_wf_def comp_def)
  then have d: "distinct ?ls" unfolding distinct_map by (rule conjunct1)
  have uniq: "a = b" if "a \<in> lease_set s" "b \<in> lease_set s" "?P a" "?P b" for a b
    using assms(2) [unfolded exclusive_def, rule_format, OF that(1,2)] that(3,4) by simp
  have "current_loop (le_now env) c h ?ls None = Inr (List.find ?P ?ls)"
    by (rule current_loop_spec [OF _ d], unfold set, rule uniq) auto
  then have cur: "LeaseStore_Current env c h s = (selectedLease (Inr (List.find ?P ?ls)) ''active quorum lease is missing'', s)"
    using assms(3) by (simp add: LeaseStore_Current_def)
  have valid: "l_ResourceID x \<noteq> []" if "x \<in> lease_set s" for x
    using assms(1) that ValidResourceID_nonempty by (auto simp: leases_wf_def lease_set_def leaseFieldsValid_def)
  show ?thesis
  proof (cases "List.find ?P ?ls")
    case None
    then have "\<forall>x \<in> lease_set s. \<not> ?P x" by (simp add: find_None_iff lease_set_def)
    with None show ?thesis unfolding cur by (auto simp: selectedLease_def)
  next
    case (Some x)
    from find_SomeD [OF Some] have x: "x \<in> lease_set s" "?P x" unfolding set by (rule conjunct1, rule conjunct2)
    then have "l \<in> lease_set s \<and> ?P l \<longleftrightarrow> l = x" using uniq by blast
    with Some valid [OF x(1)] show ?thesis unfolding cur by (auto simp: selectedLease_def)
  qed
qed

section \<open>The contract holds\<close>

lemma quorumLeaseStore_sel [simp]:
  "ls_Acquire quorumLeaseStore = LeaseStore_Acquire" "ls_Validate quorumLeaseStore = LeaseStore_Validate"
  "ls_Current quorumLeaseStore = LeaseStore_Current"
  "ls_FinalizeTransition quorumLeaseStore = LeaseStore_FinalizeTransition"
  "ls_RollbackTransition quorumLeaseStore = LeaseStore_RollbackTransition"
  "ls_Release quorumLeaseStore = LeaseStore_Release"
  by (simp_all add: quorumLeaseStore_def)

lemma fresh_records: "fresh \<notin> l_ResourceID ` lease_set s \<longleftrightarrow> fresh \<notin> recordID ` lease_records s"
  by (auto simp: lease_set_def)

interpretation quorum: writer_leases quorumLeaseStore le_now "\<lambda>env s. le_authority env = None" lease_set leases_wf
proof (unfold_locales, simp_all only: quorumLeaseStore_sel fresh_records)
  fix s fresh env rq r s'
  assume wf: "leases_wf s" and f: "fresh \<notin> recordID ` lease_records s"
    and a: "LeaseStore_Acquire env rq fresh s = (r, s')"
  note post = LeaseStore_Acquire_post [OF a wf f]
  show "leases_wf s'" using post by (simp add: acquire_post_def)
  show "exclusive (le_now env) (lease_set s')" if "exclusive (le_now env) (lease_set s)"
    using acquire_post_exclusive [OF post wf that] .
next
  fix s fresh env rq l s'
  assume wf: "leases_wf s" and f: "fresh \<notin> recordID ` lease_records s"
    and a: "LeaseStore_Acquire env rq fresh s = (Inr l, s')"
  show "l \<in> lease_set s' \<and> leaseLive (le_now env) l \<and> leaseFor l rq \<and> leaseOwned l rq"
    using acquire_post_Inr [OF LeaseStore_Acquire_post [OF a wf f]] by blast
next
  fix s :: snapshot and env :: lease_env and c :: Lease and rq :: LeaseRequest and fresh
  assume "leases_wf s" "exclusive (le_now env) (lease_set s)" "c \<in> lease_set s" "leaseLive (le_now env) c"
    "leaseFor c rq" "\<not> leaseOwned c rq" "rq_RenewOnly rq \<or> \<not> CanHandoffStableLease c rq"
  from LeaseStore_Acquire_refused [OF this] show "\<exists>e s'. LeaseStore_Acquire env rq fresh s = (Inl e, s')"
    by blast
qed (auto intro: lease_set_unique FinalizeTransition_spec RollbackTransition_spec
      simp: Validate_iff FinalizeTransition_spec(3) RollbackTransition_spec(3) dest: Release_spec)

end
