(* ===== verification/Stable_Batch.thy ===== *)
theory Stable_Batch
  imports Leases
begin

text \<open>
  The batch renewal of stable leases (\<^verbatim>\<open>LeaseStore.AcquireStableBatch\<close> of
  \<^verbatim>\<open>internal/coordination/lease.go\<close>), which the ownership keeper calls for all clusters at
  once, and the reachable lease tables: every operation of the quorum store, at the instants
  of a clock that does not go backward, keeps at most one live lease per cluster and endpoint.
\<close>

section \<open>Model\<close>

definition leaseScope :: "rid \<Rightarrow> rid \<Rightarrow> string" where
  "leaseScope clusterID endpointID = clusterID @ [CHR 0x00] @ endpointID"

record batch =
  b_next :: "(rid \<times> LeaseRecord) list"
  b_activeByScope :: "(string \<times> rid) list"
  b_duplicateScopes :: "string list"
  b_seenRequests :: "string list"
  b_changed :: bool
  b_failures :: "lease_error list"

definition batch_record :: "go_time \<Rightarrow> LeaseRecord \<Rightarrow> batch \<Rightarrow> batch" where
  "batch_record now r b =
     (let lease = lr_Lease r in
      if \<not> leaseLive now lease then b\<lparr>b_changed := True\<rparr>
      else let scope = leaseScope (l_ClusterID lease) (l_HAEndpointID lease);
               b = b\<lparr>b_next := AList.update (l_ResourceID lease) r (b_next b)\<rparr> in
        if map_of (b_activeByScope b) scope \<noteq> None
        then b\<lparr>b_duplicateScopes := scope # b_duplicateScopes b\<rparr>
        else b\<lparr>b_activeByScope := AList.update scope (l_ResourceID lease) (b_activeByScope b)\<rparr>)"

definition batch_fail :: "lease_error \<Rightarrow> batch \<Rightarrow> batch" where
  "batch_fail e b = b\<lparr>b_failures := b_failures b @ [e]\<rparr>"

text \<open>Integer division of durations truncates; \<open>ttl\<close> is positive here.\<close>

definition batch_request :: "go_time \<Rightarrow> LeaseRequest \<times> rid \<Rightarrow> batch \<Rightarrow> batch" where
  "batch_request now rf b =
     (let request = fst rf; fresh = snd rf in
      if \<not> ValidResourceID (rq_ClusterID request) \<or> \<not> ValidResourceID (rq_HAEndpointID request) \<or>
         rq_OperationID request \<noteq> rq_HAEndpointID request \<or> \<not> ValidResourceID (rq_OwnerID request) \<or>
         rq_PreviousOwnerID request \<noteq> []
      then batch_fail (LeaseRequestInvalid (rq_ClusterID request)) b
      else let scope = leaseScope (rq_ClusterID request) (rq_HAEndpointID request);
               reject = (\<lambda>why. LeaseRequestRejected (rq_ClusterID request) (ErrLeaseConflict why)) in
      if scope \<in> set (b_seenRequests b) then batch_fail (LeaseRequestInvalid (rq_ClusterID request)) b
      else let b = b\<lparr>b_seenRequests := scope # b_seenRequests b\<rparr> in
      if scope \<in> set (b_duplicateScopes b) then batch_fail (reject ''multiple active quorum leases'') b
      else let ttl = leaseTTL (rq_TTL request) in
      case map_of (b_activeByScope b) scope of
        Some resourceID \<Rightarrow>
          (case map_of (b_next b) resourceID of
             None \<Rightarrow> batch_fail (reject ''active quorum lease belongs to another operation'') b
           | Some r \<Rightarrow>
               if l_OperationID (lr_Lease r) \<noteq> rq_OperationID request \<or> l_OwnerID (lr_Lease r) \<noteq> rq_OwnerID request
               then batch_fail (reject ''active quorum lease belongs to another operation'') b
               else let left = time_sub (l_ExpiresAt (lr_Lease r)) now; staleAnchor = left > maxLeaseTTL in
                 if \<not> staleAnchor \<and> left > ttl div 2 then b
                 else b\<lparr>b_next := AList.update resourceID
                          (r\<lparr>lr_Lease := (lr_Lease r)\<lparr>l_ExpiresAt := time_add now ttl\<rparr>, lr_UpdatedAt := now\<rparr>) (b_next b),
                        b_changed := True\<rparr>)
      | None \<Rightarrow>
          if rq_RenewOnly request then batch_fail (reject ''stable quorum lease is missing or expired'') b
          else b\<lparr>b_next := AList.update fresh
                   \<lparr>lr_Lease = grantLease (request\<lparr>rq_PreviousOwnerID := []\<rparr>) fresh (time_add now ttl),
                    lr_CreatedAt = now, lr_UpdatedAt = now\<rparr> (b_next b),
                 b_activeByScope := AList.update scope fresh (b_activeByScope b), b_changed := True\<rparr>)"

definition batch_start :: "go_time \<Rightarrow> LeaseRecord list \<Rightarrow> batch" where
  "batch_start now records = fold (batch_record now) records
     \<lparr>b_next = [], b_activeByScope = [], b_duplicateScopes = [], b_seenRequests = [], b_changed = False, b_failures = []\<rparr>"

definition AcquireStableBatch :: "lease_env \<Rightarrow> (LeaseRequest \<times> rid) list \<Rightarrow> snapshot \<Rightarrow> lease_error list \<times> snapshot" where
  "AcquireStableBatch env requests s =
     (case le_authority env of
        Some e \<Rightarrow> ([LeaseAuthority e], s)
      | None \<Rightarrow>
          if requests = [] then ([], s)
          else let now = le_now env;
                   b = fold (batch_request now) requests (batch_start now (CoordinationLeases_list s)) in
            if b_changed b
            then case ReplaceCoordinationLeases (le_repo env)
                        (sorted_values (\<lambda>r. l_ResourceID (lr_Lease r)) (b_next b)) s of
                   (Some e, s') \<Rightarrow> (b_failures b @ [LeasePersist ''persist stable quorum lease batch'' e], s')
                 | (None, s') \<Rightarrow> (b_failures b, s')
            else (b_failures b, s))"

section \<open>Replacing the table\<close>

lemma replace_loop_spec:
  "replace_loop rs m = Inr m' \<Longrightarrow> keyed_by recordID m \<Longrightarrow>
   keyed_by recordID m' \<and> snd ` set m' = snd ` set m \<union> set rs \<and> (\<forall>r \<in> set rs. leaseFieldsValid (lr_Lease r))"
proof (induction rs m rule: replace_loop.induct)
  case (2 r rs m)
  then have ok: "leaseFieldsValid (lr_Lease r)" "map_of m (recordID r) = None"
    "replace_loop rs (AList.update (recordID r) r m) = Inr m'"
    by (auto split: if_splits)
  have k: "keyed_by recordID (AList.update (recordID r) r m)" using 2(3) by (simp add: keyed_by_update)
  have "snd ` set (AList.update (recordID r) r m) = insert r (snd ` set m)"
    using keyed_by_values_new [OF 2(3)] keyed_by_absent [OF 2(3)] ok(2) by blast
  with 2(1) [OF _ _ ok(3) k] 2(2) ok show ?case by (auto split: if_splits)
qed simp

lemma replace_leases:
  assumes "ReplaceCoordinationLeases env rs s = (e, s')" "leases_wf s"
  shows "leases_wf s' \<and> (lease_records s' = set rs \<or> e \<noteq> None \<and> lease_records s' = lease_records s)"
proof (cases "replace_loop rs []")
  case (Inl x)
  with assms show ?thesis by (auto simp: ReplaceCoordinationLeases_def)
next
  case (Inr m)
  show ?thesis
  proof (cases "replace_check s (env_now env) (map snd m)")
    case (Some x)
    with Inr assms show ?thesis by (auto simp: ReplaceCoordinationLeases_def)
  next
    case None
    with Inr assms(1) have c: "commitSnapshotLocked env s (s\<lparr>CoordinationLeases := m\<rparr>) = (e, s')"
      by (simp add: ReplaceCoordinationLeases_def)
    have m: "keyed_by recordID m" "snd ` set m = set rs" "\<forall>r \<in> set rs. leaseFieldsValid (lr_Lease r)"
      using replace_loop_spec [OF Inr] by auto
    from commit_leases(1) [OF c] show ?thesis
    proof
      assume "CoordinationLeases s' = m"
      with m show ?thesis by (simp add: leases_wf_def lease_records_def)
    next
      assume "e \<noteq> None \<and> CoordinationLeases s' = CoordinationLeases s"
      with assms(2) leases_wf_table [of s' s] show ?thesis by simp
    qed
  qed
qed

section \<open>The batch invariant\<close>

abbreviation scopeOf :: "LeaseRecord \<Rightarrow> string" where
  "scopeOf r \<equiv> leaseScope (l_ClusterID (lr_Lease r)) (l_HAEndpointID (lr_Lease r))"

text \<open>Scopes are injective because a valid cluster identifier has a fixed length.\<close>

lemma leaseScope_inject:
  "ValidResourceID c \<Longrightarrow> ValidResourceID c' \<Longrightarrow> leaseScope c e = leaseScope c' e' \<longleftrightarrow> c = c' \<and> e = e'"
  using ValidResourceID_length [of c] ValidResourceID_length [of c'] by (auto simp: leaseScope_def)

abbreviation clusterValid :: "Lease \<Rightarrow> bool" where
  "clusterValid lease \<equiv> ValidResourceID (l_ClusterID lease)"

lemma scopeOf_request:
  "clusterValid (lr_Lease r) \<Longrightarrow> ValidResourceID (rq_ClusterID rq) \<Longrightarrow>
   scopeOf r = leaseScope (rq_ClusterID rq) (rq_HAEndpointID rq) \<longleftrightarrow> leaseFor (lr_Lease r) rq"
  by (auto simp: leaseScope_inject)

definition batch_vals :: "batch \<Rightarrow> LeaseRecord set" where
  "batch_vals b = snd ` set (b_next b)"

definition batch_ok :: "go_time \<Rightarrow> batch \<Rightarrow> bool" where
  "batch_ok now b \<longleftrightarrow> keyed_by recordID (b_next b) \<and>
     (\<forall>r \<in> batch_vals b. clusterValid (lr_Lease r) \<and> leaseLive now (lr_Lease r) \<and>
        map_of (b_activeByScope b) (scopeOf r) = Some (recordID r)) \<and>
     (\<forall>sc i. map_of (b_activeByScope b) sc = Some i \<longrightarrow> (\<exists>r \<in> batch_vals b. recordID r = i \<and> scopeOf r = sc))"

lemma batch_ok_record:
  "batch_ok now b \<Longrightarrow> r \<in> batch_vals b \<Longrightarrow> clusterValid (lr_Lease r) \<and> leaseLive now (lr_Lease r) \<and>
     map_of (b_activeByScope b) (scopeOf r) = Some (recordID r)"
  by (simp add: batch_ok_def)

lemma batch_ok_active:
  "batch_ok now b \<Longrightarrow> map_of (b_activeByScope b) sc = Some i \<Longrightarrow> \<exists>r \<in> batch_vals b. recordID r = i \<and> scopeOf r = sc"
  by (simp add: batch_ok_def)

lemma batch_ok_keyed: "batch_ok now b \<Longrightarrow> keyed_by recordID (b_next b)"
  by (simp add: batch_ok_def)

lemma batch_ok_inj: "batch_ok now b \<Longrightarrow> p \<in> batch_vals b \<Longrightarrow> q \<in> batch_vals b \<Longrightarrow> recordID p = recordID q \<Longrightarrow> p = q"
  unfolding batch_vals_def by (rule keyed_by_inj [OF batch_ok_keyed])

lemma batch_ok_exclusive:
  assumes "batch_ok now b"
  shows "exclusive now (lr_Lease ` batch_vals b)"
  unfolding exclusive_def
proof (intro ballI impI)
  fix x y
  assume "x \<in> lr_Lease ` batch_vals b" "y \<in> lr_Lease ` batch_vals b"
    and same: "leaseLive now x \<and> leaseLive now y \<and> l_ClusterID x = l_ClusterID y \<and> l_HAEndpointID x = l_HAEndpointID y"
  then obtain p q where p: "p \<in> batch_vals b" "x = lr_Lease p" and q: "q \<in> batch_vals b" "y = lr_Lease q"
    by blast
  have "map_of (b_activeByScope b) (scopeOf p) = Some (recordID p)" "map_of (b_activeByScope b) (scopeOf q) = Some (recordID q)"
    using batch_ok_record [OF assms] p(1) q(1) by auto
  then have "recordID p = recordID q" using same p(2) q(2) by simp
  then have "p = q" by (rule batch_ok_inj [OF assms p(1) q(1)])
  with p q show "x = y" by simp
qed

text \<open>Adding a live record for a scope that has none, and rewriting the record of a scope.\<close>

lemma batch_ok_add:
  assumes "batch_ok now b" "clusterValid (lr_Lease r)" "leaseLive now (lr_Lease r)"
    and "map_of (b_activeByScope b) (scopeOf r) = None" "recordID r \<notin> recordID ` batch_vals b"
    and "b_next b' = AList.update (recordID r) r (b_next b)"
    and "b_activeByScope b' = AList.update (scopeOf r) (recordID r) (b_activeByScope b)"
  shows "batch_ok now b'" and "batch_vals b' = insert r (batch_vals b)"
proof -
  note k = batch_ok_keyed [OF assms(1)]
  show v: "batch_vals b' = insert r (batch_vals b)"
    using keyed_by_values_new [OF k assms(5) [unfolded batch_vals_def]] by (simp add: batch_vals_def assms(6))
  let ?act = "b_activeByScope b"
  have old: "clusterValid (lr_Lease q)" "leaseLive now (lr_Lease q)" "map_of ?act (scopeOf q) = Some (recordID q)"
    if "q \<in> batch_vals b" for q
    using batch_ok_record [OF assms(1) that] by auto
  have act: "map_of (b_activeByScope b') sc = (if sc = scopeOf r then Some (recordID r) else map_of ?act sc)" for sc
    unfolding assms(7) AList.update_conv' by simp
  have each: "clusterValid (lr_Lease q) \<and> leaseLive now (lr_Lease q) \<and> map_of (b_activeByScope b') (scopeOf q) = Some (recordID q)"
    if "q \<in> batch_vals b'" for q
  proof (cases "q = r")
    case True
    with assms(2,3) act show ?thesis by simp
  next
    case False
    with that v have q: "q \<in> batch_vals b" by simp
    then have "scopeOf q \<noteq> scopeOf r" using old(3) [OF q] assms(4) by (metis option.distinct(1))
    with old [OF q] act [of "scopeOf q"] show ?thesis by simp
  qed
  have backward: "\<exists>q \<in> batch_vals b'. recordID q = i \<and> scopeOf q = sc"
    if "map_of (b_activeByScope b') sc = Some i" for sc i
  proof (cases "sc = scopeOf r")
    case True
    with that act v show ?thesis by simp
  next
    case False
    with that act have "map_of ?act sc = Some i" by simp
    from batch_ok_active [OF assms(1) this] v show ?thesis by blast
  qed
  show "batch_ok now b'"
    unfolding batch_ok_def using each backward keyed_by_update [OF k refl, of r] by (simp add: assms(6))
qed

lemma batch_ok_rewrite:
  assumes "batch_ok now b" "r \<in> batch_vals b" "recordID r' = recordID r" "scopeOf r' = scopeOf r"
    and "clusterValid (lr_Lease r')" "leaseLive now (lr_Lease r')"
    and "b_next b' = AList.update (recordID r) r' (b_next b)" "b_activeByScope b' = b_activeByScope b"
  shows "batch_ok now b'" and "batch_vals b' = insert r' {q \<in> batch_vals b. recordID q \<noteq> recordID r}"
proof -
  note k = batch_ok_keyed [OF assms(1)]
  show v: "batch_vals b' = insert r' {q \<in> batch_vals b. recordID q \<noteq> recordID r}"
    using keyed_by_values_update [OF k assms(3)] by (simp add: batch_vals_def assms(7))
  have act: "map_of (b_activeByScope b) (scopeOf r) = Some (recordID r)"
    using batch_ok_record [OF assms(1,2)] by simp
  have backward: "\<exists>q \<in> batch_vals b'. recordID q = i \<and> scopeOf q = sc"
    if ac: "map_of (b_activeByScope b) sc = Some i" for sc i
  proof -
    obtain q where q: "q \<in> batch_vals b" "recordID q = i" "scopeOf q = sc"
      using batch_ok_active [OF assms(1) ac] by blast
    show ?thesis
    proof (cases "recordID q = recordID r")
      case True
      then have "q = r" by (rule batch_ok_inj [OF assms(1) q(1) assms(2)])
      with q assms(3,4) v show ?thesis by auto
    next
      case False
      with q v show ?thesis by auto
    qed
  qed
  have each: "clusterValid (lr_Lease q) \<and> leaseLive now (lr_Lease q) \<and> map_of (b_activeByScope b) (scopeOf q) = Some (recordID q)"
    if "q \<in> batch_vals b'" for q
    using that v assms(3-6) act batch_ok_record [OF assms(1)] by auto
  show "batch_ok now b'"
    unfolding batch_ok_def assms(8) using each backward keyed_by_update [OF k assms(3)] by (simp add: assms(7))
qed

lemma batch_ok_cong:
  "b_next b' = b_next b \<Longrightarrow> b_activeByScope b' = b_activeByScope b \<Longrightarrow> batch_ok now b' = batch_ok now b"
  "b_next b' = b_next b \<Longrightarrow> batch_vals b' = batch_vals b" for b b' :: batch
  by (simp_all add: batch_ok_def batch_vals_def)

subsection \<open>Reading the table\<close>

lemma batch_record_step:
  assumes "batch_ok now b" "clusterValid (lr_Lease r)" "recordID r \<notin> recordID ` batch_vals b"
    and "leaseLive now (lr_Lease r) \<Longrightarrow> \<forall>q \<in> batch_vals b. scopeOf q \<noteq> scopeOf r"
  shows "batch_ok now (batch_record now r b)"
    and "batch_vals (batch_record now r b) = batch_vals b \<union> {q. q = r \<and> leaseLive now (lr_Lease q)}"
    and "b_duplicateScopes (batch_record now r b) = b_duplicateScopes b"
    and "b_changed (batch_record now r b) \<longleftrightarrow> b_changed b \<or> \<not> leaseLive now (lr_Lease r)"
    and "b_failures (batch_record now r b) = b_failures b" "b_seenRequests (batch_record now r b) = b_seenRequests b"
proof -
  let ?b = "batch_record now r b"
  have "batch_ok now ?b \<and> batch_vals ?b = batch_vals b \<union> {q. q = r \<and> leaseLive now (lr_Lease q)} \<and>
      b_duplicateScopes ?b = b_duplicateScopes b \<and> (b_changed ?b \<longleftrightarrow> b_changed b \<or> \<not> leaseLive now (lr_Lease r)) \<and>
      b_failures ?b = b_failures b \<and> b_seenRequests ?b = b_seenRequests b"
  proof (cases "leaseLive now (lr_Lease r)")
    case False
    then have "?b = b\<lparr>b_changed := True\<rparr>" by (simp add: batch_record_def Let_def)
    then show ?thesis using assms(1) False by (auto simp: batch_ok_cong [of "b\<lparr>b_changed := True\<rparr>" b])
  next
    case True
    have none: "map_of (b_activeByScope b) (scopeOf r) = None"
    proof (rule ccontr)
      assume "map_of (b_activeByScope b) (scopeOf r) \<noteq> None"
      then obtain i where i: "map_of (b_activeByScope b) (scopeOf r) = Some i" by (auto simp only: not_None_eq)
      from batch_ok_active [OF assms(1) i] obtain q where "q \<in> batch_vals b" "scopeOf q = scopeOf r" by (elim bexE conjE)
      with assms(4) [OF True] show False by blast
    qed
    then have b: "?b = b\<lparr>b_next := AList.update (recordID r) r (b_next b),
        b_activeByScope := AList.update (scopeOf r) (recordID r) (b_activeByScope b)\<rparr>"
      using True by (simp add: batch_record_def Let_def)
    have "batch_ok now ?b" "batch_vals ?b = insert r (batch_vals b)"
      by (rule batch_ok_add [OF assms(1,2) True none assms(3)]; simp add: b)+
    with b True show ?thesis by auto
  qed
  then show "batch_ok now ?b" "batch_vals ?b = batch_vals b \<union> {q. q = r \<and> leaseLive now (lr_Lease q)}"
    "b_duplicateScopes ?b = b_duplicateScopes b" "b_changed ?b \<longleftrightarrow> b_changed b \<or> \<not> leaseLive now (lr_Lease r)"
    "b_failures ?b = b_failures b" "b_seenRequests ?b = b_seenRequests b"
    by blast+
qed

lemma scope_exclusive:
  assumes "leases_wf s" "exclusive now (lease_set s)" "r \<in> lease_records s" "q \<in> lease_records s"
    and "leaseLive now (lr_Lease r)" "leaseLive now (lr_Lease q)" "scopeOf q = scopeOf r"
  shows "q = r"
proof -
  have "ValidResourceID (l_ClusterID (lr_Lease x))" if "x \<in> lease_records s" for x
    using assms(1) that by (auto simp: leases_wf_def leaseFieldsValid_def)
  with assms(3,4,7) have "l_ClusterID (lr_Lease q) = l_ClusterID (lr_Lease r)" "l_HAEndpointID (lr_Lease q) = l_HAEndpointID (lr_Lease r)"
    by (metis leaseScope_inject)+
  with assms(2-6) have "lr_Lease q = lr_Lease r"
    unfolding exclusive_def lease_set_def by (metis imageI)
  with leases_wf_unique [OF assms(1) assms(4,3)] show ?thesis by simp
qed

lemma batch_records_fold:
  assumes "leases_wf s" "exclusive now (lease_set s)"
    and "batch_ok now b" "set rs \<subseteq> lease_records s" "batch_vals b \<subseteq> lease_records s" "distinct (map recordID rs)"
    and "\<And>r. r \<in> set rs \<Longrightarrow> recordID r \<notin> recordID ` batch_vals b"
  shows "batch_ok now (fold (batch_record now) rs b) \<and>
    batch_vals (fold (batch_record now) rs b) = batch_vals b \<union> {r \<in> set rs. leaseLive now (lr_Lease r)} \<and>
    b_duplicateScopes (fold (batch_record now) rs b) = b_duplicateScopes b \<and>
    (b_changed (fold (batch_record now) rs b) \<longleftrightarrow> b_changed b \<or> (\<exists>r \<in> set rs. \<not> leaseLive now (lr_Lease r))) \<and>
    b_failures (fold (batch_record now) rs b) = b_failures b \<and>
    b_seenRequests (fold (batch_record now) rs b) = b_seenRequests b"
  using assms(3-)
proof (induction rs arbitrary: b)
  case (Cons r rs)
  have r: "r \<in> lease_records s" "recordID r \<notin> recordID ` batch_vals b" using Cons.prems by auto
  have "clusterValid (lr_Lease r)" using assms(1) r(1) by (simp add: leases_wf_def leaseFieldsValid_def)
  moreover have "\<forall>q \<in> batch_vals b. scopeOf q \<noteq> scopeOf r" if "leaseLive now (lr_Lease r)"
  proof (intro ballI notI)
    fix q assume q: "q \<in> batch_vals b" "scopeOf q = scopeOf r"
    then have "q = r"
      using scope_exclusive [OF assms(1,2) r(1), of q] Cons.prems(1,3) that batch_ok_record [of now b q] by blast
    with q(1) r(2) show False by blast
  qed
  ultimately have step: "batch_ok now (batch_record now r b)"
    "batch_vals (batch_record now r b) = batch_vals b \<union> {q. q = r \<and> leaseLive now (lr_Lease q)}"
    "b_duplicateScopes (batch_record now r b) = b_duplicateScopes b"
    "b_changed (batch_record now r b) \<longleftrightarrow> b_changed b \<or> \<not> leaseLive now (lr_Lease r)"
    "b_failures (batch_record now r b) = b_failures b" "b_seenRequests (batch_record now r b) = b_seenRequests b"
    using batch_record_step [OF Cons.prems(1) _ r(2)] by blast+
  have "recordID x \<notin> recordID ` batch_vals (batch_record now r b)" if "x \<in> set rs" for x
  proof -
    have "recordID x \<notin> recordID ` batch_vals b" using Cons.prems(5) [of x] that by simp
    moreover have "recordID r \<notin> set (map recordID rs)" "recordID x \<in> set (map recordID rs)"
      using Cons.prems(4) that by simp_all
    then have "recordID x \<noteq> recordID r" by metis
    ultimately show ?thesis unfolding step(2) by auto
  qed
  with Cons.IH [OF step(1)] Cons.prems step r(1) show ?case by auto
qed auto

lemma batch_start_ok:
  assumes "leases_wf s" "exclusive now (lease_set s)" "b = batch_start now (CoordinationLeases_list s)"
  shows "batch_ok now b \<and> batch_vals b = {r \<in> lease_records s. leaseLive now (lr_Lease r)} \<and> b_duplicateScopes b = [] \<and>
    (b_changed b \<longleftrightarrow> (\<exists>r \<in> lease_records s. \<not> leaseLive now (lr_Lease r))) \<and> b_failures b = [] \<and> b_seenRequests b = []"
proof -
  let ?b0 = "\<lparr>b_next = [], b_activeByScope = [], b_duplicateScopes = [], b_seenRequests = [], b_changed = False, b_failures = []\<rparr>"
  have "distinct (map recordID (CoordinationLeases_list s))"
    using assms(1) keyed_by_sorted_values [of recordID "CoordinationLeases s"]
    by (simp add: CoordinationLeases_list_def leases_wf_def)
  moreover have "batch_ok now ?b0" "batch_vals ?b0 = {}" by (simp_all add: batch_ok_def batch_vals_def)
  ultimately show ?thesis
    using batch_records_fold [OF assms(1,2), of ?b0 "CoordinationLeases_list s"]
    by (simp add: assms(3) batch_start_def)
qed

subsection \<open>Serving a request\<close>

text \<open>A request is served when its endpoint has a lease of its owner with between half and a full lifetime left.\<close>

definition served :: "go_time \<Rightarrow> LeaseRequest \<Rightarrow> LeaseRecord set \<Rightarrow> bool" where
  "served now rq R \<longleftrightarrow> (\<exists>r \<in> R. leaseFor (lr_Lease r) rq \<and> l_OperationID (lr_Lease r) = rq_OperationID rq \<and>
     l_OwnerID (lr_Lease r) = rq_OwnerID rq \<and> l_Active (lr_Lease r) \<and>
     now + leaseTTL (rq_TTL rq) div 2 < l_ExpiresAt (lr_Lease r) \<and> l_ExpiresAt (lr_Lease r) \<le> now + maxLeaseTTL)"

abbreviation rq_scope :: "LeaseRequest \<Rightarrow> string" where
  "rq_scope rq \<equiv> leaseScope (rq_ClusterID rq) (rq_HAEndpointID rq)"

definition request_post :: "go_time \<Rightarrow> LeaseRequest \<Rightarrow> rid \<Rightarrow> batch \<Rightarrow> batch \<Rightarrow> bool" where
  "request_post now rq fresh b b' \<longleftrightarrow> batch_ok now b' \<and> b_duplicateScopes b' = [] \<and>
     (\<forall>r \<in> batch_vals b'. r \<in> batch_vals b \<or> recordID r = fresh \<or> (\<exists>q \<in> batch_vals b. recordID q = recordID r)) \<and>
     (b_changed b \<longrightarrow> b_changed b') \<and> (\<not> b_changed b' \<longrightarrow> batch_vals b' = batch_vals b) \<and>
     ((\<exists>e. b_failures b' = b_failures b @ [e]) \<or>
      b_failures b' = b_failures b \<and> served now rq (batch_vals b') \<and> ValidResourceID (rq_ClusterID rq) \<and>
      rq_scope rq \<notin> set (b_seenRequests b) \<and> b_seenRequests b' = rq_scope rq # b_seenRequests b \<and>
      (\<forall>q \<in> batch_vals b. scopeOf q \<noteq> rq_scope rq \<longrightarrow> q \<in> batch_vals b'))"

lemma request_post_fail:
  assumes "batch_ok now b" "b_duplicateScopes b = []" "b' = batch_fail e b \<or> b' = batch_fail e (b\<lparr>b_seenRequests := sc\<rparr>)"
  shows "request_post now rq fresh b b'"
proof -
  have eq: "b_next b' = b_next b" "b_activeByScope b' = b_activeByScope b" "b_changed b' = b_changed b"
    "b_duplicateScopes b' = b_duplicateScopes b" "b_failures b' = b_failures b @ [e]"
    using assms(3) by (auto simp: batch_fail_def)
  with batch_ok_cong(1) [OF eq(1,2)] batch_ok_cong(2) [OF eq(1)] assms(1,2) show ?thesis
    by (simp add: request_post_def)
qed

lemma half_ttl: "leaseTTL t div 2 < leaseTTL t" "0 < leaseTTL t" "leaseTTL t \<le> maxLeaseTTL"
  "min_duration \<le> leaseTTL t div 2" "leaseTTL t div 2 < max_duration"
  using leaseTTL_bounds [of t] minute_in_range by (auto simp: maxLeaseTTL_def min_duration_def)

text \<open>The three ways to serve: enough of the lease is left, it is extended, it is granted.\<close>

lemma request_post_keep:
  assumes ok: "batch_ok now b" "b_duplicateScopes b = []" and rq: "ValidResourceID (rq_ClusterID rq)"
    and seen: "rq_scope rq \<notin> set (b_seenRequests b)"
    and r: "r \<in> batch_vals b" "scopeOf r = rq_scope rq"
      "l_OperationID (lr_Lease r) = rq_OperationID rq" "l_OwnerID (lr_Lease r) = rq_OwnerID rq"
      "time_sub (l_ExpiresAt (lr_Lease r)) now \<le> maxLeaseTTL"
      "leaseTTL (rq_TTL rq) div 2 < time_sub (l_ExpiresAt (lr_Lease r)) now"
    and b': "b' = b\<lparr>b_seenRequests := rq_scope rq # b_seenRequests b\<rparr>"
  shows "request_post now rq fresh b b'"
proof -
  note rec = batch_ok_record [OF ok(1) r(1)]
  have "leaseFor (lr_Lease r) rq" using rec rq r(2) scopeOf_request [of r rq] by blast
  moreover have "now + leaseTTL (rq_TTL rq) div 2 < l_ExpiresAt (lr_Lease r)"
    using r(6) time_sub_gt_iff [OF half_ttl(5,4)] by auto
  moreover have "l_ExpiresAt (lr_Lease r) \<le> now + maxLeaseTTL"
    using r(5) time_sub_gt_iff [OF minute_in_range] by (auto simp: maxLeaseTTL_def not_less [symmetric])
  ultimately have "served now rq (batch_vals b)"
    unfolding served_def using r(1,3,4) rec by (intro bexI [of _ r]) simp_all
  moreover have eq: "b_next b' = b_next b" "b_activeByScope b' = b_activeByScope b" "b_changed b' = b_changed b"
    "b_duplicateScopes b' = []" "b_failures b' = b_failures b" "b_seenRequests b' = rq_scope rq # b_seenRequests b"
    using ok(2) by (simp_all add: b')
  ultimately show ?thesis
    using rq seen ok(1) batch_ok_cong(1) [OF eq(1,2)] batch_ok_cong(2) [OF eq(1)] by (simp add: request_post_def)
qed

lemma request_post_renew:
  assumes ok: "batch_ok now b" "b_duplicateScopes b = []" and rq: "ValidResourceID (rq_ClusterID rq)"
    and seen: "rq_scope rq \<notin> set (b_seenRequests b)"
    and r: "r \<in> batch_vals b" "scopeOf r = rq_scope rq"
      "l_OperationID (lr_Lease r) = rq_OperationID rq" "l_OwnerID (lr_Lease r) = rq_OwnerID rq"
    and r': "r' = r\<lparr>lr_Lease := (lr_Lease r)\<lparr>l_ExpiresAt := time_add now (leaseTTL (rq_TTL rq))\<rparr>, lr_UpdatedAt := now\<rparr>"
    and b': "b' = b\<lparr>b_next := AList.update (recordID r) r' (b_next b),
        b_seenRequests := rq_scope rq # b_seenRequests b, b_changed := True\<rparr>"
  shows "request_post now rq fresh b b'"
proof -
  note rec = batch_ok_record [OF ok(1) r(1)]
  have l: "leaseFor (lr_Lease r) rq" using rec rq r(2) scopeOf_request [of r rq] by blast
  have r'_eq: "recordID r' = recordID r" "scopeOf r' = scopeOf r" "clusterValid (lr_Lease r')" "leaseLive now (lr_Lease r')"
    "l_ExpiresAt (lr_Lease r') = now + leaseTTL (rq_TTL rq)"
    using rec half_ttl [of "rq_TTL rq"] by (simp_all add: r' time_add_def)
  have upd: "batch_ok now b'" "batch_vals b' = insert r' {q \<in> batch_vals b. recordID q \<noteq> recordID r}"
    by (rule batch_ok_rewrite [OF ok(1) r(1) r'_eq(1-4)]; simp add: b')+
  have "served now rq (batch_vals b')"
    unfolding served_def upd(2) using l r(3,4) rec r'_eq(5) half_ttl [of "rq_TTL rq"]
    by (intro bexI [of _ r']) (simp_all add: r')
  moreover have "q \<in> batch_vals b'" if "q \<in> batch_vals b" "scopeOf q \<noteq> rq_scope rq" for q
    using that r(2) batch_ok_inj [OF ok(1) that(1) r(1)] unfolding upd(2) by blast
  moreover have "x \<in> batch_vals b \<or> (\<exists>q \<in> batch_vals b. recordID q = recordID x)" if "x \<in> batch_vals b'" for x
    using that r(1) r'_eq(1) unfolding upd(2) by auto
  moreover have "b_changed b'" "b_duplicateScopes b' = []" "b_failures b' = b_failures b"
    "b_seenRequests b' = rq_scope rq # b_seenRequests b"
    using ok(2) by (simp_all add: b')
  ultimately show ?thesis
    using rq seen upd(1) unfolding request_post_def by blast
qed

lemma request_post_grant:
  assumes ok: "batch_ok now b" "b_duplicateScopes b = []" and rq: "ValidResourceID (rq_ClusterID rq)"
    and seen: "rq_scope rq \<notin> set (b_seenRequests b)" "map_of (b_activeByScope b) (rq_scope rq) = None"
    and fresh: "fresh \<notin> recordID ` batch_vals b"
    and r: "lr_Lease r = grantLease rq fresh (time_add now (leaseTTL (rq_TTL rq)))"
    and b': "b' = b\<lparr>b_next := AList.update fresh r (b_next b), b_activeByScope := AList.update (rq_scope rq) fresh (b_activeByScope b),
        b_seenRequests := rq_scope rq # b_seenRequests b, b_changed := True\<rparr>"
  shows "request_post now rq fresh b b'"
proof -
  have r_eq: "recordID r = fresh" "scopeOf r = rq_scope rq" "clusterValid (lr_Lease r)" "leaseLive now (lr_Lease r)"
    "l_ExpiresAt (lr_Lease r) = now + leaseTTL (rq_TTL rq)"
    using rq half_ttl [of "rq_TTL rq"] by (simp_all add: r grantLease_def time_add_def)
  have upd: "batch_ok now b'" "batch_vals b' = insert r (batch_vals b)"
    by (rule batch_ok_add [OF ok(1) r_eq(3,4)]; simp add: b' r_eq(1,2) seen(2) fresh)+
  have "served now rq (batch_vals b')"
    unfolding served_def upd(2) using r_eq(4,5) half_ttl [of "rq_TTL rq"]
    by (intro bexI [of _ r]) (simp_all add: r grantLease_def)
  moreover have "b_changed b'" "b_duplicateScopes b' = []" "b_failures b' = b_failures b"
    "b_seenRequests b' = rq_scope rq # b_seenRequests b"
    using ok(2) by (simp_all add: b')
  ultimately show ?thesis
    using rq seen upd r_eq(1) unfolding request_post_def by simp
qed

lemma batch_request_post:
  assumes ok: "batch_ok now b" "b_duplicateScopes b = []" and fresh: "fresh \<notin> recordID ` batch_vals b"
  shows "request_post now rq fresh b (batch_request now (rq, fresh) b)"
proof (cases "ValidResourceID (rq_ClusterID rq) \<and> ValidResourceID (rq_HAEndpointID rq) \<and> rq_OperationID rq = rq_HAEndpointID rq \<and>
    ValidResourceID (rq_OwnerID rq) \<and> rq_PreviousOwnerID rq = [] \<and> rq_scope rq \<notin> set (b_seenRequests b)")
  case False
  then have "\<exists>e. batch_request now (rq, fresh) b = batch_fail e b" by (auto simp: batch_request_def Let_def)
  then show ?thesis using request_post_fail [OF ok] by blast
next
  case True
  let ?b' = "batch_request now (rq, fresh) b" and ?ttl = "leaseTTL (rq_TTL rq)"
  let ?b1 = "b\<lparr>b_seenRequests := rq_scope rq # b_seenRequests b\<rparr>"
  show ?thesis
  proof (cases "map_of (b_activeByScope b) (rq_scope rq)")
    case None
    show ?thesis
    proof (cases "rq_RenewOnly rq")
      case ro: True
      with True None ok(2) have "\<exists>e. ?b' = batch_fail e ?b1" by (auto simp: batch_request_def Let_def)
      then show ?thesis using request_post_fail [OF ok] by blast
    next
      case False
      let ?r = "\<lparr>lr_Lease = grantLease (rq\<lparr>rq_PreviousOwnerID := []\<rparr>) fresh (time_add now ?ttl), lr_CreatedAt = now, lr_UpdatedAt = now\<rparr>"
      have "?b' = b\<lparr>b_next := AList.update fresh ?r (b_next b), b_activeByScope := AList.update (rq_scope rq) fresh (b_activeByScope b),
          b_seenRequests := rq_scope rq # b_seenRequests b, b_changed := True\<rparr>"
        using True False None ok(2) by (simp add: batch_request_def Let_def)
      then show ?thesis
        using True None by (intro request_post_grant [OF ok _ _ None fresh, of ?r]) (auto simp: grantLease_def)
    qed
  next
    case (Some i)
    then obtain r where r: "r \<in> batch_vals b" "recordID r = i" "scopeOf r = rq_scope rq"
      using batch_ok_active [OF ok(1)] by blast
    have look: "map_of (b_next b) i = Some r"
      using keyed_by_lookup [OF batch_ok_keyed [OF ok(1)]] keyed_by_value [OF batch_ok_keyed [OF ok(1)]] r(1,2)
      by (simp add: batch_vals_def) blast
    let ?own = "l_OperationID (lr_Lease r) = rq_OperationID rq \<and> l_OwnerID (lr_Lease r) = rq_OwnerID rq"
    let ?left = "time_sub (l_ExpiresAt (lr_Lease r)) now"
    show ?thesis
    proof (cases ?own)
      case False
      with True Some look ok(2) have "\<exists>e. ?b' = batch_fail e ?b1" by (auto simp: batch_request_def Let_def)
      then show ?thesis using request_post_fail [OF ok] by blast
    next
      case own: True
      show ?thesis
      proof (cases "?left \<le> maxLeaseTTL \<and> ?ttl div 2 < ?left")
        case keep: True
        with True own Some look ok(2) have "?b' = ?b1" by (auto simp: batch_request_def Let_def)
        then show ?thesis
          using True own keep by (intro request_post_keep [OF ok _ _ r(1,3)]) simp_all
      next
        case False
        let ?r' = "r\<lparr>lr_Lease := (lr_Lease r)\<lparr>l_ExpiresAt := time_add now ?ttl\<rparr>, lr_UpdatedAt := now\<rparr>"
        have "?b' = b\<lparr>b_next := AList.update (recordID r) ?r' (b_next b),
            b_seenRequests := rq_scope rq # b_seenRequests b, b_changed := True\<rparr>"
          using False True own Some look ok(2) r(2) by (auto simp: batch_request_def Let_def)
        then show ?thesis
          using True own by (intro request_post_renew [OF ok _ _ r(1,3) _ _ refl]) simp_all
      qed
    qed
  qed
qed

lemma served_keep: "served now rq R \<Longrightarrow> (\<And>r. r \<in> R \<Longrightarrow> scopeOf r = rq_scope rq \<Longrightarrow> r \<in> R') \<Longrightarrow> served now rq R'"
  unfolding served_def by (metis (no_types, lifting))

lemma request_post_parts:
  assumes "request_post now rq fresh b b'"
  shows "batch_ok now b'" "b_duplicateScopes b' = []" "b_changed b \<Longrightarrow> b_changed b'"
    "\<not> b_changed b' \<Longrightarrow> batch_vals b' = batch_vals b" "\<exists>es. b_failures b' = b_failures b @ es"
    "r \<in> batch_vals b' \<Longrightarrow> recordID r = fresh \<or> recordID r \<in> recordID ` batch_vals b"
proof -
  note p = assms [unfolded request_post_def]
  show "batch_ok now b'" "b_duplicateScopes b' = []" using p by simp_all
  show "b_changed b \<Longrightarrow> b_changed b'" "\<not> b_changed b' \<Longrightarrow> batch_vals b' = batch_vals b" using p by simp_all
  show "\<exists>es. b_failures b' = b_failures b @ es" using p by (elim conjE disjE exE) simp_all
  assume "r \<in> batch_vals b'"
  then have "r \<in> batch_vals b \<or> recordID r = fresh \<or> (\<exists>q \<in> batch_vals b. recordID q = recordID r)" using p by blast
  then show "recordID r = fresh \<or> recordID r \<in> recordID ` batch_vals b" by (elim disjE bexE) (simp_all, metis image_eqI)
qed

lemma request_post_served:
  assumes "request_post now rq fresh b b'" "b_failures b' = b_failures b"
  shows "served now rq (batch_vals b')" "rq_scope rq \<notin> set (b_seenRequests b)"
    "b_seenRequests b' = rq_scope rq # b_seenRequests b" "\<forall>q \<in> batch_vals b. scopeOf q \<noteq> rq_scope rq \<longrightarrow> q \<in> batch_vals b'"
  using assms unfolding request_post_def by simp_all

lemma batch_requests_fold:
  assumes "batch_ok now b" "b_duplicateScopes b = []" "distinct (map snd rfs)"
    and "\<And>f. f \<in> snd ` set rfs \<Longrightarrow> f \<notin> recordID ` batch_vals b"
  shows "batch_ok now (fold (batch_request now) rfs b) \<and>
    (\<exists>es. b_failures (fold (batch_request now) rfs b) = b_failures b @ es) \<and>
    (b_changed b \<longrightarrow> b_changed (fold (batch_request now) rfs b)) \<and>
    (\<not> b_changed (fold (batch_request now) rfs b) \<longrightarrow> batch_vals (fold (batch_request now) rfs b) = batch_vals b) \<and>
    (b_failures (fold (batch_request now) rfs b) = b_failures b \<longrightarrow>
       (\<forall>rf \<in> set rfs. served now (fst rf) (batch_vals (fold (batch_request now) rfs b))) \<and>
       (\<forall>q \<in> batch_vals b. scopeOf q \<in> set (b_seenRequests b) \<longrightarrow> q \<in> batch_vals (fold (batch_request now) rfs b)))"
  using assms
proof (induction rfs arbitrary: b)
  case (Cons rf rfs)
  obtain rq f where rf: "rf = (rq, f)" by fastforce
  let ?b1 = "batch_request now rf b" and ?b' = "fold (batch_request now) rfs (batch_request now rf b)"
  have post: "request_post now rq f b ?b1"
    using batch_request_post [OF Cons.prems(1,2)] Cons.prems(4) by (simp add: rf)
  have "g \<notin> recordID ` batch_vals ?b1" if g: "g \<in> snd ` set rfs" for g
  proof
    assume "g \<in> recordID ` batch_vals ?b1"
    then obtain r where r: "r \<in> batch_vals ?b1" "recordID r = g" by (metis imageE)
    have "g \<noteq> f" using Cons.prems(3) g by (auto simp: rf)
    moreover have "g \<notin> recordID ` batch_vals b" using Cons.prems(4) g by simp
    ultimately show False using request_post_parts(6) [OF post r(1)] r(2) by simp
  qed
  then have ih: "batch_ok now ?b' \<and> (\<exists>es. b_failures ?b' = b_failures ?b1 @ es) \<and> (b_changed ?b1 \<longrightarrow> b_changed ?b') \<and>
    (\<not> b_changed ?b' \<longrightarrow> batch_vals ?b' = batch_vals ?b1) \<and>
    (b_failures ?b' = b_failures ?b1 \<longrightarrow> (\<forall>rf \<in> set rfs. served now (fst rf) (batch_vals ?b')) \<and>
       (\<forall>q \<in> batch_vals ?b1. scopeOf q \<in> set (b_seenRequests ?b1) \<longrightarrow> q \<in> batch_vals ?b'))"
    using Cons.prems(3) request_post_parts(1,2) [OF post] by (intro Cons.IH) auto
  have ok: "b_failures ?b1 = b_failures b" if "b_failures ?b' = b_failures b"
  proof -
    obtain es es' where "b_failures ?b1 = b_failures b @ es" "b_failures ?b' = b_failures ?b1 @ es'"
      using request_post_parts(5) [OF post] ih by blast
    with that show ?thesis by simp
  qed
  have good: "(\<forall>x \<in> set (rf # rfs). served now (fst x) (batch_vals ?b')) \<and>
       (\<forall>q \<in> batch_vals b. scopeOf q \<in> set (b_seenRequests b) \<longrightarrow> q \<in> batch_vals ?b')" if none: "b_failures ?b' = b_failures b"
  proof -
    note p1 = request_post_served [OF post ok [OF none]]
    have p2: "\<forall>rf \<in> set rfs. served now (fst rf) (batch_vals ?b')"
      "\<forall>q \<in> batch_vals ?b1. scopeOf q \<in> set (b_seenRequests ?b1) \<longrightarrow> q \<in> batch_vals ?b'"
      using ih ok [OF none] none by auto
    have "served now rq (batch_vals ?b')"
      using p1(1) by (rule served_keep) (use p1(3) p2(2) in simp)
    moreover have "q \<in> batch_vals ?b'" if "q \<in> batch_vals b" "scopeOf q \<in> set (b_seenRequests b)" for q
    proof -
      have "scopeOf q \<noteq> rq_scope rq" using that(2) p1(2) by metis
      with p1(4) that(1) have "q \<in> batch_vals ?b1" by blast
      with p2(2) that(2) p1(3) show ?thesis by simp
    qed
    ultimately show ?thesis using p2(1) by (simp add: rf)
  qed
  have "\<exists>es. b_failures ?b' = b_failures b @ es"
    using request_post_parts(5) [OF post] ih by (metis append.assoc)
  moreover have "\<not> b_changed ?b' \<longrightarrow> batch_vals ?b' = batch_vals b" "b_changed b \<longrightarrow> b_changed ?b'"
    using request_post_parts(3,4) [OF post] ih by metis+
  ultimately show ?case using ih good by simp
qed simp

section \<open>The batch as a whole\<close>

lemma AcquireStableBatch_post:
  assumes "AcquireStableBatch env rfs s = (errs, s')" "leases_wf s" "exclusive (le_now env) (lease_set s)"
    and "distinct (map snd rfs)" "\<And>f. f \<in> snd ` set rfs \<Longrightarrow> f \<notin> recordID ` lease_records s"
  shows "leases_wf s' \<and> exclusive (le_now env) (lease_set s') \<and>
    (errs = [] \<longrightarrow> (\<forall>rf \<in> set rfs. served (le_now env) (fst rf) (lease_records s')))"
proof (cases "le_authority env = None \<and> rfs \<noteq> []")
  case False
  with assms show ?thesis by (auto simp: AcquireStableBatch_def split: option.splits)
next
  case True
  let ?now = "le_now env"
  define b0 where "b0 = batch_start ?now (CoordinationLeases_list s)"
  define b where "b = fold (batch_request ?now) rfs b0"
  note start = batch_start_ok [OF assms(2,3) b0_def]
  have "f \<notin> recordID ` batch_vals b0" if "f \<in> snd ` set rfs" for f
    using assms(5) [OF that] start by auto
  then have fold: "batch_ok ?now b" "b_changed b0 \<longrightarrow> b_changed b" "\<not> b_changed b \<longrightarrow> batch_vals b = batch_vals b0"
    "b_failures b = [] \<longrightarrow> (\<forall>rf \<in> set rfs. served ?now (fst rf) (batch_vals b))"
    using batch_requests_fold [of ?now b0 rfs] assms(4) start unfolding b_def by auto
  show ?thesis
  proof (cases "b_changed b")
    case False
    with True assms(1) have "s' = s" "errs = b_failures b"
      by (auto simp: AcquireStableBatch_def Let_def b_def b0_def)
    moreover have "batch_vals b = lease_records s" using False fold(2,3) start by auto
    ultimately show ?thesis using assms(2,3) fold(4) by simp
  next
    case changed: True
    let ?rs = "sorted_values recordID (b_next b)"
    obtain e s'' where rep: "ReplaceCoordinationLeases (le_repo env) ?rs s = (e, s'')" by fastforce
    have s'': "s'' = s'" and errs: "errs = [] \<Longrightarrow> e = None \<and> b_failures b = []"
      using True assms(1) changed rep
      by (auto simp: AcquireStableBatch_def Let_def b_def b0_def split: option.splits)
    have vals: "set ?rs = batch_vals b" by (simp add: batch_vals_def)
    note post = replace_leases [OF rep assms(2), unfolded s'' vals]
    have "exclusive ?now (lease_set s')"
      using post assms(3) batch_ok_exclusive [OF fold(1)] by (auto simp: lease_set_def)
    with post errs fold(4) show ?thesis by auto
  qed
qed

section \<open>Reachable lease tables\<close>

text \<open>
  Any sequence of the store's operations, each with its own environment, at instants that do
  not go back; between them the rest of the repository may change in any way that leaves the
  lease table alone.
\<close>

inductive lease_step :: "go_time \<times> snapshot \<Rightarrow> go_time \<times> snapshot \<Rightarrow> bool" where
  step_acquire: "\<lbrakk>t \<le> le_now env; fresh \<notin> l_ResourceID ` lease_set s; LeaseStore_Acquire env rq fresh s = (res, s')\<rbrakk> \<Longrightarrow>
     lease_step (t, s) (le_now env, s')"
| step_batch: "\<lbrakk>t \<le> le_now env; distinct (map snd rfs); snd ` set rfs \<inter> l_ResourceID ` lease_set s = {};
     AcquireStableBatch env rfs s = (errs, s')\<rbrakk> \<Longrightarrow> lease_step (t, s) (le_now env, s')"
| step_finalize: "\<lbrakk>t \<le> le_now env; LeaseStore_FinalizeTransition env tr ttl s = (res, s')\<rbrakk> \<Longrightarrow> lease_step (t, s) (le_now env, s')"
| step_rollback: "\<lbrakk>t \<le> le_now env; LeaseStore_RollbackTransition env tr ttl s = (res, s')\<rbrakk> \<Longrightarrow> lease_step (t, s) (le_now env, s')"
| step_release: "\<lbrakk>t \<le> le_now env; LeaseStore_Release env i s = (err, s')\<rbrakk> \<Longrightarrow> lease_step (t, s) (le_now env, s')"
| step_other: "\<lbrakk>t \<le> t'; CoordinationLeases s' = CoordinationLeases s\<rbrakk> \<Longrightarrow> lease_step (t, s) (t', s')"

definition lease_inv :: "go_time \<times> snapshot \<Rightarrow> bool" where
  "lease_inv ts \<longleftrightarrow> leases_wf (snd ts) \<and> exclusive (fst ts) (lease_set (snd ts))"

lemma lease_inv_step: "lease_step ts ts' \<Longrightarrow> lease_inv ts \<Longrightarrow> lease_inv ts'"
proof (induction rule: lease_step.induct)
  case (step_acquire t env fresh s rq res s')
  then have "leases_wf s" "exclusive (le_now env) (lease_set s)" by (auto simp: lease_inv_def intro: exclusive_later)
  with step_acquire quorum.acquire_wf [of s fresh env rq res s'] quorum.acquire_exclusive [of s env fresh rq res s'] show ?case
    by (simp add: lease_inv_def)
next
  case (step_batch t env rfs s errs s')
  then have "leases_wf s" "exclusive (le_now env) (lease_set s)" by (auto simp: lease_inv_def intro: exclusive_later)
  moreover have "f \<notin> recordID ` lease_records s" if "f \<in> snd ` set rfs" for f
    using step_batch(3) that fresh_records by blast
  ultimately show ?case using AcquireStableBatch_post [OF step_batch(4)] step_batch(2) by (simp add: lease_inv_def)
next
  case (step_finalize t env tr ttl s res s')
  then show ?case using FinalizeTransition_spec(1,2) [OF step_finalize(2)]
    by (auto simp: lease_inv_def intro: exclusive_later)
next
  case (step_rollback t env tr ttl s res s')
  then show ?case using RollbackTransition_spec(1,2) [OF step_rollback(2)]
    by (auto simp: lease_inv_def intro: exclusive_later)
next
  case (step_release t env i s err s')
  then show ?case using Release_spec [OF step_release(2)]
    by (auto simp: lease_inv_def intro: exclusive_later exclusive_live)
next
  case (step_other t t' s' s)
  then show ?case using leases_wf_table [of s' s]
    by (auto simp: lease_inv_def lease_set_def intro: exclusive_later)
qed

lemma lease_inv_reachable: "lease_step\<^sup>*\<^sup>* ts ts' \<Longrightarrow> lease_inv ts \<Longrightarrow> lease_inv ts'"
  by (induction rule: rtranclp_induct) (auto intro: lease_inv_step)

section \<open>Properties\<close>

text \<open>
  (C14) One writer per endpoint. Starting from a well-formed lease table without two live
  leases for one endpoint, any sequence of acquisitions, stable batches, finalisations,
  rollbacks and releases, whatever the commits do and whoever issues them, at instants that
  do not go back, leaves at most one live lease per cluster and endpoint; and the current
  lease a controller with authority reads is exactly that lease.
\<close>

theorem quorum_leases_exclusive:
  assumes "leases_wf s0" "exclusive t0 (lease_set s0)" "lease_step\<^sup>*\<^sup>* (t0, s0) (t, s)"
  shows "(\<forall>a \<in> lease_set s. \<forall>b \<in> lease_set s. leaseLive t a \<and> leaseLive t b \<and>
       l_ClusterID a = l_ClusterID b \<and> l_HAEndpointID a = l_HAEndpointID b \<longrightarrow> a = b) \<and>
    (\<forall>env c h l. le_authority env = None \<and> t \<le> le_now env \<longrightarrow>
       (LeaseStore_Current env c h s = (Inr l, s) \<longleftrightarrow>
        l \<in> lease_set s \<and> leaseLive (le_now env) l \<and> l_ClusterID l = c \<and> l_HAEndpointID l = h))"
proof -
  have "lease_inv (t, s)" using lease_inv_reachable [OF assms(3)] assms(1,2) by (simp add: lease_inv_def)
  then have inv: "leases_wf s" "exclusive t (lease_set s)" by (simp_all add: lease_inv_def)
  show ?thesis
    using inv(2) LeaseStore_Current_iff [OF inv(1) exclusive_later [OF inv(2)]]
    unfolding exclusive_def by blast
qed

text \<open>
  Acquisition. A granted lease is stored, live, matches the request, expires within a
  minute of the store's clock (so a backwards clock step cannot strand it) and validates; it
  is refused while the endpoint has a live lease of another holder that may not be handed
  off, and a renewal is refused when there is none; live leases of other endpoints are
  never touched.
\<close>

theorem LeaseStore_Acquire_correct:
  assumes "leases_wf s" "exclusive (le_now env) (lease_set s)" "fresh \<notin> l_ResourceID ` lease_set s"
    and "LeaseStore_Acquire env rq fresh s = (x, s')"
  shows "(\<forall>l. x = Inr l \<longrightarrow> l \<in> lease_set s' \<and> leaseLive (le_now env) l \<and> leaseFor l rq \<and> leaseOwned l rq \<and>
       l_ExpiresAt l \<le> le_now env + minute \<and> LeaseStore_Validate env l s' = None) \<and>
    (\<forall>c \<in> lease_set s. leaseLive (le_now env) c \<and> leaseFor c rq \<and> \<not> leaseOwned c rq \<and>
       (rq_RenewOnly rq \<or> \<not> CanHandoffStableLease c rq) \<longrightarrow> (\<exists>e. x = Inl e)) \<and>
    (rq_RenewOnly rq \<and> (\<forall>c \<in> lease_set s. leaseLive (le_now env) c \<longrightarrow> \<not> leaseFor c rq) \<longrightarrow> (\<exists>e. x = Inl e)) \<and>
    (\<forall>c. leaseLive (le_now env) c \<and> \<not> leaseFor c rq \<longrightarrow> (c \<in> lease_set s' \<longleftrightarrow> c \<in> lease_set s))"
proof (intro conjI)
  note post = LeaseStore_Acquire_post [OF assms(4,1) assms(3) [unfolded fresh_records]]
  show "\<forall>l. x = Inr l \<longrightarrow> l \<in> lease_set s' \<and> leaseLive (le_now env) l \<and> leaseFor l rq \<and> leaseOwned l rq \<and>
       l_ExpiresAt l \<le> le_now env + minute \<and> LeaseStore_Validate env l s' = None"
  proof (intro allI impI)
    fix l assume x: "x = Inr l"
    have auth: "le_authority env = None"
      using assms(4) x by (cases "le_authority env") (auto simp: LeaseStore_Acquire_def)
    note g = acquire_post_Inr [OF post [unfolded x]]
    then have "LeaseStore_Validate env l s' = None" using Validate_iff [OF auth] SameLeaseIdentity_refl by blast
    with g show "l \<in> lease_set s' \<and> leaseLive (le_now env) l \<and> leaseFor l rq \<and> leaseOwned l rq \<and>
       l_ExpiresAt l \<le> le_now env + minute \<and> LeaseStore_Validate env l s' = None"
      by (simp add: time_add_def maxLeaseTTL_def)
  qed
  show "\<forall>c \<in> lease_set s. leaseLive (le_now env) c \<and> leaseFor c rq \<and> \<not> leaseOwned c rq \<and>
       (rq_RenewOnly rq \<or> \<not> CanHandoffStableLease c rq) \<longrightarrow> (\<exists>e. x = Inl e)"
    using LeaseStore_Acquire_refused [OF assms(1,2), where rq = rq and fresh = fresh] assms(4) by fastforce
  show "rq_RenewOnly rq \<and> (\<forall>c \<in> lease_set s. leaseLive (le_now env) c \<longrightarrow> \<not> leaseFor c rq) \<longrightarrow> (\<exists>e. x = Inl e)"
    using post unfolding acquire_post_def lease_set_def by blast
  show "\<forall>c. leaseLive (le_now env) c \<and> \<not> leaseFor c rq \<longrightarrow> (c \<in> lease_set s' \<longleftrightarrow> c \<in> lease_set s)"
    using acquire_post_frame [OF post assms(1)] by blast
qed

text \<open>
  (C6) A transition holds the endpoint. Once an operation other than the stable keeper has
  acquired the endpoint, every request by a different holder is refused until that lease
  expires, whatever environment it runs in.
\<close>

theorem transition_lease_excludes:
  assumes "leases_wf s" "exclusive (le_now env) (lease_set s)" "fresh \<notin> l_ResourceID ` lease_set s"
    and "LeaseStore_Acquire env rq fresh s = (Inr l, s')" "rq_OperationID rq \<noteq> rq_HAEndpointID rq"
    and "le_now env \<le> le_now env'" "le_now env' < l_ExpiresAt l"
    and "rq_ClusterID rq' = rq_ClusterID rq" "rq_HAEndpointID rq' = rq_HAEndpointID rq" "\<not> leaseOwned l rq'"
  shows "\<exists>e s''. LeaseStore_Acquire env' rq' fresh' s' = (Inl e, s'')"
  using quorum.transition_excludes [unfolded quorumLeaseStore_sel, OF assms] .

text \<open>
  Stable batch. If the batch reports no failure, then afterwards every requested
  endpoint has a lease of the requested owner with more than half its lifetime and at most
  a minute left, also when the stored expiry had been stranded in the future; and whatever
  it reports, the table stays well formed and exclusive.
\<close>

theorem AcquireStableBatch_correct:
  assumes "leases_wf s" "exclusive (le_now env) (lease_set s)" "distinct (map snd rfs)"
    and "snd ` set rfs \<inter> l_ResourceID ` lease_set s = {}" "AcquireStableBatch env rfs s = (errs, s')"
  shows "leases_wf s' \<and> exclusive (le_now env) (lease_set s') \<and>
    (errs = [] \<longrightarrow> (\<forall>rf \<in> set rfs. \<exists>l \<in> lease_set s'. leaseFor l (fst rf) \<and> l_Active l \<and>
       l_OperationID l = rq_OperationID (fst rf) \<and> l_OwnerID l = rq_OwnerID (fst rf) \<and>
       le_now env + leaseTTL (rq_TTL (fst rf)) div 2 < l_ExpiresAt l \<and> l_ExpiresAt l \<le> le_now env + minute))"
proof -
  have "f \<notin> recordID ` lease_records s" if "f \<in> snd ` set rfs" for f
    using assms(4) that fresh_records by blast
  note post = AcquireStableBatch_post [OF assms(5,1,2,3) this]
  have "\<exists>l \<in> lease_set s'. leaseFor l rq \<and> l_Active l \<and> l_OperationID l = rq_OperationID rq \<and> l_OwnerID l = rq_OwnerID rq \<and>
       le_now env + leaseTTL (rq_TTL rq) div 2 < l_ExpiresAt l \<and> l_ExpiresAt l \<le> le_now env + minute"
    if "served (le_now env) rq (lease_records s')" for rq
    using that unfolding served_def lease_set_def maxLeaseTTL_def by blast
  with post show ?thesis by blast
qed

inductive session_ticks :: "TransitionSession \<times> snapshot \<Rightarrow> TransitionSession \<times> snapshot \<Rightarrow> bool" where
  ticks_none: "session_ticks p p"
| ticks_more: "\<lbrakk>session_ticks p (ses, s); fresh \<notin> l_ResourceID ` lease_set s;
     session_tick quorumLeaseStore env fresh ses s = (ses', s')\<rbrakk> \<Longrightarrow> session_ticks p (ses', s')"

lemma session_ticks_ok:
  assumes "session_ticks p q" "leases_wf (snd p)" "session_ok (fst p)"
  shows "leases_wf (snd q) \<and> session_ok (fst q) \<and> SameLeaseIdentity (ts_current (fst p)) (ts_current (fst q)) \<and>
    ts_terminalAction (fst q) = ts_terminalAction (fst p)"
  using assms
proof (induction rule: session_ticks.induct)
  case (ticks_more p ses s fresh env ses' s')
  then have "ts_terminalAction ses' = ts_terminalAction ses"
    by (auto simp: session_tick_def cancelCause_def split: if_splits prod.splits sum.splits option.splits)
  with ticks_more quorum.tick_ok [of s fresh ses env ses' s'] show ?case
    by (auto intro: SameLeaseIdentity_trans)
qed simp

text \<open>
  (C27) A transition settles one way. A session authorised for a target and renewed any
  number of times either finalises, and then the target holds the live stable lease, its
  transition lease no longer validates and a later abort is refused; or it aborts, and then
  the previous primary holds the live stable lease and a later finalisation is refused.
\<close>

theorem transition_session_settles:
  assumes "leases_wf s" "fresh \<notin> l_ResourceID ` lease_set s"
    and "authorizeTransitionLease quorumLeaseStore env c h p tgt prim ttl fresh s = (Inr ses0, s0)"
    and "session_ticks (ses0, s0) (ses, s1)"
  shows "(\<forall>env1 ses' s2. session_finalize quorumLeaseStore env1 ses s1 = (None, ses', s2) \<longrightarrow>
       ts_current ses' \<in> lease_set s2 \<and> leaseLive (le_now env1) (ts_current ses') \<and> l_OwnerID (ts_current ses') = tgt \<and>
       l_OperationID (ts_current ses') = l_HAEndpointID (ts_current ses') \<and>
       (\<forall>env2 s3. session_abort quorumLeaseStore env2 ses' s3 = (Some AlreadyFinalized, ses', s3))) \<and>
    (\<forall>env1 ses' s2. session_abort quorumLeaseStore env1 ses s1 = (None, ses', s2) \<longrightarrow>
       (\<exists>l \<in> lease_set s2. leaseLive (le_now env1) l \<and> l_OwnerID l = prim \<and> l_OperationID l = l_HAEndpointID l) \<and>
       (\<forall>env2 s3. session_finalize quorumLeaseStore env2 ses' s3 = (Some AlreadyAborted, ses', s3)))"
proof -
  have wf0: "leases_wf s0"
    using assms(3) quorum.acquire_wf [OF assms(1,2)]
    by (auto simp: authorizeTransitionLease_def Let_def split: prod.splits sum.splits)
  note a = quorum.authorize_ok [OF assms(1-3)]
  have ok: "leases_wf s1" "session_ok ses" "ts_terminalAction ses = NoAction"
    "l_OwnerID (ts_current ses) = tgt" "l_PreviousOwnerID (ts_current ses) = prim"
    using session_ticks_ok [OF assms(4)] wf0 a by (auto simp: SameLeaseIdentity_def)
  show ?thesis
  proof (intro conjI allI impI)
    fix env1 ses' s2 env2 s3
    assume f: "session_finalize quorumLeaseStore env1 ses s1 = (None, ses', s2)"
    note g = quorum.finalize_session [OF ok(1-3) f]
    show "ts_current ses' \<in> lease_set s2" "l_Active (ts_current ses')" "le_now env1 < l_ExpiresAt (ts_current ses')"
      "l_OwnerID (ts_current ses') = tgt" "l_OperationID (ts_current ses') = l_HAEndpointID (ts_current ses')"
      "session_abort quorumLeaseStore env2 ses' s3 = (Some AlreadyFinalized, ses', s3)"
      using g ok(4) by blast+
  next
    fix env1 ses' s2 env2 s3
    assume f: "session_abort quorumLeaseStore env1 ses s1 = (None, ses', s2)"
    note g = quorum.abort_session [OF ok(1-3) f]
    obtain l where "l \<in> lease_set s2" "leaseLive (le_now env1) l" "SameLeaseIdentity l (rollbackLease (ts_current ses) 0)"
      using g [THEN conjunct1] by blast
    then show "\<exists>l \<in> lease_set s2. leaseLive (le_now env1) l \<and> l_OwnerID l = prim \<and> l_OperationID l = l_HAEndpointID l"
      using ok(5) by (intro bexI [of _ l]) (auto simp: SameLeaseIdentity_def rollbackLease_def)
    show "session_finalize quorumLeaseStore env2 ses' s3 = (Some AlreadyAborted, ses', s3)"
      using g by blast
  qed
qed

text \<open>
  A frozen cluster. While disaster recovery of a cluster is active, the store grants no
  lease on it that outlives the repository's clock, except the stable lease of the primary
  that a committed recovery task has chosen, while that task still holds its operation lock.
\<close>

theorem frozen_cluster_writer:
  assumes "leases_wf s" "fresh \<notin> l_ResourceID ` lease_set s" "LeaseStore_Acquire env rq fresh s = (Inr l, s')"
    and "map_of (Clusters s) (rq_ClusterID rq) = Some cluster" "DisasterRecoveryActive cluster"
    and "env_now (le_repo env) < l_ExpiresAt l"
  shows "\<exists>recovery task. cl_Recovery cluster = Some recovery \<and> map_of (RecoveryTasks s) (rs_TaskID recovery) = Some task \<and>
    rt_Stage task = RecoveryCommitted \<and> rt_PrimaryID task = rq_OwnerID rq \<and> rq_OperationID rq = rq_HAEndpointID rq \<and>
    recoveryLeaseValid s task (env_now (le_repo env))"
proof -
  from LeaseStore_Acquire_post [OF assms(3,1) assms(2) [unfolded fresh_records]]
  obtain s1 and r' :: LeaseRecord where r': "cleaned (le_now env) s s1" "leaseFor (lr_Lease r') rq" "leaseOwned (lr_Lease r') rq"
    "l_Active (lr_Lease r')" "l = lr_Lease r'" "recoveryWriterLeaseAllowed s1 r' (env_now (le_repo env))"
    by (rule acquire_post_allowed)
  have v: "frozen_view s1 = frozen_view s" using r'(1) by (simp add: cleaned_def)
  have "recoveryWriterLeaseAllowed s r' (env_now (le_repo env))"
    using r'(6) unfolding recoveryWriterLeaseAllowed_view [OF v] .
  with r'(2-5) assms(4-6) show ?thesis
    by (auto simp: recoveryWriterLeaseAllowed_def DisasterRecoveryActive_def Let_def split: option.splits if_splits)
qed

section \<open>Instances\<close>

text \<open>A repository with one cluster, an environment that commits, and a transition request.\<close>

definition sampleCluster :: DatabaseCluster where
  "sampleCluster = \<lparr>cl_ResourceID = sampleID (CHR ''1''), cl_MetadataRevision = 1, cl_UpdatedAt = 1, cl_Engine = EngineMySQL,
     cl_EngineIdentity = [], cl_Health = zeroHealth, cl_RecoveryFreeze = False, cl_Recovery = None\<rparr>"

definition sampleRepo :: snapshot where
  "sampleRepo = emptySnapshot\<lparr>Clusters := [(sampleID (CHR ''1''), sampleCluster)]\<rparr>"

definition sampleEnv :: "go_time \<Rightarrow> lease_env" where
  "sampleEnv t = \<lparr>le_authority = None, le_now = t, le_repo = \<lparr>env_now = t, env_commit = \<lambda>_ _. CommitApplied\<rparr>\<rparr>"

definition sampleRequest :: "rid \<Rightarrow> rid \<Rightarrow> LeaseRequest" where
  "sampleRequest operation owner = \<lparr>rq_ClusterID = sampleID (CHR ''1''), rq_HAEndpointID = sampleID (CHR ''2''),
     rq_OperationID = operation, rq_OwnerID = owner, rq_PreviousOwnerID = [], rq_TTL = 30 * second, rq_RenewOnly = False\<rparr>"

definition sampleGranted :: snapshot where
  "sampleGranted = snd (LeaseStore_Acquire (sampleEnv 5) (sampleRequest (sampleID (CHR ''3'')) (sampleID (CHR ''4''))) (sampleID (CHR ''6'')) sampleRepo)"

lemma sampleEnv_sel [simp]: "le_authority (sampleEnv t) = None" "le_now (sampleEnv t) = t" "env_now (le_repo (sampleEnv t)) = t"
  by (simp_all add: sampleEnv_def)

lemma sampleRequest_sel [simp]:
  "rq_ClusterID (sampleRequest p w) = sampleID (CHR ''1'')" "rq_HAEndpointID (sampleRequest p w) = sampleID (CHR ''2'')"
  "rq_OperationID (sampleRequest p w) = p" "rq_OwnerID (sampleRequest p w) = w" "rq_TTL (sampleRequest p w) = 30 * second"
  "rq_PreviousOwnerID (sampleRequest p w) = []" "rq_RenewOnly (sampleRequest p w) = False"
  by (simp_all add: sampleRequest_def)

lemma sampleRepo_leases [simp]: "CoordinationLeases sampleRepo = []" "Clusters sampleRepo = [(sampleID (CHR ''1''), sampleCluster)]"
  by (simp_all add: sampleRepo_def emptySnapshot_def)

lemma sampleRepo_wf [simp]: "leases_wf sampleRepo" "lease_set sampleRepo = {}" "exclusive t (lease_set sampleRepo)"
  by (simp_all add: leases_wf_def lease_set_def lease_records_def exclusive_def)

lemma sampleRepo_acquire:
  "LeaseStore_Acquire (sampleEnv 5) (sampleRequest (sampleID (CHR ''3'')) (sampleID (CHR ''4''))) (sampleID (CHR ''6'')) sampleRepo =
     (Inr (grantLease (sampleRequest (sampleID (CHR ''3'')) (sampleID (CHR ''4''))) (sampleID (CHR ''6'')) (5 + 30 * second)), sampleGranted)"
  by (simp add: sampleGranted_def LeaseStore_Acquire_def CoordinationLeases_list_def sorted_values_def leaseTTL_def maxLeaseTTL_def
      minute_def second_def putLease_def PutCoordinationLease_def leaseFieldsValid_def IsZero_def grantLease_def time_add_def
      recoveryWriterLeaseAllowed_def DisasterRecoveryActive_def sampleCluster_def commitSnapshotLocked_def sampleEnv_def Let_def)

abbreviation sampleLease :: Lease where
  "sampleLease \<equiv> grantLease (sampleRequest (sampleID (CHR ''3'')) (sampleID (CHR ''4''))) (sampleID (CHR ''6'')) (5 + 30 * second)"

lemma sampleGranted_table:
  "CoordinationLeases sampleGranted = [(sampleID (CHR ''6''), \<lparr>lr_Lease = sampleLease, lr_CreatedAt = 5, lr_UpdatedAt = 5\<rparr>)]"
  "Clusters sampleGranted = [(sampleID (CHR ''1''), sampleCluster)]"
  by (simp_all add: sampleGranted_def LeaseStore_Acquire_def CoordinationLeases_list_def sorted_values_def leaseTTL_def maxLeaseTTL_def
      minute_def second_def putLease_def PutCoordinationLease_def leaseFieldsValid_def IsZero_def grantLease_def time_add_def
      recoveryWriterLeaseAllowed_def DisasterRecoveryActive_def sampleCluster_def commitSnapshotLocked_def sampleEnv_def Let_def)

theorem quorum_leases_exclusive_witness:
  "LeaseStore_Current (sampleEnv 6) (sampleID (CHR ''1'')) (sampleID (CHR ''2'')) sampleGranted = (Inr sampleLease, sampleGranted)"
proof -
  have "lease_step (1, sampleRepo) (le_now (sampleEnv 5), sampleGranted)"
    by (rule step_acquire [OF _ _ sampleRepo_acquire]) simp_all
  then have "lease_step\<^sup>*\<^sup>* (1, sampleRepo) (5, sampleGranted)" by simp
  note q = quorum_leases_exclusive [OF sampleRepo_wf(1,3) this]
  have "sampleLease \<in> lease_set sampleGranted" "leaseLive (le_now (sampleEnv 6)) sampleLease"
    "l_ClusterID sampleLease = sampleID (CHR ''1'')" "l_HAEndpointID sampleLease = sampleID (CHR ''2'')"
    by (simp_all add: lease_set_def lease_records_def sampleGranted_table grantLease_def second_def)
  with q [THEN conjunct2, rule_format, of "sampleEnv 6"] show ?thesis by simp
qed

theorem LeaseStore_Acquire_correct_witness:
  "LeaseStore_Validate (sampleEnv 5)
     (grantLease (sampleRequest (sampleID (CHR ''3'')) (sampleID (CHR ''4''))) (sampleID (CHR ''6'')) (5 + 30 * second)) sampleGranted = None"
  using LeaseStore_Acquire_correct [OF sampleRepo_wf(1,3) _ sampleRepo_acquire] by simp

theorem transition_lease_excludes_witness:
  "\<exists>e s''. LeaseStore_Acquire (sampleEnv 6) (sampleRequest (sampleID (CHR ''5'')) (sampleID (CHR ''5''))) (sampleID (CHR ''1'')) sampleGranted = (Inl e, s'')"
  by (rule transition_lease_excludes [OF sampleRepo_wf(1,3) _ sampleRepo_acquire]) (simp_all add: grantLease_def second_def)

theorem AcquireStableBatch_correct_witness:
  "\<exists>l \<in> lease_set (snd (AcquireStableBatch (sampleEnv 5) [(sampleRequest (sampleID (CHR ''2'')) (sampleID (CHR ''4'')), sampleID (CHR ''6''))] sampleRepo)).
     l_OwnerID l = sampleID (CHR ''4'') \<and> 5 + 15 * second < l_ExpiresAt l"
proof -
  let ?rfs = "[(sampleRequest (sampleID (CHR ''2'')) (sampleID (CHR ''4'')), sampleID (CHR ''6''))]"
  obtain errs s' where b: "AcquireStableBatch (sampleEnv 5) ?rfs sampleRepo = (errs, s')" by fastforce
  have "errs = []"
    using b by (simp add: AcquireStableBatch_def CoordinationLeases_list_def sorted_values_def batch_start_def batch_request_def
        leaseTTL_def maxLeaseTTL_def minute_def second_def ReplaceCoordinationLeases_def leaseFieldsValid_def IsZero_def grantLease_def
        time_add_def recoveryWriterLeaseAllowed_def DisasterRecoveryActive_def sampleCluster_def commitSnapshotLocked_def sampleEnv_def Let_def)
  with AcquireStableBatch_correct [OF sampleRepo_wf(1,3) _ _ b] b show ?thesis
    by (auto simp: leaseTTL_def maxLeaseTTL_def minute_def second_def)
qed

theorem transition_session_settles_witness:
  "\<exists>ses ses' s2. authorizeTransitionLease quorumLeaseStore (sampleEnv 5) (sampleID (CHR ''1'')) (sampleID (CHR ''2''))
       (sampleID (CHR ''3'')) (sampleID (CHR ''4'')) [] (30 * second) (sampleID (CHR ''6'')) sampleRepo = (Inr ses, sampleGranted) \<and>
     session_finalize quorumLeaseStore (sampleEnv 7) ses sampleGranted = (None, ses', s2) \<and>
     l_OwnerID (ts_current ses') = sampleID (CHR ''4'') \<and> l_OperationID (ts_current ses') = l_HAEndpointID (ts_current ses')"
proof -
  obtain ses where a: "authorizeTransitionLease quorumLeaseStore (sampleEnv 5) (sampleID (CHR ''1'')) (sampleID (CHR ''2''))
       (sampleID (CHR ''3'')) (sampleID (CHR ''4'')) [] (30 * second) (sampleID (CHR ''6'')) sampleRepo = (Inr ses, sampleGranted)"
    and ses: "ts_current ses = sampleLease" "ts_cancelled ses = None" "ts_terminalAction ses = NoAction" "ts_ttl ses = 30 * second"
    using sampleRepo_acquire [unfolded sampleRequest_def]
    by (auto simp: authorizeTransitionLease_def Let_def sampleRequest_def)
  have "\<exists>ses' s2. session_finalize quorumLeaseStore (sampleEnv 7) ses sampleGranted = (None, ses', s2)"
    by (simp add: session_finalize_def ses LeaseStore_FinalizeTransition_def CoordinationLeases_list_def sorted_values_def sampleGranted_table
        leaseTTL_def maxLeaseTTL_def minute_def second_def putLease_def PutCoordinationLease_def leaseFieldsValid_def IsZero_def grantLease_def
        finalizeLease_def SameLeaseIdentity_def time_add_def recoveryWriterLeaseAllowed_def DisasterRecoveryActive_def sampleCluster_def
        commitSnapshotLocked_def sampleEnv_def Let_def)
  then obtain ses' s2 where f: "session_finalize quorumLeaseStore (sampleEnv 7) ses sampleGranted = (None, ses', s2)" by blast
  from transition_session_settles [OF sampleRepo_wf(1) _ a ticks_none] a f show ?thesis by auto
qed

definition sampleFrozen :: snapshot where
  "sampleFrozen = emptySnapshot\<lparr>
     Clusters := [(sampleID (CHR ''1''), sampleCluster\<lparr>cl_RecoveryFreeze := True,
        cl_Recovery := Some (zeroRecoveryState\<lparr>rs_TaskID := sampleID (CHR ''3''), rs_LastRecoveryStatus := ''committed''\<rparr>)\<rparr>)],
     RecoveryTasks := [(sampleID (CHR ''3''), zeroRecoveryTask\<lparr>rt_ResourceID := sampleID (CHR ''3''), rt_ClusterID := sampleID (CHR ''1''),
        rt_Stage := RecoveryCommitted, rt_Engine := EngineMySQL, rt_InventoryGeneration := 1, rt_Members := [], rt_PrimaryID := sampleID (CHR ''4''), rt_LeaseID := sampleID (CHR ''5''), rt_CommittedAt := 1\<rparr>)],
     OperationLocks := [(sampleID (CHR ''5''), \<lparr>ol_ResourceID = sampleID (CHR ''5''), ol_ClusterID = sampleID (CHR ''1''),
        ol_OperationID = sampleID (CHR ''3''), ol_ExpiresAt = 100, ol_CreatedAt = 1, ol_UpdatedAt = 1\<rparr>)]\<rparr>"

theorem frozen_cluster_writer_witness:
  "\<exists>l s'. LeaseStore_Acquire (sampleEnv 5) (sampleRequest (sampleID (CHR ''2'')) (sampleID (CHR ''4''))) (sampleID (CHR ''6'')) sampleFrozen = (Inr l, s') \<and>
     (\<exists>task. map_of (RecoveryTasks sampleFrozen) (sampleID (CHR ''3'')) = Some task \<and> rt_PrimaryID task = sampleID (CHR ''4''))"
proof -
  have wf: "leases_wf sampleFrozen" "sampleID (CHR ''6'') \<notin> l_ResourceID ` lease_set sampleFrozen"
    by (simp_all add: sampleFrozen_def emptySnapshot_def leases_wf_def lease_set_def lease_records_def)
  have acq: "\<exists>s'. LeaseStore_Acquire (sampleEnv 5) (sampleRequest (sampleID (CHR ''2'')) (sampleID (CHR ''4''))) (sampleID (CHR ''6'')) sampleFrozen =
      (Inr (grantLease (sampleRequest (sampleID (CHR ''2'')) (sampleID (CHR ''4''))) (sampleID (CHR ''6'')) (5 + 30 * second)), s')"
    by (simp add: sampleFrozen_def emptySnapshot_def zeroRecoveryState_def zeroRecoveryTask_def LeaseStore_Acquire_def CoordinationLeases_list_def sorted_values_def leaseTTL_def
        maxLeaseTTL_def minute_def second_def putLease_def PutCoordinationLease_def leaseFieldsValid_def IsZero_def grantLease_def time_add_def
        recoveryWriterLeaseAllowed_def recoveryLeaseValid_def DisasterRecoveryActive_def sampleCluster_def commitSnapshotLocked_def
        sampleEnv_def Let_def)
  then obtain s' where a: "LeaseStore_Acquire (sampleEnv 5) (sampleRequest (sampleID (CHR ''2'')) (sampleID (CHR ''4''))) (sampleID (CHR ''6'')) sampleFrozen =
      (Inr (grantLease (sampleRequest (sampleID (CHR ''2'')) (sampleID (CHR ''4''))) (sampleID (CHR ''6'')) (5 + 30 * second)), s')"
    by blast
  obtain cluster where c: "map_of (Clusters sampleFrozen) (sampleID (CHR ''1'')) = Some cluster" "DisasterRecoveryActive cluster"
    "cl_Recovery cluster = Some (zeroRecoveryState\<lparr>rs_TaskID := sampleID (CHR ''3''), rs_LastRecoveryStatus := ''committed''\<rparr>)"
    by (simp add: sampleFrozen_def emptySnapshot_def zeroRecoveryState_def DisasterRecoveryActive_def)
  from frozen_cluster_writer [OF wf a, of cluster] c a show ?thesis
    by (auto simp: grantLease_def second_def)
qed

end
