(* ===== verification/Memory_Leases.thy ===== *)
theory Memory_Leases
  imports Lease_Contract
begin

text \<open>
  The in-memory lease store (\<^verbatim>\<open>MemoryLeaseStore\<close> of \<^verbatim>\<open>internal/endpoint/lease.go\<close>), the second
  implementation of \<^verbatim>\<open>endpoint.LeaseStore\<close>. Its map is an association list whose order is
  the order of one iteration, so the results hold for every order. It satisfies the same
  contract \<open>writer_leases\<close> as the quorum store, and the client lemmas hold of it too.
\<close>

section \<open>Model\<close>

record MemoryLeaseStore =
  ms_leases :: "(rid \<times> Lease) list"
  ms_Blocked :: bool

record memory_env =
  me_ctx :: "string option"
  me_now :: go_time

definition defaultTTL :: "duration \<Rightarrow> duration" where
  "defaultTTL ttl = (if ttl \<le> 0 then 30 * second else ttl)"

definition put_memory :: "Lease \<Rightarrow> MemoryLeaseStore \<Rightarrow> MemoryLeaseStore" where
  "put_memory lease ms = ms\<lparr>ms_leases := AList.update (l_ResourceID lease) lease (ms_leases ms)\<rparr>"

fun memory_acquire_loop :: "go_time \<Rightarrow> LeaseRequest \<Rightarrow> (rid \<times> Lease) list \<Rightarrow> MemoryLeaseStore \<Rightarrow>
    (lease_error + Lease) option \<times> MemoryLeaseStore" where
  "memory_acquire_loop now request [] ms = (None, ms)"
| "memory_acquire_loop now request ((resourceID, lease) # rest) ms =
     (if \<not> leaseLive now lease
      then memory_acquire_loop now request rest (ms\<lparr>ms_leases := AList.delete resourceID (ms_leases ms)\<rparr>)
      else if \<not> leaseFor lease request then memory_acquire_loop now request rest ms
      else if leaseOwned lease request
      then let requestedExpiry = time_add now (rq_TTL request);
               lease = (if requestedExpiry > l_ExpiresAt lease then lease\<lparr>l_ExpiresAt := requestedExpiry\<rparr> else lease)
           in (Some (Inr lease), ms\<lparr>ms_leases := AList.update resourceID lease (ms_leases ms)\<rparr>)
      else if \<not> rq_RenewOnly request \<and> CanHandoffStableLease lease request
      then let lease = handoffLease lease request (time_add now (rq_TTL request))
           in (Some (Inr lease), ms\<lparr>ms_leases := AList.update resourceID lease (ms_leases ms)\<rparr>)
      else (Some (Inl (ErrLeaseConflict ''active endpoint lease belongs to another operation'')), ms))"

definition Memory_Acquire :: "memory_env \<Rightarrow> LeaseRequest \<Rightarrow> rid \<Rightarrow> MemoryLeaseStore \<Rightarrow> (lease_error + Lease) \<times> MemoryLeaseStore" where
  "Memory_Acquire env request fresh ms =
     (case me_ctx env of
        Some e \<Rightarrow> (Inl (LeaseContext e), ms)
      | None \<Rightarrow>
          if ms_Blocked ms then (Inl (ErrLeaseConflict ''lease store is blocked''), ms)
          else let now = me_now env; request = request\<lparr>rq_TTL := defaultTTL (rq_TTL request)\<rparr> in
            case memory_acquire_loop now request (ms_leases ms) ms of
              (Some res, ms') \<Rightarrow> (res, ms')
            | (None, ms') \<Rightarrow>
                if rq_RenewOnly request
                then (Inl (ErrLeaseConflict ''renew-only endpoint lease is missing or expired''), ms')
                else let lease = grantLease request fresh (time_add now (rq_TTL request))
                  in (Inr lease, put_memory lease ms'))"

definition Memory_Validate :: "memory_env \<Rightarrow> Lease \<Rightarrow> MemoryLeaseStore \<Rightarrow> lease_error option" where
  "Memory_Validate env lease ms =
     (case me_ctx env of
        Some e \<Rightarrow> Some (LeaseContext e)
      | None \<Rightarrow>
          (case map_of (ms_leases ms) (l_ResourceID lease) of
             None \<Rightarrow> Some (ErrLeaseConflict ''endpoint lease is missing, expired, or changed'')
           | Some current \<Rightarrow>
               if \<not> leaseLive (me_now env) current \<or> \<not> SameLeaseIdentity current lease
               then Some (ErrLeaseConflict ''endpoint lease is missing, expired, or changed'') else None))"

fun memory_current_loop :: "go_time \<Rightarrow> rid \<Rightarrow> rid \<Rightarrow> (rid \<times> Lease) list \<Rightarrow> Lease option \<Rightarrow> MemoryLeaseStore \<Rightarrow>
    (lease_error + Lease option) \<times> MemoryLeaseStore" where
  "memory_current_loop now clusterID haEndpointID [] selected ms = (Inr selected, ms)"
| "memory_current_loop now clusterID haEndpointID ((resourceID, lease) # rest) selected ms =
     (if \<not> leaseLive now lease
      then memory_current_loop now clusterID haEndpointID rest selected (ms\<lparr>ms_leases := AList.delete resourceID (ms_leases ms)\<rparr>)
      else if l_ClusterID lease \<noteq> clusterID \<or> l_HAEndpointID lease \<noteq> haEndpointID
      then memory_current_loop now clusterID haEndpointID rest selected ms
      else if selected \<noteq> None \<and> l_ResourceID (the selected) \<noteq> []
      then (Inl (ErrLeaseConflict ''multiple active endpoint leases''), ms)
      else memory_current_loop now clusterID haEndpointID rest (Some lease) ms)"

definition Memory_Current :: "memory_env \<Rightarrow> rid \<Rightarrow> rid \<Rightarrow> MemoryLeaseStore \<Rightarrow> (lease_error + Lease) \<times> MemoryLeaseStore" where
  "Memory_Current env clusterID haEndpointID ms =
     (case me_ctx env of
        Some e \<Rightarrow> (Inl (LeaseContext e), ms)
      | None \<Rightarrow>
          (case memory_current_loop (me_now env) clusterID haEndpointID (ms_leases ms) None ms of
             (Inl e, ms') \<Rightarrow> (Inl e, ms')
           | (Inr None, ms') \<Rightarrow> (Inl (ErrLeaseConflict ''active endpoint lease is missing''), ms')
           | (Inr (Some lease), ms') \<Rightarrow>
               (if l_ResourceID lease = [] then (Inl (ErrLeaseConflict ''active endpoint lease is missing''), ms') else (Inr lease, ms'))))"

definition Memory_FinalizeTransition :: "memory_env \<Rightarrow> Lease \<Rightarrow> duration \<Rightarrow> MemoryLeaseStore \<Rightarrow> (lease_error + Lease) \<times> MemoryLeaseStore" where
  "Memory_FinalizeTransition env transition ttl ms =
     (case me_ctx env of
        Some e \<Rightarrow> (Inl (LeaseContext e), ms)
      | None \<Rightarrow>
          let refuse = (Inl (ErrLeaseConflict ''transition lease is missing, expired, changed, or already stable''), ms) in
          case map_of (ms_leases ms) (l_ResourceID transition) of
            None \<Rightarrow> refuse
          | Some current \<Rightarrow>
              if \<not> leaseLive (me_now env) current \<or> \<not> SameLeaseIdentity current transition \<or>
                 l_OperationID current = l_HAEndpointID current
              then refuse
              else let current = finalizeLease current (time_add (me_now env) (defaultTTL ttl)) in (Inr current, put_memory current ms))"

definition Memory_RollbackTransition :: "memory_env \<Rightarrow> Lease \<Rightarrow> duration \<Rightarrow> MemoryLeaseStore \<Rightarrow> (lease_error + Lease) \<times> MemoryLeaseStore" where
  "Memory_RollbackTransition env transition ttl ms =
     (case me_ctx env of
        Some e \<Rightarrow> (Inl (LeaseContext e), ms)
      | None \<Rightarrow>
          let refuse = (Inl (ErrLeaseConflict ''transition lease is missing, expired, changed, or cannot be rolled back''), ms) in
          case map_of (ms_leases ms) (l_ResourceID transition) of
            None \<Rightarrow> refuse
          | Some current \<Rightarrow>
              if \<not> leaseLive (me_now env) current \<or> \<not> SameLeaseIdentity current transition \<or>
                 l_OperationID current = l_HAEndpointID current \<or> \<not> ValidResourceID (l_PreviousOwnerID current)
              then refuse
              else let current = rollbackLease current (time_add (me_now env) (defaultTTL ttl)) in (Inr current, put_memory current ms))"

definition Memory_Release :: "memory_env \<Rightarrow> rid \<Rightarrow> MemoryLeaseStore \<Rightarrow> lease_error option \<times> MemoryLeaseStore" where
  "Memory_Release env resourceID ms =
     (case me_ctx env of
        Some e \<Rightarrow> (Some (LeaseContext e), ms)
      | None \<Rightarrow> (None, ms\<lparr>ms_leases := AList.delete resourceID (ms_leases ms)\<rparr>))"

definition memoryLeaseStore :: "(memory_env, MemoryLeaseStore) LeaseStore" where
  "memoryLeaseStore = \<lparr>ls_Acquire = Memory_Acquire, ls_Validate = Memory_Validate, ls_Current = Memory_Current,
     ls_FinalizeTransition = Memory_FinalizeTransition, ls_RollbackTransition = Memory_RollbackTransition,
     ls_Release = Memory_Release\<rparr>"

section \<open>The lease table\<close>

definition memory_set :: "MemoryLeaseStore \<Rightarrow> Lease set" where
  "memory_set ms = snd ` set (ms_leases ms)"

definition memory_wf :: "MemoryLeaseStore \<Rightarrow> bool" where
  "memory_wf ms \<longleftrightarrow> keyed_by l_ResourceID (ms_leases ms)"

definition put_set :: "Lease \<Rightarrow> Lease set \<Rightarrow> Lease set" where
  "put_set l L = insert l {c \<in> L. l_ResourceID c \<noteq> l_ResourceID l}"

lemma put_memory_spec:
  "memory_wf ms \<Longrightarrow> memory_wf (put_memory l ms) \<and> memory_set (put_memory l ms) = put_set l (memory_set ms)"
  using keyed_by_values_update [of l_ResourceID "ms_leases ms" l "l_ResourceID l"]
  by (simp add: memory_wf_def memory_set_def put_memory_def put_set_def keyed_by_update)

lemma delete_memory_spec:
  assumes "memory_wf ms"
  shows "memory_wf (ms\<lparr>ms_leases := AList.delete i (ms_leases ms)\<rparr>)"
    "memory_set (ms\<lparr>ms_leases := AList.delete i (ms_leases ms)\<rparr>) = {c \<in> memory_set ms. l_ResourceID c \<noteq> i}"
  using assms keyed_by_values_delete [of l_ResourceID "ms_leases ms" i]
  by (simp_all add: memory_wf_def memory_set_def keyed_by_delete)

lemma memory_unique: "memory_wf ms \<Longrightarrow> a \<in> memory_set ms \<Longrightarrow> b \<in> memory_set ms \<Longrightarrow> l_ResourceID a = l_ResourceID b \<Longrightarrow> a = b"
  unfolding memory_wf_def memory_set_def by (rule keyed_by_inj)

lemma memory_lookup: "memory_wf ms \<Longrightarrow> map_of (ms_leases ms) i = Some l \<longleftrightarrow> l \<in> memory_set ms \<and> l_ResourceID l = i"
  unfolding memory_wf_def memory_set_def
  by (metis image_eqI keyed_by_def keyed_by_lookup keyed_by_value snd_conv map_of_SomeD fst_conv)

lemma exclusive_put_set:
  assumes "exclusive now L" "\<And>c. c \<in> L \<Longrightarrow> l_ResourceID c \<noteq> l_ResourceID l \<Longrightarrow> leaseLive now c \<Longrightarrow>
      l_ClusterID c = l_ClusterID l \<Longrightarrow> l_HAEndpointID c = l_HAEndpointID l \<Longrightarrow> False"
  shows "exclusive now (put_set l L)"
  unfolding exclusive_def
proof (intro ballI impI)
  fix a b
  assume ab: "a \<in> put_set l L" "b \<in> put_set l L" and
    same: "leaseLive now a \<and> leaseLive now b \<and> l_ClusterID a = l_ClusterID b \<and> l_HAEndpointID a = l_HAEndpointID b"
  have mem: "x = l \<or> x \<in> L \<and> l_ResourceID x \<noteq> l_ResourceID l" if "x \<in> put_set l L" for x
    using that by (auto simp: put_set_def)
  show "a = b"
  proof (cases "a = l \<or> b = l")
    case True
    with mem [OF ab(1)] mem [OF ab(2)] same assms(2) show ?thesis by metis
  next
    case False
    with mem [OF ab(1)] mem [OF ab(2)] same assms(1) show ?thesis unfolding exclusive_def by blast
  qed
qed

section \<open>Acquisition\<close>

definition memory_cleaned :: "go_time \<Rightarrow> MemoryLeaseStore \<Rightarrow> MemoryLeaseStore \<Rightarrow> bool" where
  "memory_cleaned now ms ms' \<longleftrightarrow> memory_wf ms' \<and> memory_set ms' \<subseteq> memory_set ms \<and>
     (\<forall>c \<in> memory_set ms. leaseLive now c \<longrightarrow> c \<in> memory_set ms')"

text \<open>The loop falls through, or stops at a live lease of the endpoint and rewrites or refuses it.\<close>

definition memory_hit :: "go_time \<Rightarrow> LeaseRequest \<Rightarrow> MemoryLeaseStore \<Rightarrow> lease_error + Lease \<Rightarrow> MemoryLeaseStore \<Rightarrow> bool" where
  "memory_hit now rq ms0 x ms' \<longleftrightarrow>
     (\<exists>c ms1. c \<in> memory_set ms0 \<and> leaseLive now c \<and> leaseFor c rq \<and> memory_cleaned now ms0 ms1 \<and>
       ((\<exists>e. x = Inl e) \<and> ms' = ms1 \<and> \<not> leaseOwned c rq \<and> (rq_RenewOnly rq \<or> \<not> CanHandoffStableLease c rq) \<or>
        (\<exists>l. x = Inr l \<and> ms' = put_memory l ms1 \<and> l_ResourceID l = l_ResourceID c \<and> leaseFor l rq \<and> leaseOwned l rq \<and>
           leaseLive now l \<and> (leaseOwned c rq \<or> \<not> rq_RenewOnly rq \<and> CanHandoffStableLease c rq))))"

lemma memory_acquire_loop_spec:
  assumes "memory_wf ms0" "memory_cleaned now ms0 ms" "set rest \<subseteq> set (ms_leases ms0)" "0 < rq_TTL rq"
    "memory_acquire_loop now rq rest ms = (res, ms')"
  shows "(res = None \<and> memory_cleaned now ms0 ms' \<and> (\<forall>p \<in> set rest. leaseLive now (snd p) \<longrightarrow> \<not> leaseFor (snd p) rq)) \<or>
    (\<exists>x. res = Some x \<and> memory_hit now rq ms0 x ms')"
  using assms(2,3,5)
proof (induction rest arbitrary: ms)
  case (Cons p rest)
  obtain i c where p: "p = (i, c)" by fastforce
  have c: "c \<in> memory_set ms0" "l_ResourceID c = i"
    using Cons.prems(2) assms(1) by (auto simp: p memory_set_def memory_wf_def keyed_by_def intro: rev_image_eqI)
  consider (dead) "\<not> leaseLive now c" | (other) "leaseLive now c" "\<not> leaseFor c rq"
    | (renew) "leaseLive now c" "leaseFor c rq" "leaseOwned c rq"
    | (handoff) "leaseLive now c" "leaseFor c rq" "\<not> leaseOwned c rq" "\<not> rq_RenewOnly rq" "CanHandoffStableLease c rq"
    | (refuse) "leaseLive now c" "leaseFor c rq" "\<not> leaseOwned c rq" "rq_RenewOnly rq \<or> \<not> CanHandoffStableLease c rq"
    by blast
  then show ?case
  proof cases
    case dead
    let ?ms = "ms\<lparr>ms_leases := AList.delete i (ms_leases ms)\<rparr>"
    have "l_ResourceID d \<noteq> i" if "d \<in> memory_set ms0" "leaseLive now d" for d
      using memory_unique [OF assms(1) that(1) c(1)] c(2) dead that(2) by auto
    then have "memory_cleaned now ms0 ?ms"
      using Cons.prems(1) delete_memory_spec [of ms i] unfolding memory_cleaned_def by auto
    from Cons.IH [OF this] Cons.prems dead show ?thesis by (auto simp: p)
  next
    case other
    with Cons.IH [OF Cons.prems(1)] Cons.prems show ?thesis by (auto simp: p)
  next
    case renew
    define l where "l = (if time_add now (rq_TTL rq) > l_ExpiresAt c then c\<lparr>l_ExpiresAt := time_add now (rq_TTL rq)\<rparr> else c)"
    have "res = Some (Inr l)" "ms' = put_memory l ms"
      using Cons.prems(3) renew c(2) by (auto simp: p l_def put_memory_def Let_def)
    moreover have "l_ResourceID l = l_ResourceID c" "leaseFor l rq" "leaseOwned l rq" "leaseLive now l"
      using renew by (auto simp: l_def)
    ultimately show ?thesis using c(1) renew Cons.prems(1) unfolding memory_hit_def by blast
  next
    case handoff
    let ?l = "handoffLease c rq (time_add now (rq_TTL rq))"
    have "res = Some (Inr ?l)" "ms' = put_memory ?l ms"
      using Cons.prems(3) handoff c(2) by (auto simp: p put_memory_def Let_def handoffLease_def)
    moreover have "l_ResourceID ?l = l_ResourceID c" "leaseFor ?l rq" "leaseOwned ?l rq" "leaseLive now ?l"
      using handoff assms(4) by (auto simp: handoffLease_def time_add_def)
    ultimately show ?thesis using c(1) handoff Cons.prems(1) unfolding memory_hit_def by blast
  next
    case refuse
    then have "res = Some (Inl (ErrLeaseConflict ''active endpoint lease belongs to another operation''))" "ms' = ms"
      using Cons.prems(3) by (auto simp: p)
    with refuse c(1) Cons.prems(1) show ?thesis unfolding memory_hit_def by blast
  qed
qed simp

abbreviation ttl_set :: "LeaseRequest \<Rightarrow> LeaseRequest" where
  "ttl_set rq \<equiv> rq\<lparr>rq_TTL := defaultTTL (rq_TTL rq)\<rparr>"

lemma defaultTTL_pos: "0 < defaultTTL t"
  by (auto simp: defaultTTL_def second_def)

lemma ttl_set_same [simp]: "CanHandoffStableLease c (ttl_set rq) = CanHandoffStableLease c rq"
  "memory_hit now (ttl_set rq) ms x ms' = memory_hit now rq ms x ms'"
  by (simp_all add: CanHandoffStableLease_def memory_hit_def)

lemma Memory_Acquire_cases:
  assumes "Memory_Acquire env rq fresh ms = (x, ms')" "memory_wf ms"
  obtains (failed) e where "x = Inl e" "memory_cleaned (me_now env) ms ms'"
      "me_ctx env \<noteq> None \<or> ms_Blocked ms \<or> rq_RenewOnly rq \<and> (\<forall>c \<in> memory_set ms. leaseLive (me_now env) c \<longrightarrow> \<not> leaseFor c rq)"
    | (hit) "memory_hit (me_now env) rq ms x ms'"
    | (new) ms1 l where "x = Inr l" "ms' = put_memory l ms1" "memory_cleaned (me_now env) ms ms1" "l_ResourceID l = fresh"
      "leaseFor l rq" "leaseOwned l rq" "leaseLive (me_now env) l" "\<forall>c \<in> memory_set ms. leaseLive (me_now env) c \<longrightarrow> \<not> leaseFor c rq"
proof (cases "me_ctx env \<noteq> None \<or> ms_Blocked ms")
  case True
  with assms failed show thesis by (auto simp: Memory_Acquire_def memory_cleaned_def split: option.splits if_splits)
next
  case False
  obtain res ms1 where loop: "memory_acquire_loop (me_now env) (ttl_set rq) (ms_leases ms) ms = (res, ms1)" by fastforce
  have c0: "memory_cleaned (me_now env) ms ms" using assms(2) by (simp add: memory_cleaned_def)
  have post: "(res = None \<and> memory_cleaned (me_now env) ms ms1 \<and>
      (\<forall>p \<in> set (ms_leases ms). leaseLive (me_now env) (snd p) \<longrightarrow> \<not> leaseFor (snd p) rq)) \<or>
    (\<exists>x. res = Some x \<and> memory_hit (me_now env) rq ms x ms1)"
    using memory_acquire_loop_spec [OF assms(2) c0 _ _ loop] defaultTTL_pos by simp
  show thesis
  proof (cases res)
    case (Some y)
    with assms(1) False loop have "x = y" "ms' = ms1" by (auto simp: Memory_Acquire_def Let_def)
    with post Some hit show thesis by blast
  next
    case None
    then have none: "memory_cleaned (me_now env) ms ms1" "\<forall>c \<in> memory_set ms. leaseLive (me_now env) c \<longrightarrow> \<not> leaseFor c rq"
      using post by (auto simp: memory_set_def)
    show thesis
    proof (cases "rq_RenewOnly rq")
      case True
      with assms(1) False loop None have "\<exists>e. x = Inl e" "ms' = ms1" by (auto simp: Memory_Acquire_def Let_def)
      with failed none True show thesis by blast
    next
      case new_lease: False
      let ?l = "grantLease (ttl_set rq) fresh (time_add (me_now env) (defaultTTL (rq_TTL rq)))"
      have "x = Inr ?l" "ms' = put_memory ?l ms1"
        using assms(1) False loop None new_lease by (auto simp: Memory_Acquire_def Let_def)
      moreover have "l_ResourceID ?l = fresh" "leaseFor ?l rq" "leaseOwned ?l rq" "leaseLive (me_now env) ?l"
        using defaultTTL_pos by (simp_all add: grantLease_def time_add_def)
      ultimately show thesis using new [of ?l ms1] none by blast
    qed
  qed
qed

lemma memory_hit_spec:
  assumes "memory_hit now rq ms x ms'" "memory_wf ms"
  shows "memory_wf ms'" and "exclusive now (memory_set ms) \<Longrightarrow> exclusive now (memory_set ms')"
    and "x = Inr l \<Longrightarrow> l \<in> memory_set ms' \<and> leaseLive now l \<and> leaseFor l rq \<and> leaseOwned l rq"
proof -
  from assms(1) obtain c ms1 where c: "c \<in> memory_set ms" "leaseLive now c" "leaseFor c rq" "memory_cleaned now ms ms1" and
    out: "(\<exists>e. x = Inl e) \<and> ms' = ms1 \<or> (\<exists>l. x = Inr l \<and> ms' = put_memory l ms1 \<and> l_ResourceID l = l_ResourceID c \<and>
      leaseFor l rq \<and> leaseOwned l rq \<and> leaseLive now l)"
    unfolding memory_hit_def by blast
  have wf1: "memory_wf ms1" and sub: "memory_set ms1 \<subseteq> memory_set ms" using c(4) by (auto simp: memory_cleaned_def)
  show "memory_wf ms'" using out wf1 put_memory_spec by blast
  show "l \<in> memory_set ms' \<and> leaseLive now l \<and> leaseFor l rq \<and> leaseOwned l rq" if "x = Inr l"
    using out that put_memory_spec [OF wf1] by (auto simp: put_set_def)
  assume ex: "exclusive now (memory_set ms)"
  then have ex1: "exclusive now (memory_set ms1)" by (rule exclusive_live [rotated]) (use sub in blast)
  have uniq: "d = c" if "d \<in> memory_set ms" "leaseLive now d" "leaseFor d rq" for d
    using ex [unfolded exclusive_def, rule_format, OF that(1) c(1)] that c(2,3) by simp
  from out show "exclusive now (memory_set ms')"
  proof (elim disjE conjE exE)
    fix l assume l: "ms' = put_memory l ms1" "l_ResourceID l = l_ResourceID c"
      "l_ClusterID l = rq_ClusterID rq" "l_HAEndpointID l = rq_HAEndpointID rq"
    have "exclusive now (put_set l (memory_set ms1))"
    proof (rule exclusive_put_set [OF ex1])
      fix d assume d: "d \<in> memory_set ms1" "l_ResourceID d \<noteq> l_ResourceID l" "leaseLive now d"
        "l_ClusterID d = l_ClusterID l" "l_HAEndpointID d = l_HAEndpointID l"
      have "d = c" by (rule uniq) (use d l sub in auto)
      with d l show False by simp
    qed
    with l(1) put_memory_spec [OF wf1] show ?thesis by simp
  qed (use ex1 in simp)
qed

lemma Memory_Acquire_spec:
  assumes "Memory_Acquire env rq fresh ms = (x, ms')" "memory_wf ms" "fresh \<notin> l_ResourceID ` memory_set ms"
  shows "memory_wf ms'" and "exclusive (me_now env) (memory_set ms) \<Longrightarrow> exclusive (me_now env) (memory_set ms')"
    and "x = Inr l \<Longrightarrow> l \<in> memory_set ms' \<and> leaseLive (me_now env) l \<and> leaseFor l rq \<and> leaseOwned l rq"
proof -
  have "memory_wf ms' \<and> (exclusive (me_now env) (memory_set ms) \<longrightarrow> exclusive (me_now env) (memory_set ms')) \<and>
      (x = Inr l \<longrightarrow> l \<in> memory_set ms' \<and> leaseLive (me_now env) l \<and> leaseFor l rq \<and> leaseOwned l rq)"
    using assms(1,2)
  proof (cases rule: Memory_Acquire_cases)
    case (failed e)
    then show ?thesis by (auto simp: memory_cleaned_def intro: exclusive_live)
  next
    case hit
    then show ?thesis using memory_hit_spec [OF hit assms(2)] by blast
  next
    case (new ms1 l')
    have wf1: "memory_wf ms1" and sub: "memory_set ms1 \<subseteq> memory_set ms" using new(3) by (auto simp: memory_cleaned_def)
    have "exclusive (me_now env) (put_set l' (memory_set ms1))" if ex: "exclusive (me_now env) (memory_set ms)"
    proof (rule exclusive_put_set)
      show "exclusive (me_now env) (memory_set ms1)" using ex by (rule exclusive_live [rotated]) (use sub in blast)
      fix d assume "d \<in> memory_set ms1" "leaseLive (me_now env) d" "l_ClusterID d = l_ClusterID l'" "l_HAEndpointID d = l_HAEndpointID l'"
      with new(5,8) sub show False by auto
    qed
    with new put_memory_spec [OF wf1, of l'] show ?thesis by (auto simp: put_set_def)
  qed
  then show "memory_wf ms'" "exclusive (me_now env) (memory_set ms) \<Longrightarrow> exclusive (me_now env) (memory_set ms')"
    "x = Inr l \<Longrightarrow> l \<in> memory_set ms' \<and> leaseLive (me_now env) l \<and> leaseFor l rq \<and> leaseOwned l rq"
    by blast+
qed

lemma Memory_Acquire_refused:
  assumes "memory_wf ms" "exclusive (me_now env) (memory_set ms)"
    and c: "c \<in> memory_set ms" "leaseLive (me_now env) c" "leaseFor c rq" "\<not> leaseOwned c rq"
      "rq_RenewOnly rq \<or> \<not> CanHandoffStableLease c rq"
  shows "\<exists>e ms'. Memory_Acquire env rq fresh ms = (Inl e, ms')"
proof -
  obtain x ms' where a: "Memory_Acquire env rq fresh ms = (x, ms')" by fastforce
  from a assms(1) show ?thesis
  proof (cases rule: Memory_Acquire_cases)
    case hit
    then obtain d where d: "d \<in> memory_set ms" "leaseLive (me_now env) d" "leaseFor d rq"
      "(\<exists>e. x = Inl e) \<or> leaseOwned d rq \<or> \<not> rq_RenewOnly rq \<and> CanHandoffStableLease d rq"
      unfolding memory_hit_def by blast
    have "d = c" using assms(2) [unfolded exclusive_def, rule_format, OF d(1) c(1)] d(2,3) c(2,3) by simp
    with d(4) c(4,5) a show ?thesis by blast
  next
    case (new ms1 l)
    with c(1-3) show ?thesis by blast
  qed (use a in blast)
qed

section \<open>Finalisation and rollback\<close>

lemma settle_memory:
  assumes wf: "memory_wf ms" and c: "c \<in> memory_set ms" "leaseLive (me_now env) c"
    and l: "l_ResourceID l = l_ResourceID c" "l_ClusterID l = l_ClusterID c" "l_HAEndpointID l = l_HAEndpointID c"
  shows "memory_wf (put_memory l ms)" "l \<in> memory_set (put_memory l ms)"
    and "exclusive (me_now env) (memory_set ms) \<Longrightarrow> exclusive (me_now env) (memory_set (put_memory l ms))"
proof -
  note put = put_memory_spec [OF wf, of l]
  show "memory_wf (put_memory l ms)" "l \<in> memory_set (put_memory l ms)" using put by (auto simp: put_set_def)
  assume ex: "exclusive (me_now env) (memory_set ms)"
  have "exclusive (me_now env) (put_set l (memory_set ms))"
  proof (rule exclusive_put_set [OF ex])
    fix d assume d: "d \<in> memory_set ms" "l_ResourceID d \<noteq> l_ResourceID l" "leaseLive (me_now env) d"
      "l_ClusterID d = l_ClusterID l" "l_HAEndpointID d = l_HAEndpointID l"
    have "d = c" using ex [unfolded exclusive_def, rule_format, OF d(1) c(1)] d l c(2) by simp
    with d l show False by simp
  qed
  with put show "exclusive (me_now env) (memory_set (put_memory l ms))" by simp
qed

lemma Memory_Finalize_spec:
  assumes "Memory_FinalizeTransition env t ttl ms = (x, ms')" "memory_wf ms"
  shows "memory_wf ms'" and "exclusive (me_now env) (memory_set ms) \<Longrightarrow> exclusive (me_now env) (memory_set ms')"
    and "x = Inr l \<Longrightarrow> l_OperationID t \<noteq> l_HAEndpointID t \<and> l \<in> memory_set ms' \<and> leaseLive (me_now env) l \<and>
      SameLeaseIdentity l (finalizeLease t 0)"
proof -
  define ok where "ok c \<longleftrightarrow> leaseLive (me_now env) c \<and> SameLeaseIdentity c t \<and> l_OperationID c \<noteq> l_HAEndpointID c" for c
  have step: "(x, ms') = (case me_ctx env of Some e \<Rightarrow> (Inl (LeaseContext e), ms) | None \<Rightarrow>
      (case map_of (ms_leases ms) (l_ResourceID t) of
         Some c \<Rightarrow> if ok c then (Inr (finalizeLease c (time_add (me_now env) (defaultTTL ttl))),
           put_memory (finalizeLease c (time_add (me_now env) (defaultTTL ttl))) ms) else (Inl (ErrLeaseConflict msg), ms)
       | None \<Rightarrow> (Inl (ErrLeaseConflict msg), ms)))"
    if "msg = ''transition lease is missing, expired, changed, or already stable''" for msg
    unfolding that assms(1) [symmetric] Memory_FinalizeTransition_def ok_def Let_def by (auto split: option.split)
  consider e where "x = Inl e" "ms' = ms"
    | c where "map_of (ms_leases ms) (l_ResourceID t) = Some c" "ok c"
      "x = Inr (finalizeLease c (time_add (me_now env) (defaultTTL ttl)))"
      "ms' = put_memory (finalizeLease c (time_add (me_now env) (defaultTTL ttl))) ms"
    using step [OF refl] by (cases "me_ctx env"; cases "map_of (ms_leases ms) (l_ResourceID t)") (simp_all split: if_splits)
  then have "memory_wf ms' \<and> (exclusive (me_now env) (memory_set ms) \<longrightarrow> exclusive (me_now env) (memory_set ms')) \<and>
      (x = Inr l \<longrightarrow> l_OperationID t \<noteq> l_HAEndpointID t \<and> l \<in> memory_set ms' \<and> leaseLive (me_now env) l \<and>
        SameLeaseIdentity l (finalizeLease t 0))"
  proof cases
    case (2 c)
    have c: "c \<in> memory_set ms" using 2(1) memory_lookup [OF assms(2)] by blast
    let ?l = "finalizeLease c (time_add (me_now env) (defaultTTL ttl))"
    have l: "l_ResourceID ?l = l_ResourceID c" "l_ClusterID ?l = l_ClusterID c" "l_HAEndpointID ?l = l_HAEndpointID c"
      by (simp_all add: finalizeLease_def)
    have "leaseLive (me_now env) ?l" "SameLeaseIdentity ?l (finalizeLease t 0)" "l_OperationID t \<noteq> l_HAEndpointID t"
      using 2(2) defaultTTL_pos by (auto simp: ok_def finalizeLease_def SameLeaseIdentity_def time_add_def)
    with settle_memory [OF assms(2) c _ l, of env] 2(2-4) show ?thesis by (auto simp: ok_def)
  qed (use assms(2) in simp)
  then show "memory_wf ms'" "exclusive (me_now env) (memory_set ms) \<Longrightarrow> exclusive (me_now env) (memory_set ms')"
    "x = Inr l \<Longrightarrow> l_OperationID t \<noteq> l_HAEndpointID t \<and> l \<in> memory_set ms' \<and> leaseLive (me_now env) l \<and>
      SameLeaseIdentity l (finalizeLease t 0)"
    by blast+
qed

lemma Memory_Rollback_spec:
  assumes "Memory_RollbackTransition env t ttl ms = (x, ms')" "memory_wf ms"
  shows "memory_wf ms'" and "exclusive (me_now env) (memory_set ms) \<Longrightarrow> exclusive (me_now env) (memory_set ms')"
    and "x = Inr l \<Longrightarrow> l_OperationID t \<noteq> l_HAEndpointID t \<and> l \<in> memory_set ms' \<and> leaseLive (me_now env) l \<and>
      SameLeaseIdentity l (rollbackLease t 0)"
proof -
  define ok where "ok c \<longleftrightarrow> leaseLive (me_now env) c \<and> SameLeaseIdentity c t \<and> l_OperationID c \<noteq> l_HAEndpointID c \<and> ValidResourceID (l_PreviousOwnerID c)" for c
  have step: "(x, ms') = (case me_ctx env of Some e \<Rightarrow> (Inl (LeaseContext e), ms) | None \<Rightarrow>
      (case map_of (ms_leases ms) (l_ResourceID t) of
         Some c \<Rightarrow> if ok c then (Inr (rollbackLease c (time_add (me_now env) (defaultTTL ttl))),
           put_memory (rollbackLease c (time_add (me_now env) (defaultTTL ttl))) ms) else (Inl (ErrLeaseConflict msg), ms)
       | None \<Rightarrow> (Inl (ErrLeaseConflict msg), ms)))"
    if "msg = ''transition lease is missing, expired, changed, or cannot be rolled back''" for msg
    unfolding that assms(1) [symmetric] Memory_RollbackTransition_def ok_def Let_def by (auto split: option.split)
  consider e where "x = Inl e" "ms' = ms"
    | c where "map_of (ms_leases ms) (l_ResourceID t) = Some c" "ok c"
      "x = Inr (rollbackLease c (time_add (me_now env) (defaultTTL ttl)))"
      "ms' = put_memory (rollbackLease c (time_add (me_now env) (defaultTTL ttl))) ms"
    using step [OF refl] by (cases "me_ctx env"; cases "map_of (ms_leases ms) (l_ResourceID t)") (simp_all split: if_splits)
  then have "memory_wf ms' \<and> (exclusive (me_now env) (memory_set ms) \<longrightarrow> exclusive (me_now env) (memory_set ms')) \<and>
      (x = Inr l \<longrightarrow> l_OperationID t \<noteq> l_HAEndpointID t \<and> l \<in> memory_set ms' \<and> leaseLive (me_now env) l \<and>
        SameLeaseIdentity l (rollbackLease t 0))"
  proof cases
    case (2 c)
    have c: "c \<in> memory_set ms" using 2(1) memory_lookup [OF assms(2)] by blast
    let ?l = "rollbackLease c (time_add (me_now env) (defaultTTL ttl))"
    have l: "l_ResourceID ?l = l_ResourceID c" "l_ClusterID ?l = l_ClusterID c" "l_HAEndpointID ?l = l_HAEndpointID c"
      by (simp_all add: rollbackLease_def)
    have "leaseLive (me_now env) ?l" "SameLeaseIdentity ?l (rollbackLease t 0)" "l_OperationID t \<noteq> l_HAEndpointID t"
      using 2(2) defaultTTL_pos by (auto simp: ok_def rollbackLease_def SameLeaseIdentity_def time_add_def)
    with settle_memory [OF assms(2) c _ l, of env] 2(2-4) show ?thesis by (auto simp: ok_def)
  qed (use assms(2) in simp)
  then show "memory_wf ms'" "exclusive (me_now env) (memory_set ms) \<Longrightarrow> exclusive (me_now env) (memory_set ms')"
    "x = Inr l \<Longrightarrow> l_OperationID t \<noteq> l_HAEndpointID t \<and> l \<in> memory_set ms' \<and> leaseLive (me_now env) l \<and>
      SameLeaseIdentity l (rollbackLease t 0)"
    by blast+
qed

lemma Memory_Validate_iff:
  assumes "memory_wf ms" "me_ctx env = None"
  shows "Memory_Validate env l ms = None \<longleftrightarrow> (\<exists>c \<in> memory_set ms. leaseLive (me_now env) c \<and> SameLeaseIdentity c l)"
proof -
  have "Memory_Validate env l ms = None \<longleftrightarrow>
      (\<exists>c. map_of (ms_leases ms) (l_ResourceID l) = Some c \<and> leaseLive (me_now env) c \<and> SameLeaseIdentity c l)"
    using assms(2) by (auto simp: Memory_Validate_def split: option.splits)
  also have "\<dots> \<longleftrightarrow> (\<exists>c \<in> memory_set ms. leaseLive (me_now env) c \<and> SameLeaseIdentity c l)"
    unfolding memory_lookup [OF assms(1)] by (auto simp: SameLeaseIdentity_def)
  finally show ?thesis .
qed

lemma Memory_Release_spec: "Memory_Release env i ms = (e, ms') \<Longrightarrow> memory_wf ms \<Longrightarrow> memory_wf ms' \<and> memory_set ms' \<subseteq> memory_set ms"
  using delete_memory_spec [of ms i] by (auto simp: Memory_Release_def split: option.splits)

section \<open>The contract holds\<close>

lemma memoryLeaseStore_sel [simp]:
  "ls_Acquire memoryLeaseStore = Memory_Acquire" "ls_Validate memoryLeaseStore = Memory_Validate"
  "ls_Current memoryLeaseStore = Memory_Current" "ls_FinalizeTransition memoryLeaseStore = Memory_FinalizeTransition"
  "ls_RollbackTransition memoryLeaseStore = Memory_RollbackTransition" "ls_Release memoryLeaseStore = Memory_Release"
  by (simp_all add: memoryLeaseStore_def)

interpretation mem: writer_leases memoryLeaseStore me_now "\<lambda>env ms. me_ctx env = None" memory_set memory_wf
  by (unfold_locales, unfold memoryLeaseStore_sel)
    (fact memory_unique Memory_Acquire_spec Memory_Acquire_refused Memory_Validate_iff Memory_Finalize_spec
        Memory_Rollback_spec Memory_Release_spec [THEN conjunct1] Memory_Release_spec [THEN conjunct2]
      | erule (2) Memory_Acquire_spec | (erule (1) Memory_Finalize_spec Memory_Rollback_spec; assumption?)
      | blast intro: Memory_Acquire_spec Memory_Acquire_refused Memory_Finalize_spec Memory_Rollback_spec dest: Memory_Release_spec)+

section \<open>Properties\<close>



end
