(* ===== verification/Op_Locks.thy ===== *)
theory Op_Locks
  imports Repository Membership
begin

text \<open>
  The cluster operation lock (\<^verbatim>\<open>internal/coordination/operation_lock.go\<close>): at most one
  durable operation works on a cluster at a time. A lock is a record of the repository that
  its holder renews every third of its lifetime; a holder that cannot renew cancels its
  operation. The goroutine of a holder is an element of \<open>sys_holders\<close>, its ticks, its release
  and the acquisitions of others are the steps of the transition system \<open>lock_step\<close>.
  Removal of a cluster's records when the cluster is deregistered is not a step.
\<close>

section \<open>Model\<close>

record lock_env =
  oe_authority :: "authority_error option"
  oe_now :: go_time
  oe_repo :: repo_env

datatype lock_error =
  LockOperationUUID
  | LockUUIDs
  | LockAuthority authority_error
  | LockExpire store_error
  | ErrOperationLockConflict rid
  | LockPersist store_error

datatype lock_lost = LostAuthority authority_error | LostRecord | LostPersist store_error

definition lockTTL :: "duration \<Rightarrow> duration" where
  "lockTTL ttl = (if ttl \<le> 0 then 15 * minute else ttl)"

fun lock_loop :: "lock_env \<Rightarrow> rid \<Rightarrow> OperationLockRecord list \<Rightarrow> snapshot \<Rightarrow> lock_error option \<times> snapshot" where
  "lock_loop env clusterID [] s = (None, s)"
| "lock_loop env clusterID (r # rs) s =
     (if \<not> ol_ExpiresAt r > oe_now env
      then (case DeleteCoordinationOperationLock (oe_repo env) (ol_ResourceID r) s of
              (Some e, s') \<Rightarrow> (Some (LockExpire e), s')
            | (None, s') \<Rightarrow> lock_loop env clusterID rs s')
      else if ol_ClusterID r = clusterID then (Some (ErrOperationLockConflict clusterID), s)
      else lock_loop env clusterID rs s)"

definition acquire_lock :: "lock_env \<Rightarrow> duration \<Rightarrow> rid \<Rightarrow> rid \<Rightarrow> rid \<Rightarrow> snapshot \<Rightarrow> (lock_error + OperationLockRecord) \<times> snapshot" where
  "acquire_lock env ttl clusterID operationID fresh s =
     (if \<not> ValidResourceID clusterID \<or> \<not> ValidResourceID operationID then (Inl LockUUIDs, s)
      else case oe_authority env of
        Some e \<Rightarrow> (Inl (LockAuthority e), s)
      | None \<Rightarrow>
          let now = oe_now env in
          case lock_loop env clusterID (CoordinationOperationLocks s) s of
            (Some e, s') \<Rightarrow> (Inl e, s')
          | (None, s') \<Rightarrow>
              let r = \<lparr>ol_ResourceID = fresh, ol_ClusterID = clusterID, ol_OperationID = operationID,
                       ol_ExpiresAt = time_add now ttl, ol_CreatedAt = now, ol_UpdatedAt = now\<rparr> in
              case PutCoordinationOperationLock (oe_repo env) r s' of
                (Some e, s'') \<Rightarrow> (Inl (LockPersist e), s'')
              | (None, s'') \<Rightarrow> (Inr r, s''))"

definition OperationLocks_Acquire :: "lock_env \<Rightarrow> duration \<Rightarrow> Operation \<Rightarrow> rid \<Rightarrow> snapshot \<Rightarrow> (lock_error + OperationLockRecord) \<times> snapshot" where
  "OperationLocks_Acquire env ttl operation fresh s =
     (if \<not> ValidResourceID (op_ResourceID operation) then (Inl LockOperationUUID, s)
      else acquire_lock env ttl (op_ClusterID operation) (op_ResourceID operation) fresh s)"

definition AcquireCluster :: "lock_env \<Rightarrow> duration \<Rightarrow> rid \<Rightarrow> rid \<Rightarrow> rid \<Rightarrow> snapshot \<Rightarrow> (lock_error + OperationLockRecord) \<times> snapshot" where
  "AcquireCluster env ttl clusterID freshOperation fresh s = acquire_lock env ttl clusterID freshOperation fresh s"

text \<open>One tick of \<^verbatim>\<open>renew\<close>: the record the goroutine goes on with, or why it cancels the operation.\<close>

definition renew_tick :: "lock_env \<Rightarrow> duration \<Rightarrow> OperationLockRecord \<Rightarrow> snapshot \<Rightarrow> (lock_lost + OperationLockRecord) \<times> snapshot" where
  "renew_tick env ttl r s =
     (case oe_authority env of
        Some e \<Rightarrow> (Inl (LostAuthority e), s)
      | None \<Rightarrow>
          if \<not> list_ex (\<lambda>current. ol_ResourceID current = ol_ResourceID r \<and> ol_ClusterID current = ol_ClusterID r \<and>
                ol_OperationID current = ol_OperationID r) (CoordinationOperationLocks s)
          then (Inl LostRecord, s)
          else let now = oe_now env; r' = r\<lparr>ol_ExpiresAt := time_add now ttl, ol_UpdatedAt := now\<rparr> in
            case PutCoordinationOperationLock (oe_repo env) r' s of
              (Some e, s') \<Rightarrow> (Inl (LostPersist e), s')
            | (None, s') \<Rightarrow> (Inr r', s'))"

definition release_lock :: "lock_env \<Rightarrow> OperationLockRecord \<Rightarrow> snapshot \<Rightarrow> snapshot" where
  "release_lock env r s = snd (DeleteCoordinationOperationLock (oe_repo env) (ol_ResourceID r) s)"

text \<open>The ticker interval: a third of the lifetime, at least ten milliseconds, below the lifetime.\<close>

definition renewInterval :: "duration \<Rightarrow> duration" where
  "renewInterval ttl =
     (let interval = ttl div 3;
          interval = (if interval < 10 * millisecond then 10 * millisecond else interval)
      in if interval \<ge> ttl then ttl div 2 else interval)"

section \<open>The lock table\<close>

definition lock_records :: "snapshot \<Rightarrow> OperationLockRecord set" where
  "lock_records s = snd ` set (OperationLocks s)"

definition locks_wf :: "snapshot \<Rightarrow> bool" where
  "locks_wf s \<longleftrightarrow> keyed_by ol_ResourceID (OperationLocks s) \<and>
     (\<forall>a \<in> lock_records s. \<forall>b \<in> lock_records s. ol_ClusterID a = ol_ClusterID b \<longrightarrow> a = b)"

lemma set_CoordinationOperationLocks [simp]: "set (CoordinationOperationLocks s) = lock_records s"
  by (simp add: CoordinationOperationLocks_def lock_records_def)

definition lock_keyed :: "snapshot \<Rightarrow> bool" where
  "lock_keyed s \<longleftrightarrow> keyed_by ol_ResourceID (OperationLocks s)"

lemma lock_inj: "lock_keyed s \<Longrightarrow> a \<in> lock_records s \<Longrightarrow> b \<in> lock_records s \<Longrightarrow> ol_ResourceID a = ol_ResourceID b \<Longrightarrow> a = b"
  unfolding lock_keyed_def lock_records_def by (rule keyed_by_inj)

lemma commit_locks:
  assumes "commitSnapshotLocked env s (s\<lparr>OperationLocks := m\<rparr>) = (e, s')"
  shows "OperationLocks s' = m \<or> e \<noteq> None \<and> OperationLocks s' = OperationLocks s"
  using assms by (cases rule: commit_cases [of env s "s\<lparr>OperationLocks := m\<rparr>"]) auto

lemma delete_lock:
  assumes "DeleteCoordinationOperationLock env i s = (e, s')" "lock_keyed s"
  shows "lock_keyed s' \<and>
    (lock_records s' = {r \<in> lock_records s. ol_ResourceID r \<noteq> i} \<or> e \<noteq> None \<and> lock_records s' = lock_records s)"
proof (cases "\<not> ValidResourceID i \<or> map_of (OperationLocks s) i = None")
  case True
  have "map_of (OperationLocks s) i = None \<Longrightarrow> {r \<in> lock_records s. ol_ResourceID r \<noteq> i} = lock_records s"
    using keyed_by_absent [of ol_ResourceID "OperationLocks s" i] assms(2) by (auto simp: lock_keyed_def lock_records_def)
  with True assms show ?thesis by (auto simp: DeleteCoordinationOperationLock_def split: if_splits)
next
  case False
  with assms(1) have c: "commitSnapshotLocked env s (s\<lparr>OperationLocks := AList.delete i (OperationLocks s)\<rparr>) = (e, s')"
    by (auto simp: DeleteCoordinationOperationLock_def)
  from commit_locks [OF c] show ?thesis
    using assms(2) keyed_by_delete [of ol_ResourceID "OperationLocks s" i] keyed_by_values_delete [of ol_ResourceID "OperationLocks s" i]
    by (elim disjE) (simp_all add: lock_keyed_def lock_records_def)
qed

lemma put_lock:
  assumes "PutCoordinationOperationLock env r s = (e, s')" "lock_keyed s"
  shows "lock_keyed s' \<and> (lock_records s' = insert r {q \<in> lock_records s. ol_ResourceID q \<noteq> ol_ResourceID r} \<or>
    e \<noteq> None \<and> lock_records s' = lock_records s)"
proof (cases "commitSnapshotLocked env s (s\<lparr>OperationLocks := AList.update (ol_ResourceID r) r (OperationLocks s)\<rparr>) = (e, s')")
  case True
  from commit_locks [OF True] show ?thesis
    using assms(2) keyed_by_update [of ol_ResourceID "OperationLocks s" r "ol_ResourceID r"]
      keyed_by_values_update [of ol_ResourceID "OperationLocks s" r "ol_ResourceID r"]
    by (elim disjE) (simp_all add: lock_keyed_def lock_records_def)
next
  case False
  with assms show ?thesis by (auto simp: PutCoordinationOperationLock_def split: if_splits)
qed

text \<open>The acquisition loop: on success no record of the cluster and no expired record is left of those seen.\<close>

lemma lock_loop_spec:
  assumes "lock_loop env c rs s = (e, s')" "lock_keyed s0" "lock_keyed s" "lock_records s \<subseteq> lock_records s0"
    "set rs \<subseteq> lock_records s0" "\<And>r. r \<in> lock_records s0 \<Longrightarrow> ol_ExpiresAt r > oe_now env \<Longrightarrow> r \<in> lock_records s"
  shows "lock_keyed s' \<and> lock_records s' \<subseteq> lock_records s \<and>
    (\<forall>r \<in> lock_records s0. ol_ExpiresAt r > oe_now env \<longrightarrow> r \<in> lock_records s') \<and>
    (e = None \<longrightarrow> (\<forall>r \<in> set rs. ol_ClusterID r = c \<longrightarrow> r \<notin> lock_records s'))"
  using assms(1,3-)
proof (induction rs arbitrary: s)
  case (Cons r rs)
  show ?case
  proof (cases "ol_ExpiresAt r > oe_now env")
    case True
    with Cons.IH [of s] Cons.prems show ?thesis by (auto split: if_splits)
  next
    case False
    obtain e1 s1 where d: "DeleteCoordinationOperationLock (oe_repo env) (ol_ResourceID r) s = (e1, s1)" by fastforce
    note post = delete_lock [OF d Cons.prems(2)]
    have sub: "lock_records s1 \<subseteq> lock_records s" "lock_keyed s1" using post by auto
    have live: "q \<in> lock_records s1" if q: "q \<in> lock_records s0" "ol_ExpiresAt q > oe_now env" for q
    proof -
      have "q \<in> lock_records s" using Cons.prems(5) q by blast
      moreover have "ol_ResourceID q \<noteq> ol_ResourceID r"
        using lock_inj [OF assms(2) q(1), of r] Cons.prems(4) q(2) False by auto
      ultimately show ?thesis using post by auto
    qed
    show ?thesis
    proof (cases e1)
      case (Some x)
      with Cons.prems(1) False d have "e = Some (LockExpire x)" "s' = s1" by auto
      with sub live show ?thesis by auto
    next
      case None
      with Cons.prems(1) False d have loop: "lock_loop env c rs s1 = (e, s')" by simp
      have gone: "r \<notin> lock_records s1" using post None by auto
      from Cons.IH [OF loop sub(2) _ _ live] sub(1) Cons.prems(3,4) gone show ?thesis by auto
    qed
  qed
qed auto

lemma acquire_lock_spec:
  assumes "acquire_lock env ttl c p fresh s = (x, s')" "locks_wf s" "fresh \<notin> ol_ResourceID ` lock_records s"
  shows "locks_wf s' \<and>
    (\<forall>r \<in> lock_records s. ol_ExpiresAt r > oe_now env \<longrightarrow> r \<in> lock_records s') \<and>
    (\<forall>r \<in> lock_records s'. r \<in> lock_records s \<or> ol_ResourceID r = fresh) \<and>
    (\<forall>r. x = Inr r \<longrightarrow> r \<in> lock_records s' \<and> ol_ResourceID r = fresh \<and> ol_ClusterID r = c \<and> ol_OperationID r = p \<and>
       ol_ExpiresAt r = oe_now env + ttl \<and> (\<forall>q \<in> lock_records s. ol_ClusterID q = c \<longrightarrow> \<not> ol_ExpiresAt q > oe_now env))"
proof (cases "ValidResourceID c \<and> ValidResourceID p \<and> oe_authority env = None")
  case False
  then have "s' = s" "\<exists>e. x = Inl e" using assms(1) by (auto simp: acquire_lock_def split: option.splits if_splits)
  with assms(2) show ?thesis by auto
next
  case True
  have k: "lock_keyed s" and cl: "\<And>a b. a \<in> lock_records s \<Longrightarrow> b \<in> lock_records s \<Longrightarrow> ol_ClusterID a = ol_ClusterID b \<Longrightarrow> a = b"
    using assms(2) by (auto simp: locks_wf_def lock_keyed_def)
  obtain e s1 where loop: "lock_loop env c (CoordinationOperationLocks s) s = (e, s1)" by fastforce
  have l: "lock_keyed s1" "lock_records s1 \<subseteq> lock_records s"
    "\<forall>r \<in> lock_records s. ol_ExpiresAt r > oe_now env \<longrightarrow> r \<in> lock_records s1"
    "e = None \<longrightarrow> (\<forall>r \<in> lock_records s. ol_ClusterID r = c \<longrightarrow> r \<notin> lock_records s1)"
    using lock_loop_spec [OF loop k k] by auto
  have wf1: "locks_wf s1"
    using l(1) cl subsetD [OF l(2)] unfolding locks_wf_def lock_keyed_def by blast
  show ?thesis
  proof (cases e)
    case (Some y)
    with True assms(1) loop have "x = Inl y" "s' = s1" by (auto simp: acquire_lock_def Let_def)
    with wf1 l show ?thesis by auto
  next
    case None
    define r where "r = \<lparr>ol_ResourceID = fresh, ol_ClusterID = c, ol_OperationID = p,
       ol_ExpiresAt = time_add (oe_now env) ttl, ol_CreatedAt = oe_now env, ol_UpdatedAt = oe_now env\<rparr>"
    obtain e2 s2 where put: "PutCoordinationOperationLock (oe_repo env) r s1 = (e2, s2)" by fastforce
    have x: "s' = s2" "x = (case e2 of Some y \<Rightarrow> Inl (LockPersist y) | None \<Rightarrow> Inr r)"
      using True assms(1) loop None put by (auto simp: acquire_lock_def Let_def r_def split: option.splits)
    note post = put_lock [OF put l(1)]
    have ids: "ol_ResourceID q \<noteq> fresh" if "q \<in> lock_records s1" for q using assms(3) l(2) that by auto
    have noc: "ol_ClusterID q \<noteq> c" if "q \<in> lock_records s1" for q using l(2,4) None that by auto
    have r: "ol_ResourceID r = fresh" "ol_ClusterID r = c" "ol_OperationID r = p" "ol_ExpiresAt r = oe_now env + ttl"
      by (simp_all add: r_def time_add_def)
    have recs: "lock_records s2 = insert r (lock_records s1) \<or> e2 \<noteq> None \<and> lock_records s2 = lock_records s1"
      using post ids r(1) by auto
    have "locks_wf s2"
      using recs wf1 post noc r(2) unfolding locks_wf_def lock_keyed_def by (elim disjE) (auto, metis+)
    moreover have "\<forall>q \<in> lock_records s. ol_ClusterID q = c \<longrightarrow> \<not> ol_ExpiresAt q > oe_now env"
      using l(3,4) None by auto
    ultimately show ?thesis using x recs l r by (auto split: option.splits)
  qed
qed

section \<open>The lock system\<close>

record lock_sys =
  sys_now :: go_time
  sys_repo :: snapshot
  sys_holders :: "OperationLockRecord list"

inductive lock_step :: "duration \<Rightarrow> lock_sys \<Rightarrow> lock_sys \<Rightarrow> bool" for ttl where
  lock_acquired: "\<lbrakk>sys_now y \<le> oe_now env; fresh \<notin> ol_ResourceID ` (lock_records (sys_repo y) \<union> set (sys_holders y));
     acquire_lock env ttl c p fresh (sys_repo y) = (Inr r, s')\<rbrakk> \<Longrightarrow>
     lock_step ttl y (y\<lparr>sys_now := oe_now env, sys_repo := s', sys_holders := r # sys_holders y\<rparr>)"
| lock_refused: "\<lbrakk>sys_now y \<le> oe_now env; fresh \<notin> ol_ResourceID ` (lock_records (sys_repo y) \<union> set (sys_holders y));
     acquire_lock env ttl c p fresh (sys_repo y) = (Inl e, s')\<rbrakk> \<Longrightarrow>
     lock_step ttl y (y\<lparr>sys_now := oe_now env, sys_repo := s'\<rparr>)"
| lock_renewed: "\<lbrakk>sys_now y \<le> oe_now env; sys_holders y = hs1 @ h # hs2; renew_tick env ttl h (sys_repo y) = (Inr h', s')\<rbrakk> \<Longrightarrow>
     lock_step ttl y (y\<lparr>sys_now := oe_now env, sys_repo := s', sys_holders := hs1 @ h' # hs2\<rparr>)"
| lock_lost: "\<lbrakk>sys_now y \<le> oe_now env; sys_holders y = hs1 @ h # hs2; renew_tick env ttl h (sys_repo y) = (Inl e, s')\<rbrakk> \<Longrightarrow>
     lock_step ttl y (y\<lparr>sys_now := oe_now env, sys_repo := s', sys_holders := hs1 @ hs2\<rparr>)"
| lock_released: "\<lbrakk>sys_now y \<le> oe_now env; sys_holders y = hs1 @ h # hs2\<rbrakk> \<Longrightarrow>
     lock_step ttl y (y\<lparr>sys_now := oe_now env, sys_repo := release_lock env h (sys_repo y), sys_holders := hs1 @ hs2\<rparr>)"
| lock_other: "\<lbrakk>sys_now y \<le> t'; OperationLocks s' = OperationLocks (sys_repo y)\<rbrakk> \<Longrightarrow>
     lock_step ttl y (y\<lparr>sys_now := t', sys_repo := s'\<rparr>)"

text \<open>A holder whose lock has not run out has its record in the table.\<close>

definition lock_inv :: "lock_sys \<Rightarrow> bool" where
  "lock_inv y \<longleftrightarrow> locks_wf (sys_repo y) \<and> distinct (map ol_ResourceID (sys_holders y)) \<and>
     (\<forall>h \<in> set (sys_holders y). ol_ExpiresAt h > sys_now y \<longrightarrow>
        (\<exists>r \<in> lock_records (sys_repo y). ol_ResourceID r = ol_ResourceID h \<and> ol_ClusterID r = ol_ClusterID h \<and>
           ol_ExpiresAt r \<ge> ol_ExpiresAt h))"

lemma renew_tick_spec:
  assumes "renew_tick env ttl h s = (x, s')" "locks_wf s"
  shows "locks_wf s' \<and>
    (\<forall>r \<in> lock_records s. ol_ResourceID r \<noteq> ol_ResourceID h \<longrightarrow> r \<in> lock_records s') \<and>
    (\<forall>h'. x = Inr h' \<longrightarrow> h' \<in> lock_records s' \<and> ol_ResourceID h' = ol_ResourceID h \<and> ol_ClusterID h' = ol_ClusterID h \<and>
       ol_ExpiresAt h' = oe_now env + ttl \<and>
       (\<exists>r \<in> lock_records s. ol_ResourceID r = ol_ResourceID h \<and> ol_ClusterID r = ol_ClusterID h \<and> ol_OperationID r = ol_OperationID h))"
proof (cases "oe_authority env = None \<and> (\<exists>r \<in> lock_records s. ol_ResourceID r = ol_ResourceID h \<and> ol_ClusterID r = ol_ClusterID h \<and>
    ol_OperationID r = ol_OperationID h)")
  case False
  then have "s' = s" "\<exists>e. x = Inl e" using assms(1)
    by (auto simp: renew_tick_def list_ex_iff split: option.splits if_splits)
  with assms(2) show ?thesis by auto
next
  case True
  then obtain r where r: "r \<in> lock_records s" "ol_ResourceID r = ol_ResourceID h" "ol_ClusterID r = ol_ClusterID h"
    "ol_OperationID r = ol_OperationID h" by blast
  define h' where "h' = h\<lparr>ol_ExpiresAt := time_add (oe_now env) ttl, ol_UpdatedAt := oe_now env\<rparr>"
  have h': "ol_ResourceID h' = ol_ResourceID h" "ol_ClusterID h' = ol_ClusterID h" "ol_ExpiresAt h' = oe_now env + ttl"
    by (simp_all add: h'_def time_add_def)
  have k: "lock_keyed s" and cl: "\<And>a b. a \<in> lock_records s \<Longrightarrow> b \<in> lock_records s \<Longrightarrow> ol_ClusterID a = ol_ClusterID b \<Longrightarrow> a = b"
    using assms(2) by (auto simp: locks_wf_def lock_keyed_def)
  obtain e s1 where put: "PutCoordinationOperationLock (oe_repo env) h' s = (e, s1)" by fastforce
  have x: "s' = s1" "x = (case e of Some y \<Rightarrow> Inl (LostPersist y) | None \<Rightarrow> Inr h')"
    using True assms(1) put by (auto simp: renew_tick_def list_ex_iff Let_def h'_def split: option.splits)
  note post = put_lock [OF put k]
  have other: "ol_ClusterID q \<noteq> ol_ClusterID h'" if "q \<in> lock_records s" "ol_ResourceID q \<noteq> ol_ResourceID h'" for q
    using cl [OF that(1) r(1)] r(2,3) h'(1,2) that(2) by auto
  have "locks_wf s1"
    using post assms(2) other unfolding locks_wf_def lock_keyed_def by (elim conjE disjE) (auto, metis+)
  with post x h' r show ?thesis by (auto split: option.splits)
qed

lemma lock_inv_holder:
  assumes "lock_inv y" "g \<in> set (sys_holders y)" "sys_now y \<le> t" "t < ol_ExpiresAt g"
  shows "\<exists>q \<in> lock_records (sys_repo y). ol_ResourceID q = ol_ResourceID g \<and> ol_ClusterID q = ol_ClusterID g \<and> ol_ExpiresAt q \<ge> ol_ExpiresAt g"
  using assms(1,2) le_less_trans [OF assms(3,4)] unfolding lock_inv_def by blast

lemma lock_inv_step:
  assumes "lock_step ttl y y'" "lock_inv y"
  shows "lock_inv y'"
  using assms
proof (induction rule: lock_step.induct)
  case (lock_acquired y env fresh c p r s')
  have wf: "locks_wf (sys_repo y)" and fresh: "fresh \<notin> ol_ResourceID ` lock_records (sys_repo y)" "fresh \<notin> ol_ResourceID ` set (sys_holders y)"
    using lock_acquired by (auto simp: lock_inv_def)
  note a = acquire_lock_spec [OF lock_acquired(3) wf fresh(1)]
  have keep: "\<exists>q \<in> lock_records s'. ol_ResourceID q = ol_ResourceID h \<and> ol_ClusterID q = ol_ClusterID h \<and> ol_ExpiresAt q \<ge> ol_ExpiresAt h"
    if "h \<in> set (sys_holders y)" "ol_ExpiresAt h > oe_now env" for h
    using that lock_acquired(1,4) a unfolding lock_inv_def by (meson le_less_trans less_le_trans)
  show ?case using a keep fresh(2) lock_acquired(4) by (auto simp: lock_inv_def)
next
  case (lock_refused y env fresh c p e s')
  have wf: "locks_wf (sys_repo y)" and fresh: "fresh \<notin> ol_ResourceID ` lock_records (sys_repo y)"
    using lock_refused by (auto simp: lock_inv_def)
  note a = acquire_lock_spec [OF lock_refused(3) wf fresh]
  have keep: "\<exists>q \<in> lock_records s'. ol_ResourceID q = ol_ResourceID h \<and> ol_ClusterID q = ol_ClusterID h \<and> ol_ExpiresAt q \<ge> ol_ExpiresAt h"
    if "h \<in> set (sys_holders y)" "ol_ExpiresAt h > oe_now env" for h
    using that lock_refused(1,4) a unfolding lock_inv_def by (meson le_less_trans less_le_trans)
  show ?case using a keep lock_refused(4) by (auto simp: lock_inv_def)
next
  case (lock_renewed y env hs1 h hs2 h' s')
  have wf: "locks_wf (sys_repo y)" and d: "distinct (map ol_ResourceID (hs1 @ h # hs2))" using lock_renewed by (auto simp: lock_inv_def)
  note a = renew_tick_spec [OF lock_renewed(3) wf]
  have keep: "\<exists>q \<in> lock_records s'. ol_ResourceID q = ol_ResourceID g \<and> ol_ClusterID q = ol_ClusterID g \<and> ol_ExpiresAt q \<ge> ol_ExpiresAt g"
    if g: "g \<in> set hs1 \<union> set hs2" "ol_ExpiresAt g > oe_now env" for g
  proof -
    obtain q where q: "q \<in> lock_records (sys_repo y)" "ol_ResourceID q = ol_ResourceID g" "ol_ClusterID q = ol_ClusterID g" "ol_ExpiresAt q \<ge> ol_ExpiresAt g"
      using lock_inv_holder [of y g "oe_now env"] g lock_renewed by auto
    moreover have "ol_ResourceID g \<noteq> ol_ResourceID h" using d imageI [of g _ ol_ResourceID] g(1) by fastforce
    ultimately show ?thesis using a by metis
  qed
  have h': "h' \<in> lock_records s'" "ol_ResourceID h' = ol_ResourceID h" using a by auto
  show ?case using a keep d h' by (auto simp: lock_inv_def)
next
  case (lock_lost y env hs1 h hs2 e s')
  have wf: "locks_wf (sys_repo y)" and d: "distinct (map ol_ResourceID (hs1 @ h # hs2))" using lock_lost by (auto simp: lock_inv_def)
  note a = renew_tick_spec [OF lock_lost(3) wf]
  have keep: "\<exists>q \<in> lock_records s'. ol_ResourceID q = ol_ResourceID g \<and> ol_ClusterID q = ol_ClusterID g \<and> ol_ExpiresAt q \<ge> ol_ExpiresAt g"
    if g: "g \<in> set hs1 \<union> set hs2" "ol_ExpiresAt g > oe_now env" for g
  proof -
    obtain q where q: "q \<in> lock_records (sys_repo y)" "ol_ResourceID q = ol_ResourceID g" "ol_ClusterID q = ol_ClusterID g" "ol_ExpiresAt q \<ge> ol_ExpiresAt g"
      using lock_inv_holder [of y g "oe_now env"] g lock_lost by auto
    moreover have "ol_ResourceID g \<noteq> ol_ResourceID h" using d imageI [of g _ ol_ResourceID] g(1) by fastforce
    ultimately show ?thesis using a by metis
  qed
  show ?case using a keep d by (auto simp: lock_inv_def)
next
  case (lock_released y env hs1 h hs2)
  obtain e s' where del: "DeleteCoordinationOperationLock (oe_repo env) (ol_ResourceID h) (sys_repo y) = (e, s')" by fastforce
  have wf: "locks_wf (sys_repo y)" and d: "distinct (map ol_ResourceID (hs1 @ h # hs2))" using lock_released by (auto simp: lock_inv_def)
  have "lock_keyed (sys_repo y)" using wf by (simp add: locks_wf_def lock_keyed_def)
  note a = delete_lock [OF del this]
  have wf': "locks_wf s'" using a wf unfolding locks_wf_def lock_keyed_def by auto
  have keep: "\<exists>q \<in> lock_records s'. ol_ResourceID q = ol_ResourceID g \<and> ol_ClusterID q = ol_ClusterID g \<and> ol_ExpiresAt q \<ge> ol_ExpiresAt g"
    if g: "g \<in> set hs1 \<union> set hs2" "ol_ExpiresAt g > oe_now env" for g
  proof -
    obtain q where q: "q \<in> lock_records (sys_repo y)" "ol_ResourceID q = ol_ResourceID g" "ol_ClusterID q = ol_ClusterID g" "ol_ExpiresAt q \<ge> ol_ExpiresAt g"
      using lock_inv_holder [of y g "oe_now env"] g lock_released by auto
    moreover have "ol_ResourceID g \<noteq> ol_ResourceID h" using d imageI [of g _ ol_ResourceID] g(1) by fastforce
    ultimately show ?thesis using a by auto
  qed
  show ?case using wf' keep d by (auto simp: lock_inv_def release_lock_def del)
next
  case (lock_other y t' s')
  then have "lock_records s' = lock_records (sys_repo y)" "locks_wf s' = locks_wf (sys_repo y)"
    by (simp_all add: lock_records_def locks_wf_def)
  with lock_other show ?case by (auto simp: lock_inv_def dest: le_less_trans)
qed

section \<open>Properties\<close>

text \<open>
  (C15) Mutual exclusion of operations. In every state reachable from a well-formed lock table
  without holders, by acquisitions, renewals, releases and lost renewals at instants that do
  not go back, the table has at most one record per cluster, and two holders of the same
  cluster whose locks have not run out are the same holder.
\<close>

theorem operation_lock_exclusive:
  assumes "locks_wf s0" "(lock_step ttl)\<^sup>*\<^sup>* \<lparr>sys_now = t0, sys_repo = s0, sys_holders = []\<rparr> y"
  shows "(\<forall>a \<in> lock_records (sys_repo y). \<forall>b \<in> lock_records (sys_repo y). ol_ClusterID a = ol_ClusterID b \<longrightarrow> a = b) \<and>
    (\<forall>h \<in> set (sys_holders y). \<forall>g \<in> set (sys_holders y). sys_now y < ol_ExpiresAt h \<and> sys_now y < ol_ExpiresAt g \<and>
       ol_ClusterID h = ol_ClusterID g \<longrightarrow> h = g)"
proof -
  have "lock_inv y" using assms(2)
  proof (induction rule: rtranclp_induct)
    case base
    show ?case using assms(1) by (simp add: lock_inv_def)
  next
    case (step y z)
    then show ?case using lock_inv_step by blast
  qed
  then have wf: "locks_wf (sys_repo y)" and d: "distinct (map ol_ResourceID (sys_holders y))" and
    rec: "\<And>h. h \<in> set (sys_holders y) \<Longrightarrow> ol_ExpiresAt h > sys_now y \<Longrightarrow>
      \<exists>r \<in> lock_records (sys_repo y). ol_ResourceID r = ol_ResourceID h \<and> ol_ClusterID r = ol_ClusterID h"
    unfolding lock_inv_def by blast+
  have one: "a = b" if "a \<in> lock_records (sys_repo y)" "b \<in> lock_records (sys_repo y)" "ol_ClusterID a = ol_ClusterID b" for a b
    using wf that unfolding locks_wf_def by blast
  have "h = g" if hg: "h \<in> set (sys_holders y)" "g \<in> set (sys_holders y)" "sys_now y < ol_ExpiresAt h" "sys_now y < ol_ExpiresAt g"
    "ol_ClusterID h = ol_ClusterID g" for h g
  proof -
    obtain r q where "r \<in> lock_records (sys_repo y)" "ol_ResourceID r = ol_ResourceID h" "ol_ClusterID r = ol_ClusterID h"
      "q \<in> lock_records (sys_repo y)" "ol_ResourceID q = ol_ResourceID g" "ol_ClusterID q = ol_ClusterID g"
      using rec [OF hg(1,3)] rec [OF hg(2,4)] by blast
    with one [of r q] hg(5) have "ol_ResourceID h = ol_ResourceID g" by simp
    with d hg(1,2) show ?thesis by (auto simp: distinct_map dest: inj_onD)
  qed
  with one show ?thesis by blast
qed

text \<open>
  Acquisition and renewal of an operation lock. A lock is granted only when no
  unexpired lock on the cluster is in the table; a renewal succeeds only while the very
  record (same identifier, cluster and operation) is still there, and otherwise the holder's
  operation is cancelled; unexpired locks of other clusters are kept by both.
\<close>

theorem operation_lock_acquire_renew:
  assumes "locks_wf s" "fresh \<notin> ol_ResourceID ` lock_records s"
  shows "(\<forall>r s'. acquire_lock env ttl c p fresh s = (Inr r, s') \<longrightarrow>
       r \<in> lock_records s' \<and> ol_ClusterID r = c \<and> ol_OperationID r = p \<and> ol_ExpiresAt r = oe_now env + ttl \<and>
       (\<forall>q \<in> lock_records s. ol_ClusterID q = c \<longrightarrow> ol_ExpiresAt q \<le> oe_now env)) \<and>
    (\<forall>x s' q. acquire_lock env ttl c p fresh s = (x, s') \<and> q \<in> lock_records s \<and> oe_now env < ol_ExpiresAt q \<longrightarrow> q \<in> lock_records s') \<and>
    (\<forall>h h' s'. renew_tick env ttl h s = (Inr h', s') \<longrightarrow> h' \<in> lock_records s' \<and> ol_ExpiresAt h' = oe_now env + ttl \<and>
       (\<exists>r \<in> lock_records s. ol_ResourceID r = ol_ResourceID h \<and> ol_ClusterID r = ol_ClusterID h \<and> ol_OperationID r = ol_OperationID h)) \<and>
    (\<forall>h. oe_authority env = None \<and> (\<forall>r \<in> lock_records s. ol_ResourceID r \<noteq> ol_ResourceID h) \<longrightarrow>
       renew_tick env ttl h s = (Inl LostRecord, s))"
proof (intro conjI)
  show "\<forall>r s'. acquire_lock env ttl c p fresh s = (Inr r, s') \<longrightarrow>
       r \<in> lock_records s' \<and> ol_ClusterID r = c \<and> ol_OperationID r = p \<and> ol_ExpiresAt r = oe_now env + ttl \<and>
       (\<forall>q \<in> lock_records s. ol_ClusterID q = c \<longrightarrow> ol_ExpiresAt q \<le> oe_now env)"
    using acquire_lock_spec [OF _ assms] by (metis not_le)
  show "\<forall>x s' q. acquire_lock env ttl c p fresh s = (x, s') \<and> q \<in> lock_records s \<and> oe_now env < ol_ExpiresAt q \<longrightarrow> q \<in> lock_records s'"
    using acquire_lock_spec [OF _ assms] by blast
  show "\<forall>h h' s'. renew_tick env ttl h s = (Inr h', s') \<longrightarrow> h' \<in> lock_records s' \<and> ol_ExpiresAt h' = oe_now env + ttl \<and>
       (\<exists>r \<in> lock_records s. ol_ResourceID r = ol_ResourceID h \<and> ol_ClusterID r = ol_ClusterID h \<and> ol_OperationID r = ol_OperationID h)"
    using renew_tick_spec [OF _ assms(1)] by blast
  show "\<forall>h. oe_authority env = None \<and> (\<forall>r \<in> lock_records s. ol_ResourceID r \<noteq> ol_ResourceID h) \<longrightarrow>
       renew_tick env ttl h s = (Inl LostRecord, s)"
    by (auto simp: renew_tick_def list_ex_iff)
qed

text \<open>
  A healthy holder renews in time. For every lifetime a lock is configured with, the
  renewal interval is positive and shorter than the lifetime (for lifetimes of at least two
  nanoseconds), so that a tick comes before the lock expires; for lifetimes over thirty
  milliseconds it is exactly a third.
\<close>

theorem renewInterval_bounds:
  assumes "2 \<le> ttl"
  shows "0 < renewInterval ttl \<and> renewInterval ttl < ttl \<and> (30 * millisecond \<le> ttl \<longrightarrow> renewInterval ttl = ttl div 3)"
  using assms by (auto simp: renewInterval_def millisecond_def Let_def)

theorem renewInterval_bounds_witness: "renewInterval (15 * minute) = 5 * minute"
  using renewInterval_bounds [of "15 * minute"] by (simp add: minute_def second_def millisecond_def)

abbreviation sampleLockEnv :: lock_env where
  "sampleLockEnv \<equiv> \<lparr>oe_authority = None, oe_now = 5, oe_repo = \<lparr>env_now = 5, env_commit = \<lambda>_ _. CommitApplied\<rparr>\<rparr>"

abbreviation sampleLock :: OperationLockRecord where
  "sampleLock \<equiv> \<lparr>ol_ResourceID = sampleID (CHR ''3''), ol_ClusterID = sampleID (CHR ''1''), ol_OperationID = sampleID (CHR ''2''),
     ol_ExpiresAt = 105, ol_CreatedAt = 5, ol_UpdatedAt = 5\<rparr>"

lemma sample_locks_wf: "locks_wf emptySnapshot" "lock_records emptySnapshot = {}"
  by (simp_all add: locks_wf_def lock_records_def emptySnapshot_def)

lemma sample_acquire_lock:
  "\<exists>s'. acquire_lock sampleLockEnv 100 (sampleID (CHR ''1'')) (sampleID (CHR ''2'')) (sampleID (CHR ''3'')) emptySnapshot = (Inr sampleLock, s')"
  by (simp add: acquire_lock_def CoordinationOperationLocks_def sorted_values_def emptySnapshot_def PutCoordinationOperationLock_def
      IsZero_def commitSnapshotLocked_def time_add_def Let_def)

theorem operation_lock_exclusive_witness:
  "\<exists>y :: lock_sys. sampleLock \<in> set (sys_holders y) \<and> {h \<in> set (sys_holders y). ol_ClusterID h = sampleID (CHR ''1'') \<and> sys_now y < ol_ExpiresAt h} = {sampleLock}"
proof -
  obtain s' where a: "acquire_lock sampleLockEnv 100 (sampleID (CHR ''1'')) (sampleID (CHR ''2'')) (sampleID (CHR ''3'')) emptySnapshot = (Inr sampleLock, s')"
    using sample_acquire_lock by blast
  let ?start = "\<lparr>sys_now = 1, sys_repo = emptySnapshot, sys_holders = []\<rparr>"
  let ?y = "\<lparr>sys_now = 5, sys_repo = s', sys_holders = [sampleLock]\<rparr>"
  have "lock_step 100 ?start ?y"
    using lock_acquired [of ?start sampleLockEnv "sampleID (CHR ''3'')" 100 "sampleID (CHR ''1'')" "sampleID (CHR ''2'')" sampleLock s'] a sample_locks_wf
    by simp
  then have "(lock_step 100)\<^sup>*\<^sup>* ?start ?y" by simp
  note ex = operation_lock_exclusive [OF sample_locks_wf(1) this]
  show ?thesis
    by (rule exI [of _ ?y]) (use ex in auto)
qed

theorem operation_lock_acquire_renew_witness:
  "\<exists>s'. acquire_lock sampleLockEnv 100 (sampleID (CHR ''1'')) (sampleID (CHR ''2'')) (sampleID (CHR ''3'')) emptySnapshot = (Inr sampleLock, s') \<and>
     sampleLock \<in> lock_records s' \<and> renew_tick sampleLockEnv 100 sampleLock emptySnapshot = (Inl LostRecord, emptySnapshot)"
proof -
  have fresh: "sampleID (CHR ''3'') \<notin> ol_ResourceID ` lock_records emptySnapshot" by (simp add: sample_locks_wf)
  note p = operation_lock_acquire_renew [OF sample_locks_wf(1) fresh, of sampleLockEnv 100 "sampleID (CHR ''1'')" "sampleID (CHR ''2'')"]
  from sample_acquire_lock p show ?thesis by (auto simp: sample_locks_wf)
qed

end
