(* ===== verification/Failure_Window.thy ===== *)
theory Failure_Window
  imports Model_Types "HOL-Library.Signed_Division" "HOL-Library.Sublist"
begin

text \<open>
  The failure window (\<^verbatim>\<open>internal/coordination/failure_window.go\<close>): automatic recovery of a
  cluster starts only after its primary has failed a number of consecutive discovery checks
  over a minimum time, none of them too far from the one before. The theory holds the window's
  operations, an abstract account of what one cluster's window has seen (\<open>run\<close>, the list of
  instants of the current failure series) with the lemma that the window refines it, and the
  two halves of the contract: a stable failure is backed by that many observations with no
  healthy one in between, and a primary that keeps failing is declared stable.
\<close>

section \<open>Model\<close>

record failureSeries =
  fs_startedAt :: go_time
  fs_lastObserved :: go_time
  fs_checks :: "go_time list"

record FailureWindow =
  fw_requiredChecks :: int
  fw_requiredDuration :: duration
  fw_maximumGap :: duration
  fw_series :: "(rid \<times> failureSeries) list"

text \<open>An option is the gap it configures; \<open>None\<close> is a nil option.\<close>

type_synonym FailureWindowOption = "duration option"

definition WithMaximumObservationGap :: "duration \<Rightarrow> FailureWindow \<Rightarrow> FailureWindow" where
  "WithMaximumObservationGap maximumGap window =
     (if maximumGap > 0 then window\<lparr>fw_maximumGap := maximumGap\<rparr> else window)"

definition apply_option :: "FailureWindow \<Rightarrow> FailureWindowOption \<Rightarrow> FailureWindow" where
  "apply_option window opt = (case opt of None \<Rightarrow> window | Some gap \<Rightarrow> WithMaximumObservationGap gap window)"

text \<open>Twice the duration is a product of 64-bit integers; the quotient truncates.\<close>

definition NewFailureWindow :: "int \<Rightarrow> duration \<Rightarrow> FailureWindowOption list \<Rightarrow> FailureWindow" where
  "NewFailureWindow checks0 duration0 options =
     (let requiredChecks = (if checks0 \<le> 0 then 6 else checks0);
          requiredDuration = (if duration0 \<le> 0 then 30 * second else duration0);
          maximumGap = signed_take_bit 63 (2 * requiredDuration) sdiv requiredChecks
      in foldl apply_option
           \<lparr>fw_requiredChecks = requiredChecks, fw_requiredDuration = requiredDuration,
            fw_maximumGap = maximumGap, fw_series = []\<rparr> options)"

definition series_restarts :: "FailureWindow \<Rightarrow> failureSeries option \<Rightarrow> go_time \<Rightarrow> bool" where
  "series_restarts window found observedAt =
     (case found of
        None \<Rightarrow> True
      | Some series \<Rightarrow> observedAt < fs_startedAt series \<or>
          (\<not> IsZero (fs_lastObserved series) \<and> time_sub observedAt (fs_lastObserved series) > fw_maximumGap window))"

definition extend_series :: "int \<Rightarrow> failureSeries \<Rightarrow> go_time \<Rightarrow> failureSeries" where
  "extend_series requiredChecks series observedAt =
     (let checks = fs_checks series @ [observedAt];
          checks = (if int (length checks) > requiredChecks
                    then drop (length checks - nat requiredChecks) checks else checks)
      in series\<lparr>fs_lastObserved := observedAt, fs_checks := checks\<rparr>)"

definition Record :: "FailureWindow \<Rightarrow> rid \<Rightarrow> bool \<Rightarrow> go_time \<Rightarrow> FailureWindow" where
  "Record window clusterID failed observedAt =
     (if \<not> ValidResourceID clusterID \<or> IsZero observedAt then window
      else if \<not> failed then window\<lparr>fw_series := AList.delete clusterID (fw_series window)\<rparr>
      else
        let found = map_of (fw_series window) clusterID in
        if series_restarts window found observedAt
        then window\<lparr>fw_series := AList.update clusterID
               \<lparr>fs_startedAt = observedAt, fs_lastObserved = observedAt, fs_checks = []\<rparr> (fw_series window)\<rparr>
        else case found of None \<Rightarrow> window | Some series \<Rightarrow>
          if \<not> observedAt > fs_lastObserved series then window
          else window\<lparr>fw_series := AList.update clusterID
                 (extend_series (fw_requiredChecks window) series observedAt) (fw_series window)\<rparr>)"

definition stableSeries :: "FailureWindow \<Rightarrow> failureSeries \<Rightarrow> go_time \<Rightarrow> bool" where
  "stableSeries window series now =
     (if int (length (fs_checks series)) < fw_requiredChecks window \<or> IsZero now then False
      else time_sub now (fs_startedAt series) \<ge> fw_requiredDuration window \<and>
           \<not> now < fs_lastObserved series \<and> time_sub now (fs_lastObserved series) \<le> fw_maximumGap window)"

definition Stable :: "FailureWindow \<Rightarrow> rid \<Rightarrow> go_time \<Rightarrow> bool" where
  "Stable window clusterID now =
     (case map_of (fw_series window) clusterID of None \<Rightarrow> False | Some series \<Rightarrow> stableSeries window series now)"

definition Incident :: "FailureWindow \<Rightarrow> rid \<Rightarrow> go_time \<Rightarrow> go_time option" where
  "Incident window clusterID now =
     (case map_of (fw_series window) clusterID of
        None \<Rightarrow> None
      | Some series \<Rightarrow> if \<not> stableSeries window series now then None else Some (fs_startedAt series))"

definition StableIncident :: "FailureWindow \<Rightarrow> rid \<Rightarrow> go_time \<Rightarrow> bool" where
  "StableIncident window clusterID startedAt =
     (if IsZero startedAt then False
      else case map_of (fw_series window) clusterID of
        None \<Rightarrow> False
      | Some series \<Rightarrow> fs_startedAt series = startedAt \<and>
          int (length (fs_checks series)) \<ge> fw_requiredChecks window \<and>
          time_sub (fs_lastObserved series) (fs_startedAt series) \<ge> fw_requiredDuration window)"

section \<open>The abstract window of one cluster\<close>

text \<open>An observation is a cluster, whether its primary failed, and the instant.\<close>

type_synonym observation = "rid \<times> bool \<times> go_time"

definition record_all :: "FailureWindow \<Rightarrow> observation list \<Rightarrow> FailureWindow" where
  "record_all window history = foldl (\<lambda>w (c, failed, t). Record w c failed t) window history"

text \<open>The instants of the failures that make up the current series.\<close>

definition run_step :: "duration \<Rightarrow> go_time list \<Rightarrow> bool \<times> go_time \<Rightarrow> go_time list" where
  "run_step gap run obs =
     (let (failed, t) = obs in
      if IsZero t then run
      else if \<not> failed then []
      else if run = [] \<or> t < hd run \<or> time_sub t (last run) > gap then [t]
      else if t \<le> last run then run else run @ [t])"

definition observed :: "rid \<Rightarrow> observation list \<Rightarrow> (bool \<times> go_time) list" where
  "observed c history = map snd (filter (\<lambda>(d, _). d = c) history)"

definition current_run :: "duration \<Rightarrow> rid \<Rightarrow> observation list \<Rightarrow> go_time list" where
  "current_run gap c history = foldl (run_step gap) [] (observed c history)"

definition series_of_run :: "nat \<Rightarrow> go_time list \<Rightarrow> failureSeries option" where
  "series_of_run n run =
     (if run = [] then None
      else Some \<lparr>fs_startedAt = hd run, fs_lastObserved = last run, fs_checks = drop (length run - 1 - n) (tl run)\<rparr>)"

lemma record_all_simps [simp]:
  "record_all w [] = w"
  "record_all w (h @ [(c, failed, t)]) = Record (record_all w h) c failed t"
  by (simp_all add: record_all_def)

lemma current_run_simps [simp]:
  "current_run gap c [] = []"
  "current_run gap c (h @ [(d, obs)]) = (if d = c then run_step gap (current_run gap c h) obs else current_run gap c h)"
  by (simp_all add: current_run_def observed_def)

lemma Record_config [simp]:
  "fw_requiredChecks (Record w c f t) = fw_requiredChecks w"
  "fw_requiredDuration (Record w c f t) = fw_requiredDuration w"
  "fw_maximumGap (Record w c f t) = fw_maximumGap w"
  by (simp_all add: Record_def Let_def split: option.splits)

lemma record_all_config [simp]:
  "fw_requiredChecks (record_all w h) = fw_requiredChecks w"
  "fw_requiredDuration (record_all w h) = fw_requiredDuration w"
  "fw_maximumGap (record_all w h) = fw_maximumGap w"
  by (induction h rule: rev_induct) (auto simp: split_paired_all)

lemma Record_other: "d \<noteq> c \<Longrightarrow> map_of (fw_series (Record w d f t)) c = map_of (fw_series w) c"
  by (auto simp: Record_def Let_def update_conv' delete_conv' split: option.splits)

text \<open>A run: strictly increasing, no zero instant, no gap too long.\<close>

definition run_ok :: "duration \<Rightarrow> go_time list \<Rightarrow> bool" where
  "run_ok gap run \<longleftrightarrow> sorted_wrt (<) run \<and> 0 \<notin> set run \<and> successively (\<lambda>t u. time_sub u t \<le> gap) run"

lemma run_ok_step: "run_ok gap run \<Longrightarrow> run_ok gap (run_step gap run obs)"
proof -
  assume ok: "run_ok gap run"
  obtain failed t where obs: "obs = (failed, t)" by fastforce
  have "sorted_wrt (<) (run @ [t])" if "run \<noteq> []" "last run < t"
    using ok that unfolding run_ok_def
    by (cases run rule: rev_cases) (fastforce simp: sorted_wrt_append)+
  with ok show ?thesis
    by (auto simp: obs run_step_def run_ok_def IsZero_def successively_append_iff Let_def)
qed

lemma current_run_ok: "run_ok gap (current_run gap c h)"
proof (induction h rule: rev_induct)
  case Nil
  show ?case by (simp add: run_ok_def)
next
  case (snoc x h)
  then show ?case by (cases x) (simp add: run_ok_step)
qed

text \<open>The window is the run of each cluster, with the last \<open>requiredChecks\<close> instants kept.\<close>

lemma Record_refines:
  assumes "map_of (fw_series w) c = series_of_run n run" "fw_requiredChecks w = int n" "0 < n" "ValidResourceID c" "run_ok (fw_maximumGap w) run"
  shows "map_of (fw_series (Record w c f t)) c = series_of_run n (run_step (fw_maximumGap w) run (f, t))"
proof (cases "f \<and> \<not> IsZero t")
  case False
  with assms show ?thesis
    by (auto simp: Record_def run_step_def series_of_run_def delete_conv')
next
  case True
  have nz: "run \<noteq> [] \<Longrightarrow> last run \<noteq> 0" using assms(5) by (metis last_in_set run_ok_def)
  have restart: "series_restarts w (map_of (fw_series w) c) t \<longleftrightarrow> run = [] \<or> t < hd run \<or> time_sub t (last run) > fw_maximumGap w"
    using nz by (auto simp: assms(1) series_restarts_def series_of_run_def IsZero_def)
  have drops: "drop (length run - n) (tl run @ [t]) =
      (let cs = drop (length run - Suc n) (tl run) @ [t] in if int (length cs) > int n then drop (length cs - n) cs else cs)" if "run \<noteq> []"
    using that by (cases run; cases "n \<le> length (tl run)") (auto simp: Let_def Suc_diff_le)
  show ?thesis
  proof (cases "run = [] \<or> t < hd run \<or> time_sub t (last run) > fw_maximumGap w")
    case True
    with restart \<open>f \<and> \<not> IsZero t\<close> assms(4) show ?thesis
      by (auto simp: Record_def run_step_def series_of_run_def update_conv' Let_def)
  next
    case False
    with restart \<open>f \<and> \<not> IsZero t\<close> assms(1,2,4) drops show ?thesis
      by (auto simp: Record_def run_step_def series_of_run_def update_conv' extend_series_def Let_def)
  qed
qed

lemma record_all_refines:
  assumes "fw_series w = []" "fw_requiredChecks w = int n" "0 < n" "ValidResourceID c"
  shows "map_of (fw_series (record_all w h)) c = series_of_run n (current_run (fw_maximumGap w) c h)"
proof (induction h rule: rev_induct)
  case Nil
  show ?case by (simp add: assms(1) series_of_run_def)
next
  case (snoc x h)
  obtain d f t where x: "x = (d, f, t)" by (cases x) auto
  show ?case
  proof (cases "d = c")
    case True
    have "fw_requiredChecks (record_all w h) = int n" by (simp add: assms(2))
    from Record_refines [OF snoc this assms(3,4)] current_run_ok True x show ?thesis by simp
  next
    case False
    with snoc x show ?thesis by (simp add: Record_other)
  qed
qed

section \<open>The failures behind a run\<close>

lemma run_step_subseq:
  assumes "subseq run zs" "f \<or> t = 0"
  shows "subseq (run_step gap run (f, t)) (zs @ [t])"
proof -
  have "run_step gap run (f, t) = run \<or> run_step gap run (f, t) = [t] \<or> run_step gap run (f, t) = run @ [t]"
    using assms(2) by (auto simp: run_step_def IsZero_def)
  moreover have "subseq run (zs @ [t])" "subseq (run @ [t]) (zs @ [t])" "subseq [t] (zs @ [t])"
    using assms(1) list_emb_append_mono [of "(=)" "[]" zs "[t]" "[t]"] by (auto intro: subseq_order.trans)
  ultimately show ?thesis by auto
qed

lemma run_suffix:
  "\<exists>h1 h2. h = h1 @ h2 \<and> (\<forall>(d, f, t) \<in> set h2. d = c \<and> t \<noteq> 0 \<longrightarrow> f) \<and>
     subseq (current_run gap c h) (map snd (observed c h2))"
proof (induction h rule: rev_induct)
  case Nil
  show ?case by simp
next
  case (snoc x h)
  obtain d f t where x: "x = (d, f, t)" by (cases x) auto
  obtain h1 h2 where h: "h = h1 @ h2" "\<forall>(d, f, t) \<in> set h2. d = c \<and> t \<noteq> 0 \<longrightarrow> f"
    "subseq (current_run gap c h) (map snd (observed c h2))" using snoc by blast
  have obs: "map snd (observed c (h2 @ [x])) = map snd (observed c h2) @ (if d = c then [t] else [])"
    by (simp add: x observed_def)
  show ?case
  proof (cases "d = c \<and> \<not> f \<and> t \<noteq> 0")
    case True
    then have "current_run gap c (h @ [x]) = []" by (simp add: x run_step_def IsZero_def)
    then show ?thesis by (intro exI [of _ "h @ [x]"] exI [of _ "[]"]) simp
  next
    case False
    have "subseq (current_run gap c (h @ [x])) (map snd (observed c h2) @ (if d = c then [t] else []))"
    proof (cases "d = c")
      case True
      with False have "f \<or> t = 0" by simp
      from run_step_subseq [OF h(3) this] True show ?thesis by (simp add: x)
    next
      case False
      with h(3) show ?thesis by (simp add: x)
    qed
    then have "subseq (current_run gap c (h @ [x])) (map snd (observed c (h2 @ [x])))" by (simp only: obs)
    moreover have "\<forall>(d, f, t) \<in> set (h2 @ [x]). d = c \<and> t \<noteq> 0 \<longrightarrow> f" using h(2) False by (simp add: x) blast
    moreover have "h @ [x] = h1 @ (h2 @ [x])" using h(1) by simp
    ultimately show ?thesis by blast
  qed
qed

text \<open>A cluster that keeps failing: its run grows with every further observation.\<close>

fun steady :: "duration \<Rightarrow> go_time \<Rightarrow> (bool \<times> go_time) list \<Rightarrow> bool" where
  "steady gap t [] = True"
| "steady gap t ((f, u) # obs) = (f \<and> t < u \<and> time_sub u t \<le> gap \<and> steady gap u obs)"

lemma run_grows:
  assumes "steady gap (last run) obs" "run \<noteq> []" "0 < hd run" "run_ok gap run"
  shows "foldl (run_step gap) run obs = run @ map snd obs"
  using assms
proof (induction obs arbitrary: run)
  case Nil
  show ?case by simp
next
  case (Cons x obs)
  obtain f t where x: "x = (f, t)" by (cases x)
  with Cons.prems have f: "f" "last run < t" "time_sub t (last run) \<le> gap" "steady gap t obs" by auto
  have "hd run \<le> last run" using Cons.prems(2,4) last_in_set [of "tl run"] by (cases run) (auto simp: run_ok_def intro: less_imp_le)
  with f Cons.prems have s: "run_step gap run x = run @ [t]" by (auto simp: x run_step_def IsZero_def)
  have "run_ok gap (run @ [t])" using run_ok_step [OF Cons.prems(4), of x] s by simp
  with Cons.IH [of "run @ [t]"] f Cons.prems s show ?case by (simp add: x)
qed

lemma run_instants: "set (foldl (run_step gap) run obs) \<subseteq> set run \<union> snd ` set obs"
proof (induction obs arbitrary: run)
  case (Cons x obs)
  have "set (run_step gap run x) \<subseteq> insert (snd x) (set run)"
    by (cases x) (auto simp: run_step_def Let_def)
  with Cons.IH [of "run_step gap run x"] show ?case by auto
qed simp

lemma run_reaches:
  assumes "\<forall>(f, u) \<in> set pre. 0 < u \<and> u \<le> t" "0 < t" "steady gap t obs"
  shows "\<exists>run. foldl (run_step gap) [] (pre @ (True, t) # obs) = run @ map snd obs \<and> run \<noteq> [] \<and> hd run \<le> t \<and> last run = t"
proof -
  define run0 where "run0 = foldl (run_step gap) [] pre"
  define run where "run = run_step gap run0 (True, t)"
  have "set run0 \<subseteq> snd ` set pre" using run_instants [of gap "[]" pre] by (simp add: run0_def)
  then have u: "0 < u \<and> u \<le> t" if "u \<in> set run0" for u using assms(1) that by fastforce
  have ok: "run_ok gap (foldl (run_step gap) [] os)" for os
    by (induction os rule: rev_induct) (simp_all add: run_ok_step, simp add: run_ok_def)
  have run: "run \<noteq> []" "last run = t" "0 < hd run \<and> hd run \<le> t"
    using u [of "last run0"] u [of "hd run0"] assms(2) by (auto simp: run_def run_step_def IsZero_def)
  have "run_ok gap run" using ok [of "pre @ [(True, t)]"] by (simp add: run_def run0_def)
  with run_grows [of gap run obs] run assms(3) have "foldl (run_step gap) run obs = run @ map snd obs" by simp
  then show ?thesis using run by (intro exI [of _ run]) (simp add: run_def run0_def)
qed

section \<open>Configured windows\<close>

lemma apply_options_config:
  "fw_requiredChecks (foldl apply_option w os) = fw_requiredChecks w"
  "fw_requiredDuration (foldl apply_option w os) = fw_requiredDuration w"
  "fw_series (foldl apply_option w os) = fw_series w"
  by (induction os arbitrary: w) (auto simp: apply_option_def WithMaximumObservationGap_def split: option.splits)

lemma NewFailureWindow_config [simp]:
  "fw_requiredChecks (NewFailureWindow n d os) = (if n \<le> 0 then 6 else n)"
  "fw_requiredDuration (NewFailureWindow n d os) = (if d \<le> 0 then 30 * second else d)"
  "fw_series (NewFailureWindow n d os) = []"
  by (simp_all add: NewFailureWindow_def apply_options_config Let_def)

lemma window_series:
  assumes "w = NewFailureWindow n d os" "ValidResourceID c"
  shows "map_of (fw_series (record_all w h)) c = series_of_run (nat (fw_requiredChecks w)) (current_run (fw_maximumGap w) c h)"
  using record_all_refines [of w "nat (fw_requiredChecks w)" c h] assms by simp

lemma run_checks: "run \<noteq> [] \<Longrightarrow> 0 < m \<Longrightarrow> m \<le> int (length (drop (length run - 1 - nat m) (tl run))) \<longleftrightarrow> m < int (length run)"
  by (cases run) auto

section \<open>Properties\<close>

text \<open>
  (C19) A stable failure is real. When the window reports a cluster as stably failed, the
  history of observations ends with a stretch in which the cluster was never seen healthy and
  from which more failed observations than the required number can be picked, at strictly
  increasing instants, no two neighbours further apart than the maximum gap, the first at least
  the required duration ago and the last within the maximum gap. (Differences of instants are
  Go's saturating \<^verbatim>\<open>Sub\<close>.)
\<close>

theorem failure_window_safe:
  assumes "w = NewFailureWindow n d os" "ValidResourceID c" "Stable (record_all w h) c now"
  shows "\<exists>h1 h2 run. h = h1 @ h2 \<and> (\<forall>(e, failed, t) \<in> set h2. e = c \<and> t \<noteq> 0 \<longrightarrow> failed) \<and>
    subseq run (map snd (observed c h2)) \<and> sorted_wrt (<) run \<and> int (length run) > fw_requiredChecks w \<and>
    successively (\<lambda>t u. time_sub u t \<le> fw_maximumGap w) run \<and>
    time_sub now (hd run) \<ge> fw_requiredDuration w \<and> last run \<le> now \<and> time_sub now (last run) \<le> fw_maximumGap w"
proof -
  let ?run = "current_run (fw_maximumGap w) c h"
  have pos: "0 < fw_requiredChecks w" using assms(1) by simp
  have ne: "?run \<noteq> []" using assms(3) window_series [OF assms(1,2), of h]
    by (auto simp: Stable_def series_of_run_def split: if_splits)
  obtain h1 h2 where "h = h1 @ h2" "\<forall>(e, failed, t) \<in> set h2. e = c \<and> t \<noteq> 0 \<longrightarrow> failed" "subseq ?run (map snd (observed c h2))"
    using run_suffix by blast
  moreover have "fw_requiredChecks w < int (length ?run)" "time_sub now (hd ?run) \<ge> fw_requiredDuration w"
    "last ?run \<le> now" "time_sub now (last ?run) \<le> fw_maximumGap w"
    using assms(3) window_series [OF assms(1,2), of h] ne run_checks [OF ne pos]
    by (auto simp: Stable_def series_of_run_def stableSeries_def split: if_splits)
  moreover have "sorted_wrt (<) ?run" "successively (\<lambda>t u. time_sub u t \<le> fw_maximumGap w) ?run"
    using current_run_ok [of "fw_maximumGap w" c h] by (simp_all add: run_ok_def)
  ultimately show ?thesis by blast
qed

text \<open>
  (C29) A primary that keeps failing is declared failed. Once a cluster has been observed
  failing at an instant no earlier than all observations before it, and then at least the
  required number of times more, each later than the one before and within the maximum gap,
  the window reports it as stable at every instant that is the required duration after the
  first of them and within the maximum gap of the last, with an incident that started no
  later than that first one.
\<close>

theorem failure_window_live:
  assumes "w = NewFailureWindow n d os" "ValidResourceID c"
    "observed c h = pre @ (True, t) # obs" "\<forall>(f, u) \<in> set pre. 0 < u \<and> u \<le> t" "0 < t"
    "steady (fw_maximumGap w) t obs" "fw_requiredChecks w \<le> int (length obs)"
    "fw_requiredDuration w \<le> time_sub now t" "last (t # map snd obs) \<le> now" "now \<noteq> 0"
    "time_sub now (last (t # map snd obs)) \<le> fw_maximumGap w"
  shows "Stable (record_all w h) c now \<and> (\<exists>startedAt \<le> t. Incident (record_all w h) c now = Some startedAt)"
proof -
  obtain run where run: "current_run (fw_maximumGap w) c h = run @ map snd obs" "run \<noteq> []" "hd run \<le> t" "last run = t"
    using run_reaches [OF assms(4,5,6)] assms(3) by (auto simp: current_run_def)
  let ?run = "run @ map snd obs"
  have last: "last ?run = last (t # map snd obs)" using run(2,4) by (cases obs) auto
  have pos: "0 < fw_requiredChecks w" using assms(1) by simp
  have len: "fw_requiredChecks w < int (length ?run)" using assms(7) run(2) by (cases run) auto
  have dur: "fw_requiredDuration w \<le> time_sub now (hd run)" using assms(8) run(3) by (auto simp: time_sub_def)
  have found: "map_of (fw_series (record_all w h)) c = Some \<lparr>fs_startedAt = hd run, fs_lastObserved = last ?run,
      fs_checks = drop (length ?run - 1 - nat (fw_requiredChecks w)) (tl ?run)\<rparr>"
    using window_series [OF assms(1,2), of h] run(1,2) by (simp add: series_of_run_def)
  have "stableSeries (record_all w h) \<lparr>fs_startedAt = hd run, fs_lastObserved = last ?run,
      fs_checks = drop (length ?run - 1 - nat (fw_requiredChecks w)) (tl ?run)\<rparr> now"
    using run_checks [of ?run, OF _ pos] len dur assms(9-11) run(2) last
    by (auto simp: stableSeries_def IsZero_def not_less simp del: length_drop)
  with found run(3) show ?thesis by (auto simp: Stable_def Incident_def)
qed

lemma StableIncident_run:
  assumes "w = NewFailureWindow n d os" "ValidResourceID c" "run = current_run (fw_maximumGap w) c h"
  shows "StableIncident (record_all w h) c s \<longleftrightarrow> s \<noteq> 0 \<and> run \<noteq> [] \<and> hd run = s \<and> fw_requiredChecks w < int (length run) \<and>
    fw_requiredDuration w \<le> time_sub (last run) s"
proof -
  have pos: "0 < fw_requiredChecks w" using assms(1) by simp
  show ?thesis
    using window_series [OF assms(1,2), of h] run_checks [OF _ pos, of run] assms(3)
    by (auto simp: StableIncident_def series_of_run_def IsZero_def simp del: length_drop)
qed

text \<open>
  An incident is pinned to its failure series. An incident that has qualified keeps
  qualifying whatever is observed of other clusters; one more observation of its own cluster
  leaves it qualified exactly when it is another failure, not before the series began and
  within the maximum gap of its last failure. A healthy observation, or a failure that starts
  a new series, invalidates it.
\<close>

theorem StableIncident_pinned:
  assumes "w = NewFailureWindow n d os" "ValidResourceID c" "StableIncident (record_all w h) c s"
  shows "(\<forall>e f t. e \<noteq> c \<longrightarrow> StableIncident (record_all w (h @ [(e, f, t)])) c s) \<and>
    (\<forall>f t. t \<noteq> 0 \<longrightarrow> (StableIncident (record_all w (h @ [(c, f, t)])) c s \<longleftrightarrow>
       f \<and> s \<le> t \<and> time_sub t (last (current_run (fw_maximumGap w) c h)) \<le> fw_maximumGap w))"
proof (intro conjI allI impI)
  let ?gap = "fw_maximumGap w"
  let ?run = "current_run ?gap c h"
  note iff = StableIncident_run [OF assms(1,2) refl]
  have run: "s \<noteq> 0" "?run \<noteq> []" "hd ?run = s" "fw_requiredChecks w < int (length ?run)" "fw_requiredDuration w \<le> time_sub (last ?run) s"
    using assms(3) iff [of h s] by auto
  have pos: "0 < fw_requiredChecks w" using assms(1) by simp
  fix f t
  show "StableIncident (record_all w (h @ [(e, f, t)])) c s" if "e \<noteq> c" for e
    using iff [of "h @ [(e, f, t)]" s] run that by (simp del: record_all_simps)
  assume t: "t \<noteq> 0"
  have new: "current_run ?gap c (h @ [(c, f, t)]) = run_step ?gap ?run (f, t)" by simp
  have later: "fw_requiredDuration w \<le> time_sub t s" if "last ?run < t" using run(5) that by (auto simp: time_sub_def)
  show "StableIncident (record_all w (h @ [(c, f, t)])) c s \<longleftrightarrow> f \<and> s \<le> t \<and> time_sub t (last ?run) \<le> ?gap"
    unfolding iff [of "h @ [(c, f, t)]" s] new using run pos t later by (auto simp: run_step_def IsZero_def)
qed

section \<open>A concrete window\<close>

abbreviation sampleWindow :: FailureWindow where
  "sampleWindow \<equiv> NewFailureWindow 2 10 [Some 10]"

abbreviation sampleObservations :: "observation list" where
  "sampleObservations \<equiv> [(sampleID (CHR ''1''), True, 100), (sampleID (CHR ''1''), True, 105), (sampleID (CHR ''1''), True, 111)]"

lemma sample_gap: "fw_maximumGap (NewFailureWindow 2 dur [Some 10]) = 10"
  by (simp add: NewFailureWindow_def apply_option_def WithMaximumObservationGap_def)

lemma sample_observed: "observed (sampleID (CHR ''1'')) sampleObservations = [] @ (True, 100) # [(True, 105), (True, 111)]"
  by (simp add: observed_def)

lemma sample_series:
  "map_of (fw_series (record_all (NewFailureWindow 2 dur [Some 10]) sampleObservations)) (sampleID (CHR ''1'')) =
     Some \<lparr>fs_startedAt = 100, fs_lastObserved = 111, fs_checks = [105, 111]\<rparr>"
  by (simp add: record_all_def Record_def IsZero_def sample_gap series_restarts_def extend_series_def update_conv' Let_def
      time_sub_def max_duration_def min_duration_def)

theorem failure_window_live_witness:
  "Stable (record_all sampleWindow sampleObservations) (sampleID (CHR ''1'')) 112"
  using failure_window_live [OF refl, of "sampleID (CHR ''1'')" sampleObservations "[]" 100 "[(True, 105), (True, 111)]" 2 10 "[Some 10]" 112]
  by (simp add: sample_observed sample_gap time_sub_def max_duration_def min_duration_def)

theorem failure_window_safe_witness:
  "\<exists>run. subseq run (map snd (observed (sampleID (CHR ''1'')) sampleObservations)) \<and> 2 < length run \<and> time_sub 112 (hd run) \<ge> 10"
proof -
  have "Stable (record_all sampleWindow sampleObservations) (sampleID (CHR ''1'')) 112"
    by (simp add: Stable_def sample_series stableSeries_def IsZero_def sample_gap time_sub_def max_duration_def min_duration_def)
  from failure_window_safe [OF refl sampleID_valid(1) this] obtain h1 h2 run where
    h: "sampleObservations = h1 @ h2" and run: "subseq run (map snd (observed (sampleID (CHR ''1'')) h2))" "2 < int (length run)"
      "10 \<le> time_sub 112 (hd run)"
    by auto
  have "suffix (map snd (observed (sampleID (CHR ''1'')) h2)) (map snd (observed (sampleID (CHR ''1'')) (h1 @ h2)))"
    by (simp add: observed_def suffix_def)
  with run(1) have "subseq run (map snd (observed (sampleID (CHR ''1'')) sampleObservations))"
    unfolding h by (meson subseq_order.trans suffix_imp_subseq)
  with run show ?thesis by (intro exI [of _ run]) auto
qed

theorem StableIncident_pinned_witness:
  "StableIncident (record_all sampleWindow (sampleObservations @ [(sampleID (CHR ''2''), False, 120)])) (sampleID (CHR ''1'')) 100"
proof -
  have "StableIncident (record_all sampleWindow sampleObservations) (sampleID (CHR ''1'')) 100"
    by (simp add: StableIncident_def sample_series IsZero_def time_sub_def max_duration_def min_duration_def)
  from StableIncident_pinned [OF refl sampleID_valid(1) this] show ?thesis by (simp del: append_Cons)
qed

text \<open>
  The two ways of judging a series do not agree: it is an incident, on which recovery starts,
  as soon as the required duration has passed up to the present, while \<^verbatim>\<open>StableIncident\<close> counts
  the duration only up to the last observation and still refuses it.
\<close>

theorem stable_incident_lags:
  "Incident (record_all (NewFailureWindow 2 12 [Some 10]) sampleObservations) (sampleID (CHR ''1'')) 113 = Some 100 \<and>
   \<not> StableIncident (record_all (NewFailureWindow 2 12 [Some 10]) sampleObservations) (sampleID (CHR ''1'')) 100"
  by (simp add: Incident_def StableIncident_def sample_series stableSeries_def IsZero_def sample_gap time_sub_def
      max_duration_def min_duration_def)

end
