(* ===== verification/Operations_Store.thy ===== *)
theory Operations_Store
  imports Repository
begin

text \<open>
  The durable operation records of the repository (\<^verbatim>\<open>internal/store/operations.go\<close>, with the
  text limits of \<^verbatim>\<open>retention.go\<close>, the redaction of \<^verbatim>\<open>redaction.go\<close> and the recovery freeze of
  \<^verbatim>\<open>recovery_freeze.go\<close>): how an operation is created under an idempotency key, given its
  plan, moved from stage to stage, finalised with its audit trail and reports, reviewed when
  its outcome stays unknown, and closed when its executor is gone. A mutation returns the
  record, the error, and the repository afterwards, because a commit can report an error for
  a snapshot that it has applied. The redaction of free text (\<^verbatim>\<open>redact.Text\<close>) is the argument
  \<open>redactText\<close>, and the identifiers that \<^verbatim>\<open>NewResourceID\<close> draws are the arguments \<open>fresh\<close>.
\<close>

section \<open>Enumerations and validation\<close>

fun validOperationKind :: "OperationKind \<Rightarrow> bool" where
  "validOperationKind (OperationKindOther _) = False"
| "validOperationKind _ = True"

definition activeOperationStatus :: "OperationStatus \<Rightarrow> bool" where
  "activeOperationStatus status \<longleftrightarrow> status = OperationRunning"

fun workflowStageOrder :: "WorkflowStage \<Rightarrow> int" where
  "workflowStageOrder StageDiscover = 1"
| "workflowStageOrder StagePrecheck = 2"
| "workflowStageOrder StagePlan = 3"
| "workflowStageOrder StageSafetyGuard = 4"
| "workflowStageOrder StageLock = 5"
| "workflowStageOrder StageApprove = 6"
| "workflowStageOrder StageExecute = 7"
| "workflowStageOrder StageVerify = 8"
| "workflowStageOrder StageAudit = 9"
| "workflowStageOrder StageReport = 10"
| "workflowStageOrder StageNone = 0"
| "workflowStageOrder (StageOther _) = 0"

definition operationIntentMatches :: "OperationRecord \<Rightarrow> OperationRecord \<Rightarrow> bool" where
  "operationIntentMatches existing requested \<longleftrightarrow>
     op_ClusterID (or_Operation existing) = op_ClusterID (or_Operation requested) \<and>
     op_Engine (or_Operation existing) = op_Engine (or_Operation requested) \<and>
     op_Kind (or_Operation existing) = op_Kind (or_Operation requested) \<and>
     or_TargetID existing = or_TargetID requested"

definition validateOperationRequest :: "OperationRecord \<Rightarrow> store_error option" where
  "validateOperationRequest operation =
     (if \<not> ValidResourceID (op_ClusterID (or_Operation operation)) then Some (ErrValidation ''operation cluster ID is invalid'')
      else if \<not> ValidResourceID (or_TargetID operation) then Some (ErrValidation ''operation target ID is invalid'')
      else if \<not> Engine_Valid (op_Engine (or_Operation operation)) then Some (ErrValidation ''operation engine is invalid'')
      else if \<not> validOperationKind (op_Kind (or_Operation operation)) then Some (ErrValidation ''operation kind is invalid'')
      else if TrimSpace (or_IdempotencyKey operation) = [] then Some (ErrValidation ''operation idempotency key is required'')
      else None)"

section \<open>Creation and lookup\<close>

text \<open>What a mutation of one operation returns: the record, and the error.\<close>

type_synonym op_result = "(OperationRecord \<times> store_error option) \<times> snapshot"

definition newOperation :: "OperationRecord \<Rightarrow> rid \<Rightarrow> go_time \<Rightarrow> OperationRecord" where
  "newOperation operation fresh now =
     operation\<lparr>or_ResourceID := fresh, or_MetadataRevision := 1, or_CreatedAt := now, or_UpdatedAt := now,
       or_Operation := (or_Operation operation)\<lparr>op_ResourceID := fresh, op_MetadataRevision := 1,
          op_CreatedAt := now, op_UpdatedAt := now, op_Status := OperationPlanned\<rparr>,
       or_Stage := StageDiscover, or_Status := OperationPlanned, or_Attempts := []\<rparr>"

definition CreateOperation :: "repo_env \<Rightarrow> rid \<Rightarrow> OperationRecord \<Rightarrow> snapshot \<Rightarrow> (OperationRecord \<times> bool \<times> store_error option) \<times> snapshot" where
  "CreateOperation env fresh requested s =
     (let operation = requested\<lparr>or_IdempotencyKey := TrimSpace (or_IdempotencyKey requested)\<rparr> in
      case validateOperationRequest operation of
        Some e \<Rightarrow> ((zeroOperationRecord, False, Some e), s)
      | None \<Rightarrow>
        (case map_of (OperationKeys s) (or_IdempotencyKey operation) of
           Some resourceID \<Rightarrow>
             (case map_of (Operations s) resourceID of
                None \<Rightarrow> ((zeroOperationRecord, False, Some (ErrConflict ''operation idempotency index is corrupt'')), s)
              | Some existing \<Rightarrow>
                  if \<not> operationIntentMatches existing operation
                  then ((zeroOperationRecord, False, Some (ErrConflict ''operation idempotency key is already used by another intent'')), s)
                  else ((existing, True, None), s))
         | None \<Rightarrow>
             let activeOperations = length (filter (\<lambda>p. activeOperationStatus (or_Status (snd p))) (Operations s)) in
             if activeOperations \<ge> 128
             then ((zeroOperationRecord, False, Some (ErrValidation ''active operation capacity is exhausted'')), s)
             else
               let operation = newOperation operation fresh (env_now env);
                   (e, s') = commitSnapshotLocked env s
                     (s\<lparr>Operations := AList.update fresh operation (Operations s),
                        OperationKeys := AList.update (or_IdempotencyKey operation) fresh (OperationKeys s)\<rparr>)
               in ((operation, False, e), s')))"

definition repository_Operation :: "rid \<Rightarrow> snapshot \<Rightarrow> OperationRecord option" where
  "repository_Operation resourceID s = map_of (Operations s) resourceID"

definition OperationByIdempotencyKey :: "string \<Rightarrow> snapshot \<Rightarrow> OperationRecord option" where
  "OperationByIdempotencyKey key s =
     (case map_of (OperationKeys s) (TrimSpace key) of None \<Rightarrow> None | Some resourceID \<Rightarrow> map_of (Operations s) resourceID)"

definition repository_Operations :: "rid \<Rightarrow> snapshot \<Rightarrow> OperationRecord list" where
  "repository_Operations clusterID s =
     filter (\<lambda>operation. clusterID = [] \<or> op_ClusterID (or_Operation operation) = clusterID) (map snd (Operations s))"

section \<open>Redaction and text limits\<close>

definition redactAudit :: "(string \<Rightarrow> string) \<Rightarrow> AuditEvent \<Rightarrow> AuditEvent" where
  "redactAudit redactText event =
     event\<lparr>ae_Message := redactText (ae_Message event), ae_Actor := redactText (ae_Actor event)\<rparr>"

definition redactReport :: "(string \<Rightarrow> string) \<Rightarrow> Report \<Rightarrow> Report" where
  "redactReport redactText report =
     report\<lparr>rp_Title := redactText (rp_Title report), rp_Summary := redactText (rp_Summary report)\<rparr>"

definition validateAuditText :: "AuditEvent \<Rightarrow> store_error option" where
  "validateAuditText event =
     (if length (TrimSpace (ae_Actor event)) > 256 \<or> length (TrimSpace (ae_Message event)) > 2048
      then Some (ErrValidation ''audit actor or message exceeds maximum length'') else None)"

definition validateReportText :: "Report \<Rightarrow> store_error option" where
  "validateReportText report =
     (if length (TrimSpace (rp_Title report)) > 256 \<or> length (TrimSpace (rp_Summary report)) > 4096
      then Some (ErrValidation ''report title or summary exceeds maximum length'') else None)"

record OperationTimeline_view =
  tl_Operation :: OperationRecord
  tl_Audits :: "AuditEvent list"
  tl_Reports :: "Report list"

definition OperationTimeline :: "(string \<Rightarrow> string) \<Rightarrow> rid \<Rightarrow> snapshot \<Rightarrow> OperationTimeline_view option" where
  "OperationTimeline redactText resourceID s =
     (case map_of (Operations s) resourceID of
        None \<Rightarrow> None
      | Some operation \<Rightarrow> Some \<lparr>tl_Operation = operation,
          tl_Audits = map (redactAudit redactText) (filter (\<lambda>event. ae_OperationID event = resourceID) (Audits s)),
          tl_Reports = map (redactReport redactText) (filter (\<lambda>report. rp_OperationID report = resourceID) (Reports s))\<rparr>)"

section \<open>Plans\<close>

fun plan_steps_ok :: "int \<Rightarrow> PlanStep list \<Rightarrow> bool" where
  "plan_steps_ok index [] = True"
| "plan_steps_ok index (step # steps) =
     (if ps_Index step \<noteq> index + 1 \<or> TrimSpace (ps_Name step) = [] \<or> TrimSpace (ps_Owner step) = [] then False
      else plan_steps_ok (index + 1) steps)"

definition validateOperationPlan :: "OperationRecord \<Rightarrow> OperationPlan \<Rightarrow> store_error option" where
  "validateOperationPlan operation plan =
     (if pl_OperationID plan \<noteq> or_ResourceID operation then Some (ErrValidation ''operation plan ID does not match operation'')
      else if pl_ClusterID plan \<noteq> op_ClusterID (or_Operation operation)
      then Some (ErrValidation ''operation plan cluster does not match operation'')
      else if \<not> ValidResourceID (pl_SourceID plan) then Some (ErrValidation ''operation plan source ID is invalid'')
      else if pl_TargetID plan \<noteq> or_TargetID operation then Some (ErrValidation ''operation plan target does not match operation'')
      else if TrimSpace (pl_ObservationToken plan) = [] then Some (ErrValidation ''operation plan observation token is required'')
      else if TrimSpace (pl_Digest plan) = [] then Some (ErrValidation ''operation plan digest is required'')
      else if pl_ResourceRevisions plan = [] then Some (ErrValidation ''operation plan resource revisions are required'')
      else if list_ex (\<lambda>(resourceID, revision). \<not> ValidResourceID resourceID \<or> revision = 0) (pl_ResourceRevisions plan)
      then Some (ErrValidation ''operation plan contains an invalid resource revision'')
      else if pl_Steps plan = [] then Some (ErrValidation ''operation plan steps are required'')
      else if \<not> plan_steps_ok 0 (pl_Steps plan) then Some (ErrValidation ''operation plan steps must be ordered and named'')
      else None)"

text \<open>A new revision of a record, which its embedded operation mirrors.\<close>

definition bumpRevision :: "OperationRecord \<Rightarrow> go_time \<Rightarrow> OperationRecord" where
  "bumpRevision operation now =
     operation\<lparr>or_MetadataRevision := or_MetadataRevision operation + 1, or_UpdatedAt := now,
       or_Operation := (or_Operation operation)\<lparr>op_MetadataRevision := or_MetadataRevision operation + 1, op_UpdatedAt := now\<rparr>\<rparr>"

definition commitOperation :: "repo_env \<Rightarrow> rid \<Rightarrow> OperationRecord \<Rightarrow> snapshot \<Rightarrow> snapshot \<Rightarrow> op_result" where
  "commitOperation env resourceID operation s proposed =
     (let (e, s') = commitSnapshotLocked env s
        (proposed\<lparr>Operations := AList.update resourceID operation (Operations s)\<rparr>)
      in ((operation, e), s'))"

definition PutOperationPlan :: "repo_env \<Rightarrow> rid \<Rightarrow> rid \<Rightarrow> uint64 \<Rightarrow> OperationPlan \<Rightarrow> snapshot \<Rightarrow> op_result" where
  "PutOperationPlan env fresh resourceID expectedRevision plan s =
     (case map_of (Operations s) resourceID of
        None \<Rightarrow> ((zeroOperationRecord, Some (ErrValidation ''operation does not exist'')), s)
      | Some operation \<Rightarrow>
          if or_MetadataRevision operation \<noteq> expectedRevision
          then ((zeroOperationRecord, Some (ErrConflict ''operation metadata revision changed'')), s)
          else if terminalOperationStatus (or_Status operation)
          then ((zeroOperationRecord, Some (ErrConflict ''terminal operation cannot accept a plan'')), s)
          else case validateOperationPlan operation plan of
            Some e \<Rightarrow> ((zeroOperationRecord, Some e), s)
          | None \<Rightarrow>
              if pl_Digest (or_Plan operation) \<noteq> []
              then if pl_Digest (or_Plan operation) \<noteq> pl_Digest plan
                   then ((zeroOperationRecord, Some (ErrConflict ''operation plan is immutable'')), s)
                   else ((operation, None), s)
              else
                let now = env_now env;
                    plan' = plan\<lparr>pl_ResourceID := fresh, pl_MetadataRevision := 1, pl_CreatedAt := now, pl_UpdatedAt := now, pl_Stage := StagePlan\<rparr>;
                    operation' = bumpRevision (operation\<lparr>or_Plan := plan', or_Stage := StagePlan\<rparr>) now
                in commitOperation env resourceID operation' s s)"

section \<open>Transitions\<close>

record OperationTransition =
  ot_Stage :: WorkflowStage
  ot_Status :: OperationStatus
  ot_Observation :: string
  ot_Precheck :: "Check list option"
  ot_Attempt :: "StepAttempt option"
  ot_Execution :: "Execution option"
  ot_Verification :: "Verification option"
  ot_FailureClass :: string
  ot_Message :: string

fun maximum_attempt :: "string \<Rightarrow> uint64 \<Rightarrow> StepAttempt list \<Rightarrow> uint64" where
  "maximum_attempt step maximum [] = maximum"
| "maximum_attempt step maximum (candidate # rest) =
     maximum_attempt step (if sa_Step candidate = step \<and> sa_Attempt candidate > maximum then sa_Attempt candidate else maximum) rest"

definition validateAttempt :: "StepAttempt list \<Rightarrow> StepAttempt \<Rightarrow> store_error option" where
  "validateAttempt existing attempt =
     (if TrimSpace (sa_Step attempt) = [] \<or> sa_Attempt attempt = 0 \<or> \<not> validOperationStatus (sa_Status attempt) \<or> IsZero (sa_StartedAt attempt)
      then Some (ErrValidation ''operation step attempt is invalid'')
      else if sa_Attempt attempt \<le> maximum_attempt (sa_Step attempt) 0 existing
      then Some (ErrConflict ''operation step attempt is not monotonic'')
      else None)"

definition verificationReconciliationAllowed :: "OperationRecord \<Rightarrow> OperationTransition \<Rightarrow> bool" where
  "verificationReconciliationAllowed operation transition =
     (case ot_Verification transition of
        None \<Rightarrow> False
      | Some verification \<Rightarrow>
          if or_Status operation \<noteq> OperationIndeterminate then False
          else if ot_Status transition \<noteq> OperationIndeterminate \<and> ot_Status transition \<noteq> OperationSucceeded then False
          else if ot_Status transition = OperationSucceeded \<and> \<not> Successful verification then False
          else if ot_Observation transition \<noteq> [] \<or> ot_Attempt transition \<noteq> None then False
          else if ot_Stage transition \<noteq> StageNone \<and> ot_Stage transition \<noteq> or_Stage operation \<and> ot_Stage transition \<noteq> StageReport then False
          else True)"

definition redactChecks :: "(string \<Rightarrow> string) \<Rightarrow> Check list \<Rightarrow> Check list" where
  "redactChecks redactText checks = map (\<lambda>check. check\<lparr>ck_Message := redactText (ck_Message check)\<rparr>) checks"

text \<open>The parts of \<^verbatim>\<open>applyOperationTransition\<close>, in its order.\<close>

definition transition_stage :: "OperationTransition \<Rightarrow> OperationRecord \<Rightarrow> store_error + OperationRecord" where
  "transition_stage transition operation =
     (if ot_Stage transition = StageNone then Inr operation
      else
        let currentOrder = workflowStageOrder (or_Stage operation); nextOrder = workflowStageOrder (ot_Stage transition) in
        if nextOrder = 0 \<or> nextOrder < currentOrder then Inl (ErrConflict ''operation stage transition is invalid'')
        else Inr (operation\<lparr>or_Stage := ot_Stage transition\<rparr>))"

definition transition_status :: "OperationTransition \<Rightarrow> OperationRecord \<Rightarrow> store_error + OperationRecord" where
  "transition_status transition operation =
     (if ot_Status transition = OperationStatusNone then Inr operation
      else if \<not> validOperationStatus (ot_Status transition) then Inl (ErrValidation ''operation status is invalid'')
      else Inr (operation\<lparr>or_Status := ot_Status transition,
             or_Operation := (or_Operation operation)\<lparr>op_Status := ot_Status transition\<rparr>\<rparr>))"

definition transition_observation :: "OperationTransition \<Rightarrow> OperationRecord \<Rightarrow> store_error + OperationRecord" where
  "transition_observation transition operation =
     (if ot_Observation transition = [] then Inr operation
      else if or_Observation operation \<noteq> [] \<and> or_Observation operation \<noteq> ot_Observation transition
      then Inl (ErrConflict ''operation observation token is immutable'')
      else Inr (operation\<lparr>or_Observation := ot_Observation transition\<rparr>))"

definition transition_precheck :: "(string \<Rightarrow> string) \<Rightarrow> OperationTransition \<Rightarrow> OperationRecord \<Rightarrow> OperationRecord" where
  "transition_precheck redactText transition operation =
     (case ot_Precheck transition of None \<Rightarrow> operation
      | Some checks \<Rightarrow> operation\<lparr>or_Precheck := redactChecks redactText checks\<rparr>)"

definition transition_attempt :: "(string \<Rightarrow> string) \<Rightarrow> OperationTransition \<Rightarrow> OperationRecord \<Rightarrow> store_error + OperationRecord" where
  "transition_attempt redactText transition operation =
     (case ot_Attempt transition of None \<Rightarrow> Inr operation
      | Some attempt \<Rightarrow>
          (case validateAttempt (or_Attempts operation) attempt of
             Some e \<Rightarrow> Inl e
           | None \<Rightarrow> Inr (operation\<lparr>or_Attempts := or_Attempts operation @ [attempt\<lparr>sa_Message := redactText (sa_Message attempt)\<rparr>]\<rparr>)))"

definition transition_execution :: "(string \<Rightarrow> string) \<Rightarrow> OperationTransition \<Rightarrow> OperationRecord \<Rightarrow> OperationRecord" where
  "transition_execution redactText transition operation =
     (case ot_Execution transition of None \<Rightarrow> operation
      | Some execution \<Rightarrow> operation\<lparr>or_Execution :=
          execution\<lparr>ex_OperationID := or_ResourceID operation, ex_Message := redactText (ex_Message execution)\<rparr>\<rparr>)"

definition transition_verification :: "(string \<Rightarrow> string) \<Rightarrow> OperationTransition \<Rightarrow> OperationRecord \<Rightarrow> store_error + OperationRecord" where
  "transition_verification redactText transition operation =
     (case ot_Verification transition of None \<Rightarrow> Inr operation
      | Some verification \<Rightarrow>
          if ve_OperationID verification \<noteq> [] \<and> ve_OperationID verification \<noteq> or_ResourceID operation
          then Inl (ErrValidation ''verification operation ID does not match operation'')
          else Inr (operation\<lparr>or_Verification := verification\<lparr>ve_OperationID := or_ResourceID operation,
                 ve_Checks := redactChecks redactText (ve_Checks verification)\<rparr>\<rparr>))"

definition transition_finish :: "(string \<Rightarrow> string) \<Rightarrow> OperationTransition \<Rightarrow> go_time \<Rightarrow> OperationRecord \<Rightarrow> store_error + OperationRecord" where
  "transition_finish redactText transition now operation =
     (if or_Status operation = OperationSucceeded \<and>
         (\<not> Successful (or_Verification operation) \<or> ve_OperationID (or_Verification operation) \<noteq> or_ResourceID operation)
      then Inl (ErrValidation ''successful operation requires consistent verification evidence'')
      else Inr (bumpRevision (operation\<lparr>or_FailureClass := TrimSpace (ot_FailureClass transition),
             or_Message := redactText (TrimSpace (ot_Message transition))\<rparr>) now))"

definition applyOperationTransition :: "(string \<Rightarrow> string) \<Rightarrow> OperationRecord \<Rightarrow> OperationTransition \<Rightarrow> go_time \<Rightarrow> store_error + OperationRecord" where
  "applyOperationTransition redactText operation transition now =
     (let reconcilingVerification = verificationReconciliationAllowed operation transition in
      if terminalOperationStatus (or_Status operation) \<and> \<not> reconcilingVerification
      then Inl (ErrConflict ''terminal operation is immutable'')
      else
        bindR (transition_stage transition operation) (\<lambda>operation.
        bindR (transition_status transition operation) (\<lambda>operation.
        bindR (transition_observation transition operation) (\<lambda>operation.
        bindR (transition_attempt redactText transition (transition_precheck redactText transition operation)) (\<lambda>operation.
        bindR (transition_verification redactText transition (transition_execution redactText transition operation)) (\<lambda>operation.
        transition_finish redactText transition now operation))))))"

definition TransitionOperation :: "repo_env \<Rightarrow> (string \<Rightarrow> string) \<Rightarrow> rid \<Rightarrow> uint64 \<Rightarrow> OperationTransition \<Rightarrow> snapshot \<Rightarrow> op_result" where
  "TransitionOperation env redactText resourceID expectedRevision transition s =
     (case map_of (Operations s) resourceID of
        None \<Rightarrow> ((zeroOperationRecord, Some (ErrValidation ''operation does not exist'')), s)
      | Some operation \<Rightarrow>
          if or_MetadataRevision operation \<noteq> expectedRevision
          then ((zeroOperationRecord, Some (ErrConflict ''operation metadata revision changed'')), s)
          else if ot_Status transition = OperationRunning \<and> list_ex snd (ConfigurationTasksActive s)
          then ((zeroOperationRecord, Some (ErrConflict ''configuration distribution maintenance active'')), s)
          else case applyOperationTransition redactText operation transition (env_now env) of
            Inl e \<Rightarrow> ((zeroOperationRecord, Some e), s)
          | Inr operation' \<Rightarrow> commitOperation env resourceID operation' s s)"

section \<open>Audits and reports of a finished operation\<close>

definition normalizeFinalAudit :: "(string \<Rightarrow> string) \<Rightarrow> rid \<Rightarrow> AuditEvent \<Rightarrow> rid \<Rightarrow> go_time \<Rightarrow> store_error + AuditEvent" where
  "normalizeFinalAudit redactText fresh event0 operationID now =
     (let event = redactAudit redactText event0 in
      if ae_OperationID event \<noteq> [] \<and> ae_OperationID event \<noteq> operationID
      then Inl (ErrValidation ''audit operation ID does not match operation'')
      else let event = event\<lparr>ae_OperationID := operationID\<rparr> in
        case validateAuditText event of
          Some e \<Rightarrow> Inl e
        | None \<Rightarrow> Inr (event\<lparr>ae_ResourceID := (if ae_ResourceID event = [] then fresh else ae_ResourceID event),
            ae_CreatedAt := (if IsZero (ae_CreatedAt event) then now else ae_CreatedAt event),
            ae_UpdatedAt := now, ae_MetadataRevision := 1\<rparr>))"

text \<open>The loop over the reports stored so far: the one with the same identifier is replaced.\<close>

fun replace_report :: "Report \<Rightarrow> rid \<Rightarrow> go_time \<Rightarrow> Report list \<Rightarrow> store_error + Report list option" where
  "replace_report report operationID now [] = Inr None"
| "replace_report report operationID now (existing # rest) =
     (if rp_ResourceID existing \<noteq> rp_ResourceID report
      then bindR (replace_report report operationID now rest) (\<lambda>r. Inr (map_option (\<lambda>rest'. existing # rest') r))
      else if rp_OperationID existing \<noteq> operationID then Inl (ErrConflict ''report resource belongs to another operation'')
      else Inr (Some (report\<lparr>rp_CreatedAt := rp_CreatedAt existing, rp_UpdatedAt := now,
                 rp_MetadataRevision := rp_MetadataRevision existing + 1\<rparr> # rest)))"

definition upsertFinalReport :: "(string \<Rightarrow> string) \<Rightarrow> rid \<Rightarrow> Report list \<Rightarrow> Report \<Rightarrow> rid \<Rightarrow> go_time \<Rightarrow> store_error + Report list" where
  "upsertFinalReport redactText fresh reports report0 operationID now =
     (let report = redactReport redactText report0 in
      if \<not> terminalOperationStatus (rp_Status report) then Inl (ErrValidation ''report status must be terminal'')
      else if rp_OperationID report \<noteq> [] \<and> rp_OperationID report \<noteq> operationID
      then Inl (ErrValidation ''report operation ID does not match operation'')
      else case validateReportText report of
        Some e \<Rightarrow> Inl e
      | None \<Rightarrow>
          let report = report\<lparr>rp_OperationID := operationID,
                rp_ResourceID := (if rp_ResourceID report = [] then fresh else rp_ResourceID report)\<rparr> in
          bindR (replace_report report operationID now reports) (\<lambda>replaced.
            case replaced of
              Some reports' \<Rightarrow> Inr reports'
            | None \<Rightarrow> Inr (reports @ [report\<lparr>
                rp_CreatedAt := (if IsZero (rp_CreatedAt report) then now else rp_CreatedAt report),
                rp_UpdatedAt := now, rp_MetadataRevision := 1\<rparr>])))"

text \<open>The two loops of \<^verbatim>\<open>finalizeOperationLocked\<close>; each event or report comes with the identifier it would draw.\<close>

fun append_audits :: "(string \<Rightarrow> string) \<Rightarrow> rid \<Rightarrow> go_time \<Rightarrow> (rid \<times> AuditEvent) list \<Rightarrow> AuditEvent list \<Rightarrow> store_error + AuditEvent list" where
  "append_audits redactText operationID now [] audits = Inr audits"
| "append_audits redactText operationID now ((fresh, event) # events) audits =
     bindR (normalizeFinalAudit redactText fresh event operationID now)
       (\<lambda>event'. append_audits redactText operationID now events (audits @ [event']))"

fun upsert_reports :: "(string \<Rightarrow> string) \<Rightarrow> rid \<Rightarrow> go_time \<Rightarrow> (rid \<times> Report) list \<Rightarrow> Report list \<Rightarrow> store_error + Report list" where
  "upsert_reports redactText operationID now [] reports = Inr reports"
| "upsert_reports redactText operationID now ((fresh, report) # rest) reports =
     bindR (upsertFinalReport redactText fresh reports report operationID now)
       (\<lambda>reports'. upsert_reports redactText operationID now rest reports')"

definition finalizeOperationLocked :: "repo_env \<Rightarrow> (string \<Rightarrow> string) \<Rightarrow> rid \<Rightarrow> uint64 \<Rightarrow> OperationTransition \<Rightarrow>
    (rid \<times> AuditEvent) list \<Rightarrow> (rid \<times> Report) list \<Rightarrow> snapshot \<Rightarrow> op_result" where
  "finalizeOperationLocked env redactText resourceID expectedRevision transition audits reports s =
     (case map_of (Operations s) resourceID of
        None \<Rightarrow> ((zeroOperationRecord, Some (ErrValidation ''operation does not exist'')), s)
      | Some operation \<Rightarrow>
          if or_MetadataRevision operation \<noteq> expectedRevision
          then ((zeroOperationRecord, Some (ErrConflict ''operation metadata revision changed'')), s)
          else
            let now = env_now env in
            case bindR (applyOperationTransition redactText operation transition now) (\<lambda>operation'.
                 bindR (append_audits redactText resourceID now audits (Audits s)) (\<lambda>audits'.
                 bindR (upsert_reports redactText resourceID now reports (Reports s)) (\<lambda>reports'.
                 Inr (operation', audits', reports')))) of
              Inl e \<Rightarrow> ((zeroOperationRecord, Some e), s)
            | Inr (operation', audits', reports') \<Rightarrow>
                commitOperation env resourceID operation' s (s\<lparr>Audits := audits', Reports := reports'\<rparr>))"

definition FinalizeOperation :: "repo_env \<Rightarrow> (string \<Rightarrow> string) \<Rightarrow> rid \<Rightarrow> uint64 \<Rightarrow> OperationTransition \<Rightarrow>
    (rid \<times> AuditEvent) list \<Rightarrow> (rid \<times> Report) list \<Rightarrow> snapshot \<Rightarrow> op_result" where
  "FinalizeOperation env redactText resourceID expectedRevision transition audits reports s =
     finalizeOperationLocked env redactText resourceID expectedRevision transition audits reports s"

definition FinalizeAbandonedOperation :: "repo_env \<Rightarrow> (string \<Rightarrow> string) \<Rightarrow> rid \<Rightarrow> uint64 \<Rightarrow> go_time \<Rightarrow> go_time \<Rightarrow> OperationTransition \<Rightarrow>
    (rid \<times> AuditEvent) list \<Rightarrow> (rid \<times> Report) list \<Rightarrow> snapshot \<Rightarrow> (OperationRecord \<times> bool \<times> store_error option) \<times> snapshot" where
  "FinalizeAbandonedOperation env redactText resourceID expectedRevision observedAt staleBefore transition audits reports s =
     (if IsZero observedAt \<or> IsZero staleBefore \<or> staleBefore > observedAt
      then ((zeroOperationRecord, False, Some (ErrValidation ''abandoned operation recovery window is invalid'')), s)
      else case map_of (Operations s) resourceID of
        None \<Rightarrow> ((zeroOperationRecord, False, Some (ErrValidation ''operation does not exist'')), s)
      | Some operation \<Rightarrow>
          if or_MetadataRevision operation \<noteq> expectedRevision \<or> or_Status operation \<noteq> OperationRunning \<or>
             IsZero (or_UpdatedAt operation) \<or> or_UpdatedAt operation > staleBefore
          then ((operation, False, None), s)
          else if list_ex (\<lambda>p. ol_OperationID (snd p) = resourceID \<and> ol_ExpiresAt (snd p) > observedAt) (OperationLocks s)
          then ((operation, False, None), s)
          else case finalizeOperationLocked env redactText resourceID expectedRevision transition audits reports s of
            ((finalized, Some e), s') \<Rightarrow> ((finalized, False, Some e), s')
          | ((finalized, None), s') \<Rightarrow> ((finalized, True, None), s'))"

section \<open>Review of an unknown outcome\<close>

definition normalizeOperationReviewInput :: "string \<Rightarrow> string \<Rightarrow> store_error + string \<times> string" where
  "normalizeOperationReviewInput reviewedBy0 note0 =
     (let reviewedBy = TrimSpace reviewedBy0; rnote = TrimSpace note0 in
      if reviewedBy = [] \<or> length reviewedBy > 256 then Inl (ErrValidation ''operation review actor is invalid'')
      else if rnote = [] \<or> length rnote > 1024
      then Inl (ErrValidation ''operation review note is required and must not exceed 1024 characters'')
      else Inr (reviewedBy, rnote))"

definition validatePersistedOperationReview :: "OperationRecord \<Rightarrow> store_error option" where
  "validatePersistedOperationReview operation =
     (case or_Review operation of
        None \<Rightarrow> None
      | Some review \<Rightarrow>
          if (or_Status operation \<noteq> OperationIndeterminate \<and> or_Status operation \<noteq> OperationSucceeded) \<or>
             IsZero (rv_ReviewedAt review) \<or> rv_Disposition review \<noteq> AcknowledgedIndeterminate
          then Some (ErrValidation ''operation review is inconsistent with the operation outcome'')
          else case normalizeOperationReviewInput (rv_ReviewedBy review) (rv_Note review) of Inl e \<Rightarrow> Some e | Inr _ \<Rightarrow> None)"

definition reviewAudit :: "rid \<Rightarrow> string \<Rightarrow> string \<Rightarrow> AuditEvent" where
  "reviewAudit operationID reviewedBy rnote =
     \<lparr>ae_ResourceID = [], ae_MetadataRevision = 0, ae_CreatedAt = 0, ae_UpdatedAt = 0, ae_OperationID = operationID,
      ae_Stage = StageReport, ae_Actor = reviewedBy,
      ae_Message = ''indeterminate outcome acknowledged after operator review: '' @ rnote\<rparr>"

definition reviewReport :: "rid \<Rightarrow> string \<Rightarrow> Report" where
  "reviewReport operationID rnote =
     \<lparr>rp_ResourceID = [], rp_MetadataRevision = 0, rp_CreatedAt = 0, rp_UpdatedAt = 0, rp_OperationID = operationID,
      rp_Title = ''indeterminate operation review'', rp_Status = OperationIndeterminate,
      rp_Summary = ''operator acknowledged the unresolved outcome: '' @ rnote\<rparr>"

definition ReviewIndeterminateOperation :: "repo_env \<Rightarrow> (string \<Rightarrow> string) \<Rightarrow> rid \<times> rid \<Rightarrow> rid \<Rightarrow> uint64 \<Rightarrow> string \<Rightarrow> string \<Rightarrow> snapshot \<Rightarrow> op_result" where
  "ReviewIndeterminateOperation env redactText fresh resourceID expectedRevision reviewedBy0 note0 s =
     (case normalizeOperationReviewInput reviewedBy0 note0 of
        Inl e \<Rightarrow> ((zeroOperationRecord, Some e), s)
      | Inr (reviewedBy, rnote) \<Rightarrow>
        (case map_of (Operations s) resourceID of
           None \<Rightarrow> ((zeroOperationRecord, Some (ErrNotFound ''operation does not exist'')), s)
         | Some operation \<Rightarrow>
           (case or_Review operation of
              Some review \<Rightarrow>
                if rv_ReviewedBy review = reviewedBy \<and> rv_Note review = rnote \<and> rv_Disposition review = AcknowledgedIndeterminate
                then ((operation, None), s)
                else ((zeroOperationRecord, Some (ErrConflict ''operation review is immutable'')), s)
            | None \<Rightarrow>
                if or_MetadataRevision operation \<noteq> expectedRevision
                then ((zeroOperationRecord, Some (ErrConflict ''operation metadata revision changed'')), s)
                else if or_Status operation \<noteq> OperationIndeterminate
                then ((zeroOperationRecord, Some (ErrConflict ''only an indeterminate operation can be acknowledged'')), s)
                else
                  let now = env_now env;
                      operation' = bumpRevision (operation\<lparr>or_Review := Some \<lparr>rv_ReviewedAt = now, rv_ReviewedBy = reviewedBy,
                        rv_Disposition = AcknowledgedIndeterminate, rv_Note = rnote\<rparr>\<rparr>) now in
                  case bindR (normalizeFinalAudit redactText (fst fresh) (reviewAudit (or_ResourceID operation) reviewedBy rnote) (or_ResourceID operation) now)
                         (\<lambda>audit. bindR (upsertFinalReport redactText (snd fresh) (Reports s) (reviewReport (or_ResourceID operation) rnote) (or_ResourceID operation) now)
                         (\<lambda>reports. Inr (audit, reports))) of
                    Inl e \<Rightarrow> ((zeroOperationRecord, Some e), s)
                  | Inr (audit, reports) \<Rightarrow>
                      commitOperation env resourceID operation' s (s\<lparr>Audits := Audits s @ [audit], Reports := reports\<rparr>))))"

section \<open>Recovery freeze\<close>

text \<open>The context's error, when the caller has given up, is the first argument.\<close>

definition SetRecoveryFreeze :: "repo_env \<Rightarrow> store_error option \<Rightarrow> rid \<Rightarrow> bool \<Rightarrow> snapshot \<Rightarrow> store_error option \<times> snapshot" where
  "SetRecoveryFreeze env ctxErr clusterID val s =
     (case ctxErr of Some e \<Rightarrow> (Some e, s)
      | None \<Rightarrow>
          if \<not> ValidResourceID clusterID then (Some (ErrValidation ''recovery freeze resource scope is invalid''), s)
          else case map_of (Clusters s) clusterID of
            None \<Rightarrow> (Some (ErrNotFound (''unknown cluster ID: '' @ clusterID)), s)
          | Some cluster \<Rightarrow>
              if \<not> val \<and> cl_RecoveryFreeze cluster \<and> (case cl_Recovery cluster of None \<Rightarrow> False | Some r \<Rightarrow> rs_LastRecoveryStatus r \<noteq> ''succeeded'')
              then (Some (ErrConflict ''disaster recovery protections require verified completion''), s)
              else if cl_RecoveryFreeze cluster = val then (None, s)
              else commitSnapshotLocked env s (s\<lparr>Clusters := AList.update clusterID
                     (cluster\<lparr>cl_RecoveryFreeze := val, cl_MetadataRevision := cl_MetadataRevision cluster + 1, cl_UpdatedAt := env_now env\<rparr>) (Clusters s)\<rparr>))"

definition RecoveryFrozen :: "store_error option \<Rightarrow> rid \<Rightarrow> snapshot \<Rightarrow> store_error + bool" where
  "RecoveryFrozen ctxErr clusterID s =
     (case ctxErr of Some e \<Rightarrow> Inl e
      | None \<Rightarrow>
          (case map_of (Clusters s) clusterID of
             None \<Rightarrow> Inl (ErrNotFound (''unknown cluster ID: '' @ clusterID))
           | Some cluster \<Rightarrow> Inr (cl_RecoveryFreeze cluster)))"

section \<open>What one transition changes\<close>

lemma transition_stage_Inr:
  assumes "transition_stage tr op = Inr op1"
  shows "\<exists>st. op1 = op\<lparr>or_Stage := st\<rparr> \<and> workflowStageOrder (or_Stage op) \<le> workflowStageOrder st \<and>
    st = (if ot_Stage tr = StageNone then or_Stage op else ot_Stage tr)"
  using assms by (auto simp: transition_stage_def Let_def not_less split: if_splits)

lemma transition_status_Inr:
  assumes "transition_status tr op = Inr op1"
  shows "\<exists>st o1. op1 = op\<lparr>or_Status := st, or_Operation := o1\<rparr> \<and>
    st = (if ot_Status tr = OperationStatusNone then or_Status op else ot_Status tr) \<and>
    o1 = (if ot_Status tr = OperationStatusNone then or_Operation op else (or_Operation op)\<lparr>op_Status := st\<rparr>) \<and>
    (ot_Status tr = OperationStatusNone \<or> validOperationStatus st)"
  using assms by (auto simp: transition_status_def split: if_splits)

lemma transition_observation_Inr:
  assumes "transition_observation tr op = Inr op1"
  shows "\<exists>t. op1 = op\<lparr>or_Observation := t\<rparr> \<and> (or_Observation op \<noteq> [] \<longrightarrow> t = or_Observation op) \<and> (ot_Observation tr = [] \<longrightarrow> t = or_Observation op)"
  using assms by (auto simp: transition_observation_def split: if_splits)

lemma transition_precheck_eq: "\<exists>cs. transition_precheck red tr op = op\<lparr>or_Precheck := cs\<rparr>"
  by (cases "ot_Precheck tr") (auto simp: transition_precheck_def intro: exI [of _ "or_Precheck op"])

lemma transition_attempt_Inr:
  assumes "transition_attempt red tr op = Inr op1"
  shows "\<exists>more. op1 = op\<lparr>or_Attempts := or_Attempts op @ more\<rparr> \<and>
    ((ot_Attempt tr = None \<longrightarrow> more = []) \<and> (\<forall>a. ot_Attempt tr = Some a \<longrightarrow> more = [a\<lparr>sa_Message := red (sa_Message a)\<rparr>] \<and> validateAttempt (or_Attempts op) a = None))"
  using assms by (auto simp: transition_attempt_def split: option.splits)

lemma transition_execution_eq: "\<exists>ex. transition_execution red tr op = op\<lparr>or_Execution := ex\<rparr>"
  by (cases "ot_Execution tr") (auto simp: transition_execution_def intro: exI [of _ "or_Execution op"])

lemma Successful_redacted: "Successful (v\<lparr>ve_OperationID := i, ve_Checks := redactChecks red (ve_Checks v)\<rparr>) \<longleftrightarrow> Successful v"
  by (simp add: Successful_iff redactChecks_def)

lemma transition_verification_Inr:
  assumes "transition_verification red tr op = Inr op1"
  shows "\<exists>v. op1 = op\<lparr>or_Verification := v\<rparr> \<and>
    ((ot_Verification tr = None \<longrightarrow> v = or_Verification op) \<and> (\<forall>w. ot_Verification tr = Some w \<longrightarrow> ve_OperationID v = or_ResourceID op \<and> (Successful v \<longleftrightarrow> Successful w)))"
proof (cases "ot_Verification tr")
  case None
  with assms show ?thesis by (simp add: transition_verification_def)
next
  case (Some w)
  with assms have "op1 = op\<lparr>or_Verification := w\<lparr>ve_OperationID := or_ResourceID op, ve_Checks := redactChecks red (ve_Checks w)\<rparr>\<rparr>"
    by (simp add: transition_verification_def split: if_splits)
  with Some show ?thesis
    by (intro exI [of _ "w\<lparr>ve_OperationID := or_ResourceID op, ve_Checks := redactChecks red (ve_Checks w)\<rparr>"])
      (simp add: Successful_redacted)
qed

lemma transition_finish_Inr:
  assumes "transition_finish red tr now op = Inr op1"
  shows "(\<exists>fc m. op1 = bumpRevision (op\<lparr>or_FailureClass := fc, or_Message := m\<rparr>) now) \<and>
    (or_Status op = OperationSucceeded \<longrightarrow> Successful (or_Verification op) \<and> ve_OperationID (or_Verification op) = or_ResourceID op)"
  using assms by (auto simp: transition_finish_def split: if_splits)

text \<open>A transition that is accepted, field by field.\<close>

lemma applyOperationTransition_Inr:
  assumes "applyOperationTransition red op tr now = Inr op'"
  obtains st status o1 obs cs more ex v fc m where
    "op' = bumpRevision (op\<lparr>or_Stage := st, or_Status := status, or_Operation := o1, or_Observation := obs, or_Precheck := cs,
       or_Attempts := or_Attempts op @ more, or_Execution := ex, or_Verification := v, or_FailureClass := fc, or_Message := m\<rparr>) now"
    "terminalOperationStatus (or_Status op) \<longrightarrow> verificationReconciliationAllowed op tr"
    "workflowStageOrder (or_Stage op) \<le> workflowStageOrder st" "st = (if ot_Stage tr = StageNone then or_Stage op else ot_Stage tr)"
    "status = (if ot_Status tr = OperationStatusNone then or_Status op else ot_Status tr)"
    "o1 = (if ot_Status tr = OperationStatusNone then or_Operation op else (or_Operation op)\<lparr>op_Status := status\<rparr>)"
    "ot_Status tr = OperationStatusNone \<or> validOperationStatus status"
    "or_Observation op \<noteq> [] \<longrightarrow> obs = or_Observation op" "ot_Observation tr = [] \<longrightarrow> obs = or_Observation op"
    "(ot_Attempt tr = None \<longrightarrow> more = []) \<and> (\<forall>a. ot_Attempt tr = Some a \<longrightarrow> more = [a\<lparr>sa_Message := red (sa_Message a)\<rparr>] \<and> validateAttempt (or_Attempts op) a = None)"
    "(ot_Verification tr = None \<longrightarrow> v = or_Verification op) \<and> (\<forall>w. ot_Verification tr = Some w \<longrightarrow> ve_OperationID v = or_ResourceID op \<and> (Successful v \<longleftrightarrow> Successful w))"
    "status = OperationSucceeded \<longrightarrow> Successful v \<and> ve_OperationID v = or_ResourceID op"
proof -
  from assms obtain op1 op2 op3 op4 op5 where
    ok: "terminalOperationStatus (or_Status op) \<longrightarrow> verificationReconciliationAllowed op tr"
    and p: "transition_stage tr op = Inr op1" "transition_status tr op1 = Inr op2" "transition_observation tr op2 = Inr op3"
      "transition_attempt red tr (transition_precheck red tr op3) = Inr op4"
      "transition_verification red tr (transition_execution red tr op4) = Inr op5" "transition_finish red tr now op5 = Inr op'"
    by (auto simp: applyOperationTransition_def Let_def bindR_Inr_iff split: if_splits)
  obtain cs where cs: "transition_precheck red tr op3 = op3\<lparr>or_Precheck := cs\<rparr>" using transition_precheck_eq by blast
  obtain ex where ex: "transition_execution red tr op4 = op4\<lparr>or_Execution := ex\<rparr>" using transition_execution_eq by blast
  obtain st where st: "op1 = op\<lparr>or_Stage := st\<rparr>" "workflowStageOrder (or_Stage op) \<le> workflowStageOrder st"
      "st = (if ot_Stage tr = StageNone then or_Stage op else ot_Stage tr)"
    using transition_stage_Inr [OF p(1)] by blast
  obtain status o1 where status: "op2 = op1\<lparr>or_Status := status, or_Operation := o1\<rparr>"
      "status = (if ot_Status tr = OperationStatusNone then or_Status op1 else ot_Status tr)"
      "o1 = (if ot_Status tr = OperationStatusNone then or_Operation op1 else (or_Operation op1)\<lparr>op_Status := status\<rparr>)"
      "ot_Status tr = OperationStatusNone \<or> validOperationStatus status"
    using transition_status_Inr [OF p(2)] by blast
  obtain obs where obs: "op3 = op2\<lparr>or_Observation := obs\<rparr>" "or_Observation op2 \<noteq> [] \<longrightarrow> obs = or_Observation op2"
      "ot_Observation tr = [] \<longrightarrow> obs = or_Observation op2"
    using transition_observation_Inr [OF p(3)] by blast
  obtain more where more: "op4 = op3\<lparr>or_Precheck := cs, or_Attempts := or_Attempts op3 @ more\<rparr>"
      "(ot_Attempt tr = None \<longrightarrow> more = []) \<and> (\<forall>a. ot_Attempt tr = Some a \<longrightarrow> more = [a\<lparr>sa_Message := red (sa_Message a)\<rparr>] \<and> validateAttempt (or_Attempts op3) a = None)"
    using transition_attempt_Inr [OF p(4) [unfolded cs]] by auto
  obtain v where v: "op5 = op4\<lparr>or_Execution := ex, or_Verification := v\<rparr>"
      "(ot_Verification tr = None \<longrightarrow> v = or_Verification op4) \<and> (\<forall>w. ot_Verification tr = Some w \<longrightarrow> ve_OperationID v = or_ResourceID op4 \<and> (Successful v \<longleftrightarrow> Successful w))"
    using transition_verification_Inr [OF p(5) [unfolded ex]] by auto
  obtain fc m where fin: "op' = bumpRevision (op5\<lparr>or_FailureClass := fc, or_Message := m\<rparr>) now"
      "or_Status op5 = OperationSucceeded \<longrightarrow> Successful (or_Verification op5) \<and> ve_OperationID (or_Verification op5) = or_ResourceID op5"
    using transition_finish_Inr [OF p(6)] by blast
  show ?thesis
    by (rule that [where st = st and status = status and ?o1.0 = o1 and obs = obs and cs = cs and more = more and ex = ex and v = v and fc = fc and m = m])
      (use ok st status(2-) obs(2-) more(2) v(2) fin in \<open>simp_all add: st(1) status(1) obs(1) more(1) v(1)\<close>)
qed

section \<open>The invariant of a record\<close>

definition attempts_ok :: "StepAttempt list \<Rightarrow> bool" where
  "attempts_ok as \<longleftrightarrow> sorted_wrt (\<lambda>a b. sa_Step a = sa_Step b \<longrightarrow> sa_Attempt a < sa_Attempt b) as"

definition op_wf :: "OperationRecord \<Rightarrow> bool" where
  "op_wf r \<longleftrightarrow>
     op_ResourceID (or_Operation r) = or_ResourceID r \<and> op_MetadataRevision (or_Operation r) = or_MetadataRevision r \<and>
     op_UpdatedAt (or_Operation r) = or_UpdatedAt r \<and> op_Status (or_Operation r) = or_Status r \<and>
     validOperationStatus (or_Status r) \<and> 1 \<le> workflowStageOrder (or_Stage r) \<and>
     or_IdempotencyKey r \<noteq> [] \<and> TrimSpace (or_IdempotencyKey r) = or_IdempotencyKey r \<and>
     (or_Status r = OperationSucceeded \<longrightarrow> Successful (or_Verification r) \<and> ve_OperationID (or_Verification r) = or_ResourceID r) \<and>
     attempts_ok (or_Attempts r) \<and> validatePersistedOperationReview r = None"

text \<open>How a record may change from one snapshot to the next.\<close>

definition op_le :: "OperationRecord \<Rightarrow> OperationRecord \<Rightarrow> bool" where
  "op_le r r' \<longleftrightarrow>
     or_ResourceID r' = or_ResourceID r \<and> or_TargetID r' = or_TargetID r \<and> or_IdempotencyKey r' = or_IdempotencyKey r \<and>
     op_ClusterID (or_Operation r') = op_ClusterID (or_Operation r) \<and> op_Kind (or_Operation r') = op_Kind (or_Operation r) \<and>
     op_Engine (or_Operation r') = op_Engine (or_Operation r) \<and>
     (workflowStageOrder (or_Stage r) \<le> workflowStageOrder (or_Stage r') \<or>
        \<not> terminalOperationStatus (or_Status r) \<and> pl_Digest (or_Plan r) = [] \<and> pl_Digest (or_Plan r') \<noteq> [] \<and> or_Stage r' = StagePlan) \<and>
     (terminalOperationStatus (or_Status r) \<longrightarrow> or_Status r' = or_Status r \<or>
        or_Status r = OperationIndeterminate \<and> or_Status r' = OperationSucceeded) \<and>
     (pl_Digest (or_Plan r) \<noteq> [] \<longrightarrow> or_Plan r' = or_Plan r) \<and>
     (or_Observation r \<noteq> [] \<longrightarrow> or_Observation r' = or_Observation r) \<and>
     (or_Review r \<noteq> None \<longrightarrow> or_Review r' = or_Review r) \<and>
     (\<exists>more. or_Attempts r' = or_Attempts r @ more)"

lemma maximum_attempt_ge:
  "m \<le> maximum_attempt step m as \<and> (\<forall>a \<in> set as. sa_Step a = step \<longrightarrow> sa_Attempt a \<le> maximum_attempt step m as)"
proof (induction as arbitrary: m)
  case (Cons a as)
  show ?case
    using Cons [of m] Cons [of "sa_Attempt a"] by (auto simp: not_less intro: order_trans less_imp_le)
qed simp

lemma attempts_ok_append: "attempts_ok as \<Longrightarrow> validateAttempt as a = None \<Longrightarrow> attempts_ok (as @ [a\<lparr>sa_Message := m\<rparr>])"
  using maximum_attempt_ge [of 0 "sa_Step a" as]
  by (auto simp: attempts_ok_def validateAttempt_def sorted_wrt_append not_le intro: le_less_trans split: if_splits)

lemma review_ok_cong:
  "or_Review r' = or_Review r \<Longrightarrow> (or_Review r \<noteq> None \<Longrightarrow> or_Status r' = or_Status r \<or> or_Status r' = OperationIndeterminate \<or> or_Status r' = OperationSucceeded) \<Longrightarrow>
   validatePersistedOperationReview r = None \<Longrightarrow> validatePersistedOperationReview r' = None"
  by (auto simp: validatePersistedOperationReview_def split: option.splits if_splits sum.splits)

lemma review_ok_status:
  "validatePersistedOperationReview r = None \<Longrightarrow> or_Review r \<noteq> None \<Longrightarrow> or_Status r = OperationIndeterminate \<or> or_Status r = OperationSucceeded"
  by (auto simp: validatePersistedOperationReview_def split: if_splits)

text \<open>Every accepted transition keeps the invariant and moves the record forward.\<close>

lemma apply_terminal:
  assumes "applyOperationTransition red op tr now = Inr op'" "terminalOperationStatus (or_Status op)"
  shows "or_Status op = OperationIndeterminate \<and> (or_Status op' = OperationIndeterminate \<or> or_Status op' = OperationSucceeded) \<and>
    or_Attempts op' = or_Attempts op \<and> or_Observation op' = or_Observation op"
  using assms(1)
proof (cases rule: applyOperationTransition_Inr)
  case (1 st status o1 obs cs more ex v fc m)
  from 1(2) assms(2) have "verificationReconciliationAllowed op tr" by simp
  then have "or_Status op = OperationIndeterminate" "ot_Status tr = OperationIndeterminate \<or> ot_Status tr = OperationSucceeded"
    "ot_Observation tr = []" "ot_Attempt tr = None"
    by (auto simp: verificationReconciliationAllowed_def split: option.splits if_splits)
  with 1 show ?thesis by (auto simp: bumpRevision_def)
qed

lemma apply_op_wf:
  assumes "applyOperationTransition red op tr now = Inr op'" "op_wf op"
  shows "op_wf op'"
  using assms(1)
proof (cases rule: applyOperationTransition_Inr)
  case (1 st status o1 obs cs more ex v fc m)
  have "attempts_ok (or_Attempts op @ more)"
    using 1(10) assms(2) attempts_ok_append [of "or_Attempts op"] by (cases "ot_Attempt tr") (auto simp: op_wf_def)
  moreover have "validatePersistedOperationReview op' = None"
  proof (rule review_ok_cong [of _ op])
    show "or_Review op' = or_Review op" using 1(1) by (simp add: bumpRevision_def)
    show "validatePersistedOperationReview op = None" using assms(2) by (simp add: op_wf_def)
    show "or_Status op' = or_Status op \<or> or_Status op' = OperationIndeterminate \<or> or_Status op' = OperationSucceeded"
      if "or_Review op \<noteq> None"
      using review_ok_status [of op] apply_terminal [OF assms(1)] assms(2) that by (auto simp: op_wf_def)
  qed
  ultimately show ?thesis using 1 assms(2) by (auto simp: op_wf_def bumpRevision_def)
qed

lemma apply_op_le:
  assumes "applyOperationTransition red op tr now = Inr op'"
  shows "op_le op op'"
proof -
  have fin: "terminalOperationStatus (or_Status op) \<Longrightarrow> or_Status op' = or_Status op \<or>
      or_Status op = OperationIndeterminate \<and> or_Status op' = OperationSucceeded"
    using apply_terminal [OF assms] by auto
  from assms show ?thesis
  proof (cases rule: applyOperationTransition_Inr)
    case (1 st status o1 obs cs more ex v fc m)
    with fin show ?thesis by (auto simp: op_le_def bumpRevision_def)
  qed
qed

lemma op_le_refl [simp]: "op_le r r"
  by (simp add: op_le_def)

lemma newOperation_wf:
  assumes "or_Review requested = None" "or_IdempotencyKey requested \<noteq> []" "TrimSpace (or_IdempotencyKey requested) = or_IdempotencyKey requested"
  shows "op_wf (newOperation requested fresh now)"
  using assms by (simp add: op_wf_def newOperation_def attempts_ok_def validatePersistedOperationReview_def)

section \<open>The invariant of the store\<close>

definition ops_wf :: "snapshot \<Rightarrow> bool" where
  "ops_wf s \<longleftrightarrow> keyed_by or_ResourceID (Operations s) \<and> distinct (map fst (OperationKeys s)) \<and>
     (\<forall>p \<in> set (Operations s). op_wf (snd p) \<and> map_of (OperationKeys s) (or_IdempotencyKey (snd p)) = Some (fst p))"

lemma indexOperationKey_find:
  "map_of (indexOperationKey keys q) k =
     (if TrimSpace (or_IdempotencyKey (snd q)) = k \<and> k \<noteq> [] then Some (fst q) else map_of keys k)"
  by (auto simp: indexOperationKey_def update_conv' Let_def)

lemma index_keys_find:
  assumes "\<forall>p \<in> set ops. \<forall>q \<in> set ops. TrimSpace (or_IdempotencyKey (snd p)) = TrimSpace (or_IdempotencyKey (snd q)) \<longrightarrow> fst p = fst q"
    "p \<in> set ops" "TrimSpace (or_IdempotencyKey (snd p)) \<noteq> []"
  shows "map_of (foldl indexOperationKey keys ops) (TrimSpace (or_IdempotencyKey (snd p))) = Some (fst p)"
  using assms
proof (induction ops rule: rev_induct)
  case (snoc q ops)
  let ?k = "\<lambda>p. TrimSpace (or_IdempotencyKey (snd p))"
  show ?case
  proof (cases "?k q = ?k p")
    case True
    then have "fst q = fst p" using snoc.prems by force
    with True snoc.prems(3) show ?thesis by (simp add: indexOperationKey_find)
  next
    case False
    then have "p \<in> set ops" using snoc.prems(2) by auto
    moreover have "\<forall>p \<in> set ops. \<forall>q \<in> set ops. ?k p = ?k q \<longrightarrow> fst p = fst q" using snoc.prems(1) unfolding set_append by blast
    ultimately have "map_of (foldl indexOperationKey keys ops) (?k p) = Some (fst p)" using snoc.IH snoc.prems(3) by blast
    with False show ?thesis by (simp add: indexOperationKey_find)
  qed
qed simp

lemma ops_wf_compact:
  assumes "ops_wf s"
  shows "ops_wf (compactSnapshotHistory s now)"
proof -
  let ?ops = "retain (keptOperationIDs (Operations s)) (Operations s)"
  have s: "keyed_by or_ResourceID (Operations s)" "distinct (map fst (OperationKeys s))"
    "\<And>p. p \<in> set (Operations s) \<Longrightarrow> op_wf (snd p) \<and> map_of (OperationKeys s) (or_IdempotencyKey (snd p)) = Some (fst p)"
    using assms by (auto simp: ops_wf_def)
  have key: "TrimSpace (or_IdempotencyKey (snd p)) = or_IdempotencyKey (snd p)" "or_IdempotencyKey (snd p) \<noteq> []" if "p \<in> set (Operations s)" for p
    using s(3) [OF that] by (auto simp: op_wf_def)
  have one: "\<forall>p \<in> set ?ops. \<forall>q \<in> set ?ops. TrimSpace (or_IdempotencyKey (snd p)) = TrimSpace (or_IdempotencyKey (snd q)) \<longrightarrow> fst p = fst q"
    using s(3) key by (auto, metis option.inject)
  have "map_of (compactOperationKeys ?ops (OperationKeys s)) (or_IdempotencyKey (snd p)) = Some (fst p)" if "p \<in> set ?ops" for p
    using index_keys_find [OF one that] key [of p] that by (simp add: compactOperationKeys_def)
  moreover have "distinct (map fst (compactOperationKeys ?ops (OperationKeys s)))" by (rule compactOperationKeys_wf [OF s(2)])
  ultimately show ?thesis using s keyed_by_retain [OF s(1)] by (simp add: ops_wf_def compact_Operations)
qed

lemma ops_wf_commit:
  assumes "commitSnapshotLocked env s v = (e, s')" "ops_wf s" "ops_wf v"
  shows "ops_wf s'"
  using assms ops_wf_compact by (cases rule: commit_cases [of env s v]) auto

text \<open>Replacing a record by one of the same identifier and key.\<close>

lemma ops_wf_update:
  assumes "ops_wf s" "map_of (Operations s) i = Some r" "op_wf r'" "op_le r r'"
    "Operations v = AList.update i r' (Operations s)" "OperationKeys v = OperationKeys s"
  shows "ops_wf v"
proof -
  have k: "keyed_by or_ResourceID (Operations s)" using assms(1) by (simp add: ops_wf_def)
  have ir: "(i, r) \<in> set (Operations s)" "or_ResourceID r = i" using assms(2) k by (auto simp: keyed_by_lookup keyed_by_def dest: map_of_SomeD)
  have "or_ResourceID r' = i" "or_IdempotencyKey r' = or_IdempotencyKey r" using assms(4) ir by (auto simp: op_le_def)
  then show ?thesis
    using assms(1,3,5,6) ir(1) keyed_by_update [OF k, of r' i] k
    by (auto simp: ops_wf_def set_update_distinct keyed_by_def)
qed

lemma commit_Operations:
  assumes "commitSnapshotLocked env s v = (e, s')"
  shows "set (Operations s') \<subseteq> set (Operations v) \<or> e \<noteq> None \<and> s' = s"
  using assms by (cases rule: commit_cases [of env s v]) (auto simp: compact_Operations)

text \<open>The steps that a snapshot's operations take: each record is new, or follows from its predecessor.\<close>

definition ops_follow :: "snapshot \<Rightarrow> snapshot \<Rightarrow> bool" where
  "ops_follow s s' \<longleftrightarrow> (\<forall>i r r'. (i, r) \<in> set (Operations s) \<and> (i, r') \<in> set (Operations s') \<longrightarrow> op_le r r')"

lemma ops_follow_refl [simp]: "ops_wf s \<Longrightarrow> ops_follow s s"
  by (metis eq_key_imp_eq_value keyed_by_def op_le_refl ops_follow_def ops_wf_def)

lemma commit_follow:
  assumes "commitSnapshotLocked env s v = (e, s')" "ops_wf s" "ops_follow s v"
  shows "ops_follow s s'"
proof -
  consider "set (Operations s') \<subseteq> set (Operations v)" | "s' = s" using commit_Operations [OF assms(1)] by blast
  then show ?thesis
  proof cases
    case 1
    with assms(3) show ?thesis unfolding ops_follow_def by blast
  next
    case 2
    with assms(2) show ?thesis by simp
  qed
qed

lemma commitOperation_ok:
  assumes "commitOperation env i r' s v = (x, s')" "ops_wf s" "map_of (Operations s) i = Some r" "op_wf r'" "op_le r r'"
    "OperationKeys v = OperationKeys s"
  shows "ops_wf s' \<and> ops_follow s s'"
proof -
  define w where "w = v\<lparr>Operations := AList.update i r' (Operations s)\<rparr>"
  obtain e where c: "commitSnapshotLocked env s w = (e, s')"
    using assms(1) by (auto simp: commitOperation_def w_def split: prod.splits)
  have k: "distinct (map fst (Operations s))" using assms(2) by (simp add: ops_wf_def keyed_by_def)
  have w: "Operations w = AList.update i r' (Operations s)" "OperationKeys w = OperationKeys s" using assms(6) by (simp_all add: w_def)
  have "ops_wf w" by (rule ops_wf_update [OF assms(2-5) w])
  with ops_wf_commit [OF c assms(2)] have "ops_wf s'" .
  moreover have "ops_follow s w"
  proof -
    have "(i, r) \<in> set (Operations s)" using assms(3) by (rule map_of_SomeD)
    then show ?thesis
      using assms(5) k ops_follow_refl [OF assms(2)] unfolding ops_follow_def w set_update_distinct [OF k]
      by (auto dest: eq_key_imp_eq_value)
  qed
  ultimately show ?thesis using commit_follow [OF c assms(2)] by blast
qed

text \<open>One lemma per mutation: the store stays well formed and its records move forward.\<close>

abbreviation ops_kept :: "snapshot \<Rightarrow> snapshot \<Rightarrow> bool" where
  "ops_kept s s' \<equiv> ops_wf s' \<and> ops_follow s s'"

lemma stored_wf:
  assumes "ops_wf s" "map_of (Operations s) i = Some r"
  shows "op_wf r" "or_ResourceID r = i"
  using assms map_of_SomeD [OF assms(2)] by (auto simp: ops_wf_def keyed_by_def)

lemma CreateOperation_commits:
  assumes "CreateOperation env fresh requested s = (x, s')" "s' \<noteq> s \<or> snd x = (False, None)"
    and "req = requested\<lparr>or_IdempotencyKey := TrimSpace (or_IdempotencyKey requested)\<rparr>" "r = newOperation req fresh (env_now env)"
  shows "validateOperationRequest req = None" "map_of (OperationKeys s) (or_IdempotencyKey req) = None"
    "fst x = r" "commitSnapshotLocked env s (s\<lparr>Operations := AList.update fresh r (Operations s),
       OperationKeys := AList.update (or_IdempotencyKey r) fresh (OperationKeys s)\<rparr>) = (snd (snd x), s')"
proof -
  show v: "validateOperationRequest req = None"
    using assms(1,2) unfolding CreateOperation_def Let_def assms(3) by (auto split: option.splits)
  show m: "map_of (OperationKeys s) (or_IdempotencyKey req) = None"
    using assms(1,2) v unfolding CreateOperation_def Let_def assms(3) by (auto split: option.splits if_splits)
  have a: "\<not> length (filter (\<lambda>p. activeOperationStatus (or_Status (snd p))) (Operations s)) \<ge> 128"
    using assms(1,2) v m unfolding CreateOperation_def Let_def assms(3) by (auto split: if_splits)
  have "CreateOperation env fresh requested s = (let (e, s') = commitSnapshotLocked env s (s\<lparr>Operations := AList.update fresh r (Operations s),
       OperationKeys := AList.update (or_IdempotencyKey r) fresh (OperationKeys s)\<rparr>) in ((r, False, e), s'))"
    using v m a unfolding CreateOperation_def Let_def assms(3,4) by simp
  then show "fst x = r" "commitSnapshotLocked env s (s\<lparr>Operations := AList.update fresh r (Operations s),
       OperationKeys := AList.update (or_IdempotencyKey r) fresh (OperationKeys s)\<rparr>) = (snd (snd x), s')"
    using assms(1) by (auto split: prod.splits)
qed

lemma CreateOperation_kept:
  assumes "CreateOperation env fresh requested s = (x, s')" "ops_wf s" "fresh \<notin> fst ` set (Operations s)" "or_Review requested = None"
  shows "ops_kept s s'"
proof (cases "s' = s")
  case False
  define req where "req = requested\<lparr>or_IdempotencyKey := TrimSpace (or_IdempotencyKey requested)\<rparr>"
  define r where "r = newOperation req fresh (env_now env)"
  define v where "v = s\<lparr>Operations := AList.update fresh r (Operations s), OperationKeys := AList.update (or_IdempotencyKey r) fresh (OperationKeys s)\<rparr>"
  have ok: "validateOperationRequest req = None" "map_of (OperationKeys s) (or_IdempotencyKey req) = None"
    and c: "\<exists>e. commitSnapshotLocked env s v = (e, s')"
    using CreateOperation_commits [OF assms(1) _ req_def r_def] False by (simp_all add: v_def)
  have key: "or_IdempotencyKey r = or_IdempotencyKey req" "or_ResourceID r = fresh" by (simp_all add: r_def newOperation_def)
  have "op_wf r" unfolding r_def
    by (rule newOperation_wf) (use assms(4) ok(1) in \<open>auto simp: req_def validateOperationRequest_def split: if_splits\<close>)
  have k: "keyed_by or_ResourceID (Operations s)" using assms(2) by (simp add: ops_wf_def)
  have new: "set (Operations v) = insert (fresh, r) (set (Operations s))"
    using k assms(3) by (auto simp: v_def set_update_distinct keyed_by_def)
  have "or_IdempotencyKey (snd p) \<noteq> or_IdempotencyKey r" if "p \<in> set (Operations s)" for p
    using assms(2) ok(2) that key(1) by (auto simp: ops_wf_def)
  then have "ops_wf v"
    using assms(2) new \<open>op_wf r\<close> keyed_by_update [OF k key(2)]
    by (auto simp: ops_wf_def v_def update_conv' AList.distinct_update)
  moreover have "ops_follow s v"
    using ops_follow_refl [OF assms(2)] assms(3) unfolding ops_follow_def new by force
  ultimately show ?thesis
    using c ops_wf_commit [OF _ assms(2)] commit_follow [OF _ assms(2)] by blast
qed (use assms(2) in simp)

lemma PutOperationPlan_kept:
  assumes "PutOperationPlan env fresh i rv plan s = (x, s')" "ops_wf s"
  shows "ops_kept s s'"
proof (cases "s' = s")
  case False
  from assms(1) False obtain r where r: "map_of (Operations s) i = Some r" "\<not> terminalOperationStatus (or_Status r)"
      "validateOperationPlan r plan = None" "pl_Digest (or_Plan r) = []"
    and c: "commitOperation env i (bumpRevision (r\<lparr>or_Plan := plan\<lparr>pl_ResourceID := fresh, pl_MetadataRevision := 1,
        pl_CreatedAt := env_now env, pl_UpdatedAt := env_now env, pl_Stage := StagePlan\<rparr>, or_Stage := StagePlan\<rparr>) (env_now env)) s s = (x, s')"
    by (auto simp: PutOperationPlan_def Let_def split: option.splits if_splits)
  have digest: "pl_Digest plan \<noteq> []" using r(3) by (auto simp: validateOperationPlan_def TrimSpace_def split: if_splits)
  have "validatePersistedOperationReview r = None" using stored_wf [OF assms(2) r(1)] by (simp add: op_wf_def)
  with review_ok_status [of r] r(2) have "or_Review r = None" by (cases "or_Review r") auto
  with r(2) stored_wf [OF assms(2) r(1)] digest show ?thesis
    by (intro commitOperation_ok [OF c assms(2) r(1)])
      (auto simp: op_wf_def op_le_def bumpRevision_def validatePersistedOperationReview_def r(4))
qed (use assms(2) in simp)

lemma TransitionOperation_kept:
  assumes "TransitionOperation env red i rv tr s = (x, s')" "ops_wf s"
  shows "ops_kept s s'"
proof (cases "s' = s")
  case False
  from assms(1) False obtain r r' where r: "map_of (Operations s) i = Some r" "applyOperationTransition red r tr (env_now env) = Inr r'"
    and c: "commitOperation env i r' s s = (x, s')"
    by (auto simp: TransitionOperation_def split: option.splits if_splits sum.splits)
  show ?thesis
    by (rule commitOperation_ok [OF c assms(2) r(1) apply_op_wf [OF r(2)] apply_op_le [OF r(2)]])
      (use stored_wf [OF assms(2) r(1)] in simp_all)
qed (use assms(2) in simp)

lemma finalizeOperationLocked_kept:
  assumes "finalizeOperationLocked env red i rv tr audits reports s = (x, s')" "ops_wf s"
  shows "ops_kept s s'"
proof (cases "s' = s")
  case False
  from assms(1) False obtain r r' as rs where r: "map_of (Operations s) i = Some r" "applyOperationTransition red r tr (env_now env) = Inr r'"
    and c: "commitOperation env i r' s (s\<lparr>Audits := as, Reports := rs\<rparr>) = (x, s')"
    by (auto simp: finalizeOperationLocked_def Let_def bindR_Inr_iff split: option.splits if_splits sum.splits)
  show ?thesis
    by (rule commitOperation_ok [OF c assms(2) r(1) apply_op_wf [OF r(2)] apply_op_le [OF r(2)]])
      (use stored_wf [OF assms(2) r(1)] in simp_all)
qed (use assms(2) in simp)

lemma FinalizeAbandonedOperation_kept:
  assumes "FinalizeAbandonedOperation env red i rv t u tr audits reports s = (x, s')" "ops_wf s"
  shows "ops_kept s s'"
proof (cases "s' = s")
  case False
  with assms(1) have "\<exists>y. finalizeOperationLocked env red i rv tr audits reports s = (y, s')"
    by (auto simp: FinalizeAbandonedOperation_def split: option.splits if_splits prod.splits)
  then show ?thesis using finalizeOperationLocked_kept [OF _ assms(2)] by blast
qed (use assms(2) in simp)

lemma ReviewIndeterminateOperation_kept:
  assumes "ReviewIndeterminateOperation env red fresh i rv by0 note0 s = (x, s')" "ops_wf s" "env_now env \<noteq> 0"
  shows "ops_kept s s'"
proof (cases "s' = s")
  case False
  from assms(1) False obtain r reviewedBy rnote as rs where
    input: "normalizeOperationReviewInput by0 note0 = Inr (reviewedBy, rnote)"
    and r: "map_of (Operations s) i = Some r" "or_Review r = None" "or_Status r = OperationIndeterminate"
    and c: "commitOperation env i (bumpRevision (r\<lparr>or_Review := Some \<lparr>rv_ReviewedAt = env_now env, rv_ReviewedBy = reviewedBy,
        rv_Disposition = AcknowledgedIndeterminate, rv_Note = rnote\<rparr>\<rparr>) (env_now env)) s (s\<lparr>Audits := as, Reports := rs\<rparr>) = (x, s')"
    by (auto simp: ReviewIndeterminateOperation_def Let_def split: option.splits if_splits sum.splits)
  have "normalizeOperationReviewInput reviewedBy rnote = Inr (reviewedBy, rnote)"
    using input by (auto simp: normalizeOperationReviewInput_def Let_def split: if_splits)
  with r stored_wf [OF assms(2) r(1)] assms(3) show ?thesis
    by (intro commitOperation_ok [OF c assms(2) r(1)])
      (auto simp: op_wf_def op_le_def bumpRevision_def validatePersistedOperationReview_def IsZero_def)
qed (use assms(2) in simp)

section \<open>The store as a transition system\<close>

inductive op_step :: "(string \<Rightarrow> string) \<Rightarrow> snapshot \<Rightarrow> snapshot \<Rightarrow> bool" for red where
  created: "CreateOperation env fresh requested s = (x, s') \<Longrightarrow> fresh \<notin> fst ` set (Operations s) \<Longrightarrow> or_Review requested = None \<Longrightarrow> op_step red s s'"
| plan_put: "PutOperationPlan env fresh i rv plan s = (y, s') \<Longrightarrow> op_step red s s'"
| transitioned: "TransitionOperation env red i rv tr s = (y, s') \<Longrightarrow> op_step red s s'"
| finalized: "FinalizeOperation env red i rv tr audits reports s = (y, s') \<Longrightarrow> op_step red s s'"
| abandoned: "FinalizeAbandonedOperation env red i rv t u tr audits reports s = (x, s') \<Longrightarrow> op_step red s s'"
| reviewed: "ReviewIndeterminateOperation env red ids i rv reviewedBy rnote s = (y, s') \<Longrightarrow> env_now env \<noteq> 0 \<Longrightarrow> op_step red s s'"

lemma op_step_kept: "op_step red s s' \<Longrightarrow> ops_wf s \<Longrightarrow> ops_kept s s'"
proof (induction rule: op_step.induct)
  case created
  then show ?case by (blast dest: CreateOperation_kept)
next
  case plan_put
  then show ?case by (blast dest: PutOperationPlan_kept)
next
  case transitioned
  then show ?case by (blast dest: TransitionOperation_kept)
next
  case finalized
  then show ?case unfolding FinalizeOperation_def by (blast dest: finalizeOperationLocked_kept)
next
  case abandoned
  then show ?case by (blast dest: FinalizeAbandonedOperation_kept)
next
  case reviewed
  then show ?case by (blast dest: ReviewIndeterminateOperation_kept)
qed

lemma reachable_ops_wf: "(op_step red)\<^sup>*\<^sup>* s0 s \<Longrightarrow> ops_wf s0 \<Longrightarrow> ops_wf s"
  by (induction rule: rtranclp_induct) (auto dest: op_step_kept)

lemma newest_stays:
  assumes "distinct (map fst rs)" "(i, t) \<in> set rs" "\<forall>(j, u) \<in> set rs. j \<noteq> i \<longrightarrow> u < t" "0 < n"
  shows "i \<in> set (newestResourceIDs rs n)"
proof (rule ccontr)
  assume out: "i \<notin> set (newestResourceIDs rs n)"
  have "newestResourceIDs rs n \<noteq> []" using assms(2,4) newestResourceIDs_length [of rs n] by (cases rs) auto
  then obtain j where j: "j \<in> set (newestResourceIDs rs n)" by (meson hd_in_set)
  then obtain u where u: "(j, u) \<in> set rs" using newestResourceIDs_subset by fastforce
  from newestResourceIDs_newest [OF assms(1,2) out u j] have "t \<le> u" by (auto simp: less_eq_prod_def)
  moreover have "u < t" using assms(3) u j out by force
  ultimately show False by simp
qed

lemma created_stored:
  assumes "CreateOperation env fresh requested s = ((r, False, None), s')" "ops_wf s" "fresh \<notin> fst ` set (Operations s)"
    "\<forall>p \<in> set (Operations s). or_Status (snd p) = OperationPlanned \<longrightarrow> or_UpdatedAt (snd p) < env_now env"
  shows "(fresh, r) \<in> set (Operations s')" "or_IdempotencyKey r = TrimSpace (or_IdempotencyKey requested)"
    "operationIntentMatches r requested"
proof -
  define req where "req = requested\<lparr>or_IdempotencyKey := TrimSpace (or_IdempotencyKey requested)\<rparr>"
  define ops where "ops = AList.update fresh r (Operations s)"
  have r: "r = newOperation req fresh (env_now env)"
    and c: "\<exists>ks. commitSnapshotLocked env s (s\<lparr>Operations := ops, OperationKeys := ks\<rparr>) = (None, s')"
    using CreateOperation_commits [OF assms(1) _ req_def refl] by (auto simp: ops_def)
  show "or_IdempotencyKey r = TrimSpace (or_IdempotencyKey requested)" "operationIntentMatches r requested"
    by (simp_all add: r newOperation_def req_def operationIntentMatches_def)
  have d: "distinct (map fst (Operations s))" using assms(2) by (simp add: ops_wf_def keyed_by_def)
  have ops: "set ops = insert (fresh, r) (set (Operations s))" "distinct (map fst ops)"
    using d assms(3) by (auto simp: ops_def set_update_distinct AList.distinct_update)
  have planned: "op_planned r" "or_UpdatedAt r = env_now env" by (simp_all add: r newOperation_def)
  have "fst (fresh, r) \<in> set (newestResourceIDs (ops_stamps op_planned ops) 128)"
  proof (rule newest_stays [where t = "env_now env", OF distinct_ops_stamps [OF ops(2)]])
    show "(fst (fresh, r), env_now env) \<in> set (ops_stamps op_planned ops)"
      using mem_ops_stamps [of "(fresh, r)" ops op_planned] planned ops(1) by simp
    show "\<forall>(j, u) \<in> set (ops_stamps op_planned ops). j \<noteq> fst (fresh, r) \<longrightarrow> u < env_now env"
      using assms(4) by (auto simp: ops(1))
  qed simp
  then have "fresh \<in> set (keptOperationIDs ops)" using kept_planned [OF ops(2), of "(fresh, r)"] ops(1) planned by simp
  moreover have "Operations s' = retain (keptOperationIDs ops) ops" using c by (auto dest!: commit_None simp: compact_Operations)
  ultimately show "(fresh, r) \<in> set (Operations s')" using ops(1) by simp
qed

section \<open>Properties\<close>

text \<open>
  (C10) The operation store is consistent in every reachable state. Whatever sequence of
  creations, plans, transitions, finalisations, closings of abandoned operations and reviews a
  well-formed store goes through, and whether the commits succeed or fail, every record is
  stored under its own identifier, its idempotency key finds it, the embedded operation shows the
  record's identifier, revision and status, attempt numbers of a step strictly increase, and an
  operation reported as succeeded carries a successful verification of that very operation.
\<close>

theorem operations_invariant:
  assumes "ops_wf s0" "(op_step red)\<^sup>*\<^sup>* s0 s" "(i, r) \<in> set (Operations s)"
  shows "or_ResourceID r = i \<and> OperationByIdempotencyKey (or_IdempotencyKey r) s = Some r \<and>
    op_ResourceID (or_Operation r) = i \<and> op_Status (or_Operation r) = or_Status r \<and>
    op_MetadataRevision (or_Operation r) = or_MetadataRevision r \<and>
    sorted_wrt (\<lambda>a b. sa_Step a = sa_Step b \<longrightarrow> sa_Attempt a < sa_Attempt b) (or_Attempts r) \<and>
    validatePersistedOperationReview r = None \<and>
    (or_Status r = OperationSucceeded \<longrightarrow> Successful (or_Verification r) \<and> ve_OperationID (or_Verification r) = i)"
proof -
  have wf: "ops_wf s" by (rule reachable_ops_wf [OF assms(2,1)])
  then have i: "or_ResourceID r = i" "op_wf r" "map_of (OperationKeys s) (or_IdempotencyKey r) = Some i" "map_of (Operations s) i = Some r"
    using assms(3) by (auto simp: ops_wf_def keyed_by_lookup keyed_by_def)
  then show ?thesis by (auto simp: OperationByIdempotencyKey_def op_wf_def attempts_ok_def)
qed

text \<open>
  (C30) Operations only move forward. In every mutation of a well-formed store, a record that
  exists before and after keeps its identity (cluster, engine, kind, target, key), its plan and
  observation once set, its review and the attempts recorded so far; its stage does not go back,
  except to the planning stage when its first plan is attached; and a finished operation keeps
  its status, except that an indeterminate one may be reconciled to succeeded.
\<close>

theorem operation_moves_forward:
  assumes "ops_wf s" "op_step red s s'" "(i, r) \<in> set (Operations s)" "(i, r') \<in> set (Operations s')"
  shows "or_TargetID r' = or_TargetID r \<and> or_IdempotencyKey r' = or_IdempotencyKey r \<and>
    op_ClusterID (or_Operation r') = op_ClusterID (or_Operation r) \<and> op_Kind (or_Operation r') = op_Kind (or_Operation r) \<and>
    op_Engine (or_Operation r') = op_Engine (or_Operation r) \<and>
    (workflowStageOrder (or_Stage r) \<le> workflowStageOrder (or_Stage r') \<or>
       pl_Digest (or_Plan r) = [] \<and> pl_Digest (or_Plan r') \<noteq> [] \<and> or_Stage r' = StagePlan) \<and>
    (terminalOperationStatus (or_Status r) \<longrightarrow> or_Status r' = or_Status r \<or>
       or_Status r = OperationIndeterminate \<and> or_Status r' = OperationSucceeded) \<and>
    (pl_Digest (or_Plan r) \<noteq> [] \<longrightarrow> or_Plan r' = or_Plan r) \<and>
    (or_Observation r \<noteq> [] \<longrightarrow> or_Observation r' = or_Observation r) \<and>
    (or_Review r \<noteq> None \<longrightarrow> or_Review r' = or_Review r) \<and>
    (\<exists>more. or_Attempts r' = or_Attempts r @ more)"
proof -
  have "op_le r r'" using op_step_kept [OF assms(2,1)] assms(3,4) unfolding ops_follow_def by blast
  then show ?thesis unfolding op_le_def by blast
qed

text \<open>
  (C31) Creation is idempotent. After an operation has been created under a key, at an instant
  later than the last change of every planned operation, every further valid request with that key returns the very same
  record and changes nothing when its intent (cluster, engine, kind and target) is the same, and
  is refused as a conflict otherwise; the key looks the record up.
\<close>

theorem CreateOperation_idempotent:
  assumes "ops_wf s" "fresh \<notin> fst ` set (Operations s)" "or_Review requested = None"
    "\<forall>p \<in> set (Operations s). or_Status (snd p) = OperationPlanned \<longrightarrow> or_UpdatedAt (snd p) < env_now env"
    "CreateOperation env fresh requested s = ((r, False, None), s')"
    "TrimSpace (or_IdempotencyKey again) = TrimSpace (or_IdempotencyKey requested)" "validateOperationRequest again = None"
  shows "OperationByIdempotencyKey (or_IdempotencyKey requested) s' = Some r \<and>
    CreateOperation env' fresh' again s' =
      (if operationIntentMatches requested again then ((r, True, None), s')
       else ((zeroOperationRecord, False, Some (ErrConflict ''operation idempotency key is already used by another intent'')), s'))"
proof -
  note st = created_stored [OF assms(5,1,2,4)]
  have "ops_wf s'" using CreateOperation_kept [OF assms(5,1,2,3)] by blast
  then have found: "map_of (OperationKeys s') (TrimSpace (or_IdempotencyKey requested)) = Some fresh" "map_of (Operations s') fresh = Some r"
    using st by (auto simp: ops_wf_def keyed_by_lookup)
  have valid: "validateOperationRequest (again\<lparr>or_IdempotencyKey := TrimSpace (or_IdempotencyKey again)\<rparr>) = None"
    using assms(7) by (auto simp: validateOperationRequest_def split: if_splits)
  have "operationIntentMatches r (again\<lparr>or_IdempotencyKey := k\<rparr>) \<longleftrightarrow> operationIntentMatches requested again" for k
    using st(3) by (auto simp: operationIntentMatches_def)
  with found valid assms(6) show ?thesis by (simp add: OperationByIdempotencyKey_def CreateOperation_def Let_def)
qed

text \<open>
  Concurrent writers of an operation are told apart by its revision, and a refused request
  leaves no trace. A request for an unknown operation or with a revision other than the stored
  one fails with the documented kind of error; so does a move to running while configuration
  distribution is active, and a transition that is not acceptable fails with its own error;
  in all these cases the repository is unchanged. Otherwise the new record is returned and
  committed, its revision one higher (modulo the width of the counter).
\<close>

theorem TransitionOperation_outcomes:
  "(case map_of (Operations s) i of
      None \<Rightarrow> TransitionOperation env red i rv tr s = ((zeroOperationRecord, Some (ErrValidation ''operation does not exist'')), s) \<and>
        FinalizeOperation env red i rv tr audits reports s = ((zeroOperationRecord, Some (ErrValidation ''operation does not exist'')), s)
    | Some r \<Rightarrow>
        (or_MetadataRevision r \<noteq> rv \<longrightarrow>
           TransitionOperation env red i rv tr s = ((zeroOperationRecord, Some (ErrConflict ''operation metadata revision changed'')), s) \<and>
           FinalizeOperation env red i rv tr audits reports s = ((zeroOperationRecord, Some (ErrConflict ''operation metadata revision changed'')), s)) \<and>
        (or_MetadataRevision r = rv \<and> ot_Status tr = OperationRunning \<and> (\<exists>p \<in> set (ConfigurationTasksActive s). snd p) \<longrightarrow>
           TransitionOperation env red i rv tr s = ((zeroOperationRecord, Some (ErrConflict ''configuration distribution maintenance active'')), s)) \<and>
        (\<forall>e. applyOperationTransition red r tr (env_now env) = Inl e \<longrightarrow>
           snd (TransitionOperation env red i rv tr s) = s \<and> snd (FinalizeOperation env red i rv tr audits reports s) = s) \<and>
        (\<forall>r' e s'. TransitionOperation env red i rv tr s = ((r', e), s') \<and> r' \<noteq> zeroOperationRecord \<longrightarrow>
           applyOperationTransition red r tr (env_now env) = Inr r' \<and> or_MetadataRevision r' = rv + 1 \<and>
           commitSnapshotLocked env s (s\<lparr>Operations := AList.update i r' (Operations s)\<rparr>) = (e, s')))"
proof (cases "map_of (Operations s) i")
  case None
  then show ?thesis by (simp add: TransitionOperation_def FinalizeOperation_def finalizeOperationLocked_def)
next
  case (Some r)
  have rev: "or_MetadataRevision r' = or_MetadataRevision r + 1" if "applyOperationTransition red r tr (env_now env) = Inr r'" for r'
    using that by (cases rule: applyOperationTransition_Inr) (simp add: bumpRevision_def)
  note defs = TransitionOperation_def FinalizeOperation_def finalizeOperationLocked_def
  show ?thesis
    unfolding Some option.case
  proof (intro conjI allI impI)
    fix e
    assume "applyOperationTransition red r tr (env_now env) = Inl e"
    then show "snd (TransitionOperation env red i rv tr s) = s" "snd (FinalizeOperation env red i rv tr audits reports s) = s"
      by (simp_all add: defs Some Let_def)
  next
    fix r' e s'
    assume "TransitionOperation env red i rv tr s = ((r', e), s') \<and> r' \<noteq> zeroOperationRecord"
    then have *: "applyOperationTransition red r tr (env_now env) = Inr r' \<and> or_MetadataRevision r = rv \<and>
        commitOperation env i r' s s = ((r', e), s')"
      by (auto simp: TransitionOperation_def Some commitOperation_def split: if_splits sum.splits prod.splits)
    then show "applyOperationTransition red r tr (env_now env) = Inr r'" "or_MetadataRevision r' = rv + 1"
      "commitSnapshotLocked env s (s\<lparr>Operations := AList.update i r' (Operations s)\<rparr>) = (e, s')"
      using rev by (auto simp: commitOperation_def split: prod.splits)
  qed (auto simp: defs Some list_ex_iff)
qed

text \<open>
  (C20) A live executor's operation is never closed behind its back. An operation is finalised as
  abandoned only if it is still running at the expected revision, has not been updated since the
  stale instant, and no unexpired lock in the table names it; otherwise the repository is
  unchanged and nothing is reported as finalised.
\<close>

theorem FinalizeAbandonedOperation_safe:
  assumes "FinalizeAbandonedOperation env red i rv observedAt staleBefore tr audits reports s = ((r', done', e), s')" "done' \<or> s' \<noteq> s"
  shows "\<exists>r. map_of (Operations s) i = Some r \<and> or_Status r = OperationRunning \<and> or_MetadataRevision r = rv \<and>
    or_UpdatedAt r \<le> staleBefore \<and> staleBefore \<le> observedAt \<and>
    (\<forall>p \<in> set (OperationLocks s). ol_OperationID (snd p) = i \<longrightarrow> ol_ExpiresAt (snd p) \<le> observedAt) \<and>
    finalizeOperationLocked env red i rv tr audits reports s = ((r', e), s')"
  using assms
  by (auto simp: FinalizeAbandonedOperation_def list_ex_iff not_less split: option.splits if_splits prod.splits)

text \<open>
  The recovery freeze reads back as it was set, and cannot be lifted under a recovery. After
  a successful \<^verbatim>\<open>SetRecoveryFreeze\<close> the cluster reports the value set and every other cluster is
  unchanged; lifting the freeze of a cluster whose disaster recovery has not succeeded is refused
  and changes nothing.
\<close>

theorem SetRecoveryFreeze_correct:
  "(\<forall>s'. SetRecoveryFreeze env None c v s = (None, s') \<longrightarrow> RecoveryFrozen None c s' = Inr v \<and>
      (\<forall>d. d \<noteq> c \<longrightarrow> map_of (Clusters s') d = map_of (Clusters s) d)) \<and>
   (\<forall>cluster. ValidResourceID c \<and> map_of (Clusters s) c = Some cluster \<and> DisasterRecoveryActive cluster \<longrightarrow>
      SetRecoveryFreeze env None c False s = (Some (ErrConflict ''disaster recovery protections require verified completion''), s))"
proof (intro conjI allI impI)
  fix s' assume a: "SetRecoveryFreeze env None c v s = (None, s')"
  then obtain cluster where m: "ValidResourceID c" "map_of (Clusters s) c = Some cluster"
    by (auto simp: SetRecoveryFreeze_def split: if_splits option.splits)
  have "Clusters s' = Clusters s \<and> cl_RecoveryFreeze cluster = v \<or>
      Clusters s' = AList.update c (cluster\<lparr>cl_RecoveryFreeze := v, cl_MetadataRevision := cl_MetadataRevision cluster + 1, cl_UpdatedAt := env_now env\<rparr>) (Clusters s)"
    using a m by (auto simp: SetRecoveryFreeze_def split: if_splits dest!: commit_None)
  with m show "RecoveryFrozen None c s' = Inr v" "\<And>d. d \<noteq> c \<Longrightarrow> map_of (Clusters s') d = map_of (Clusters s) d"
    by (auto simp: RecoveryFrozen_def update_conv')
qed (auto simp: SetRecoveryFreeze_def DisasterRecoveryActive_def split: option.splits)

section \<open>A concrete store\<close>

abbreviation sampleOpID :: rid where
  "sampleOpID \<equiv> sampleID (CHR ''3'')"

abbreviation sampleOpRequest :: OperationRecord where
  "sampleOpRequest \<equiv> zeroOperationRecord\<lparr>or_Operation := zeroOperation\<lparr>op_ClusterID := sampleID (CHR ''1''), op_Engine := EngineMySQL, op_Kind := OperationSwitchover\<rparr>,
     or_TargetID := sampleID (CHR ''2''), or_IdempotencyKey := ''k''\<rparr>"

abbreviation sampleRunning :: OperationRecord where
  "sampleRunning \<equiv> zeroOperationRecord\<lparr>or_ResourceID := sampleOpID, or_MetadataRevision := 7, or_UpdatedAt := 3, or_IdempotencyKey := ''k'',
     or_Operation := zeroOperation\<lparr>op_ResourceID := sampleOpID, op_MetadataRevision := 7, op_UpdatedAt := 3, op_Status := OperationRunning\<rparr>,
     or_Stage := StageExecute, or_Status := OperationRunning\<rparr>"

abbreviation sampleOpStore :: snapshot where
  "sampleOpStore \<equiv> emptySnapshot\<lparr>Operations := [(sampleOpID, sampleRunning)], OperationKeys := [(''k'', sampleOpID)]\<rparr>"

abbreviation sampleOpEnv :: repo_env where
  "sampleOpEnv \<equiv> \<lparr>env_now = 9, env_commit = \<lambda>_ _. CommitApplied\<rparr>"

abbreviation sampleTransition :: OperationTransition where
  "sampleTransition \<equiv> \<lparr>ot_Stage = StageVerify, ot_Status = OperationStatusNone, ot_Observation = [], ot_Precheck = None, ot_Attempt = None,
     ot_Execution = None, ot_Verification = None, ot_FailureClass = [], ot_Message = []\<rparr>"

abbreviation sampleVerified :: OperationRecord where
  "sampleVerified \<equiv> bumpRevision (sampleRunning\<lparr>or_Stage := StageVerify\<rparr>) 9"

lemma sample_ops_wf: "ops_wf sampleOpStore" "ops_wf emptySnapshot"
  by (simp_all add: ops_wf_def emptySnapshot_def keyed_by_def op_wf_def zeroOperationRecord_def attempts_ok_def
      validatePersistedOperationReview_def go_defs)

lemma sample_apply: "applyOperationTransition id sampleRunning sampleTransition 9 = Inr sampleVerified"
  by (simp add: applyOperationTransition_def transition_stage_def transition_status_def transition_observation_def transition_precheck_def
      transition_attempt_def transition_execution_def transition_verification_def transition_finish_def zeroOperationRecord_def
      bumpRevision_def TrimSpace_def)

lemma sample_commit:
  "\<exists>s'. commitOperation sampleOpEnv sampleOpID sampleVerified sampleOpStore sampleOpStore = ((sampleVerified, None), s') \<and>
     set (Operations s') = {(sampleOpID, sampleVerified)}"
  by (simp add: commitOperation_def commitSnapshotLocked_def Let_def compact_Operations emptySnapshot_def zeroOperationRecord_def
      keptOperationIDs_def newestResourceIDs_def bumpRevision_def) auto

lemma sample_transition:
  "\<exists>s'. TransitionOperation sampleOpEnv id sampleOpID 7 sampleTransition sampleOpStore = ((sampleVerified, None), s') \<and>
     set (Operations s') = {(sampleOpID, sampleVerified)}"
proof -
  have "TransitionOperation sampleOpEnv id sampleOpID 7 sampleTransition sampleOpStore = commitOperation sampleOpEnv sampleOpID sampleVerified sampleOpStore sampleOpStore"
    using sample_apply by (simp add: TransitionOperation_def)
  with sample_commit show ?thesis by simp
qed

theorem operations_invariant_witness:
  "\<exists>s. op_step id sampleOpStore s \<and> OperationByIdempotencyKey ''k'' s = Some sampleVerified"
proof -
  obtain s' where s': "TransitionOperation sampleOpEnv id sampleOpID 7 sampleTransition sampleOpStore = ((sampleVerified, None), s')"
    "set (Operations s') = {(sampleOpID, sampleVerified)}" using sample_transition by blast
  then have step: "op_step id sampleOpStore s'" by (blast intro: transitioned)
  have "(sampleOpID, sampleVerified) \<in> set (Operations s')" using s'(2) by simp
  from operations_invariant [OF sample_ops_wf(1) r_into_rtranclp [of "op_step id", OF step] this] step show ?thesis
    by (auto simp: bumpRevision_def)
qed

theorem operation_moves_forward_witness:
  "\<exists>s' r'. op_step id sampleOpStore s' \<and> (sampleOpID, r') \<in> set (Operations s') \<and> or_IdempotencyKey r' = ''k'' \<and>
     (\<exists>more. or_Attempts r' = or_Attempts sampleRunning @ more)"
proof -
  obtain s' where s': "TransitionOperation sampleOpEnv id sampleOpID 7 sampleTransition sampleOpStore = ((sampleVerified, None), s')"
    "set (Operations s') = {(sampleOpID, sampleVerified)}" using sample_transition by blast
  then have step: "op_step id sampleOpStore s'" by (blast intro: transitioned)
  have "(sampleOpID, sampleRunning) \<in> set (Operations sampleOpStore)" "(sampleOpID, sampleVerified) \<in> set (Operations s')" using s'(2) by simp_all
  from operation_moves_forward [OF sample_ops_wf(1) step this] step s'(2) show ?thesis by auto
qed

lemma sample_created:
  "\<exists>s'. CreateOperation sampleOpEnv sampleOpID sampleOpRequest emptySnapshot = ((newOperation sampleOpRequest sampleOpID 9, False, None), s')"
  by (simp add: CreateOperation_def validateOperationRequest_def Engine_Valid_def SupportedEngines_def emptySnapshot_def commitSnapshotLocked_def
      Let_def go_defs)

theorem CreateOperation_idempotent_witness:
  "\<exists>s' r. CreateOperation sampleOpEnv sampleOpID sampleOpRequest emptySnapshot = ((r, False, None), s') \<and>
     CreateOperation sampleOpEnv (sampleID (CHR ''4'')) sampleOpRequest s' = ((r, True, None), s')"
proof -
  obtain s' where c: "CreateOperation sampleOpEnv sampleOpID sampleOpRequest emptySnapshot = ((newOperation sampleOpRequest sampleOpID 9, False, None), s')"
    using sample_created by blast
  have valid: "validateOperationRequest sampleOpRequest = None"
    by (simp add: validateOperationRequest_def Engine_Valid_def SupportedEngines_def go_defs)
  have "operationIntentMatches sampleOpRequest sampleOpRequest" by (simp add: operationIntentMatches_def)
  with CreateOperation_idempotent [OF sample_ops_wf(2) _ _ _ c refl valid, of sampleOpEnv "sampleID (CHR ''4'')"] c show ?thesis
    by (auto simp: emptySnapshot_def zeroOperationRecord_def)
qed

theorem FinalizeAbandonedOperation_safe_witness:
  "\<exists>r' s'. FinalizeAbandonedOperation sampleOpEnv id sampleOpID 7 8 5 sampleTransition [] [] sampleOpStore = ((r', True, None), s') \<and>
     finalizeOperationLocked sampleOpEnv id sampleOpID 7 sampleTransition [] [] sampleOpStore = ((r', None), s')"
proof -
  have "finalizeOperationLocked sampleOpEnv id sampleOpID 7 sampleTransition [] [] sampleOpStore =
      commitOperation sampleOpEnv sampleOpID sampleVerified sampleOpStore sampleOpStore"
    using sample_apply by (simp add: finalizeOperationLocked_def Let_def)
  with sample_commit obtain s' where f: "finalizeOperationLocked sampleOpEnv id sampleOpID 7 sampleTransition [] [] sampleOpStore = ((sampleVerified, None), s')"
    by auto
  have a: "FinalizeAbandonedOperation sampleOpEnv id sampleOpID 7 8 5 sampleTransition [] [] sampleOpStore = ((sampleVerified, True, None), s')"
    unfolding FinalizeAbandonedOperation_def f by (simp add: IsZero_def emptySnapshot_def)
  from FinalizeAbandonedOperation_safe [OF a] a show ?thesis by auto
qed

theorem TransitionOperation_outcomes_witness:
  "TransitionOperation sampleOpEnv id sampleOpID 6 sampleTransition sampleOpStore =
     ((zeroOperationRecord, Some (ErrConflict ''operation metadata revision changed'')), sampleOpStore)"
  using TransitionOperation_outcomes [of sampleOpEnv id sampleOpID 6 sampleTransition sampleOpStore "[]" "[]"]
  by (simp add: zeroOperationRecord_def)

theorem SetRecoveryFreeze_correct_witness:
  "\<exists>s s'. SetRecoveryFreeze sampleOpEnv None (sampleID (CHR ''1'')) True s = (None, s') \<and> RecoveryFrozen None (sampleID (CHR ''1'')) s' = Inr True"
proof -
  let ?c = "\<lparr>cl_ResourceID = sampleID (CHR ''1''), cl_MetadataRevision = 1, cl_UpdatedAt = 1, cl_Engine = EngineMySQL, cl_EngineIdentity = [], cl_Health = zeroHealth, cl_RecoveryFreeze = False, cl_Recovery = None\<rparr>"
  let ?s = "emptySnapshot\<lparr>Clusters := [(sampleID (CHR ''1''), ?c)]\<rparr>"
  obtain s' where a: "SetRecoveryFreeze sampleOpEnv None (sampleID (CHR ''1'')) True ?s = (None, s')"
    by (simp add: SetRecoveryFreeze_def commitSnapshotLocked_def Let_def)
  with SetRecoveryFreeze_correct [of sampleOpEnv "sampleID (CHR ''1'')" True ?s] show ?thesis by blast
qed

end
