(* ===== verification/Go_Encoding.thy ===== *)
theory Go_Encoding
  imports Model_Types
begin

unbundle bit_operations_syntax

text \<open>
  The parts of Go's \<^verbatim>\<open>crypto/sha256\<close>, \<^verbatim>\<open>encoding/hex\<close>, \<^verbatim>\<open>encoding/base64\<close> and \<^verbatim>\<open>strings.Cut\<close> that the
  approval tokens rest on: the SHA-256 digest of a byte string, its lower-case hexadecimal text,
  and the unpadded URL alphabet of base 64 with the lemma that decoding undoes encoding.
\<close>

type_synonym byte = "8 word"

section \<open>SHA-256\<close>

text \<open>
  The constants of the standard: the first 32 bits of the fractional parts of the cube roots of the
  first 64 primes and of the square roots of the first eight. \<open>root_bits\<close> finds an integer root
  bit by bit; reading it as a word drops the integral part.
\<close>

definition sha_primes :: "nat list" where
  "sha_primes = filter (\<lambda>p. list_all (\<lambda>d. p mod d \<noteq> 0) [2..<p]) [2..<312]"

primrec root_bits :: "nat \<Rightarrow> nat \<Rightarrow> nat \<Rightarrow> nat \<Rightarrow> nat" where
  "root_bits e x 0 acc = acc"
| "root_bits e x (Suc b) acc = root_bits e x b (if (acc + 2 ^ b) ^ e \<le> x then acc + 2 ^ b else acc)"

definition sha_k :: "32 word list" where
  "sha_k = map (\<lambda>p. of_nat (root_bits 3 (p * 2 ^ 96) 36 0)) sha_primes"

definition sha_init :: "32 word list" where
  "sha_init = map (\<lambda>p. of_nat (root_bits 2 (p * 2 ^ 64) 36 0)) (take 8 sha_primes)"

text \<open>A byte string is padded to a multiple of 64 bytes with its length in bits at the end.\<close>

definition be_bytes :: "nat \<Rightarrow> nat \<Rightarrow> byte list" where
  "be_bytes n v = map (\<lambda>i. of_nat (v div 256 ^ (n - 1 - i))) [0..<n]"

definition sha_pad :: "byte list \<Rightarrow> byte list" where
  "sha_pad bytes =
     bytes @ [0x80] @ replicate ((119 - length bytes mod 64) mod 64) 0 @ be_bytes 8 (8 * length bytes)"

definition be_word :: "byte list \<Rightarrow> 32 word" where
  "be_word bytes = foldl (\<lambda>w b. push_bit 8 w OR ucast b) 0 bytes"

fun chunks :: "nat \<Rightarrow> nat \<Rightarrow> 'a list \<Rightarrow> 'a list list" where
  "chunks 0 m xs = []"
| "chunks (Suc n) m xs = take m xs # chunks n m (drop m xs)"

definition sha_sigma0 :: "32 word \<Rightarrow> 32 word" where
  "sha_sigma0 w = word_rotr 7 w XOR word_rotr 18 w XOR drop_bit 3 w"

definition sha_sigma1 :: "32 word \<Rightarrow> 32 word" where
  "sha_sigma1 w = word_rotr 17 w XOR word_rotr 19 w XOR drop_bit 10 w"

text \<open>The schedule grows by one word per step; the words are kept newest first.\<close>

fun sha_schedule :: "nat \<Rightarrow> 32 word list \<Rightarrow> 32 word list" where
  "sha_schedule 0 ws = ws"
| "sha_schedule (Suc n) ws = sha_schedule n ((sha_sigma1 (ws ! 1) + ws ! 6 + sha_sigma0 (ws ! 14) + ws ! 15) # ws)"

definition sha_round :: "32 word list \<Rightarrow> 32 word \<times> 32 word \<Rightarrow> 32 word list" where
  "sha_round v kw =
     (let a = v ! 0; b = v ! 1; c = v ! 2; d = v ! 3; e = v ! 4; f = v ! 5; g = v ! 6; h = v ! 7;
          t1 = h + (word_rotr 6 e XOR word_rotr 11 e XOR word_rotr 25 e) + ((e AND f) XOR (NOT e AND g)) + fst kw + snd kw;
          t2 = (word_rotr 2 a XOR word_rotr 13 a XOR word_rotr 22 a) + ((a AND b) XOR (a AND c) XOR (b AND c))
      in [t1 + t2, a, b, c, d + t1, e, f, g])"

definition sha_block :: "32 word list \<Rightarrow> byte list \<Rightarrow> 32 word list" where
  "sha_block h block =
     (let ws = rev (sha_schedule 48 (rev (map be_word (chunks 16 4 block))))
      in map2 (+) h (foldl sha_round h (zip sha_k ws)))"

definition sha256 :: "byte list \<Rightarrow> byte list" where
  "sha256 bytes =
     (let padded = sha_pad bytes
      in concat (map (\<lambda>w. be_bytes 4 (unat w)) (foldl sha_block sha_init (chunks (length padded div 64) 64 padded))))"

section \<open>Base 64\<close>

definition b64_char :: "nat \<Rightarrow> char" where
  "b64_char n =
     (if n < 26 then char_of (65 + n) else if n < 52 then char_of (71 + n)
      else if n < 62 then char_of (n - 4) else if n = 62 then CHR ''-'' else CHR ''_'')"

definition b64_index :: "char \<Rightarrow> nat option" where
  "b64_index c =
     (if CHR ''A'' \<le> c \<and> c \<le> CHR ''Z'' then Some (of_char c - 65)
      else if CHR ''a'' \<le> c \<and> c \<le> CHR ''z'' then Some (of_char c - 71)
      else if CHR ''0'' \<le> c \<and> c \<le> CHR ''9'' then Some (of_char c + 4)
      else if c = CHR ''-'' then Some 62 else if c = CHR ''_'' then Some 63 else None)"

text \<open>\<^verbatim>\<open>RawURLEncoding.EncodeToString\<close>: three bytes to four characters, no padding.\<close>

fun b64_encode :: "byte list \<Rightarrow> string" where
  "b64_encode (a # b # c # bs) =
     (let v = 65536 * unat a + 256 * unat b + unat c in
      b64_char (v div 262144) # b64_char (v div 4096 mod 64) # b64_char (v div 64 mod 64) # b64_char (v mod 64) # b64_encode bs)"
| "b64_encode [a, b] =
     (let v = 65536 * unat a + 256 * unat b in
      [b64_char (v div 262144), b64_char (v div 4096 mod 64), b64_char (v div 64 mod 64)])"
| "b64_encode [a] = (let v = 65536 * unat a in [b64_char (v div 262144), b64_char (v div 4096 mod 64)])"
| "b64_encode [] = []"

text \<open>
  \<^verbatim>\<open>RawURLEncoding.DecodeString\<close>: line breaks are skipped, any other character outside the
  alphabet is an error, and so is a single character left over; surplus bits are ignored.
\<close>

fun b64_quanta :: "nat list \<Rightarrow> byte list option" where
  "b64_quanta (i # j # k # l # ns) =
     (let v = 262144 * i + 4096 * j + 64 * k + l in
      map_option (\<lambda>bs. of_nat (v div 65536) # of_nat (v div 256 mod 256) # of_nat (v mod 256) # bs) (b64_quanta ns))"
| "b64_quanta [i, j, k] =
     (let v = 262144 * i + 4096 * j + 64 * k in Some [of_nat (v div 65536), of_nat (v div 256 mod 256)])"
| "b64_quanta [i, j] = (let v = 262144 * i + 4096 * j in Some [of_nat (v div 65536)])"
| "b64_quanta [i] = None"
| "b64_quanta [] = Some []"

fun b64_indices :: "string \<Rightarrow> nat list option" where
  "b64_indices [] = Some []"
| "b64_indices (c # cs) =
     (case b64_index c of None \<Rightarrow> None | Some n \<Rightarrow> map_option (\<lambda>ns. n # ns) (b64_indices cs))"

definition b64_decode :: "string \<Rightarrow> byte list option" where
  "b64_decode s =
     (case b64_indices (filter (\<lambda>c. c \<noteq> CHR 0x0A \<and> c \<noteq> CHR 0x0D) s) of None \<Rightarrow> None | Some ns \<Rightarrow> b64_quanta ns)"

text \<open>\<^verbatim>\<open>strings.Cut\<close> at one byte: the text before and after its first occurrence.\<close>

fun Cut :: "char \<Rightarrow> string \<Rightarrow> (string \<times> string) option" where
  "Cut sep [] = None"
| "Cut sep (c # cs) = (if c = sep then Some ([], cs) else map_option (\<lambda>(a, b). (c # a, b)) (Cut sep cs))"

definition TrimPrefix :: "string \<Rightarrow> string \<Rightarrow> string" where
  "TrimPrefix s p = (if HasPrefix s p then drop (length p) s else s)"

section \<open>Decoding undoes encoding\<close>

definition b64_code :: "nat \<Rightarrow> nat" where
  "b64_code n = (if n < 26 then 65 + n else if n < 52 then 71 + n else if n < 62 then n - 4 else if n = 62 then 45 else 95)"

lemma b64_char_code: "n < 64 \<Longrightarrow> of_char (b64_char n) = b64_code n"
  by (auto simp: b64_char_def b64_code_def)

lemma b64_index_char: "n < 64 \<Longrightarrow> b64_index (b64_char n) = Some n"
  using b64_char_code [of n] by (auto simp: b64_index_def less_eq_char_def b64_code_def b64_char_def split: if_splits)

text \<open>The characters of an encoded text are ASCII, no line break, no dot and no space.\<close>

definition b64_plain :: "char \<Rightarrow> bool" where
  "b64_plain c \<longleftrightarrow> c \<noteq> CHR 0x0A \<and> c \<noteq> CHR 0x0D \<and> c \<noteq> CHR ''.'' \<and> \<not> ascii_space c \<and> of_char c < (128 :: nat)"

lemma b64_char_plain: "n < 64 \<Longrightarrow> b64_plain (b64_char n)"
proof -
  assume n: "n < 64"
  have code: "45 \<le> b64_code n" "b64_code n \<noteq> 46" "b64_code n < 128" using n by (auto simp: b64_code_def)
  have "b64_char n \<noteq> c" if "of_char c < (45 :: nat) \<or> of_char c = (46 :: nat)" for c
    using code that b64_char_code [OF n] by (metis not_le)
  then show ?thesis
    unfolding b64_plain_def ascii_space_def using b64_char_code [OF n] code(3) by auto
qed

lemma byte_lt: "unat (b :: byte) < 256"
  using unsigned_less [of b, where 'a = nat] by simp

lemma b64_encode_plain: "c \<in> set (b64_encode bs) \<Longrightarrow> b64_plain c"
proof (induction bs rule: b64_encode.induct)
  case (1 a b c' bs)
  then show ?case using byte_lt [of a] byte_lt [of b] byte_lt [of c'] by (auto simp: Let_def intro!: b64_char_plain)
next
  case (2 a b)
  then show ?case using byte_lt [of a] byte_lt [of b] by (auto simp: Let_def intro!: b64_char_plain)
next
  case (3 a)
  then show ?case using byte_lt [of a] by (auto simp: Let_def intro!: b64_char_plain)
qed simp

lemma b64_encode_filter: "filter (\<lambda>c. c \<noteq> CHR 0x0A \<and> c \<noteq> CHR 0x0D) (b64_encode bs) = b64_encode bs"
  using b64_encode_plain by (auto simp: filter_id_conv b64_plain_def)

lemma b64_split:
  fixes v :: nat
  assumes "v < 16777216"
  shows "262144 * (v div 262144) + 4096 * (v div 4096 mod 64) + 64 * (v div 64 mod 64) + v mod 64 = v" "v div 262144 < 64"
proof -
  have d: "v div 4096 = v div 64 div 64" "v div 262144 = v div 64 div 64 div 64" by (simp_all add: div_mult2_eq [symmetric])
  have "64 * (v div 64) + v mod 64 = v" "64 * (v div 64 div 64) + v div 64 mod 64 = v div 64"
    "64 * (v div 64 div 64 div 64) + v div 64 div 64 mod 64 = v div 64 div 64" by simp_all
  then show "262144 * (v div 262144) + 4096 * (v div 4096 mod 64) + 64 * (v div 64 mod 64) + v mod 64 = v" unfolding d by linarith
  show "v div 262144 < 64" using assms by (simp add: less_mult_imp_div_less)
qed

lemma b64_bytes:
  fixes a b c :: byte
  defines "v \<equiv> 65536 * unat a + 256 * unat b + unat c"
  shows "v < 16777216" "of_nat (v div 65536) = a" "of_nat (v div 256 mod 256) = b" "of_nat (v mod 256) = c"
proof -
  have lt: "unat a < 256" "unat b < 256" "unat c < 256" by (rule byte_lt)+
  show "v < 16777216" using lt by (simp add: v_def)
  have "v div 65536 = unat a" using lt by (intro div_nat_eqI) (simp_all add: v_def)
  moreover have "v div 256 = 256 * unat a + unat b" using lt by (intro div_nat_eqI) (simp_all add: v_def)
  moreover have "v mod 256 = (unat c + 256 * (256 * unat a + unat b)) mod 256" by (simp add: v_def algebra_simps)
  moreover have "(unat c + 256 * (256 * unat a + unat b)) mod 256 = unat c" "(256 * unat a + unat b) mod 256 = unat b"
    using lt unfolding mod_mult_self2 mod_mult_self4 by simp_all
  ultimately show "of_nat (v div 65536) = a" "of_nat (v div 256 mod 256) = b" "of_nat (v mod 256) = c" by simp_all
qed

lemma b64_roundtrip_indices: "\<exists>ns. b64_indices (b64_encode bs) = Some ns \<and> b64_quanta ns = Some bs"
proof (induction bs rule: b64_encode.induct)
  case (1 a b c bs)
  define v where "v = 65536 * unat a + 256 * unat b + unat c"
  note v = b64_bytes [of a b c, folded v_def]
  from 1 obtain ns where ns: "b64_indices (b64_encode bs) = Some ns" "b64_quanta ns = Some bs" by auto
  have "b64_indices (b64_encode (a # b # c # bs)) = Some (v div 262144 # v div 4096 mod 64 # v div 64 mod 64 # v mod 64 # ns)"
    using ns(1) b64_split(2) [OF v(1)] by (simp add: b64_index_char v_def [symmetric] Let_def)
  moreover have "b64_quanta (v div 262144 # v div 4096 mod 64 # v div 64 mod 64 # v mod 64 # ns) = Some (a # b # c # bs)"
    using ns(2) v by (simp add: b64_split(1) [OF v(1)] Let_def)
  ultimately show ?case by blast
next
  case (2 a b)
  define v where "v = 65536 * unat a + 256 * unat b"
  have v0: "65536 * unat a + 256 * unat b + unat (0 :: byte) = v" by (simp add: v_def)
  note v = b64_bytes [of a b 0, unfolded v0]
  have "v = 64 * (1024 * unat a + 4 * unat b)" by (simp add: v_def)
  then have "v mod 64 = 0" by (metis mod_mult_self1_is_0)
  with b64_split(1) [OF v(1)] have s: "262144 * (v div 262144) + 4096 * (v div 4096 mod 64) + 64 * (v div 64 mod 64) = v" by simp
  have "b64_indices (b64_encode [a, b]) = Some [v div 262144, v div 4096 mod 64, v div 64 mod 64]"
    using b64_split(2) [OF v(1)] by (simp add: b64_index_char v_def [symmetric] Let_def)
  moreover have "b64_quanta [v div 262144, v div 4096 mod 64, v div 64 mod 64] = Some [a, b]" using v by (simp add: s Let_def)
  ultimately show ?case by blast
next
  case (3 a)
  define v where "v = 65536 * unat a"
  have v0: "65536 * unat a + 256 * unat (0 :: byte) + unat (0 :: byte) = v" by (simp add: v_def)
  note v = b64_bytes [of a 0 0, unfolded v0]
  have "v = 64 * (1024 * unat a)" by (simp add: v_def)
  then have "v mod 64 = 0" "v div 64 = 64 * (16 * unat a)" by simp_all
  then have "v mod 64 = 0" "v div 64 mod 64 = 0" by (metis mod_mult_self1_is_0)+
  with b64_split(1) [OF v(1)] have s: "262144 * (v div 262144) + 4096 * (v div 4096 mod 64) = v" by simp
  have "b64_indices (b64_encode [a]) = Some [v div 262144, v div 4096 mod 64]"
    using b64_split(2) [OF v(1)] by (simp add: b64_index_char v_def [symmetric] Let_def)
  moreover have "b64_quanta [v div 262144, v div 4096 mod 64] = Some [a]" using v by (simp add: s Let_def)
  ultimately show ?case by blast
qed simp

lemma b64_roundtrip: "b64_decode (b64_encode bs) = Some bs"
  using b64_roundtrip_indices [of bs] by (auto simp: b64_decode_def b64_encode_filter)

lemma Cut_append: "sep \<notin> set a \<Longrightarrow> Cut sep (a @ sep # b) = Some (a, b)"
  by (induction a) auto

lemma b64_encode_nonempty: "bs \<noteq> [] \<Longrightarrow> b64_encode bs \<noteq> []"
  by (cases bs rule: b64_encode.cases) (auto simp: Let_def)

end
