(* ===== verification/Approvals.thy ===== *)
theory Approvals
  imports Operations_Store Go_Encoding
begin

text \<open>
  Approval grants (\<^verbatim>\<open>internal/store/approvals.go\<close> and \<^verbatim>\<open>internal/approval/service.go\<close>): a
  mutating operation runs only with a one-time token that was issued for exactly its plan. The
  service issues a token (the grant's identifier and a random secret of which only the SHA-256
  digest is stored), checks one, and consumes it together with the operation's move to the
  approve stage in a single commit. The service reads the grant before the repository takes its
  lock, so \<open>Consume\<close> has the snapshot of the read and the snapshot of the commit as two
  arguments.
\<close>

section \<open>Grants in the repository\<close>

record ConsumeApprovalGrantRequest =
  cr_GrantID :: rid
  cr_TokenHash :: string
  cr_OperationID :: rid
  cr_ExpectedOperationRevision :: uint64
  cr_Now :: go_time
  cr_Transition :: OperationTransition

definition zeroGrant :: ApprovalGrant where
  "zeroGrant = \<lparr>ag_ResourceID = [], ag_MetadataRevision = 0, ag_CreatedAt = 0, ag_UpdatedAt = 0, ag_TokenHash = [], ag_OperationID = [],
     ag_ClusterID = [], ag_Engine = EngineOther [], ag_OperationKind = OperationKindOther [], ag_TargetID = [], ag_PlanDigest = [],
     ag_ObservationDigest = [], ag_IssuedBy = [], ag_IssuedAt = 0, ag_ExpiresAt = 0, ag_ConsumedAt = 0, ag_ConsumedByOperationID = [],
     ag_Status = ApprovalGrantOther []\<rparr>"

fun validApprovalGrantStatus :: "ApprovalGrantStatus \<Rightarrow> bool" where
  "validApprovalGrantStatus (ApprovalGrantOther _) = False"
| "validApprovalGrantStatus _ = True"

definition validateApprovalGrant :: "ApprovalGrant \<Rightarrow> store_error option" where
  "validateApprovalGrant grant =
     (if \<not> ValidResourceID (ag_ResourceID grant) then Some (ErrValidation ''approval grant ID is invalid'')
      else if ag_MetadataRevision grant = 0 then Some (ErrValidation ''approval grant metadata revision is required'')
      else if TrimSpace (ag_TokenHash grant) = [] then Some (ErrValidation ''approval grant token hash is required'')
      else if \<not> ValidResourceID (ag_OperationID grant) \<or> \<not> ValidResourceID (ag_ClusterID grant) \<or> \<not> ValidResourceID (ag_TargetID grant)
      then Some (ErrValidation ''approval grant operation, cluster, and target IDs are required'')
      else if \<not> Engine_Valid (ag_Engine grant) \<or> \<not> validOperationKind (ag_OperationKind grant)
      then Some (ErrValidation ''approval grant engine or operation kind is invalid'')
      else if TrimSpace (ag_PlanDigest grant) = [] \<or> TrimSpace (ag_ObservationDigest grant) = []
      then Some (ErrValidation ''approval grant plan and observation digests are required'')
      else if TrimSpace (ag_IssuedBy grant) = [] \<or> IsZero (ag_IssuedAt grant) \<or> \<not> ag_ExpiresAt grant > ag_IssuedAt grant
      then Some (ErrValidation ''approval grant issuer and validity window are required'')
      else if \<not> validApprovalGrantStatus (ag_Status grant) then Some (ErrValidation ''approval grant status is invalid'')
      else if ag_Status grant = ApprovalGrantConsumed
      then if IsZero (ag_ConsumedAt grant) \<or> \<not> ValidResourceID (ag_ConsumedByOperationID grant)
           then Some (ErrValidation ''consumed approval grant metadata is incomplete'') else None
      else if \<not> IsZero (ag_ConsumedAt grant) \<or> ag_ConsumedByOperationID grant \<noteq> []
      then Some (ErrValidation ''unconsumed approval grant contains consumption metadata'')
      else None)"

definition PutApprovalGrant :: "repo_env \<Rightarrow> ApprovalGrant \<Rightarrow> snapshot \<Rightarrow> store_error option \<times> snapshot" where
  "PutApprovalGrant env grant s =
     (case validateApprovalGrant grant of
        Some e \<Rightarrow> (Some e, s)
      | None \<Rightarrow>
          if map_of (ApprovalGrants s) (ag_ResourceID grant) \<noteq> None then (Some (ErrConflict ''approval grant already exists''), s)
          else commitSnapshotLocked env s (s\<lparr>ApprovalGrants := AList.update (ag_ResourceID grant) grant (ApprovalGrants s)\<rparr>))"

definition repository_ApprovalGrant :: "rid \<Rightarrow> snapshot \<Rightarrow> ApprovalGrant option" where
  "repository_ApprovalGrant resourceID s = map_of (ApprovalGrants s) resourceID"

definition repository_ApprovalGrants :: "snapshot \<Rightarrow> ApprovalGrant list" where
  "repository_ApprovalGrants s = sort_key (\<lambda>g. (ag_IssuedAt g, ag_ResourceID g)) (map snd (ApprovalGrants s))"

definition grantScopeMatches :: "ApprovalGrant \<Rightarrow> OperationRecord \<Rightarrow> bool" where
  "grantScopeMatches grant operation \<longleftrightarrow>
     ag_OperationID grant = or_ResourceID operation \<and> ag_ClusterID grant = op_ClusterID (or_Operation operation) \<and>
     ag_Engine grant = op_Engine (or_Operation operation) \<and> ag_OperationKind grant = op_Kind (or_Operation operation) \<and>
     ag_TargetID grant = or_TargetID operation \<and> ag_PlanDigest grant = pl_Digest (or_Plan operation) \<and>
     ag_ObservationDigest grant = or_Observation operation"

definition consumedGrant :: "ApprovalGrant \<Rightarrow> rid \<Rightarrow> go_time \<Rightarrow> ApprovalGrant" where
  "consumedGrant grant operationID now =
     grant\<lparr>ag_Status := ApprovalGrantConsumed, ag_ConsumedAt := now, ag_ConsumedByOperationID := operationID,
       ag_MetadataRevision := ag_MetadataRevision grant + 1, ag_UpdatedAt := now\<rparr>"

type_synonym consume_result = "(ApprovalGrant \<times> OperationRecord \<times> store_error option) \<times> snapshot"

definition consume_fail :: "store_error \<Rightarrow> snapshot \<Rightarrow> consume_result" where
  "consume_fail e s = ((zeroGrant, zeroOperationRecord, Some e), s)"

definition ConsumeApprovalGrant :: "repo_env \<Rightarrow> (string \<Rightarrow> string) \<Rightarrow> ConsumeApprovalGrantRequest \<Rightarrow> snapshot \<Rightarrow> consume_result" where
  "ConsumeApprovalGrant env redactText request s =
     (let hash = TrimSpace (cr_TokenHash request); fail = (\<lambda>e. consume_fail e s) in
      if \<not> ValidResourceID (cr_GrantID request) \<or> \<not> ValidResourceID (cr_OperationID request) \<or> cr_ExpectedOperationRevision request = 0
      then fail (ErrValidation ''approval consumption identifiers are invalid'')
      else if hash = [] then fail (ErrValidation ''approval token hash is required'')
      else if ot_Stage (cr_Transition request) \<noteq> StageApprove then fail (ErrValidation ''approval consumption must advance the approve stage'')
      else case map_of (ApprovalGrants s) (cr_GrantID request) of
        None \<Rightarrow> fail (ErrConflict ''approval grant does not exist'')
      | Some grant \<Rightarrow>
        (case map_of (Operations s) (cr_OperationID request) of
           None \<Rightarrow> fail (ErrConflict ''approval operation does not exist'')
         | Some operation \<Rightarrow>
             if or_MetadataRevision operation \<noteq> cr_ExpectedOperationRevision request then fail (ErrConflict ''operation metadata revision changed'')
             else if ag_Status grant \<noteq> ApprovalGrantActive then fail (ErrConflict ''approval grant is not active'')
             else
               let now = (if IsZero (cr_Now request) then env_now env else cr_Now request) in
               if \<not> now < ag_ExpiresAt grant then fail (ErrConflict ''approval grant has expired'')
               else if ag_TokenHash grant \<noteq> hash then fail (ErrConflict ''approval grant token hash does not match'')
               else if \<not> grantScopeMatches grant operation then fail (ErrConflict ''approval grant scope does not match operation'')
               else case applyOperationTransition redactText operation (cr_Transition request) now of
                 Inl e \<Rightarrow> fail e
               | Inr approved \<Rightarrow>
                   let grant' = consumedGrant grant (or_ResourceID operation) now;
                       (e, s') = commitSnapshotLocked env s
                         (s\<lparr>ApprovalGrants := AList.update (ag_ResourceID grant) grant' (ApprovalGrants s),
                            Operations := AList.update (or_ResourceID approved) approved (Operations s)\<rparr>)
                   in ((grant', approved, e), s')))"

section \<open>The approval service\<close>

datatype approval_error =
  ErrRequired | ErrInvalid | ErrExpired | ErrConsumed | ErrMismatch | ErrStalePlan | ErrBlockingChecks "string list"
  | ApprovalContext | ApprovalText string | ApprovalStore store_error

record IssueRequest =
  iq_Operation :: OperationRecord
  iq_IssuedBy :: string
  iq_TTL :: duration

record IssuedGrant =
  ig_Grant :: ApprovalGrant
  ig_Token :: string

definition tokenPrefix :: string where
  "tokenPrefix = ''cgag_''"

definition tokenHash :: "byte list \<Rightarrow> string" where
  "tokenHash secret = ''sha256:'' @ hex_bytes (sha256 secret)"

definition ParseToken :: "string \<Rightarrow> approval_error + rid \<times> byte list" where
  "ParseToken token0 =
     (let token = TrimSpace token0 in
      if token = [] then Inl ErrRequired
      else if \<not> HasPrefix token tokenPrefix then Inl ErrInvalid
      else case Cut (CHR ''.'') (TrimPrefix token tokenPrefix) of
        None \<Rightarrow> Inl ErrInvalid
      | Some (grantID, secretPart) \<Rightarrow>
          if \<not> ValidResourceID grantID \<or> secretPart = [] then Inl ErrInvalid
          else case b64_decode secretPart of
            None \<Rightarrow> Inl ErrInvalid
          | Some secret \<Rightarrow> if length secret \<noteq> 32 then Inl ErrInvalid else Inr (grantID, secret))"

definition publicGrant :: "ApprovalGrant \<Rightarrow> ApprovalGrant" where
  "publicGrant grant = grant\<lparr>ag_TokenHash := []\<rparr>"

definition hasDurableOperationPlan :: "OperationRecord \<Rightarrow> bool" where
  "hasDurableOperationPlan r \<longleftrightarrow>
     ValidResourceID (or_ResourceID r) \<and> ValidResourceID (op_ClusterID (or_Operation r)) \<and> ValidResourceID (or_TargetID r) \<and>
     Engine_Valid (op_Engine (or_Operation r)) \<and> op_Kind (or_Operation r) \<noteq> OperationKindOther [] \<and>
     TrimSpace (or_Observation r) \<noteq> [] \<and> TrimSpace (pl_Digest (or_Plan r)) \<noteq> [] \<and>
     pl_OperationID (or_Plan r) = or_ResourceID r \<and> pl_TargetID (or_Plan r) = or_TargetID r"

text \<open>The names are the keys of a map, sorted.\<close>

definition blockingCheckNames :: "Check list list \<Rightarrow> string list" where
  "blockingCheckNames checkSets =
     sort (remdups (map (\<lambda>check. let name = TrimSpace (ck_Name check) in if name = [] then ''unnamed_check'' else name)
       (filter (\<lambda>check. ck_Status check = CheckFail) (concat checkSets))))"

definition approval_ttl :: "duration \<Rightarrow> duration" where
  "approval_ttl ttl = (if ttl = 0 then 5 * minute else ttl)"

definition newGrant :: "rid \<Rightarrow> go_time \<Rightarrow> byte list \<Rightarrow> OperationRecord \<Rightarrow> string \<Rightarrow> duration \<Rightarrow> ApprovalGrant" where
  "newGrant fresh now secret operation issuedBy ttl =
     \<lparr>ag_ResourceID = fresh, ag_MetadataRevision = 1, ag_CreatedAt = now, ag_UpdatedAt = now, ag_TokenHash = tokenHash secret,
      ag_OperationID = or_ResourceID operation, ag_ClusterID = op_ClusterID (or_Operation operation), ag_Engine = op_Engine (or_Operation operation),
      ag_OperationKind = op_Kind (or_Operation operation), ag_TargetID = or_TargetID operation, ag_PlanDigest = pl_Digest (or_Plan operation),
      ag_ObservationDigest = or_Observation operation, ag_IssuedBy = issuedBy, ag_IssuedAt = now, ag_ExpiresAt = time_add now ttl,
      ag_ConsumedAt = 0, ag_ConsumedByOperationID = [], ag_Status = ApprovalGrantActive\<rparr>"

text \<open>\<open>random\<close> is the secret read from the random source, if it delivers one; \<open>now\<close> the service's clock.\<close>

definition Issue :: "repo_env \<Rightarrow> bool \<Rightarrow> byte list option \<Rightarrow> rid \<Rightarrow> go_time \<Rightarrow> IssueRequest \<Rightarrow> snapshot \<Rightarrow> (approval_error + IssuedGrant) \<times> snapshot" where
  "Issue env ctxDone random fresh now request s =
     (let issuedBy = TrimSpace (iq_IssuedBy request); operation = iq_Operation request in
      if ctxDone then (Inl ApprovalContext, s)
      else if issuedBy = [] then (Inl (ApprovalText ''approval issuer is required''), s)
      else if \<not> hasDurableOperationPlan operation then (Inl (ApprovalText ''a durable planned operation is required''), s)
      else
        let names = blockingCheckNames [or_Precheck operation, pl_Checks (or_Plan operation)] in
        if names \<noteq> [] then (Inl (ErrBlockingChecks names), s)
        else
          let ttl = approval_ttl (iq_TTL request) in
          if ttl < 0 \<or> ttl > 15 * minute then (Inl (ApprovalText ''approval grant TTL must be between 1ns and 15m0s''), s)
          else case random of
            None \<Rightarrow> (Inl (ApprovalText ''generate approval secret''), s)
          | Some secret \<Rightarrow>
              let grant = newGrant fresh now secret operation issuedBy ttl in
              case PutApprovalGrant env grant s of
                (Some e, s') \<Rightarrow> (Inl (ApprovalStore e), s')
              | (None, s') \<Rightarrow>
                  (Inr \<lparr>ig_Grant = publicGrant grant, ig_Token = tokenPrefix @ ag_ResourceID grant @ ''.'' @ b64_encode secret\<rparr>, s'))"

definition loadToken :: "bool \<Rightarrow> go_time \<Rightarrow> string \<Rightarrow> snapshot \<Rightarrow> approval_error + ApprovalGrant \<times> string" where
  "loadToken ctxDone now token s =
     (if ctxDone then Inl ApprovalContext
      else bindR (ParseToken token) (\<lambda>(grantID, secret).
        let hash = tokenHash secret in
        case repository_ApprovalGrant grantID s of
          None \<Rightarrow> Inl ErrInvalid
        | Some grant \<Rightarrow>
            if ag_TokenHash grant \<noteq> hash then Inl ErrInvalid
            else case ag_Status grant of
              ApprovalGrantConsumed \<Rightarrow> Inl ErrConsumed
            | ApprovalGrantActive \<Rightarrow> if \<not> now < ag_ExpiresAt grant then Inl ErrExpired else Inr (grant, hash)
            | ApprovalGrantExpired \<Rightarrow> Inl ErrExpired
            | _ \<Rightarrow> Inl ErrInvalid))"

definition grantMatchesIntent :: "ApprovalGrant \<Rightarrow> Operation \<Rightarrow> rid \<Rightarrow> bool" where
  "grantMatchesIntent grant operation targetID \<longleftrightarrow>
     ag_ClusterID grant = op_ClusterID operation \<and> ag_Engine grant = op_Engine operation \<and>
     ag_OperationKind grant = op_Kind operation \<and> ag_TargetID grant = targetID"

definition AuthorizeIntent :: "bool \<Rightarrow> go_time \<Rightarrow> string \<Rightarrow> Operation \<Rightarrow> rid \<Rightarrow> snapshot \<Rightarrow> approval_error + ApprovalGrant" where
  "AuthorizeIntent ctxDone now token operation targetID s =
     bindR (loadToken ctxDone now token s) (\<lambda>(grant, _).
       if \<not> grantMatchesIntent grant operation targetID then Inl ErrMismatch else Inr (publicGrant grant))"

definition approveTransition :: OperationTransition where
  "approveTransition = \<lparr>ot_Stage = StageApprove, ot_Status = OperationStatusNone, ot_Observation = [], ot_Precheck = None, ot_Attempt = None,
     ot_Execution = None, ot_Verification = None, ot_FailureClass = [], ot_Message = ''one-time approval grant consumed''\<rparr>"

fun isConflict :: "store_error \<Rightarrow> bool" where
  "isConflict (ErrConflict _) = True"
| "isConflict _ = False"

text \<open>\<open>s1\<close> is what \<^verbatim>\<open>loadToken\<close> read, \<open>s2\<close> what the repository holds when it takes its lock.\<close>

definition Consume :: "repo_env \<Rightarrow> (string \<Rightarrow> string) \<Rightarrow> bool \<Rightarrow> go_time \<Rightarrow> OperationRecord \<Rightarrow> string \<Rightarrow> snapshot \<Rightarrow> snapshot \<Rightarrow>
    (approval_error + rid \<times> OperationRecord) \<times> snapshot" where
  "Consume env redactText ctxDone now operation token s1 s2 =
     (case loadToken ctxDone now token s1 of
        Inl e \<Rightarrow> (Inl e, s2)
      | Inr (grant, hash) \<Rightarrow>
          if \<not> grantMatchesIntent grant (or_Operation operation) (or_TargetID operation) \<or> ag_OperationID grant \<noteq> or_ResourceID operation
          then (Inl ErrMismatch, s2)
          else if ag_PlanDigest grant \<noteq> pl_Digest (or_Plan operation) \<or> ag_ObservationDigest grant \<noteq> or_Observation operation
          then (Inl ErrStalePlan, s2)
          else case ConsumeApprovalGrant env redactText \<lparr>cr_GrantID = ag_ResourceID grant, cr_TokenHash = hash,
                 cr_OperationID = or_ResourceID operation, cr_ExpectedOperationRevision = or_MetadataRevision operation,
                 cr_Now = now, cr_Transition = approveTransition\<rparr> s2 of
            ((consumed, approved, None), s') \<Rightarrow> (Inr (ag_ResourceID consumed, approved), s')
          | ((consumed, approved, Some e), s') \<Rightarrow>
              if isConflict e \<and> (case repository_ApprovalGrant (ag_ResourceID grant) s' of None \<Rightarrow> False
                    | Some current \<Rightarrow> ag_Status current = ApprovalGrantConsumed)
              then (Inl ErrConsumed, s') else (Inl (ApprovalStore e), s'))"

definition Grants :: "snapshot \<Rightarrow> ApprovalGrant list" where
  "Grants s = map publicGrant (repository_ApprovalGrants s)"

definition Grant :: "rid \<Rightarrow> snapshot \<Rightarrow> ApprovalGrant option" where
  "Grant resourceID s = map_option publicGrant (repository_ApprovalGrant resourceID s)"

section \<open>Tokens\<close>

lemma plain_no_space:
  assumes "b64_plain c"
  shows "\<not> ascii_space c" "\<not> wide_space2 c d" "\<not> wide_space2 d c" "\<not> wide_space3 c d e" "\<not> wide_space3 d e c" "\<not> wide_space3 d c e"
proof -
  have lt: "of_char c < (128 :: nat)" using assms by (simp add: b64_plain_def)
  have high: "c \<noteq> x" if "(128 :: nat) \<le> of_char x" for x using lt that by auto
  show "\<not> ascii_space c" using assms by (simp add: b64_plain_def)
  show "\<not> wide_space2 c d" "\<not> wide_space2 d c" "\<not> wide_space3 c d e" "\<not> wide_space3 d c e" by (auto simp: wide_space2_def wide_space3_def high)
  show "\<not> wide_space3 d e c" using lt by (auto simp: wide_space3_def high less_eq_char_def)
qed

lemma plain_trim_left: "b64_plain c \<Longrightarrow> trim_left (c # s) = c # s"
  by (simp add: trim_left_fixed plain_no_space split: list.splits)

lemma plain_trim_left_rev: "b64_plain c \<Longrightarrow> trim_left_rev (c # s) = c # s"
  by (cases "c # s" rule: trim_left_rev.cases) (simp_all add: plain_no_space)

lemma TrimSpace_plain: "b64_plain c \<Longrightarrow> b64_plain d \<Longrightarrow> TrimSpace (c # s @ [d]) = c # s @ [d]"
  by (simp add: TrimSpace_def plain_trim_left plain_trim_left_rev)

lemma plain_in_trim_left_rev: "b64_plain c \<Longrightarrow> c \<in> set s \<Longrightarrow> c \<in> set (trim_left_rev s)"
  by (induction s rule: trim_left_rev.induct) (auto simp: plain_no_space)

lemma tokenHash_nonempty [simp]: "TrimSpace (tokenHash secret) \<noteq> []"
proof -
  have s: "b64_plain (CHR ''s'')" by (simp add: b64_plain_def ascii_space_def)
  obtain rest where r: "tokenHash secret = CHR ''s'' # rest" by (simp add: tokenHash_def)
  have "CHR ''s'' \<in> set (TrimSpace (tokenHash secret))"
    unfolding TrimSpace_def r plain_trim_left [OF s] set_rev by (rule plain_in_trim_left_rev [OF s]) simp
  then show ?thesis by auto
qed

lemma ValidResourceID_no_dot: "ValidResourceID i \<Longrightarrow> CHR ''.'' \<notin> set i"
proof
  assume i: "ValidResourceID i" "CHR ''.'' \<in> set i"
  then obtain k where "k < length i" "i ! k = CHR ''.''" by (auto simp: in_set_conv_nth)
  with i(1) show False
    using uuid_chars_ok_iff [of 0 i] by (auto simp: ValidResourceID_def uuid_char_ok_def is_hex_def split: if_splits)
qed

lemma ParseToken_issued:
  assumes "ValidResourceID i" "length secret = 32"
  shows "ParseToken (tokenPrefix @ i @ ''.'' @ b64_encode secret) = Inr (i, secret)"
proof -
  have ne: "b64_encode secret \<noteq> []" using assms(2) by (intro b64_encode_nonempty) auto
  obtain es e where e: "b64_encode secret = es @ [e]" using ne by (metis rev_exhaust)
  have "b64_plain e" using b64_encode_plain [of e secret] e by simp
  moreover have "b64_plain (CHR ''c'')" by (simp add: b64_plain_def ascii_space_def)
  ultimately have trim: "TrimSpace (tokenPrefix @ i @ ''.'' @ b64_encode secret) = tokenPrefix @ i @ ''.'' @ b64_encode secret"
    using TrimSpace_plain [of "CHR ''c''" e "''gag_'' @ i @ ''.'' @ es"] by (simp add: tokenPrefix_def e)
  have "Cut (CHR ''.'') (i @ CHR ''.'' # b64_encode secret) = Some (i, b64_encode secret)"
    by (rule Cut_append [OF ValidResourceID_no_dot [OF assms(1)]])
  with trim assms ne show ?thesis
    by (simp add: ParseToken_def Let_def HasPrefix_def TrimPrefix_def tokenPrefix_def b64_roundtrip)
qed

lemma blockingCheckNames_empty: "blockingCheckNames css = [] \<longleftrightarrow> (\<forall>cs \<in> set css. \<forall>c \<in> set cs. ck_Status c \<noteq> CheckFail)"
proof -
  have "blockingCheckNames css = [] \<longleftrightarrow> set (blockingCheckNames css) = {}" by (rule set_empty [symmetric])
  also have "\<dots> \<longleftrightarrow> {c \<in> \<Union> (set ` set css). ck_Status c = CheckFail} = {}" by (simp add: blockingCheckNames_def)
  finally show ?thesis by blast
qed

section \<open>Grants are spent once\<close>

definition grants_keyed :: "snapshot \<Rightarrow> bool" where
  "grants_keyed s \<longleftrightarrow> keyed_by ag_ResourceID (ApprovalGrants s)"

definition grant_spent :: "rid \<Rightarrow> snapshot \<Rightarrow> bool" where
  "grant_spent i s \<longleftrightarrow> grants_keyed s \<and> (\<forall>g. (i, g) \<in> set (ApprovalGrants s) \<longrightarrow> ag_Status g \<noteq> ApprovalGrantActive)"

lemma compact_ApprovalGrants: "ApprovalGrants (compactSnapshotHistory v now) = compactGrants (ApprovalGrants v)"
  by (simp add: compactSnapshotHistory_def Let_def)

lemma compactGrants_subset: "set (compactGrants m) \<subseteq> set m"
  by (auto simp: compactGrants_def)

lemma compactGrants_keyed: "keyed_by ag_ResourceID m \<Longrightarrow> keyed_by ag_ResourceID (compactGrants m)"
  by (simp add: compactGrants_def keyed_by_retain)

lemma commit_grants:
  assumes "commitSnapshotLocked env s v = (e, s')"
  shows "ApprovalGrants s' = compactGrants (ApprovalGrants v) \<or> e \<noteq> None \<and> s' = s"
  using assms by (cases rule: commit_cases [of env s v]) (auto simp: compact_ApprovalGrants)

text \<open>What has to hold for a grant to be consumed, and what the commit then proposes.\<close>

lemma ConsumeApprovalGrant_commits:
  assumes "ConsumeApprovalGrant env red q s = ((g, r, e), s')" "e = None \<or> s' \<noteq> s"
  obtains g0 op0 now where
    "map_of (ApprovalGrants s) (cr_GrantID q) = Some g0" "map_of (Operations s) (cr_OperationID q) = Some op0"
    "now = (if IsZero (cr_Now q) then env_now env else cr_Now q)" "ag_Status g0 = ApprovalGrantActive" "now < ag_ExpiresAt g0"
    "ag_TokenHash g0 = TrimSpace (cr_TokenHash q)" "grantScopeMatches g0 op0" "or_MetadataRevision op0 = cr_ExpectedOperationRevision q"
    "ot_Stage (cr_Transition q) = StageApprove" "applyOperationTransition red op0 (cr_Transition q) now = Inr r"
    "g = consumedGrant g0 (or_ResourceID op0) now"
    "commitSnapshotLocked env s (s\<lparr>ApprovalGrants := AList.update (ag_ResourceID g0) g (ApprovalGrants s),
       Operations := AList.update (or_ResourceID r) r (Operations s)\<rparr>) = (e, s')"
proof -
  have "\<exists>g0. map_of (ApprovalGrants s) (cr_GrantID q) = Some g0" "\<exists>op0. map_of (Operations s) (cr_OperationID q) = Some op0"
    using assms by (auto simp: ConsumeApprovalGrant_def consume_fail_def Let_def split: option.splits if_splits)
  then obtain g0 op0 where m: "map_of (ApprovalGrants s) (cr_GrantID q) = Some g0" "map_of (Operations s) (cr_OperationID q) = Some op0" by blast
  define now where "now = (if IsZero (cr_Now q) then env_now env else cr_Now q)"
  show ?thesis
    by (rule that [OF m now_def])
      (use assms m in \<open>auto simp: ConsumeApprovalGrant_def consume_fail_def Let_def now_def [symmetric] split: if_splits sum.splits prod.splits\<close>)
qed

lemma ConsumeApprovalGrant_grants:
  assumes "ConsumeApprovalGrant env red q s = ((g, r, e), s')" "grants_keyed s"
  shows "grants_keyed s' \<and> (e = None \<longrightarrow> grant_spent (cr_GrantID q) s') \<and> (grant_spent i s \<longrightarrow> grant_spent i s')"
proof (cases "e = None \<or> s' \<noteq> s")
  case True
  obtain g0 :: ApprovalGrant and op0 :: OperationRecord and now where
    m: "map_of (ApprovalGrants s) (cr_GrantID q) = Some g0" and g: "g = consumedGrant g0 (or_ResourceID op0) now"
    and c0: "commitSnapshotLocked env s (s\<lparr>ApprovalGrants := AList.update (ag_ResourceID g0) g (ApprovalGrants s),
       Operations := AList.update (or_ResourceID r) r (Operations s)\<rparr>) = (e, s')"
    by (rule ConsumeApprovalGrant_commits [OF assms(1) True]) blast
  define v where "v = s\<lparr>ApprovalGrants := AList.update (ag_ResourceID g0) g (ApprovalGrants s), Operations := AList.update (or_ResourceID r) r (Operations s)\<rparr>"
  have v: "ApprovalGrants v = AList.update (ag_ResourceID g0) g (ApprovalGrants s)" and c: "commitSnapshotLocked env s v = (e, s')"
    using c0 by (simp_all add: v_def)
  have k: "keyed_by ag_ResourceID (ApprovalGrants s)" using assms(2) by (simp add: grants_keyed_def)
  have id: "ag_ResourceID g0 = cr_GrantID q" using m k by (auto simp: keyed_by_def dest: map_of_SomeD)
  have g': "ag_ResourceID g = cr_GrantID q" "ag_Status g = ApprovalGrantConsumed" using id by (simp_all add: g consumedGrant_def)
  have kv: "keyed_by ag_ResourceID (ApprovalGrants v)" unfolding v id by (rule keyed_by_update [OF k g'(1)])
  have sv: "set (ApprovalGrants v) = insert (cr_GrantID q, g) {p \<in> set (ApprovalGrants s). fst p \<noteq> cr_GrantID q}"
    using k by (simp add: v id set_update_distinct keyed_by_def)
  have spent: "grant_spent (cr_GrantID q) s'" "grants_keyed s'" "grant_spent i s \<longrightarrow> grant_spent i s'"
    if "ApprovalGrants s' = compactGrants (ApprovalGrants v)"
    using compactGrants_keyed [OF kv] compactGrants_subset [of "ApprovalGrants v"] sv g'(2) that
    by (auto simp: grant_spent_def grants_keyed_def)
  from commit_grants [OF c] spent assms(2) show ?thesis by blast
qed (use assms in auto)

lemma PutApprovalGrant_grants:
  assumes "PutApprovalGrant env g s = (e, s')" "grants_keyed s"
  shows "grants_keyed s' \<and> (ag_ResourceID g \<noteq> i \<longrightarrow> grant_spent i s \<longrightarrow> grant_spent i s')"
proof (cases "s' = s")
  case False
  have k: "keyed_by ag_ResourceID (ApprovalGrants s)" using assms(2) by (simp add: grants_keyed_def)
  define v where "v = s\<lparr>ApprovalGrants := AList.update (ag_ResourceID g) g (ApprovalGrants s)\<rparr>"
  have c: "commitSnapshotLocked env s v = (e, s')" using assms(1) False by (auto simp: PutApprovalGrant_def v_def split: option.splits if_splits)
  have kv: "keyed_by ag_ResourceID (ApprovalGrants v)" using keyed_by_update [OF k refl] by (simp add: v_def)
  have sv: "set (ApprovalGrants v) = insert (ag_ResourceID g, g) {p \<in> set (ApprovalGrants s). fst p \<noteq> ag_ResourceID g}"
    using k by (simp add: v_def set_update_distinct keyed_by_def)
  from commit_grants [OF c] False have "ApprovalGrants s' = compactGrants (ApprovalGrants v)" by simp
  with compactGrants_keyed [OF kv] compactGrants_subset [of "ApprovalGrants v"] sv show ?thesis
    by (auto simp: grant_spent_def grants_keyed_def)
qed (use assms in auto)

text \<open>
  How the grants evolve: grants are stored (under identifiers other than the one looked at, as
  identifiers are drawn at random), consumed, and dropped by the compaction of any commit.
\<close>

inductive grant_step :: "rid \<Rightarrow> snapshot \<Rightarrow> snapshot \<Rightarrow> bool" for i where
  grant_put: "PutApprovalGrant env g s = (e, s') \<Longrightarrow> ag_ResourceID g \<noteq> i \<Longrightarrow> grant_step i s s'"
| grant_consumed: "ConsumeApprovalGrant env red q s = (x, s') \<Longrightarrow> grant_step i s s'"
| grant_other: "ApprovalGrants v = ApprovalGrants s \<Longrightarrow> commitSnapshotLocked env s v = (e, s') \<Longrightarrow> grant_step i s s'"

lemma grant_spent_step: "grant_step i s s' \<Longrightarrow> grant_spent i s \<Longrightarrow> grant_spent i s'"
proof (induction rule: grant_step.induct)
  case grant_put
  then show ?case using PutApprovalGrant_grants unfolding grant_spent_def by metis
next
  case (grant_consumed env red q s x s')
  then show ?case using ConsumeApprovalGrant_grants [of env red q s "fst x" "fst (snd x)" "snd (snd x)" s' i] by (auto simp: grant_spent_def)
next
  case (grant_other v s env e s')
  from commit_grants [OF grant_other(2)] grant_other(1,3) compactGrants_keyed compactGrants_subset [of "ApprovalGrants s"] show ?case
    by (auto simp: grant_spent_def grants_keyed_def)
qed

lemma grant_spent_reachable: "(grant_step i)\<^sup>*\<^sup>* s s' \<Longrightarrow> grant_spent i s \<Longrightarrow> grant_spent i s'"
  by (induction rule: rtranclp_induct) (auto intro: grant_spent_step)

lemma spent_refused:
  assumes "grant_spent (cr_GrantID q) s"
  shows "\<exists>e. ConsumeApprovalGrant env red q s = consume_fail e s"
proof -
  have "ag_Status g \<noteq> ApprovalGrantActive" if "map_of (ApprovalGrants s) (cr_GrantID q) = Some g" for g
    using assms that by (auto simp: grant_spent_def dest: map_of_SomeD)
  then show ?thesis by (auto simp: ConsumeApprovalGrant_def Let_def split: option.splits)
qed

section \<open>Properties\<close>


text \<open>
  (C32) An issued token opens the grant it was issued for. When the service issues a grant (with
  a secret of the fixed length), the token parses back to exactly the grant's identifier and that
  secret; the grant returned shows no digest, names the operation's plan and observation, and
  expires between now and fifteen minutes from now; no check of the plan was failing. If no
  other grant is newer, the token then loads that grant, with its digest, at every instant before it expires.
\<close>

theorem Issue_roundtrip:
  assumes "Issue env ctxDone (Some secret) fresh now request s = (Inr issued, s')" "length secret = 32" "grants_keyed s"
  shows "ParseToken (ig_Token issued) = Inr (fresh, secret) \<and> ag_TokenHash (ig_Grant issued) = [] \<and>
    ag_ResourceID (ig_Grant issued) = fresh \<and> ag_PlanDigest (ig_Grant issued) = pl_Digest (or_Plan (iq_Operation request)) \<and>
    ag_ObservationDigest (ig_Grant issued) = or_Observation (iq_Operation request) \<and>
    now < ag_ExpiresAt (ig_Grant issued) \<and> ag_ExpiresAt (ig_Grant issued) \<le> now + 15 * minute \<and>
    (\<forall>check \<in> set (or_Precheck (iq_Operation request)) \<union> set (pl_Checks (or_Plan (iq_Operation request))). ck_Status check \<noteq> CheckFail) \<and>
    ((\<forall>p \<in> set (ApprovalGrants s). ag_UpdatedAt (snd p) < now) \<longrightarrow>
       (\<forall>t < ag_ExpiresAt (ig_Grant issued). \<exists>g. loadToken False t (ig_Token issued) s' = Inr (g, tokenHash secret) \<and> publicGrant g = ig_Grant issued))"
proof -
  define g where "g = newGrant fresh now secret (iq_Operation request) (TrimSpace (iq_IssuedBy request)) (approval_ttl (iq_TTL request))"
  have put: "PutApprovalGrant env g s = (None, s')" "issued = \<lparr>ig_Grant = publicGrant g, ig_Token = tokenPrefix @ ag_ResourceID g @ ''.'' @ b64_encode secret\<rparr>"
    and ttl: "0 \<le> approval_ttl (iq_TTL request)" "approval_ttl (iq_TTL request) \<le> 15 * minute"
    and checks: "blockingCheckNames [or_Precheck (iq_Operation request), pl_Checks (or_Plan (iq_Operation request))] = []"
    using assms(1) by (auto simp: Issue_def g_def Let_def split: if_splits option.splits prod.splits)
  have g: "ag_ResourceID g = fresh" "ag_TokenHash g = tokenHash secret" "ag_Status g = ApprovalGrantActive" "ag_UpdatedAt g = now"
    "ag_ExpiresAt g = now + approval_ttl (iq_TTL request)" "ag_IssuedAt g = now"
    "ag_PlanDigest g = pl_Digest (or_Plan (iq_Operation request))" "ag_ObservationDigest g = or_Observation (iq_Operation request)"
    by (simp_all add: g_def newGrant_def time_add_def)
  have v: "validateApprovalGrant g = None" "map_of (ApprovalGrants s) fresh = None"
    and c: "commitSnapshotLocked env s (s\<lparr>ApprovalGrants := AList.update fresh g (ApprovalGrants s)\<rparr>) = (None, s')"
    using put(1) g(1) by (auto simp: PutApprovalGrant_def split: option.splits if_splits)
  have valid: "ValidResourceID fresh" "now < ag_ExpiresAt g" using v(1) g(1,6) by (auto simp: validateApprovalGrant_def split: if_splits)
  have parse: "ParseToken (ig_Token issued) = Inr (fresh, secret)"
    using ParseToken_issued [OF valid(1) assms(2)] by (simp add: put(2) g(1))
  have "ck_Status check \<noteq> CheckFail" if "check \<in> set (or_Precheck (iq_Operation request)) \<union> set (pl_Checks (or_Plan (iq_Operation request)))" for check
    using checks that by (auto simp: blockingCheckNames_empty)
  moreover have "\<exists>g. loadToken False t (ig_Token issued) s' = Inr (g, tokenHash secret) \<and> publicGrant g = ig_Grant issued"
    if new: "\<forall>p \<in> set (ApprovalGrants s). ag_UpdatedAt (snd p) < now" and t: "t < ag_ExpiresAt (ig_Grant issued)" for t
  proof -
    have k: "keyed_by ag_ResourceID (ApprovalGrants s)" using assms(3) by (simp add: grants_keyed_def)
    let ?m = "AList.update fresh g (ApprovalGrants s)"
    have km: "keyed_by ag_ResourceID ?m" by (rule keyed_by_update [OF k g(1)])
    have "fresh \<in> set (newestResourceIDs (map (\<lambda>p. (fst p, ag_UpdatedAt (snd p))) ?m) 1024)"
      by (rule newest_stays [where t = now]) (use km k new g(4) in \<open>auto simp: keyed_by_def set_update_distinct comp_def image_iff\<close>)
    moreover have "(fresh, g) \<in> set ?m" using k by (simp add: set_update_distinct keyed_by_def)
    ultimately have "(fresh, g) \<in> set (compactGrants ?m)" by (simp add: compactGrants_def)
    moreover have "ApprovalGrants s' = compactGrants ?m" using commit_None [OF c] by (simp add: compact_ApprovalGrants)
    ultimately have "map_of (ApprovalGrants s') fresh = Some g" using keyed_by_lookup [OF compactGrants_keyed [OF km]] by simp
    then show ?thesis using t parse g(2,3) put(2) by (simp add: loadToken_def repository_ApprovalGrant_def publicGrant_def)
  qed
  ultimately show ?thesis using parse g ttl valid put(2) by (simp add: publicGrant_def)
qed

text \<open>
  Two executors that present the same token at the same time do not both run. When the
  grant that a token loaded has been consumed before the repository's lock is taken, the second
  consumption reports that the grant is consumed and leaves the repository as it is, whatever
  else has happened to the operation in between.
\<close>

theorem Consume_race:
  assumes "loadToken ctxDone now token s1 = Inr (grant, hash)" "grantMatchesIntent grant (or_Operation op0) (or_TargetID op0)"
    "ag_OperationID grant = or_ResourceID op0" "ag_PlanDigest grant = pl_Digest (or_Plan op0)" "ag_ObservationDigest grant = or_Observation op0"
    "ValidResourceID (ag_ResourceID grant)" "ValidResourceID (or_ResourceID op0)" "or_MetadataRevision op0 \<noteq> 0"
    "map_of (ApprovalGrants s2) (ag_ResourceID grant) = Some g'" "ag_Status g' = ApprovalGrantConsumed"
  shows "Consume env red ctxDone now op0 token s1 s2 = (Inl ErrConsumed, s2)"
proof -
  have "\<exists>secret. tokenHash secret = hash"
    using assms(1) by (auto simp: loadToken_def Let_def bindR_def split: if_splits sum.splits option.splits ApprovalGrantStatus.splits)
  then obtain secret where h: "hash = tokenHash secret" by blast
  define q where "q = \<lparr>cr_GrantID = ag_ResourceID grant, cr_TokenHash = hash, cr_OperationID = or_ResourceID op0,
    cr_ExpectedOperationRevision = or_MetadataRevision op0, cr_Now = now, cr_Transition = approveTransition\<rparr>"
  have "\<exists>m. ConsumeApprovalGrant env red q s2 = consume_fail (ErrConflict m) s2"
    using assms(6-10) h by (auto simp: ConsumeApprovalGrant_def q_def Let_def approveTransition_def split: option.splits)
  then obtain m where m: "ConsumeApprovalGrant env red q s2 = consume_fail (ErrConflict m) s2" ..
  show ?thesis
    using assms m by (simp add: Consume_def q_def [symmetric] consume_fail_def repository_ApprovalGrant_def)
qed

section \<open>A concrete grant\<close>

abbreviation sampleLocked :: OperationRecord where
  "sampleLocked \<equiv> sampleOpRequest\<lparr>or_ResourceID := sampleOpID, or_MetadataRevision := 7, or_Stage := StageLock, or_Status := OperationRunning,
     or_Observation := ''o'', or_Plan := zeroPlan\<lparr>pl_OperationID := sampleOpID, pl_TargetID := sampleID (CHR ''2''), pl_Digest := ''d''\<rparr>\<rparr>"

abbreviation sampleSecret :: "byte list" where
  "sampleSecret \<equiv> replicate 32 1"

abbreviation sampleGrant :: ApprovalGrant where
  "sampleGrant \<equiv> newGrant (sampleID (CHR ''4'')) 3 sampleSecret sampleLocked ''dba'' 100"

abbreviation sampleGrants :: "ApprovalGrant \<Rightarrow> snapshot" where
  "sampleGrants g \<equiv> emptySnapshot\<lparr>ApprovalGrants := [(sampleID (CHR ''4''), g)], Operations := [(sampleOpID, sampleLocked)]\<rparr>"

abbreviation sampleConsume :: ConsumeApprovalGrantRequest where
  "sampleConsume \<equiv> \<lparr>cr_GrantID = sampleID (CHR ''4''), cr_TokenHash = ''h'', cr_OperationID = sampleOpID,
     cr_ExpectedOperationRevision = 7, cr_Now = 9, cr_Transition = approveTransition\<rparr>"

lemma sample_approve: "\<exists>r. applyOperationTransition id sampleLocked approveTransition 9 = Inr r"
  by (simp add: applyOperationTransition_def approveTransition_def transition_stage_def transition_status_def transition_observation_def
      transition_precheck_def transition_attempt_def transition_execution_def transition_verification_def transition_finish_def)

lemma sample_consume:
  "\<exists>g r s'. ConsumeApprovalGrant sampleOpEnv id sampleConsume (sampleGrants (sampleGrant\<lparr>ag_TokenHash := ''h''\<rparr>)) = ((g, r, None), s')"
proof -
  let ?g = "sampleGrant\<lparr>ag_TokenHash := ''h''\<rparr>"
  obtain r where r: "applyOperationTransition id sampleLocked approveTransition 9 = Inr r" using sample_approve by blast
  have h: "TrimSpace ''h'' = ''h''" by (simp add: go_defs)
  have scope: "grantScopeMatches ?g sampleLocked" by (simp add: grantScopeMatches_def newGrant_def)
  have g: "ag_Status ?g = ApprovalGrantActive" "9 < ag_ExpiresAt ?g" by (simp_all add: newGrant_def time_add_def)
  have rev: "or_MetadataRevision sampleLocked = 7" by simp
  have st: "ot_Stage approveTransition = StageApprove" by (simp add: approveTransition_def)
  show ?thesis
    unfolding ConsumeApprovalGrant_def Let_def
    using g scope by (simp add: h st IsZero_def commitSnapshotLocked_def Let_def r [simplified])
qed

lemma sample_grants_keyed: "grants_keyed (sampleGrants (sampleGrant\<lparr>ag_TokenHash := h\<rparr>))" "grants_keyed emptySnapshot"
  by (simp_all add: grants_keyed_def keyed_by_def newGrant_def emptySnapshot_def)


lemma sample_issue:
  "\<exists>issued s'. Issue sampleOpEnv False (Some sampleSecret) (sampleID (CHR ''4'')) 3 \<lparr>iq_Operation = sampleLocked, iq_IssuedBy = ''dba'', iq_TTL = 100\<rparr> emptySnapshot = (Inr issued, s')"
proof -
  have t: "TrimSpace ''dba'' = ''dba''" "TrimSpace ''o'' = ''o''" "TrimSpace ''d'' = ''d''" by (simp_all add: go_defs)
  have p: "hasDurableOperationPlan sampleLocked" by (simp add: hasDurableOperationPlan_def Engine_Valid_def SupportedEngines_def t)
  have b: "blockingCheckNames [or_Precheck sampleLocked, pl_Checks (or_Plan sampleLocked)] = []"
    by (simp add: blockingCheckNames_empty zeroOperationRecord_def zeroPlan_def)
  have ttl: "approval_ttl 100 = 100" "\<not> 15 * minute < (100 :: int)" by (simp_all add: approval_ttl_def minute_def second_def)
  have "validateApprovalGrant sampleGrant = None"
    by (simp add: validateApprovalGrant_def newGrant_def Engine_Valid_def SupportedEngines_def t IsZero_def time_add_def)
  then have "\<exists>s'. PutApprovalGrant sampleOpEnv sampleGrant emptySnapshot = (None, s')"
    by (simp add: PutApprovalGrant_def commitSnapshotLocked_def emptySnapshot_def Let_def)
  then obtain s' where put: "PutApprovalGrant sampleOpEnv sampleGrant emptySnapshot = (None, s')" by blast
  show ?thesis
    unfolding Issue_def Let_def using p b ttl put by (simp add: t)
qed

theorem Issue_roundtrip_witness:
  "\<exists>issued s'. Issue sampleOpEnv False (Some sampleSecret) (sampleID (CHR ''4'')) 3 \<lparr>iq_Operation = sampleLocked, iq_IssuedBy = ''dba'', iq_TTL = 100\<rparr> emptySnapshot = (Inr issued, s') \<and>
     ParseToken (ig_Token issued) = Inr (sampleID (CHR ''4''), sampleSecret)"
proof -
  obtain issued s' where i: "Issue sampleOpEnv False (Some sampleSecret) (sampleID (CHR ''4'')) 3 \<lparr>iq_Operation = sampleLocked, iq_IssuedBy = ''dba'', iq_TTL = 100\<rparr> emptySnapshot = (Inr issued, s')"
    using sample_issue by blast
  from Issue_roundtrip [OF i _ sample_grants_keyed(2)] i show ?thesis by auto
qed

theorem Consume_race_witness:
  "\<exists>token s1 s2. isOk (loadToken False 5 token s1) \<and> Consume sampleOpEnv id False 5 sampleLocked token s1 s2 = (Inl ErrConsumed, s2)"
proof -
  let ?token = "tokenPrefix @ sampleID (CHR ''4'') @ ''.'' @ b64_encode sampleSecret"
  have "ParseToken ?token = Inr (sampleID (CHR ''4''), sampleSecret)" by (rule ParseToken_issued) simp_all
  then have l: "loadToken False 5 ?token (sampleGrants sampleGrant) = Inr (sampleGrant, tokenHash sampleSecret)"
    by (simp add: loadToken_def repository_ApprovalGrant_def newGrant_def time_add_def Let_def)
  have "Consume sampleOpEnv id False 5 sampleLocked ?token (sampleGrants sampleGrant) (sampleGrants (consumedGrant sampleGrant sampleOpID 4)) =
      (Inl ErrConsumed, sampleGrants (consumedGrant sampleGrant sampleOpID 4))"
    by (rule Consume_race [OF l, where g' = "consumedGrant sampleGrant sampleOpID 4"])
      (simp_all add: newGrant_def grantMatchesIntent_def consumedGrant_def)
  with l show ?thesis by (metis isOk_simps(1))
qed

end
