(* ===== verification/Endpoint_Store.thy ===== *)
theory Endpoint_Store
  imports Repository
begin

text \<open>
  The inventory part of the repository that the writer endpoint rests on
  (\<^verbatim>\<open>internal/store/ha_endpoints.go\<close>, \<^verbatim>\<open>Repository.TopologySnapshot\<close> of \<^verbatim>\<open>repository.go\<close> and
  \<^verbatim>\<open>RecoveryAuthorization\<close> of \<^verbatim>\<open>disaster.go\<close>): looking endpoints up, recording which instance owns
  one, overlaying an observed topology with the canonical inventory, and the permit that a running
  disaster recovery gives to an instance. A nil and an empty Go map are not distinguished.
\<close>

section \<open>Lookups\<close>

definition repository_HAEndpoint :: "rid \<Rightarrow> snapshot \<Rightarrow> HAEndpoint option" where
  "repository_HAEndpoint resourceID s = map_of (HAEndpoints s) resourceID"

definition repository_HAEndpoints :: "rid \<Rightarrow> snapshot \<Rightarrow> HAEndpoint list" where
  "repository_HAEndpoints clusterID s =
     sorted_values he_ResourceID (filter (\<lambda>p. he_ClusterID (snd p) = clusterID) (HAEndpoints s))"

fun endpoint_loop :: "rid \<Rightarrow> (rid \<times> (rid \<times> Endpoint) list) list \<Rightarrow> Endpoint option" where
  "endpoint_loop resourceID [] = None"
| "endpoint_loop resourceID ((_, endpoints) # rest) =
     (case map_of endpoints resourceID of Some endpoint \<Rightarrow> Some endpoint | None \<Rightarrow> endpoint_loop resourceID rest)"

definition repository_Endpoint :: "rid \<Rightarrow> snapshot \<Rightarrow> Endpoint option" where
  "repository_Endpoint resourceID s = endpoint_loop resourceID (Endpoints s)"

definition overlayInstance :: "DatabaseInstance \<Rightarrow> DatabaseInstance \<Rightarrow> DatabaseInstance" where
  "overlayInstance canonical observed = observed\<lparr>di_ResourceID := di_ResourceID canonical, di_MetadataRevision := di_MetadataRevision canonical,
     di_UpdatedAt := di_UpdatedAt canonical, di_ClusterID := di_ClusterID canonical, di_NodeID := di_NodeID canonical, di_Hostname := di_Hostname canonical,
     di_IPAddress := di_IPAddress canonical, di_Port := di_Port canonical, di_Maintenance := di_Maintenance canonical\<rparr>"

definition repository_TopologySnapshot :: "rid \<Rightarrow> snapshot \<Rightarrow> TopologySnapshot option" where
  "repository_TopologySnapshot clusterID s =
     (case map_of (TopologySnapshots s) clusterID of
        None \<Rightarrow> None
      | Some value \<Rightarrow>
          Some (value\<lparr>ts_Instances := map (\<lambda>observed.
            case map_of (Instances s) (di_ResourceID observed) of
              None \<Rightarrow> observed
            | Some canonical \<Rightarrow> overlayInstance canonical observed) (ts_Instances value)\<rparr>))"

section \<open>Recording an owner\<close>

definition clusterEndpoints :: "rid \<Rightarrow> snapshot \<Rightarrow> (rid \<times> Endpoint) list" where
  "clusterEndpoints clusterID s = (case map_of (Endpoints s) clusterID of None \<Rightarrow> [] | Some m \<Rightarrow> m)"

definition ownHAEndpoint :: "rid \<Rightarrow> bool \<Rightarrow> go_time \<Rightarrow> HAEndpoint \<Rightarrow> HAEndpoint" where
  "ownHAEndpoint ownerID healthy now resource = resource\<lparr>he_OwnerID := ownerID, he_Healthy := healthy,
     he_MetadataRevision := he_MetadataRevision resource + 1, he_UpdatedAt := now\<rparr>"

definition ownEndpoint :: "rid \<Rightarrow> go_time \<Rightarrow> Endpoint \<Rightarrow> Endpoint" where
  "ownEndpoint ownerID now endpoint = endpoint\<lparr>ep_InstanceID := ownerID, ep_MetadataRevision := ep_MetadataRevision endpoint + 1, ep_UpdatedAt := now\<rparr>"

definition commitHAEndpointOwner :: "repo_env \<Rightarrow> rid \<Rightarrow> rid \<Rightarrow> rid \<Rightarrow> bool \<Rightarrow> uint64 option \<Rightarrow> uint64 option \<Rightarrow> snapshot \<Rightarrow>
    store_error option \<times> snapshot" where
  "commitHAEndpointOwner env clusterID resourceID ownerID healthy expectedResourceRevision expectedEndpointRevision s =
     (if \<not> ValidResourceID clusterID \<or> \<not> ValidResourceID resourceID \<or> \<not> ValidResourceID ownerID
      then (Some (ErrValidation ''HA endpoint ownership scope is invalid''), s)
      else case map_of (HAEndpoints s) resourceID of
        None \<Rightarrow> (Some (ErrValidation ''HA endpoint resource is outside the selected cluster''), s)
      | Some resource \<Rightarrow>
          if he_ClusterID resource \<noteq> clusterID \<or> he_Kind resource \<noteq> EndpointVIP
          then (Some (ErrValidation ''HA endpoint resource is outside the selected cluster''), s)
          else if \<not> (case map_of (Instances s) ownerID of None \<Rightarrow> False | Some owner \<Rightarrow> di_ClusterID owner = clusterID)
          then (Some (ErrValidation ''HA endpoint owner is outside the selected cluster''), s)
          else case map_of (clusterEndpoints clusterID s) (he_EndpointID resource) of
            None \<Rightarrow> (Some (ErrValidation ''active VIP endpoint metadata is unavailable''), s)
          | Some endpoint \<Rightarrow>
              if ep_Kind endpoint \<noteq> EndpointVIP \<or> \<not> ep_Active endpoint
              then (Some (ErrValidation ''active VIP endpoint metadata is unavailable''), s)
              else if (case expectedResourceRevision of None \<Rightarrow> False | Some r \<Rightarrow> he_MetadataRevision resource \<noteq> r)
              then (Some (ErrConflict ''HA endpoint metadata changed after ownership observation''), s)
              else if (case expectedEndpointRevision of None \<Rightarrow> False | Some r \<Rightarrow> ep_MetadataRevision endpoint \<noteq> r)
              then (Some (ErrConflict ''VIP endpoint metadata changed after ownership observation''), s)
              else if he_OwnerID resource = ownerID \<and> he_Healthy resource = healthy \<and> ep_InstanceID endpoint = ownerID then (None, s)
              else
                let now = env_now env; endpoint' = ownEndpoint ownerID now endpoint in
                commitSnapshotLocked env s
                  (s\<lparr>HAEndpoints := AList.update resourceID (ownHAEndpoint ownerID healthy now resource) (HAEndpoints s),
                     Endpoints := AList.update clusterID (AList.update (ep_ResourceID endpoint') endpoint' (clusterEndpoints clusterID s)) (Endpoints s)\<rparr>))"

definition CommitHAEndpointOwner :: "repo_env \<Rightarrow> rid \<Rightarrow> rid \<Rightarrow> rid \<Rightarrow> bool \<Rightarrow> snapshot \<Rightarrow> store_error option \<times> snapshot" where
  "CommitHAEndpointOwner env clusterID resourceID ownerID healthy s = commitHAEndpointOwner env clusterID resourceID ownerID healthy None None s"

definition CommitObservedHAEndpointOwner :: "repo_env \<Rightarrow> rid \<Rightarrow> rid \<Rightarrow> uint64 \<Rightarrow> uint64 \<Rightarrow> rid \<Rightarrow> bool \<Rightarrow> snapshot \<Rightarrow>
    store_error option \<times> snapshot" where
  "CommitObservedHAEndpointOwner env clusterID resourceID expectedResourceRevision expectedEndpointRevision ownerID healthy s =
     commitHAEndpointOwner env clusterID resourceID ownerID healthy (Some expectedResourceRevision) (Some expectedEndpointRevision) s"

section \<open>The permit of a disaster recovery\<close>

text \<open>
  \<^verbatim>\<open>reflect.DeepEqual\<close> on two maps of strings: the same keys with the same values. A nil map and an empty map,
  which Go tells apart here, are one value of the model.
\<close>

definition same_map :: "metadata \<Rightarrow> metadata \<Rightarrow> bool" where
  "same_map a b \<longleftrightarrow> list_all (\<lambda>k. map_of a k = map_of b k) (map fst a @ map fst b)"

lemma same_map_iff: "same_map a b \<longleftrightarrow> map_of a = map_of b"
proof
  assume l: "same_map a b"
  show "map_of a = map_of b"
  proof
    fix k
    show "map_of a k = map_of b k"
    proof (cases "k \<in> fst ` set a \<union> fst ` set b")
      case True
      with l show ?thesis by (force simp: same_map_def list_all_iff)
    next
      case False
      then have "map_of a k = None" "map_of b k = None" by (simp_all add: map_of_eq_None_iff)
      then show ?thesis by simp
    qed
  qed
qed (simp add: same_map_def list_all_iff)

definition sameMember :: "DatabaseInstance \<Rightarrow> DatabaseInstance \<Rightarrow> bool" where
  "sameMember current member \<longleftrightarrow> di_ClusterID current = di_ClusterID member \<and> di_Engine current = di_Engine member \<and>
     same_map (di_EngineIdentity current) (di_EngineIdentity member) \<and> di_NodeID current = di_NodeID member \<and>
     di_Hostname current = di_Hostname member \<and> di_IPAddress current = di_IPAddress member \<and> di_Port current = di_Port member"

definition recoveryInventoryValid :: "snapshot \<Rightarrow> RecoveryTask \<Rightarrow> bool" where
  "recoveryInventoryValid s task =
     (if (case map_of (InventoryGenerations s) (rt_ClusterID task) of None \<Rightarrow> 0 | Some g \<Rightarrow> g) \<noteq> rt_InventoryGeneration task then False
      else if length (filter (\<lambda>p. di_ClusterID (snd p) = rt_ClusterID task) (Instances s)) \<noteq> length (rt_Members task) then False
      else list_all (\<lambda>member. case map_of (Instances s) (di_ResourceID member) of None \<Rightarrow> False | Some current \<Rightarrow> sameMember current member)
             (rt_Members task))"

definition recoveryPrimaryStage :: "RecoveryStage \<Rightarrow> bool" where
  "recoveryPrimaryStage stage \<longleftrightarrow> stage = RecoveryStarting \<or> stage = RecoveryRebuilding \<or> stage = RecoveryVerifying \<or> stage = RecoveryCommitted"

definition RecoveryAuthorization :: "rid \<Rightarrow> rid \<Rightarrow> go_time \<Rightarrow> snapshot \<Rightarrow> (RecoveryTask \<times> go_time) option" where
  "RecoveryAuthorization clusterID instanceID now s =
     (case map_of (Clusters s) clusterID of
        None \<Rightarrow> None
      | Some cluster \<Rightarrow>
          if \<not> DisasterRecoveryActive cluster then None
          else case cl_Recovery cluster of
            None \<Rightarrow> None
          | Some recovery \<Rightarrow>
             (case map_of (RecoveryTasks s) (rs_TaskID recovery) of
                None \<Rightarrow> None
              | Some task \<Rightarrow>
                  if \<not> recoveryLeaseValid s task now \<or> \<not> recoveryInventoryValid s task then None
                  else
                    let permit = map_option (\<lambda>lock. (task, ol_ExpiresAt lock)) (map_of (OperationLocks s) (rt_LeaseID task)) in
                    if rt_PrimaryID task \<noteq> instanceID
                    then if (rt_Stage task = RecoveryRebuilding \<or>
                             rt_Engine task = EngineMySQL \<and> (rt_Stage task = RecoveryFencing \<or> rt_Stage task = RecoveryInspecting) \<and> rt_PrimaryID task = []) \<and>
                            list_ex (\<lambda>member. di_ResourceID member = instanceID) (rt_Members task)
                         then permit else None
                    else if recoveryPrimaryStage (rt_Stage task) then permit else None))"

section \<open>What recording an owner changes\<close>

lemma compact_inventory [simp]:
  "Instances (compactSnapshotHistory s now) = Instances s"
  "InventoryGenerations (compactSnapshotHistory s now) = InventoryGenerations s"
  "TopologySnapshots (compactSnapshotHistory s now) = TopologySnapshots s"
  "HAEndpoints (compactSnapshotHistory s now) = HAEndpoints s"
  "Endpoints (compactSnapshotHistory s now) = Endpoints s"
  "ReplicationLinks (compactSnapshotHistory s now) = ReplicationLinks s"
  "ObservationWatermarks (compactSnapshotHistory s now) = ObservationWatermarks s"
  "PowerOperations (compactSnapshotHistory s now) = PowerOperations s"
  "UpdateGate (compactSnapshotHistory s now) = UpdateGate s"
  by (simp_all add: compactSnapshotHistory_def Let_def)

text \<open>The tables are keyed by the identifiers of their records.\<close>

definition endpoints_wf :: "snapshot \<Rightarrow> bool" where
  "endpoints_wf s \<longleftrightarrow> keyed_by he_ResourceID (HAEndpoints s) \<and> distinct (map fst (Endpoints s)) \<and>
     (\<forall>(c, m) \<in> set (Endpoints s). keyed_by ep_ResourceID m)"

lemma clusterEndpoints_keyed: "endpoints_wf s \<Longrightarrow> keyed_by ep_ResourceID (clusterEndpoints c s)"
  by (auto simp: endpoints_wf_def clusterEndpoints_def dest!: map_of_SomeD split: option.splits)

text \<open>The endpoint a high-availability resource names.\<close>

definition endpointOf :: "rid \<Rightarrow> snapshot \<Rightarrow> (HAEndpoint \<times> Endpoint) option" where
  "endpointOf r s = (case map_of (HAEndpoints s) r of None \<Rightarrow> None
     | Some he \<Rightarrow> map_option (Pair he) (map_of (clusterEndpoints (he_ClusterID he) s) (he_EndpointID he)))"

lemma endpointOf_Some:
  "endpointOf r s = Some (he, ep) \<longleftrightarrow> map_of (HAEndpoints s) r = Some he \<and> map_of (clusterEndpoints (he_ClusterID he) s) (he_EndpointID he) = Some ep"
  by (auto simp: endpointOf_def split: option.splits)

definition owner_ready :: "rid \<Rightarrow> rid \<Rightarrow> rid \<Rightarrow> uint64 option \<Rightarrow> uint64 option \<Rightarrow> snapshot \<Rightarrow> HAEndpoint \<Rightarrow> Endpoint \<Rightarrow> bool" where
  "owner_ready c r ow rr er s he ep \<longleftrightarrow> endpointOf r s = Some (he, ep) \<and> he_ClusterID he = c \<and> he_Kind he = EndpointVIP \<and> ep_Active ep \<and>
     (\<exists>i. map_of (Instances s) ow = Some i \<and> di_ClusterID i = c) \<and> (\<forall>v. rr = Some v \<longrightarrow> he_MetadataRevision he = v) \<and> (\<forall>v. er = Some v \<longrightarrow> ep_MetadataRevision ep = v)"

definition with_owner :: "rid \<Rightarrow> rid \<Rightarrow> rid \<Rightarrow> bool \<Rightarrow> go_time \<Rightarrow> HAEndpoint \<Rightarrow> Endpoint \<Rightarrow> snapshot \<Rightarrow> snapshot" where
  "with_owner c r ow h now he ep s = s\<lparr>HAEndpoints := AList.update r (ownHAEndpoint ow h now he) (HAEndpoints s),
     Endpoints := AList.update c (AList.update (ep_ResourceID ep) (ownEndpoint ow now ep) (clusterEndpoints c s)) (Endpoints s)\<rparr>"

lemma commitHAEndpointOwner_cases:
  assumes "commitHAEndpointOwner env c r ow h rr er s = (e, s')"
  obtains (refused) err where "e = Some err" "s' = s"
  | (same) he ep where "owner_ready c r ow rr er s he ep" "he_OwnerID he = ow" "he_Healthy he = h" "ep_InstanceID ep = ow" "e = None" "s' = s"
  | (commit) he ep where "owner_ready c r ow rr er s he ep" "commitSnapshotLocked env s (with_owner c r ow h (env_now env) he ep s) = (e, s')"
proof (cases "\<exists>err. e = Some err \<and> s' = s")
  case True
  then show ?thesis using refused by blast
next
  case False
  from False assms obtain he where he: "map_of (HAEndpoints s) r = Some he"
    by (cases "map_of (HAEndpoints s) r") (auto simp: commitHAEndpointOwner_def split: if_splits)
  from False assms he obtain ep where ep: "map_of (clusterEndpoints c s) (he_EndpointID he) = Some ep"
    by (cases "map_of (clusterEndpoints c s) (he_EndpointID he)") (auto simp: commitHAEndpointOwner_def split: if_splits)
  from False assms he ep have ready: "owner_ready c r ow rr er s he ep"
    by (auto simp: commitHAEndpointOwner_def owner_ready_def endpointOf_Some split: if_splits option.splits)
  have res: "(if he_OwnerID he = ow \<and> he_Healthy he = h \<and> ep_InstanceID ep = ow then (None, s)
        else commitSnapshotLocked env s (with_owner c r ow h (env_now env) he ep s)) = (e, s')"
    using False assms he ep by (auto simp: commitHAEndpointOwner_def with_owner_def ownEndpoint_def Let_def split: if_splits option.splits)
  show ?thesis
  proof (cases "he_OwnerID he = ow \<and> he_Healthy he = h \<and> ep_InstanceID ep = ow")
    case True
    with res ready show ?thesis by (intro same [of he ep]) simp_all
  next
    case False
    with res have "commitSnapshotLocked env s (with_owner c r ow h (env_now env) he ep s) = (e, s')" by (simp only: if_False)
    with ready show ?thesis by (rule commit)
  qed
qed

lemma endpoints_wf_with_owner:
  assumes "endpoints_wf s" "map_of (HAEndpoints s) r = Some he"
  shows "endpoints_wf (with_owner c r ow h now he ep s)"
proof -
  have "he_ResourceID he = r" using assms by (auto simp: endpoints_wf_def keyed_by_lookup keyed_by_def)
  then show ?thesis
    using assms clusterEndpoints_keyed [OF assms(1), of c]
    by (auto simp: endpoints_wf_def with_owner_def ownHAEndpoint_def ownEndpoint_def set_update_distinct intro!: keyed_by_update AList.distinct_update)
qed

lemma endpointOf_with_owner:
  assumes "endpoints_wf s" "endpointOf r s = Some (he, ep)" "he_ClusterID he = c"
  shows "endpointOf r (with_owner c r ow h now he ep s) = Some (ownHAEndpoint ow h now he, ownEndpoint ow now ep)"
proof -
  have "map_of (clusterEndpoints c s) (he_EndpointID he) = Some ep" using assms(2,3) by (simp add: endpointOf_Some)
  then have "ep_ResourceID ep = he_EndpointID he"
    using clusterEndpoints_keyed [OF assms(1), of c] by (auto simp: keyed_by_lookup keyed_by_def)
  then show ?thesis
    using assms(3) by (simp add: endpointOf_Some with_owner_def clusterEndpoints_def ownHAEndpoint_def update_conv')
qed

lemma commit_with_owner:
  assumes "endpoints_wf s" "owner_ready c r ow rr er s he ep"
    and "commitSnapshotLocked env s (with_owner c r ow h (env_now env) he ep s) = (e, s')"
  shows "endpoints_wf s' \<and> CoordinationLeases s' = CoordinationLeases s \<and> Clusters s' = Clusters s \<and> Instances s' = Instances s \<and>
    (\<forall>q. q \<noteq> r \<longrightarrow> map_of (HAEndpoints s') q = map_of (HAEndpoints s) q) \<and>
    (endpointOf r s' = Some (ownHAEndpoint ow h (env_now env) he, ownEndpoint ow (env_now env) ep) \<or> e \<noteq> None \<and> s' = s)"
proof -
  let ?v = "with_owner c r ow h (env_now env) he ep s"
  have cong: "endpointOf r (compactSnapshotHistory w t) = endpointOf r w" "endpoints_wf (compactSnapshotHistory w t) = endpoints_wf w" for w t
    by (simp_all add: endpointOf_def clusterEndpoints_def endpoints_wf_def cong: option.case_cong)
  have v: "endpoints_wf ?v" "endpointOf r ?v = Some (ownHAEndpoint ow h (env_now env) he, ownEndpoint ow (env_now env) ep)"
    using assms(1,2) endpoints_wf_with_owner endpointOf_with_owner by (auto simp: owner_ready_def endpointOf_Some)
  from assms(3) show ?thesis
    by (cases rule: commit_cases [of env s ?v]) (use v assms(1) in \<open>auto simp: cong with_owner_def update_conv'\<close>)
qed

section \<open>Properties\<close>


section \<open>Sample inventory\<close>

definition sampleHA :: HAEndpoint where
  "sampleHA = \<lparr>he_ResourceID = sampleID (CHR ''2''), he_MetadataRevision = 7, he_UpdatedAt = 1, he_ClusterID = sampleID (CHR ''1''),
     he_EndpointID = sampleID (CHR ''3''), he_Kind = EndpointVIP, he_DesiredRole = RolePrimary, he_OwnerID = sampleID (CHR ''5''), he_Interface = ''eth0'', he_Prefix = 24,
     he_Provider = EndpointProviderLinuxVIP, he_ProviderRef = [], he_Healthy = True\<rparr>"

definition sampleVIP :: Endpoint where
  "sampleVIP = \<lparr>ep_ResourceID = sampleID (CHR ''3''), ep_MetadataRevision = 9, ep_UpdatedAt = 1, ep_ClusterID = sampleID (CHR ''1''),
     ep_InstanceID = sampleID (CHR ''5''), ep_Kind = EndpointVIP, ep_Hostname = [], ep_IPAddress = ''10.0.0.9'', ep_Port = 3306, ep_Active = True\<rparr>"

definition sampleMember :: "char \<Rightarrow> DatabaseInstance" where
  "sampleMember c = zeroInstance\<lparr>di_ResourceID := sampleID c, di_ClusterID := sampleID (CHR ''1''), di_Engine := EngineMySQL\<rparr>"

definition sampleInventory :: "snapshot \<Rightarrow> snapshot" where
  "sampleInventory s = s\<lparr>Instances := [(sampleID (CHR ''4''), sampleMember (CHR ''4'')), (sampleID (CHR ''5''), sampleMember (CHR ''5''))],
     HAEndpoints := [(sampleID (CHR ''2''), sampleHA)], Endpoints := [(sampleID (CHR ''1''), [(sampleID (CHR ''3''), sampleVIP)])]\<rparr>"

lemma sampleInventory_wf: "endpoints_wf (sampleInventory s)"
  by (simp add: endpoints_wf_def sampleInventory_def keyed_by_def sampleHA_def sampleVIP_def)

definition sampleRepoEnv :: "go_time \<Rightarrow> repo_env" where
  "sampleRepoEnv t = \<lparr>env_now = t, env_commit = \<lambda>_ _. CommitApplied\<rparr>"


end
