(* ===== verification/Ownership.thy ===== *)
theory Ownership
  imports Stable_Batch Operations_Store Endpoint_Store
begin

text \<open>
  Who may own the writer endpoint of a cluster (\<^verbatim>\<open>internal/coordination/ownership_keeper.go\<close>,
  \<^verbatim>\<open>ownership_ack.go\<close>, \<^verbatim>\<open>reboot_bootstrap.go\<close>). The ownership keeper runs on the leading
  controller: for every cluster it takes the current topology and the observed owners of the
  virtual address, decides which instance is the writer (a proven writable primary, a primary
  that is only short of acknowledgements, or the fenced canonical primary after a reboot),
  records the owner and asks the quorum lease store for the writer's lease.

  The inventory is the repository. The observer is a Go interface that asks the agents who holds the
  address: its answer for a cluster and a topology is an argument. The probes of the clusters run in
  parallel goroutines that share only the inventory; the model runs them one after the other.
\<close>

section \<open>Writable primary\<close>

datatype ownership_error =
  MultipleWritablePrimaries | AmbiguousPrimary rid | NoWritablePrimary
  | BootstrapScopeInvalid | BootstrapStale | BootstrapReplicaRequired | BootstrapAnomalies | BootstrapInstanceScope
  | BootstrapDuplicateInstances | BootstrapNotReadOnly | BootstrapMaintenance | CanonicalAbsent | CanonicalNotFenced
  | BootstrapProbeCoverage | BootstrapProbeStale | BootstrapProbeInconsistent | BootstrapUnavailableUnproven
  | BootstrapReplicaUnsafe | BootstrapEdgeUnsafe | BootstrapEdgeInconsistent | BootstrapTargetDuplicated
  | BootstrapTargetInvalid | BootstrapLinksIncomplete
  | TopologyUnavailable | ObservationFailed string | CoverageUnsafe | ControlledRecoveryRequired ownership_error
  | BootstrapCoverageUnsafe | CanonicalMetadataMismatch | BootstrapOwnerMismatch | BootstrapOwnershipUnsafe
  | BootstrapBlocked ownership_error ownership_error | MajorityCoverageUnsafe | OwnedByNonPrimary | ZeroOwnerMetadata
  | BootstrapOwners | CommitOwnerFailed store_error | LeaseBatchFailed "lease_error list" | ContextDone

definition primaryProvenWritable :: "DatabaseInstance \<Rightarrow> bool" where
  "primaryProvenWritable primary =
     (case di_Engine primary of
        EngineMySQL \<Rightarrow> EqualFold (TrimSpace (mget (di_EngineMetadata primary) ''read_only'')) ''false'' \<and>
          EqualFold (TrimSpace (mget (di_EngineMetadata primary) ''super_read_only'')) ''false''
      | EnginePostgreSQL \<Rightarrow> EqualFold (TrimSpace (mget (di_EngineMetadata primary) ''in_recovery'')) ''false'' \<and>
          EqualFold (TrimSpace (mget (di_EngineMetadata primary) ''transaction_read_only'')) ''false''
      | _ \<Rightarrow> False)"

fun probe_loop :: "(ProbeStatus \<Rightarrow> bool) \<Rightarrow> rid \<Rightarrow> bool \<Rightarrow> ProbeStatus list \<Rightarrow> bool" where
  "probe_loop ok instanceID found [] = found"
| "probe_loop ok instanceID found (probe # probes) =
     (if pb_InstanceID probe \<noteq> instanceID then probe_loop ok instanceID found probes
      else if \<not> ok probe then False
      else probe_loop ok instanceID True probes)"

definition currentSuccessfulProbe :: "TopologySnapshot \<Rightarrow> rid \<Rightarrow> bool" where
  "currentSuccessfulProbe topo instanceID =
     probe_loop (\<lambda>probe. pb_DiscoveryObservedAt probe = ts_ObservedAt topo \<and> h_State (pb_Health probe) = HealthHealthy)
       instanceID False (ts_Probes topo)"

definition currentFailedProbe :: "TopologySnapshot \<Rightarrow> rid \<Rightarrow> bool" where
  "currentFailedProbe topo instanceID =
     probe_loop (\<lambda>probe. IsZero (pb_DiscoveryObservedAt probe) \<and> h_ObservedAt (pb_Health probe) = ts_ObservedAt topo \<and>
         (h_State (pb_Health probe) = HealthUnknown \<or> h_State (pb_Health probe) = HealthUnhealthy))
       instanceID False (ts_Probes topo)"

fun writable_loop :: "TopologySnapshot \<Rightarrow> DatabaseInstance list \<Rightarrow> DatabaseInstance \<Rightarrow> ownership_error + DatabaseInstance" where
  "writable_loop topo [] primary =
     (if \<not> ValidResourceID (di_ResourceID primary) then Inl NoWritablePrimary else Inr primary)"
| "writable_loop topo (i # is) primary =
     (if di_Role i \<noteq> RolePrimary then writable_loop topo is primary
      else if h_State (di_Health i) = HealthHealthy \<and> primaryProvenWritable i \<and> currentSuccessfulProbe topo (di_ResourceID i)
      then if di_ResourceID primary \<noteq> [] then Inl MultipleWritablePrimaries else writable_loop topo is i
      else if \<not> currentFailedProbe topo (di_ResourceID i) then Inl (AmbiguousPrimary (di_ResourceID i))
      else writable_loop topo is primary)"

definition writablePrimary :: "TopologySnapshot \<Rightarrow> ownership_error + DatabaseInstance" where
  "writablePrimary topo = writable_loop topo (ts_Instances topo) zeroInstance"

section \<open>Metadata evidence\<close>

definition strictMySQLBoolean :: "metadata \<Rightarrow> string \<Rightarrow> bool option" where
  "strictMySQLBoolean m key =
     (let v = ToLower (TrimSpace (mget m key)) in
      if v = ''true'' \<or> v = ''1'' \<or> v = ''on'' then Some True
      else if v = ''false'' \<or> v = ''0'' \<or> v = ''off'' then Some False
      else None)"

definition zeroLag :: "int option \<Rightarrow> bool" where
  "zeroLag lag \<longleftrightarrow> lag = Some 0"

definition normalizedGTIDPosition :: "string \<Rightarrow> string" where
  "normalizedGTIDPosition v = remove_space v"

definition mysqlBooleanIs :: "metadata \<Rightarrow> string \<Rightarrow> bool \<Rightarrow> bool" where
  "mysqlBooleanIs m key expected \<longleftrightarrow> strictMySQLBoolean m key = Some expected"

definition MySQLSemisyncIdleReplicaSafe :: "DatabaseInstance \<Rightarrow> DatabaseInstance \<Rightarrow> bool" where
  "MySQLSemisyncIdleReplicaSafe canonical replica =
     (if h_State (di_Health replica) \<noteq> HealthDegraded \<or>
         h_Summary (di_Health replica) \<noteq> ''MySQL replica is not actively acknowledging semi-sync transactions'' then False
      else if \<not> list_all (\<lambda>key. mysqlBooleanIs (di_EngineMetadata canonical) key True)
                [''semi_sync_required'', ''semi_sync_available'', ''semi_sync_source_enabled''] then False
      else if \<not> mysqlBooleanIs (di_EngineMetadata canonical) ''semi_sync_source_status'' True then False
      else
        (case (Atoi (TrimSpace (mget (di_EngineMetadata canonical) ''semi_sync_source_clients'')),
               Atoi (TrimSpace (mget (di_EngineMetadata canonical) ''semi_sync_wait_for_replica_count''))) of
           (Some clients, Some required) \<Rightarrow>
             if required < 1 \<or> clients < required then False
             else if \<not> list_all (\<lambda>key. mysqlBooleanIs (di_EngineMetadata replica) key True)
                       [''semi_sync_required'', ''semi_sync_available'', ''semi_sync_source_enabled'', ''semi_sync_replica_enabled''] then False
             else if \<not> mysqlBooleanIs (di_EngineMetadata replica) ''semi_sync_replica_status'' False \<or>
                     EqualFold (TrimSpace (mget (di_EngineMetadata replica) ''semi_sync_probe_error'')) ''true'' then False
             else
               let canonicalGTID = normalizedGTIDPosition (mget (di_EngineMetadata canonical) ''gtid_executed'');
                   replicaGTID = normalizedGTIDPosition (rs_ExecutedPosition (di_Replication replica))
               in canonicalGTID \<noteq> [] \<and> replicaGTID = canonicalGTID
         | _ \<Rightarrow> False))"

section \<open>The rebooted primary\<close>

text \<open>The first loop: every instance in scope, distinct, fully read-only, not in maintenance; the canonical one is remembered.\<close>

fun bootstrap_instances :: "rid \<Rightarrow> rid \<Rightarrow> DatabaseInstance list \<Rightarrow> (rid \<times> DatabaseInstance) list \<Rightarrow> DatabaseInstance \<Rightarrow>
    ownership_error + (rid \<times> DatabaseInstance) list \<times> DatabaseInstance" where
  "bootstrap_instances clusterID ownerID [] seen canonical = Inr (seen, canonical)"
| "bootstrap_instances clusterID ownerID (i # is) seen canonical =
     (if \<not> ValidResourceID (di_ResourceID i) \<or> di_ClusterID i \<noteq> clusterID \<or> di_Engine i \<noteq> EngineMySQL then Inl BootstrapInstanceScope
      else if map_of seen (di_ResourceID i) \<noteq> None then Inl BootstrapDuplicateInstances
      else if strictMySQLBoolean (di_EngineMetadata i) ''read_only'' \<noteq> Some True \<or>
              strictMySQLBoolean (di_EngineMetadata i) ''super_read_only'' \<noteq> Some True then Inl BootstrapNotReadOnly
      else if di_Maintenance i then Inl BootstrapMaintenance
      else bootstrap_instances clusterID ownerID is (AList.update (di_ResourceID i) i seen)
             (if di_ResourceID i = ownerID then i else canonical))"

text \<open>The second loop: one probe per instance; those that failed at this discovery must be proven read-only replicas.\<close>

fun bootstrap_probes :: "rid \<Rightarrow> go_time \<Rightarrow> (rid \<times> DatabaseInstance) list \<Rightarrow> ProbeStatus list \<Rightarrow> rid list \<Rightarrow> rid list \<Rightarrow> ownership_error + rid list" where
  "bootstrap_probes ownerID observedAt instances [] counted unavailable = Inr unavailable"
| "bootstrap_probes ownerID observedAt instances (probe # probes) counted unavailable =
     (case map_of instances (pb_InstanceID probe) of
        None \<Rightarrow> Inl BootstrapProbeStale
      | Some i \<Rightarrow>
          if pb_InstanceID probe \<in> set counted \<or> h_State (pb_Health probe) \<noteq> h_State (di_Health i) then Inl BootstrapProbeInconsistent
          else if pb_DiscoveryObservedAt probe = observedAt
          then bootstrap_probes ownerID observedAt instances probes (pb_InstanceID probe # counted) unavailable
          else if \<not> (IsZero (pb_DiscoveryObservedAt probe) \<and> h_ObservedAt (pb_Health probe) = observedAt \<and>
                     (h_State (pb_Health probe) = HealthUnknown \<or> h_State (pb_Health probe) = HealthUnhealthy)) then Inl BootstrapProbeStale
          else if di_ResourceID i = ownerID \<or> di_Role i \<noteq> RoleReplica \<or> \<not> mysqlBooleanIs (di_EngineMetadata i) ''read_only'' True \<or>
                  \<not> mysqlBooleanIs (di_EngineMetadata i) ''super_read_only'' True then Inl BootstrapUnavailableUnproven
          else bootstrap_probes ownerID observedAt instances probes (pb_InstanceID probe # counted) (di_ResourceID i # unavailable))"

definition followerSafe :: "DatabaseInstance \<Rightarrow> string \<Rightarrow> DatabaseInstance \<Rightarrow> bool" where
  "followerSafe canonical canonicalUUID i \<longleftrightarrow>
     di_Role i = RoleReplica \<and> (h_State (di_Health i) = HealthHealthy \<or> MySQLSemisyncIdleReplicaSafe canonical i) \<and>
     rs_IOThread (di_Replication i) = ThreadRunning \<and> rs_SQLThread (di_Replication i) = ThreadRunning \<and>
     zeroLag (rs_LagSeconds (di_Replication i)) \<and>
     EqualFold (TrimSpace (mget (rs_SourceIdentity (di_Replication i)) ''server_uuid'')) canonicalUUID"

fun bootstrap_followers :: "rid \<Rightarrow> DatabaseInstance \<Rightarrow> string \<Rightarrow> rid list \<Rightarrow> DatabaseInstance list \<Rightarrow> rid list \<Rightarrow> ownership_error + rid list" where
  "bootstrap_followers ownerID canonical uuid unavailable [] followers = Inr followers"
| "bootstrap_followers ownerID canonical uuid unavailable (i # is) followers =
     (if di_ResourceID i = ownerID \<or> di_ResourceID i \<in> set unavailable then bootstrap_followers ownerID canonical uuid unavailable is followers
      else if \<not> followerSafe canonical uuid i then Inl BootstrapReplicaUnsafe
      else bootstrap_followers ownerID canonical uuid unavailable is (di_ResourceID i # followers))"

fun bootstrap_links :: "rid \<Rightarrow> rid \<Rightarrow> rid list \<Rightarrow> rid list \<Rightarrow> ReplicationLink list \<Rightarrow> rid list \<Rightarrow> ownership_error + rid list" where
  "bootstrap_links clusterID ownerID unavailable followers [] linked = Inr linked"
| "bootstrap_links clusterID ownerID unavailable followers (link # links) linked =
     (if rl_ClusterID link \<noteq> clusterID \<or> rl_SourceInstanceID link \<noteq> ownerID then Inl BootstrapEdgeUnsafe
      else if rl_TargetInstanceID link \<in> set unavailable
      then if rl_Healthy link then Inl BootstrapEdgeInconsistent
           else if rl_TargetInstanceID link \<in> set linked then Inl BootstrapTargetDuplicated
           else bootstrap_links clusterID ownerID unavailable followers links (rl_TargetInstanceID link # linked)
      else if \<not> zeroLag (rl_LagSeconds link) then Inl BootstrapEdgeUnsafe
      else if rl_TargetInstanceID link \<notin> set followers then Inl BootstrapTargetInvalid
      else if rl_TargetInstanceID link \<in> set linked then Inl BootstrapTargetDuplicated
      else bootstrap_links clusterID ownerID unavailable followers links (rl_TargetInstanceID link # linked))"

definition RebootBootstrapCandidate :: "TopologySnapshot \<Rightarrow> rid \<Rightarrow> go_time \<Rightarrow> duration \<Rightarrow> ownership_error + DatabaseInstance" where
  "RebootBootstrapCandidate topo ownerID now maxAge0 =
     (let maxAge = (if maxAge0 \<le> 0 then 15 * second else maxAge0); observedAt = ts_ObservedAt topo in
      if \<not> ValidResourceID (ts_ClusterID topo) \<or> \<not> ValidResourceID ownerID then Inl BootstrapScopeInvalid
      else if IsZero observedAt \<or> time_sub now observedAt > maxAge \<or> time_sub observedAt now > maxAge then Inl BootstrapStale
      else if length (ts_Instances topo) < 2 then Inl BootstrapReplicaRequired
      else if ts_Anomalies topo \<noteq> [] then Inl BootstrapAnomalies
      else bindR (bootstrap_instances (ts_ClusterID topo) ownerID (ts_Instances topo) [] zeroInstance) (\<lambda>(instances, canonical).
        if di_ResourceID canonical = [] then Inl CanonicalAbsent
        else
          let uuid = ToLower (TrimSpace (mget (di_EngineIdentity canonical) ''server_uuid'')) in
          if uuid = [] \<or> di_Role canonical \<noteq> RoleUnknown \<or> h_State (di_Health canonical) \<noteq> HealthDegraded \<or>
             rs_SourceIdentity (di_Replication canonical) \<noteq> [] then Inl CanonicalNotFenced
          else if length (ts_Probes topo) \<noteq> length (ts_Instances topo) then Inl BootstrapProbeCoverage
          else bindR (bootstrap_probes ownerID observedAt instances (ts_Probes topo) [] []) (\<lambda>unavailable.
            bindR (bootstrap_followers ownerID canonical uuid unavailable (ts_Instances topo) []) (\<lambda>followers.
              if followers = [] then Inl BootstrapReplicaRequired
              else bindR (bootstrap_links (ts_ClusterID topo) ownerID unavailable followers (ts_Links topo) []) (\<lambda>linked.
                if \<not> list_all (\<lambda>f. f \<in> set linked) followers then Inl BootstrapLinksIncomplete else Inr canonical)))))"

section \<open>A primary that only lacks acknowledgements\<close>

record OwnershipObservation =
  oo_HAEndpointID :: rid
  oo_HAEndpointRevision :: uint64
  oo_EndpointRevision :: uint64
  oo_CanonicalOwnerID :: rid
  oo_EndpointOwnerID :: rid
  oo_OwnerIDs :: "rid list"
  oo_ObservedInstanceIDs :: "rid list"
  oo_Complete :: bool

definition mysqlPrimaryACKOnlyDegraded :: "metadata \<Rightarrow> bool" where
  "mysqlPrimaryACKOnlyDegraded m =
     (if \<not> list_all (\<lambda>key. mysqlBooleanIs m key True)
           [''semi_sync_ack_missing'', ''semi_sync_required'', ''semi_sync_available'', ''semi_sync_source_enabled''] then False
      else if map_of m ''semi_sync_probe_error'' \<noteq> None \<and> \<not> mysqlBooleanIs m ''semi_sync_probe_error'' False then False
      else if TrimSpace (mget m ''semi_sync_wait_point'') \<noteq> ''AFTER_SYNC'' then False
      else
        let status = TrimSpace (mget m ''semi_sync_source_status'') in
        (case (Atoi (TrimSpace (mget m ''semi_sync_wait_for_replica_count'')), Atoi (TrimSpace (mget m ''semi_sync_source_clients''))) of
           (Some required, Some clients) \<Rightarrow>
             if (status \<noteq> ''true'' \<and> status \<noteq> ''false'') \<or> required < 1 \<or> clients < 0 then False
             else status = ''false'' \<or> clients < required
         | _ \<Rightarrow> False))"

definition currentACKDegradedProbe :: "TopologySnapshot \<Rightarrow> rid \<Rightarrow> bool" where
  "currentACKDegradedProbe topo instanceID =
     probe_loop (\<lambda>probe. pb_DiscoveryObservedAt probe = ts_ObservedAt topo \<and> h_State (pb_Health probe) = HealthDegraded \<and>
         (pb_Outcome probe = ProbeOutcomeReachable \<or> pb_Outcome probe = ProbeOutcomeMetricsUnavailable))
       instanceID False (ts_Probes topo)"

fun ack_instances :: "rid \<Rightarrow> DatabaseInstance list \<Rightarrow> rid list \<Rightarrow> DatabaseInstance \<Rightarrow> (rid list \<times> DatabaseInstance) option" where
  "ack_instances clusterID [] seen primary = Some (seen, primary)"
| "ack_instances clusterID (i # is) seen primary =
     (if \<not> ValidResourceID (di_ResourceID i) \<or> di_ResourceID i \<in> set seen \<or> di_ClusterID i \<noteq> clusterID \<or> di_Engine i \<noteq> EngineMySQL then None
      else if di_Role i = RolePrimary
      then if di_ResourceID primary \<noteq> [] then None else ack_instances clusterID is (di_ResourceID i # seen) i
      else ack_instances clusterID is (di_ResourceID i # seen) primary)"

fun ack_observed :: "rid list \<Rightarrow> rid list \<Rightarrow> rid list \<Rightarrow> rid list option" where
  "ack_observed instances [] observed = Some observed"
| "ack_observed instances (i # is) observed =
     (if i \<notin> set instances \<or> i \<in> set observed then None else ack_observed instances is (i # observed))"

definition ackDegradedPrimaryForRenewal :: "TopologySnapshot \<Rightarrow> OwnershipObservation \<Rightarrow> DatabaseInstance option" where
  "ackDegradedPrimaryForRenewal topo observation =
     (if \<not> ValidResourceID (ts_ClusterID topo) then None
      else case ack_instances (ts_ClusterID topo) (ts_Instances topo) [] zeroInstance of
        None \<Rightarrow> None
      | Some (instances, primary) \<Rightarrow>
          if \<not> ValidResourceID (di_ResourceID primary) \<or> di_Maintenance primary \<or> h_State (di_Health primary) \<noteq> HealthDegraded \<or>
             \<not> primaryProvenWritable primary \<or> rs_SourceIdentity (di_Replication primary) \<noteq> [] \<or>
             \<not> mysqlPrimaryACKOnlyDegraded (di_EngineMetadata primary) \<or> \<not> currentACKDegradedProbe topo (di_ResourceID primary) then None
          else if oo_CanonicalOwnerID observation \<noteq> di_ResourceID primary \<or> oo_EndpointOwnerID observation \<noteq> di_ResourceID primary \<or>
             oo_OwnerIDs observation \<noteq> [di_ResourceID primary] then None
          else case ack_observed instances (oo_ObservedInstanceIDs observation) [] of
            None \<Rightarrow> None
          | Some observed \<Rightarrow>
              if di_ResourceID primary \<notin> set observed \<or> (oo_Complete observation \<and> length observed \<noteq> length instances) then None
              else Some primary)"

section \<open>Reconciliation of one cluster\<close>

definition agentOwnershipProtocolSupported :: "Engine \<Rightarrow> bool" where
  "agentOwnershipProtocolSupported engine \<longleftrightarrow> engine = EngineMySQL \<or> engine = EnginePostgreSQL"

definition controlledPostgreSQLEndpointMutationActive :: "OperationRecord list \<Rightarrow> DatabaseCluster \<Rightarrow> bool" where
  "controlledPostgreSQLEndpointMutationActive operations cluster =
     (if cl_Engine cluster \<noteq> EnginePostgreSQL then False
      else list_ex (\<lambda>r. or_Status r = OperationRunning \<and>
          (op_Kind (or_Operation r) = OperationSwitchover \<or> op_Kind (or_Operation r) = OperationFailover \<or>
           op_Kind (or_Operation r) = OperationFormerPrimaryRejoin)) operations)"

fun distinct_ids :: "(rid \<Rightarrow> bool) \<Rightarrow> rid list \<Rightarrow> rid list \<Rightarrow> rid list option" where
  "distinct_ids ok [] seen = Some seen"
| "distinct_ids ok (i # is) seen = (if \<not> ValidResourceID i \<or> \<not> ok i \<or> i \<in> set seen then None else distinct_ids ok is (i # seen))"

definition safePartialOwnershipCoverage :: "TopologySnapshot \<Rightarrow> OwnershipObservation \<Rightarrow> rid \<Rightarrow> bool" where
  "safePartialOwnershipCoverage topo observation primaryID =
     (if oo_Complete observation \<or> \<not> ValidResourceID primaryID \<or> oo_CanonicalOwnerID observation \<noteq> primaryID \<or>
         oo_EndpointOwnerID observation \<noteq> primaryID \<or> oo_OwnerIDs observation \<noteq> [primaryID] then False
      else case distinct_ids (\<lambda>_. True) (map di_ResourceID (ts_Instances topo)) [] of
        None \<Rightarrow> False
      | Some instanceIDs \<Rightarrow>
          if instanceIDs = [] then False
          else case distinct_ids (\<lambda>i. i \<in> set instanceIDs) (oo_ObservedInstanceIDs observation) [] of
            None \<Rightarrow> False
          | Some observedIDs \<Rightarrow> if primaryID \<notin> set observedIDs then False else length observedIDs > length instanceIDs div 2)"

record keeper_config =
  ok_interval :: duration
  ok_maxAge :: duration

definition NewOwnershipKeeper :: "duration \<Rightarrow> duration \<Rightarrow> keeper_config" where
  "NewOwnershipKeeper interval maxAge =
     \<lparr>ok_interval = (if interval \<le> 0 then 5 * second else interval), ok_maxAge = (if maxAge \<le> 0 then 15 * second else maxAge)\<rparr>"

text \<open>The writer that is chosen, whether the virtual address is absent and its owner bootstrapped, and whether only a renewal is allowed.\<close>

definition chooseWriter :: "keeper_config \<Rightarrow> DatabaseCluster \<Rightarrow> go_time \<Rightarrow> TopologySnapshot \<Rightarrow> OwnershipObservation \<Rightarrow>
    ownership_error + DatabaseInstance \<times> bool \<times> bool" where
  "chooseWriter keeper cluster now topo observation =
     (case writablePrimary topo of
        Inr primary \<Rightarrow> Inr (primary, False, False)
      | Inl primaryErr \<Rightarrow>
        (case (if cl_Engine cluster = EngineMySQL then ackDegradedPrimaryForRenewal topo observation else None) of
           Some candidate \<Rightarrow> Inr (candidate, False, True)
         | None \<Rightarrow>
             if cl_Engine cluster \<noteq> EngineMySQL then Inl (ControlledRecoveryRequired primaryErr)
             else if \<not> oo_Complete observation then Inl BootstrapCoverageUnsafe
             else if oo_CanonicalOwnerID observation \<noteq> oo_EndpointOwnerID observation then Inl CanonicalMetadataMismatch
             else
               bindR (case oo_OwnerIDs observation of
                        [] \<Rightarrow> Inr (True, False)
                      | [owner] \<Rightarrow> if owner \<noteq> oo_CanonicalOwnerID observation then Inl BootstrapOwnerMismatch else Inr (False, True)
                      | _ \<Rightarrow> Inl BootstrapOwnershipUnsafe)
                 (\<lambda>(bootstrap, convergence).
                   case RebootBootstrapCandidate topo (oo_CanonicalOwnerID observation) now (ok_maxAge keeper) of
                     Inl err \<Rightarrow> Inl (BootstrapBlocked primaryErr err)
                   | Inr primary \<Rightarrow> Inr (primary, bootstrap, convergence))))"

definition reconcileCluster :: "keeper_config \<Rightarrow> TopologySnapshot option \<Rightarrow> (TopologySnapshot \<Rightarrow> string + OwnershipObservation) \<Rightarrow>
    (rid \<Rightarrow> rid \<Rightarrow> uint64 \<Rightarrow> uint64 \<Rightarrow> rid \<Rightarrow> bool \<Rightarrow> 'i \<Rightarrow> store_error option \<times> 'i) \<Rightarrow> DatabaseCluster \<Rightarrow> go_time \<Rightarrow> 'i \<Rightarrow>
    (ownership_error + LeaseRequest) \<times> 'i" where
  "reconcileCluster keeper found observe commitOwner cluster now iv =
     (case found of
        None \<Rightarrow> (Inl TopologyUnavailable, iv)
      | Some topo \<Rightarrow>
          if IsZero (ts_ObservedAt topo) \<or> time_sub now (ts_ObservedAt topo) > ok_maxAge keeper \<or>
             ts_ObservedAt topo > time_add now (ok_interval keeper) then (Inl TopologyUnavailable, iv)
          else case observe topo of
            Inl err \<Rightarrow> (Inl (ObservationFailed err), iv)
          | Inr observation \<Rightarrow>
              if \<not> ValidResourceID (oo_HAEndpointID observation) \<or> length (oo_OwnerIDs observation) > 1 then (Inl CoverageUnsafe, iv)
              else case chooseWriter keeper cluster now topo observation of
                Inl err \<Rightarrow> (Inl err, iv)
              | Inr (primary, bootstrap, renewal) \<Rightarrow>
                  let partialRenewal = \<not> oo_Complete observation; renewOnly = (partialRenewal \<or> renewal) in
                  if partialRenewal \<and> \<not> safePartialOwnershipCoverage topo observation (di_ResourceID primary) then (Inl MajorityCoverageUnsafe, iv)
                  else if length (oo_OwnerIDs observation) = 1 \<and> hd (oo_OwnerIDs observation) \<noteq> di_ResourceID primary then (Inl OwnedByNonPrimary, iv)
                  else if oo_OwnerIDs observation = [] \<and>
                          (oo_CanonicalOwnerID observation \<noteq> di_ResourceID primary \<or> oo_EndpointOwnerID observation \<noteq> di_ResourceID primary)
                  then (Inl ZeroOwnerMetadata, iv)
                  else if bootstrap \<and> oo_OwnerIDs observation \<noteq> [] then (Inl BootstrapOwners, iv)
                  else
                    let request = \<lparr>rq_ClusterID = cl_ResourceID cluster, rq_HAEndpointID = oo_HAEndpointID observation,
                          rq_OperationID = oo_HAEndpointID observation, rq_OwnerID = di_ResourceID primary, rq_PreviousOwnerID = [],
                          rq_TTL = minute, rq_RenewOnly = renewOnly\<rparr> in
                    if renewOnly then (Inr request, iv)
                    else case commitOwner (cl_ResourceID cluster) (oo_HAEndpointID observation) (oo_HAEndpointRevision observation)
                           (oo_EndpointRevision observation) (di_ResourceID primary) (length (oo_OwnerIDs observation) = 1) iv of
                      (Some err, iv') \<Rightarrow> (Inl (CommitOwnerFailed err), iv')
                    | (None, iv') \<Rightarrow> (Inr request, iv'))"

section \<open>One round of the keeper\<close>

text \<open>The clusters the keeper looks at.\<close>

definition keeper_clusters :: "(rid \<Rightarrow> OperationRecord list) \<Rightarrow> DatabaseCluster list \<Rightarrow> DatabaseCluster list" where
  "keeper_clusters operations registered =
     filter (\<lambda>cluster. \<not> DisasterRecoveryActive cluster \<and> agentOwnershipProtocolSupported (cl_Engine cluster) \<and>
       \<not> controlledPostgreSQLEndpointMutationActive (operations (cl_ResourceID cluster)) cluster) registered"

fun reconcile_all :: "(DatabaseCluster \<Rightarrow> 'i \<Rightarrow> (ownership_error + LeaseRequest) \<times> 'i) \<Rightarrow> DatabaseCluster list \<Rightarrow> 'i \<Rightarrow>
    (ownership_error list \<times> LeaseRequest list) \<times> 'i" where
  "reconcile_all reconcile [] iv = (([], []), iv)"
| "reconcile_all reconcile (cluster # clusters) iv =
     (case reconcile cluster iv of
        (Inl err, iv') \<Rightarrow> (case reconcile_all reconcile clusters iv' of ((errs, reqs), iv'') \<Rightarrow> ((err # errs, reqs), iv''))
      | (Inr req, iv') \<Rightarrow> (case reconcile_all reconcile clusters iv' of ((errs, reqs), iv'') \<Rightarrow> ((errs, req # reqs), iv'')))"

text \<open>
  A round of a configured keeper over the repository: the topology comes from the inventory, observed
  owners are committed to it, and leases are asked of the quorum lease store. \<open>registered\<close> lists the
  repository's clusters in the order of their display names, \<open>fresh\<close> draws the identifiers of new
  leases and \<open>cancelled\<close> tells whether the context has ended before the round. The
  keeper's own authority check and clock and the store's are separate, so each has its value.
\<close>

definition keeper_reconcile :: "keeper_config \<Rightarrow> (DatabaseCluster \<Rightarrow> TopologySnapshot \<Rightarrow> string + OwnershipObservation) \<Rightarrow> repo_env \<Rightarrow> go_time \<Rightarrow>
    DatabaseCluster \<Rightarrow> snapshot \<Rightarrow> (ownership_error + LeaseRequest) \<times> snapshot" where
  "keeper_reconcile keeper observe env now cluster s =
     reconcileCluster keeper (repository_TopologySnapshot (cl_ResourceID cluster) s) (observe cluster) (CommitObservedHAEndpointOwner env) cluster now s"

definition RunOnce :: "keeper_config \<Rightarrow> bool \<Rightarrow> authority_error option \<Rightarrow> (DatabaseCluster \<Rightarrow> TopologySnapshot \<Rightarrow> string + OwnershipObservation) \<Rightarrow>
    lease_env \<Rightarrow> (nat \<Rightarrow> rid) \<Rightarrow> go_time \<Rightarrow> DatabaseCluster list \<Rightarrow> snapshot \<Rightarrow> ownership_error list \<times> snapshot" where
  "RunOnce keeper cancelled authority observe env fresh now registered s =
     (if cancelled then ([ContextDone], s)
      else case authority of
        Some _ \<Rightarrow> ([], s)
      | None \<Rightarrow>
          (case reconcile_all (keeper_reconcile keeper observe (le_repo env) now)
                  (keeper_clusters (\<lambda>clusterID. repository_Operations clusterID s) registered) s of
             ((failures, requests), s1) \<Rightarrow>
               if requests = [] then (failures, s1)
               else case AcquireStableBatch env (zip requests (map fresh [0..<length requests])) s1 of
                 (errs, s2) \<Rightarrow> (failures @ (if errs = [] then [] else [LeaseBatchFailed errs]), s2)))"

section \<open>What the loops establish\<close>

lemma probe_loop_iff:
  "probe_loop ok i found ps \<longleftrightarrow> (found \<or> (\<exists>p \<in> set ps. pb_InstanceID p = i)) \<and> (\<forall>p \<in> set ps. pb_InstanceID p = i \<longrightarrow> ok p)"
  by (induction ps arbitrary: found) auto

definition provenWriter :: "TopologySnapshot \<Rightarrow> DatabaseInstance \<Rightarrow> bool" where
  "provenWriter topo i \<longleftrightarrow> h_State (di_Health i) = HealthHealthy \<and> primaryProvenWritable i \<and> currentSuccessfulProbe topo (di_ResourceID i)"

lemma writable_loop_set:
  assumes "writable_loop topo is primary = Inr p" "di_ResourceID primary \<noteq> []"
  shows "p = primary \<and> (\<forall>q \<in> set is. di_Role q = RolePrimary \<longrightarrow> \<not> provenWriter topo q \<and> currentFailedProbe topo (di_ResourceID q))"
  using assms by (induction "is") (auto simp: provenWriter_def split: if_splits)

lemma writable_loop_unset:
  assumes "writable_loop topo is primary = Inr p" "di_ResourceID primary = []" "\<forall>q \<in> set is. di_ResourceID q \<noteq> []"
  shows "\<exists>xs ys. is = xs @ p # ys \<and> di_Role p = RolePrimary \<and> provenWriter topo p \<and> ValidResourceID (di_ResourceID p) \<and>
    (\<forall>q \<in> set xs \<union> set ys. di_Role q = RolePrimary \<longrightarrow> \<not> provenWriter topo q \<and> currentFailedProbe topo (di_ResourceID q))"
  using assms(1,3)
proof (induction "is")
  case Nil
  then show ?case using assms(2) by (simp split: if_splits)
next
  case (Cons i "is")
  show ?case
  proof (cases "di_Role i = RolePrimary \<and> provenWriter topo i")
    case True
    with Cons.prems assms(2) have l: "writable_loop topo is i = Inr p" by (simp add: provenWriter_def)
    have p: "p = i" and others: "\<forall>q \<in> set is. di_Role q = RolePrimary \<longrightarrow> \<not> provenWriter topo q \<and> currentFailedProbe topo (di_ResourceID q)"
      using writable_loop_set [OF l] Cons.prems(2) by auto
    have "ValidResourceID (di_ResourceID p)" using l by (induction "is" arbitrary: i) (auto split: if_splits)
    with True p others show ?thesis by (intro exI [of _ "[]"] exI [of _ "is"]) simp
  next
    case False
    with Cons.prems have l: "writable_loop topo is primary = Inr p"
      and i: "di_Role i = RolePrimary \<longrightarrow> currentFailedProbe topo (di_ResourceID i)"
      by (auto simp: provenWriter_def split: if_splits)
    from Cons.IH [OF l] Cons.prems(2) obtain xs ys where xy: "is = xs @ p # ys" "di_Role p = RolePrimary" "provenWriter topo p" "ValidResourceID (di_ResourceID p)"
      "\<forall>q \<in> set xs \<union> set ys. di_Role q = RolePrimary \<longrightarrow> \<not> provenWriter topo q \<and> currentFailedProbe topo (di_ResourceID q)" by auto
    then show ?thesis using i False by (intro exI [of _ "i # xs"] exI [of _ ys]) auto
  qed
qed

lemma writablePrimary_unique:
  assumes "writablePrimary topo = Inr p" "\<forall>q \<in> set (ts_Instances topo). di_ResourceID q \<noteq> []"
  shows "\<exists>xs ys. ts_Instances topo = xs @ p # ys \<and> di_Role p = RolePrimary \<and> provenWriter topo p \<and> ValidResourceID (di_ResourceID p) \<and>
    (\<forall>q \<in> set xs \<union> set ys. di_Role q = RolePrimary \<longrightarrow> \<not> provenWriter topo q \<and> currentFailedProbe topo (di_ResourceID q))"
  using writable_loop_unset [OF assms(1) [unfolded writablePrimary_def] _ assms(2)] by (simp add: zeroInstance_def)

definition fenced :: "rid \<Rightarrow> DatabaseInstance \<Rightarrow> bool" where
  "fenced clusterID i \<longleftrightarrow> ValidResourceID (di_ResourceID i) \<and> di_ClusterID i = clusterID \<and> di_Engine i = EngineMySQL \<and>
     mysqlBooleanIs (di_EngineMetadata i) ''read_only'' True \<and> mysqlBooleanIs (di_EngineMetadata i) ''super_read_only'' True \<and> \<not> di_Maintenance i"

lemma bootstrap_instances_Inr:
  assumes "bootstrap_instances c ow is seen can = Inr (m, can')"
  shows "(\<forall>i \<in> set is. fenced c i \<and> map_of seen (di_ResourceID i) = None) \<and> distinct (map di_ResourceID is) \<and>
    (\<forall>k v. map_of m k = Some v \<longleftrightarrow> map_of seen k = Some v \<or> v \<in> set is \<and> di_ResourceID v = k \<and> map_of seen k = None) \<and>
    (if \<exists>i \<in> set is. di_ResourceID i = ow then can' \<in> set is \<and> di_ResourceID can' = ow else can' = can)"
  using assms
proof (induction "is" arbitrary: seen can)
  case (Cons i "is")
  then have i: "fenced c i" "map_of seen (di_ResourceID i) = None"
    and l: "bootstrap_instances c ow is (AList.update (di_ResourceID i) i seen) (if di_ResourceID i = ow then i else can) = Inr (m, can')"
    by (auto simp: fenced_def mysqlBooleanIs_def split: if_splits)
  note ih = Cons.IH [OF l]
  show ?case using ih i by (auto simp: update_conv' split: if_splits)
qed auto

lemma bootstrap_probes_Inr:
  assumes "bootstrap_probes ow t m ps counted un = Inr un'"
  shows "(\<forall>u \<in> set un' - set un. \<exists>p \<in> set ps. \<exists>i. map_of m (pb_InstanceID p) = Some i \<and> di_ResourceID i = u \<and> u \<noteq> ow \<and> di_Role i = RoleReplica \<and>
       IsZero (pb_DiscoveryObservedAt p) \<and> h_ObservedAt (pb_Health p) = t \<and>
       (h_State (pb_Health p) = HealthUnknown \<or> h_State (pb_Health p) = HealthUnhealthy))"
  using assms
proof (induction ps arbitrary: counted un)
  case (Cons p ps)
  then obtain i where i: "map_of m (pb_InstanceID p) = Some i" by (auto split: option.splits)
  show ?case
  proof (cases "pb_DiscoveryObservedAt p = t")
    case True
    with Cons.prems i have "bootstrap_probes ow t m ps (pb_InstanceID p # counted) un = Inr un'" by (auto split: if_splits)
    from Cons.IH [OF this] show ?thesis by auto
  next
    case False
    with Cons.prems i have l: "bootstrap_probes ow t m ps (pb_InstanceID p # counted) (di_ResourceID i # un) = Inr un'"
      and e: "di_ResourceID i \<noteq> ow" "di_Role i = RoleReplica" "IsZero (pb_DiscoveryObservedAt p)" "h_ObservedAt (pb_Health p) = t"
        "h_State (pb_Health p) = HealthUnknown \<or> h_State (pb_Health p) = HealthUnhealthy"
      by (auto split: if_splits)
    from Cons.IH [OF l] e i show ?thesis by (auto 4 3)
  qed
qed auto

lemma bootstrap_followers_Inr:
  assumes "bootstrap_followers ow can uuid un is fs = Inr fs'"
  shows "(\<forall>i \<in> set is. di_ResourceID i = ow \<or> di_ResourceID i \<in> set un \<or> followerSafe can uuid i \<and> di_ResourceID i \<in> set fs') \<and>
    set fs \<subseteq> set fs' \<and> (\<forall>f \<in> set fs' - set fs. \<exists>i \<in> set is. di_ResourceID i = f \<and> f \<noteq> ow \<and> followerSafe can uuid i)"
  using assms
proof (induction "is" arbitrary: fs)
  case (Cons i "is")
  show ?case
  proof (cases "di_ResourceID i = ow \<or> di_ResourceID i \<in> set un")
    case True
    with Cons.prems have "bootstrap_followers ow can uuid un is fs = Inr fs'" by simp
    from Cons.IH [OF this] True show ?thesis by auto
  next
    case False
    with Cons.prems have l: "bootstrap_followers ow can uuid un is (di_ResourceID i # fs) = Inr fs'" and f: "followerSafe can uuid i"
      by (auto split: if_splits)
    from Cons.IH [OF l] False f show ?thesis by auto
  qed
qed auto

lemma bootstrap_links_Inr:
  assumes "bootstrap_links c ow un fs ls linked = Inr linked'"
  shows "(\<forall>l \<in> set ls. rl_ClusterID l = c \<and> rl_SourceInstanceID l = ow) \<and>
    (\<forall>t \<in> set linked'. t \<in> set linked \<or> (\<exists>l \<in> set ls. rl_TargetInstanceID l = t \<and> (t \<in> set un \<or> zeroLag (rl_LagSeconds l))))"
  using assms
proof (induction ls arbitrary: linked)
  case (Cons l ls)
  have n: "bootstrap_links c ow un fs ls (rl_TargetInstanceID l # linked) = Inr linked'"
    and l: "rl_ClusterID l = c" "rl_SourceInstanceID l = ow" "rl_TargetInstanceID l \<in> set un \<or> zeroLag (rl_LagSeconds l)"
    using Cons.prems by (auto split: if_splits)
  from Cons.IH [OF n] l show ?case by auto
qed auto

lemma RebootBootstrapCandidate_canonical:
  assumes "RebootBootstrapCandidate topo ow now maxAge = Inr p"
  shows "p \<in> set (ts_Instances topo)" "di_ResourceID p = ow"
proof -
  obtain m where is1: "bootstrap_instances (ts_ClusterID topo) ow (ts_Instances topo) [] zeroInstance = Inr (m, p)" and p: "di_ResourceID p \<noteq> []"
    using assms by (auto simp: RebootBootstrapCandidate_def Let_def bindR_Inr_iff split: if_splits)
  then show "p \<in> set (ts_Instances topo)" "di_ResourceID p = ow"
    using bootstrap_instances_Inr [OF is1] by (auto simp: zeroInstance_def split: if_splits)
qed

lemma ack_instances_Some:
  assumes "ack_instances c is seen pr = Some (seen', p)"
  shows "p = pr \<or> p \<in> set is"
  using assms by (induction "is" arbitrary: seen pr) (auto split: if_splits)

lemma ackDegradedPrimary_owner:
  assumes "ackDegradedPrimaryForRenewal topo ob = Some p"
  shows "p \<in> set (ts_Instances topo) \<and> oo_OwnerIDs ob = [di_ResourceID p] \<and> oo_CanonicalOwnerID ob = di_ResourceID p \<and> primaryProvenWritable p"
proof -
  obtain seen where s: "ack_instances (ts_ClusterID topo) (ts_Instances topo) [] zeroInstance = Some (seen, p)" and v: "ValidResourceID (di_ResourceID p)"
    and o: "oo_OwnerIDs ob = [di_ResourceID p]" "oo_CanonicalOwnerID ob = di_ResourceID p" "primaryProvenWritable p"
    using assms by (auto simp: ackDegradedPrimaryForRenewal_def split: if_splits option.splits)
  with ack_instances_Some [OF s] show ?thesis by (auto simp: zeroInstance_def)
qed

lemma distinct_ids_Some:
  assumes "distinct_ids ok is seen = Some seen'"
  shows "set seen' = set is \<union> set seen \<and> length seen' = length is + length seen \<and> distinct is \<and> (\<forall>i \<in> set is. ok i \<and> i \<notin> set seen)"
  using assms
proof (induction "is" arbitrary: seen)
  case (Cons i "is")
  from Cons.prems have l: "distinct_ids ok is (i # seen) = Some seen'" and i: "ok i" "i \<notin> set seen" by (auto split: if_splits)
  from Cons.IH [OF l] i show ?case by auto
qed simp

lemma safePartialOwnershipCoverage_majority:
  assumes "safePartialOwnershipCoverage topo ob i"
  shows "i \<in> set (oo_ObservedInstanceIDs ob) \<and> set (oo_ObservedInstanceIDs ob) \<subseteq> di_ResourceID ` set (ts_Instances topo) \<and>
    distinct (oo_ObservedInstanceIDs ob) \<and> length (ts_Instances topo) < 2 * length (oo_ObservedInstanceIDs ob) \<and> oo_OwnerIDs ob = [i]"
proof -
  from assms obtain ids obs where d: "distinct_ids (\<lambda>_. True) (map di_ResourceID (ts_Instances topo)) [] = Some ids"
    "distinct_ids (\<lambda>i. i \<in> set ids) (oo_ObservedInstanceIDs ob) [] = Some obs" and m: "i \<in> set obs" "length ids div 2 < length obs" "oo_OwnerIDs ob = [i]"
    by (auto simp: safePartialOwnershipCoverage_def split: if_splits option.splits)
  from distinct_ids_Some [OF d(1)] distinct_ids_Some [OF d(2)] m show ?thesis by auto
qed

text \<open>The three kinds of evidence on which a writer is chosen.\<close>

lemma chooseWriter_evidence:
  assumes "chooseWriter keeper cluster now topo ob = Inr (p, bootstrap, renewal)"
  shows "writablePrimary topo = Inr p \<and> \<not> bootstrap \<and> \<not> renewal \<or>
    ackDegradedPrimaryForRenewal topo ob = Some p \<and> renewal \<or>
    RebootBootstrapCandidate topo (oo_CanonicalOwnerID ob) now (ok_maxAge keeper) = Inr p \<and> oo_Complete ob"
proof (cases "writablePrimary topo")
  case (Inr q)
  with assms show ?thesis by (simp add: chooseWriter_def)
next
  case (Inl e)
  show ?thesis
  proof (cases "cl_Engine cluster = EngineMySQL \<and> (\<exists>q. ackDegradedPrimaryForRenewal topo ob = Some q)")
    case True
    with Inl assms show ?thesis by (auto simp: chooseWriter_def)
  next
    case False
    with Inl assms show ?thesis
      by (cases "RebootBootstrapCandidate topo (oo_CanonicalOwnerID ob) now (ok_maxAge keeper)")
        (simp_all add: chooseWriter_def bindR_Inr_iff split: option.splits if_splits prod.splits)
  qed
qed

section \<open>Properties\<close>


text \<open>
  (C9) A writer's lease is asked for only on evidence. When the keeper asks for the lease of a
  cluster's endpoint, the owner is an instance of the observed topology; nobody else was seen
  owning the address; if the observation did not cover all instances, a majority of them
  including the owner was observed, the owner holds the address and only a renewal is asked for;
  a renewal does not touch the recorded owner. The evidence is one of three: the owner is proven writable and healthy
  by the current discovery and every other instance in the primary role failed it; or the owner is
  writable, holds the address and only a renewal is asked for; or, with complete coverage, it is
  the fenced canonical primary of the bootstrap check.
\<close>

theorem reconcileCluster_safe:
  assumes "reconcileCluster keeper found observe commitOwner cluster now iv = (Inr request, iv')"
    and "\<forall>topo. found = Some topo \<longrightarrow> (\<forall>q \<in> set (ts_Instances topo). di_ResourceID q \<noteq> [])"
  shows "\<exists>topo ob p. found = Some topo \<and> observe topo = Inr ob \<and> p \<in> set (ts_Instances topo) \<and>
    rq_OwnerID request = di_ResourceID p \<and> rq_ClusterID request = cl_ResourceID cluster \<and> rq_HAEndpointID request = oo_HAEndpointID ob \<and>
    rq_OperationID request = rq_HAEndpointID request \<and> set (oo_OwnerIDs ob) \<subseteq> {di_ResourceID p} \<and>
    (oo_Complete ob \<or> rq_RenewOnly request \<and> di_ResourceID p \<in> set (oo_ObservedInstanceIDs ob) \<and> distinct (oo_ObservedInstanceIDs ob) \<and>
       length (ts_Instances topo) < 2 * length (oo_ObservedInstanceIDs ob) \<and> oo_OwnerIDs ob = [di_ResourceID p]) \<and>
    (rq_RenewOnly request \<longrightarrow> iv' = iv) \<and>
    ((\<exists>xs ys. ts_Instances topo = xs @ p # ys \<and> di_Role p = RolePrimary \<and> provenWriter topo p \<and>
        (\<forall>q \<in> set xs \<union> set ys. di_Role q = RolePrimary \<longrightarrow> \<not> provenWriter topo q \<and> currentFailedProbe topo (di_ResourceID q))) \<or>
     rq_RenewOnly request \<and> primaryProvenWritable p \<and> oo_OwnerIDs ob = [di_ResourceID p] \<or>
     oo_Complete ob \<and> RebootBootstrapCandidate topo (di_ResourceID p) now (ok_maxAge keeper) = Inr p)"
proof -
  obtain topo ob p bootstrap renewal where
    fo: "found = Some topo" "observe topo = Inr ob" and ch: "chooseWriter keeper cluster now topo ob = Inr (p, bootstrap, renewal)"
    and cov: "\<not> oo_Complete ob \<longrightarrow> safePartialOwnershipCoverage topo ob (di_ResourceID p)"
    and own: "length (oo_OwnerIDs ob) \<le> 1" "length (oo_OwnerIDs ob) = 1 \<longrightarrow> hd (oo_OwnerIDs ob) = di_ResourceID p"
    and req: "rq_OwnerID request = di_ResourceID p" "rq_ClusterID request = cl_ResourceID cluster" "rq_HAEndpointID request = oo_HAEndpointID ob"
      "rq_OperationID request = oo_HAEndpointID ob" "rq_RenewOnly request \<longleftrightarrow> \<not> oo_Complete ob \<or> renewal" "rq_RenewOnly request \<longrightarrow> iv' = iv"
    using assms(1) by (auto simp: reconcileCluster_def Let_def not_less split: option.splits if_splits sum.splits prod.splits)
  have owners: "set (oo_OwnerIDs ob) \<subseteq> {di_ResourceID p}"
    using own by (cases "oo_OwnerIDs ob") auto
  have ids: "\<forall>q \<in> set (ts_Instances topo). di_ResourceID q \<noteq> []" using assms(2) fo(1) by simp
  from chooseWriter_evidence [OF ch] consider
    (writable) "writablePrimary topo = Inr p" | (ack) "ackDegradedPrimaryForRenewal topo ob = Some p" "renewal"
    | (boot) "RebootBootstrapCandidate topo (oo_CanonicalOwnerID ob) now (ok_maxAge keeper) = Inr p" "oo_Complete ob" by blast
  then have ev: "p \<in> set (ts_Instances topo) \<and> ((\<exists>xs ys. ts_Instances topo = xs @ p # ys \<and> di_Role p = RolePrimary \<and> provenWriter topo p \<and>
        (\<forall>q \<in> set xs \<union> set ys. di_Role q = RolePrimary \<longrightarrow> \<not> provenWriter topo q \<and> currentFailedProbe topo (di_ResourceID q))) \<or>
     rq_RenewOnly request \<and> primaryProvenWritable p \<and> oo_OwnerIDs ob = [di_ResourceID p] \<or>
     oo_Complete ob \<and> RebootBootstrapCandidate topo (di_ResourceID p) now (ok_maxAge keeper) = Inr p)"
  proof cases
    case writable
    from writablePrimary_unique [OF writable ids] obtain xs ys where xy: "ts_Instances topo = xs @ p # ys"
      "di_Role p = RolePrimary" "provenWriter topo p"
      "\<forall>q \<in> set xs \<union> set ys. di_Role q = RolePrimary \<longrightarrow> \<not> provenWriter topo q \<and> currentFailedProbe topo (di_ResourceID q)"
      by blast
    then have "p \<in> set (ts_Instances topo)" by simp
    with xy show ?thesis by blast
  next
    case ack
    from ackDegradedPrimary_owner [OF ack(1)] ack(2) req(5) show ?thesis by simp
  next
    case boot
    from RebootBootstrapCandidate_canonical [OF boot(1)] boot show ?thesis by simp
  qed
  have "oo_Complete ob \<or> rq_RenewOnly request \<and> di_ResourceID p \<in> set (oo_ObservedInstanceIDs ob) \<and> distinct (oo_ObservedInstanceIDs ob) \<and>
       length (ts_Instances topo) < 2 * length (oo_ObservedInstanceIDs ob) \<and> oo_OwnerIDs ob = [di_ResourceID p]"
    using cov safePartialOwnershipCoverage_majority [of topo ob "di_ResourceID p"] req(5) by blast
  note cover = this
  have op: "rq_OperationID request = rq_HAEndpointID request" using req by simp
  show ?thesis
    by (intro exI [of _ topo] exI [of _ ob] exI [of _ p] conjI fo req(1,2,3,6) op owners cover
        conjunct1 [OF ev] conjunct2 [OF ev])
qed

lemma reconcile_all_requests:
  assumes "reconcile_all rec cs iv = ((errs, reqs), iv')"
  shows "\<forall>r \<in> set reqs. \<exists>c \<in> set cs. \<exists>iv0 iv1. rec c iv0 = (Inr r, iv1)"
  using assms
proof (induction cs arbitrary: iv errs reqs)
  case (Cons c cs)
  then show ?case by (auto split: prod.splits sum.splits) blast+
qed simp

lemma keeper_reconcile_leases:
  assumes "keeper_reconcile keeper observe env now c s = (r, s')"
  shows "CoordinationLeases s' = CoordinationLeases s"
proof (cases "s' = s")
  case False
  then obtain hid rr er ow h e where c: "commitHAEndpointOwner env (cl_ResourceID c) hid ow h (Some rr) (Some er) s = (e, s')"
    using assms
    by (auto simp: keeper_reconcile_def reconcileCluster_def CommitObservedHAEndpointOwner_def Let_def
        split: option.splits if_splits sum.splits prod.splits)
  then show ?thesis
    by (cases rule: commitHAEndpointOwner_cases) (auto simp: with_owner_def dest!: commit_keeps [where f = CoordinationLeases])
qed simp

lemma reconcile_all_leases:
  assumes "reconcile_all (keeper_reconcile keeper observe env now) cs s = (r, s')"
  shows "CoordinationLeases s' = CoordinationLeases s"
  using assms
proof (induction cs arbitrary: s r s')
  case (Cons c cs)
  obtain q s1 where q: "keeper_reconcile keeper observe env now c s = (q, s1)" by fastforce
  obtain r2 s2 where r2: "reconcile_all (keeper_reconcile keeper observe env now) cs s1 = (r2, s2)" by fastforce
  have "s' = s2" using Cons.prems q r2 by (cases q) (auto split: prod.splits)
  with Cons.IH [OF r2] keeper_reconcile_leases [OF q] show ?case by simp
qed simp


section \<open>Sample cluster\<close>

text \<open>
  A MySQL cluster of two instances seen at time 3: after a reboot the canonical primary is fenced and
  its replica follows it, or the primary is writable.
\<close>

definition sampleHealth :: "HealthState \<Rightarrow> Health" where
  "sampleHealth st = \<lparr>h_State = st, h_Summary = [], h_ObservedAt = 3\<rparr>"

definition sampleMeta :: "string \<Rightarrow> metadata" where
  "sampleMeta v = [(''read_only'', v), (''super_read_only'', v)]"

definition sampleInstance :: "char \<Rightarrow> InstanceRole \<Rightarrow> HealthState \<Rightarrow> string \<Rightarrow> DatabaseInstance" where
  "sampleInstance c role st ro = zeroInstance\<lparr>di_ResourceID := sampleID c, di_ClusterID := sampleID (CHR ''1''), di_Engine := EngineMySQL,
     di_EngineIdentity := [(''server_uuid'', ''u1'')], di_Role := role, di_Health := sampleHealth st, di_EngineMetadata := sampleMeta ro\<rparr>"

definition sampleReplica :: DatabaseInstance where
  "sampleReplica = (sampleInstance (CHR ''5'') RoleReplica HealthHealthy ''true'')\<lparr>di_Replication := zeroReplication\<lparr>
     rs_SourceIdentity := [(''server_uuid'', ''U1'')], rs_IOThread := ThreadRunning, rs_SQLThread := ThreadRunning, rs_LagSeconds := Some 0\<rparr>\<rparr>"

definition sampleTopology :: "DatabaseInstance \<Rightarrow> TopologySnapshot" where
  "sampleTopology p = \<lparr>ts_ClusterID = sampleID (CHR ''1''), ts_Instances = [p, sampleReplica],
     ts_Links = [\<lparr>rl_ClusterID = sampleID (CHR ''1''), rl_SourceInstanceID = sampleID (CHR ''4''), rl_TargetInstanceID = sampleID (CHR ''5''),
       rl_Healthy = True, rl_LagSeconds = Some 0\<rparr>],
     ts_Probes = map (\<lambda>i. \<lparr>pb_InstanceID = di_ResourceID i, pb_Outcome = ProbeOutcomeReachable, pb_DiscoveryObservedAt = 3,
       pb_Health = di_Health i\<rparr>) [p, sampleReplica],
     ts_Health = sampleHealth HealthHealthy, ts_Anomalies = [], ts_ObservedAt = 3\<rparr>"

definition rebootedPrimary :: DatabaseInstance where
  "rebootedPrimary = sampleInstance (CHR ''4'') RoleUnknown HealthDegraded ''ON''"

definition writingPrimary :: DatabaseInstance where
  "writingPrimary = sampleInstance (CHR ''4'') RolePrimary HealthHealthy ''false''"

definition sampleObservation :: OwnershipObservation where
  "sampleObservation = \<lparr>oo_HAEndpointID = sampleID (CHR ''2''), oo_HAEndpointRevision = 7, oo_EndpointRevision = 9,
     oo_CanonicalOwnerID = sampleID (CHR ''4''), oo_EndpointOwnerID = sampleID (CHR ''4''), oo_OwnerIDs = [sampleID (CHR ''4'')],
     oo_ObservedInstanceIDs = [sampleID (CHR ''4''), sampleID (CHR ''5'')], oo_Complete = True\<rparr>"

definition sampleKeeper :: keeper_config where
  "sampleKeeper = \<lparr>ok_interval = 5, ok_maxAge = 10\<rparr>"

definition sampleObserve :: "DatabaseCluster \<Rightarrow> TopologySnapshot \<Rightarrow> string + OwnershipObservation" where
  "sampleObserve cluster topo = Inr sampleObservation"

definition sampleKept :: snapshot where
  "sampleKept = (sampleInventory sampleRepo)\<lparr>TopologySnapshots := [(sampleID (CHR ''1''), sampleTopology writingPrimary)]\<rparr>"

definition sampleOwnerRequest :: LeaseRequest where
  "sampleOwnerRequest = \<lparr>rq_ClusterID = sampleID (CHR ''1''), rq_HAEndpointID = sampleID (CHR ''2''), rq_OperationID = sampleID (CHR ''2''),
     rq_OwnerID = sampleID (CHR ''4''), rq_PreviousOwnerID = [], rq_TTL = minute, rq_RenewOnly = False\<rparr>"

lemma sample_bootstrap: "RebootBootstrapCandidate (sampleTopology rebootedPrimary) (sampleID (CHR ''4'')) 5 10 = Inr rebootedPrimary"
  by code_simp

lemma sample_topology: "repository_TopologySnapshot (sampleID (CHR ''1'')) sampleKept = Some (sampleTopology writingPrimary)"
  by (simp add: repository_TopologySnapshot_def sampleKept_def sampleInventory_def sampleTopology_def writingPrimary_def sampleReplica_def sampleInstance_def
      sampleMember_def overlayInstance_def zeroInstance_def)

lemma sample_chooses: "chooseWriter sampleKeeper sampleCluster 5 (sampleTopology writingPrimary) sampleObservation = Inr (writingPrimary, False, False)"
  by code_simp

lemma sample_owner: "di_ResourceID writingPrimary = sampleID (CHR ''4'')"
  by (simp add: writingPrimary_def sampleInstance_def)

definition sampleOwned :: snapshot where
  "sampleOwned = snd (CommitObservedHAEndpointOwner (le_repo (sampleEnv 5)) (sampleID (CHR ''1'')) (sampleID (CHR ''2'')) 7 9 (sampleID (CHR ''4'')) True sampleKept)"

lemma sample_commit_owner:
  "CommitObservedHAEndpointOwner (le_repo (sampleEnv 5)) (sampleID (CHR ''1'')) (sampleID (CHR ''2'')) 7 9 (sampleID (CHR ''4'')) True sampleKept =
     (None, sampleOwned)"
  by (simp add: sampleOwned_def CommitObservedHAEndpointOwner_def commitHAEndpointOwner_def sampleKept_def sampleInventory_def clusterEndpoints_def sampleHA_def
      sampleVIP_def sampleMember_def sampleEnv_def commitSnapshotLocked_def Let_def)

lemma sample_reconcile:
  "keeper_reconcile sampleKeeper sampleObserve (le_repo (sampleEnv 5)) 5 sampleCluster sampleKept = (Inr sampleOwnerRequest, sampleOwned)"
proof -
  have sel: "cl_ResourceID sampleCluster = sampleID (CHR ''1'')" "ts_ObservedAt (sampleTopology writingPrimary) = 3"
    "ok_maxAge sampleKeeper = 10" "ok_interval sampleKeeper = 5" "sampleObserve sampleCluster (sampleTopology writingPrimary) = Inr sampleObservation"
    by (simp_all add: sampleCluster_def sampleTopology_def sampleKeeper_def sampleObserve_def)
  have ob: "oo_HAEndpointID sampleObservation = sampleID (CHR ''2'')" "oo_OwnerIDs sampleObservation = [sampleID (CHR ''4'')]" "oo_Complete sampleObservation"
    "oo_HAEndpointRevision sampleObservation = 7" "oo_EndpointRevision sampleObservation = 9"
    by (simp_all add: sampleObservation_def)
  have now: "\<not> 10 < time_sub 5 3" "\<not> 3 > time_add 5 5" by code_simp+
  show ?thesis
    using sample_commit_owner now
    by (simp add: keeper_reconcile_def reconcileCluster_def sel ob sample_topology sample_chooses sample_owner IsZero_def Let_def sampleOwnerRequest_def)
qed


theorem reconcileCluster_safe_witness:
  "keeper_reconcile sampleKeeper sampleObserve (le_repo (sampleEnv 5)) 5 sampleCluster sampleKept = (Inr sampleOwnerRequest, sampleOwned) \<and>
   (\<exists>topo ob p. Some (sampleTopology writingPrimary) = Some topo \<and> sampleObserve sampleCluster topo = Inr ob \<and>
      p \<in> set (ts_Instances topo) \<and> rq_OwnerID sampleOwnerRequest = di_ResourceID p)"
proof -
  have "\<forall>topo. Some (sampleTopology writingPrimary) = Some topo \<longrightarrow> (\<forall>q \<in> set (ts_Instances topo). di_ResourceID q \<noteq> [])"
    by (simp add: sampleTopology_def writingPrimary_def sampleReplica_def sampleInstance_def)
  moreover have "cl_ResourceID sampleCluster = sampleID (CHR ''1'')" by (simp add: sampleCluster_def)
  ultimately show ?thesis
    using reconcileCluster_safe [OF sample_reconcile [unfolded keeper_reconcile_def]] sample_topology sample_reconcile by auto
qed

definition sampleFresh :: "nat \<Rightarrow> rid" where
  "sampleFresh n = sampleID (CHR ''6'') @ replicate n (CHR ''x'')"

lemma sampleFresh_0 [simp]: "sampleFresh 0 = sampleID (CHR ''6'')"
  by (simp add: sampleFresh_def)

lemma sampleFresh_inj: "inj sampleFresh"
  by (rule injI) (auto simp: sampleFresh_def)


end
