(* ===== verification/Agent_Decisions.thy ===== *)
theory Agent_Decisions
  imports Ownership
begin

text \<open>
  What the leading controller answers a node agent (\<^verbatim>\<open>internal/coordination/self_isolation.go\<close>,
  \<^verbatim>\<open>agent_authorization.go\<close> and the decision of \<^verbatim>\<open>internal/api/agent_reconcile.go\<close>). An agent asks
  every few seconds; a positive answer lets it keep the virtual address and stay writable for
  at most ten seconds, any other answer makes it release the address and turn read-only. The
  controller remembers until when it has authorised an instance, so that a failover can wait for the
  last authorisation to run out. Decoding and authenticating the request and signing the answer
  are not modelled: the request's cluster and instance are arguments.
\<close>

section \<open>Self isolation\<close>

datatype SelfIsolationAction =
  SelfIsolationKeepVIP | SelfIsolationHoldTransitionSource | SelfIsolationBootstrapPrimary | SelfIsolationReleaseAndReadOnly

record SelfIsolationEvidence =
  si_LocalInstanceID :: rid
  si_CurrentPrimaryID :: rid
  si_CanonicalOwnerID :: rid
  si_EndpointOwnerID :: rid
  si_Lease :: Lease
  si_TransitionTarget :: bool
  si_TransitionSource :: bool
  si_StableTarget :: bool
  si_BootstrapTarget :: bool
  si_Now :: go_time

record SelfIsolationDecision =
  sd_Action :: SelfIsolationAction
  sd_Reason :: string

definition isolate :: "string \<Rightarrow> SelfIsolationDecision" where
  "isolate reason = \<lparr>sd_Action = SelfIsolationReleaseAndReadOnly, sd_Reason = reason\<rparr>"

definition EvaluateSelfIsolation :: "SelfIsolationEvidence \<Rightarrow> SelfIsolationDecision" where
  "EvaluateSelfIsolation evidence =
     (let local = si_LocalInstanceID evidence; lease = si_Lease evidence in
      if \<not> ValidResourceID local then isolate ''local instance identity is invalid''
      else if \<not> l_Active lease \<or> \<not> ValidResourceID (l_ResourceID lease) \<or> \<not> l_ExpiresAt lease > si_Now evidence
      then isolate ''no active majority lease authorizes local VIP ownership''
      else if si_TransitionSource evidence
      then if l_OperationID lease = l_HAEndpointID lease \<or> l_PreviousOwnerID lease \<noteq> local
           then isolate ''active transition lease does not authorize the local source''
           else \<lparr>sd_Action = SelfIsolationHoldTransitionSource, sd_Reason = ''active controlled transition lease authorizes the source''\<rparr>
      else if l_OwnerID lease \<noteq> local then isolate ''no active majority lease authorizes local VIP ownership''
      else if si_TransitionTarget evidence
      then \<lparr>sd_Action = SelfIsolationKeepVIP, sd_Reason = ''active controlled transition lease authorizes the target''\<rparr>
      else if si_BootstrapTarget evidence
      then if si_CurrentPrimaryID evidence \<noteq> [] then isolate ''reboot bootstrap is blocked while a current primary exists''
           else if si_CanonicalOwnerID evidence \<noteq> local \<or> si_EndpointOwnerID evidence \<noteq> local
           then isolate ''canonical VIP ownership metadata does not select the rebooted primary''
           else \<lparr>sd_Action = SelfIsolationBootstrapPrimary, sd_Reason = ''majority lease authorizes the verified rebooted primary''\<rparr>
      else if si_CanonicalOwnerID evidence \<noteq> local \<or> si_EndpointOwnerID evidence \<noteq> local
      then isolate ''canonical VIP ownership metadata does not select the local primary''
      else if si_StableTarget evidence \<and> ValidResourceID (l_HAEndpointID lease) \<and> l_OperationID lease = l_HAEndpointID lease
      then \<lparr>sd_Action = SelfIsolationKeepVIP, sd_Reason = ''active stable majority lease and canonical endpoint ownership are valid''\<rparr>
      else if si_CurrentPrimaryID evidence \<noteq> local then isolate ''local instance is not the current primary''
      else \<lparr>sd_Action = SelfIsolationKeepVIP, sd_Reason = ''active majority lease and current-primary ownership are valid''\<rparr>)"

section \<open>Evidence from the repository\<close>

fun primary_loop :: "DatabaseInstance list \<Rightarrow> rid \<Rightarrow> rid" where
  "primary_loop [] primaryID = primaryID"
| "primary_loop (i # is) primaryID =
     (if di_Role i \<noteq> RolePrimary then primary_loop is primaryID
      else if primaryID \<noteq> [] then []
      else primary_loop is (di_ResourceID i))"

definition topologyPrimaryID :: "TopologySnapshot \<Rightarrow> rid" where
  "topologyPrimaryID topo = primary_loop (ts_Instances topo) []"

fun vip_loop :: "snapshot \<Rightarrow> HAEndpoint list \<Rightarrow> (HAEndpoint \<times> Endpoint) option \<Rightarrow> (HAEndpoint \<times> Endpoint) option" where
  "vip_loop s [] selected = selected"
| "vip_loop s (resource # resources) selected =
     (case repository_Endpoint (he_EndpointID resource) s of
        None \<Rightarrow> vip_loop s resources selected
      | Some candidate \<Rightarrow>
          if he_Kind resource \<noteq> EndpointVIP \<or> ep_Kind candidate \<noteq> EndpointVIP \<or> \<not> ep_Active candidate then vip_loop s resources selected
          else if (case selected of None \<Rightarrow> False | Some p \<Rightarrow> he_ResourceID (fst p) \<noteq> []) then None
          else vip_loop s resources (Some (resource, candidate)))"

definition Server_activeVIP :: "rid \<Rightarrow> snapshot \<Rightarrow> (HAEndpoint \<times> Endpoint) option" where
  "Server_activeVIP clusterID s =
     (case vip_loop s (repository_HAEndpoints clusterID s) None of
        None \<Rightarrow> None
      | Some p \<Rightarrow> if he_ResourceID (fst p) \<noteq> [] then Some p else None)"

fun owner_lease_loop :: "rid \<Rightarrow> rid \<Rightarrow> go_time \<Rightarrow> LeaseRecord list \<Rightarrow> LeaseRecord option \<Rightarrow> LeaseRecord option" where
  "owner_lease_loop clusterID endpointID now [] selected = selected"
| "owner_lease_loop clusterID endpointID now (r # rs) selected =
     (if l_ClusterID (lr_Lease r) \<noteq> clusterID \<or> l_HAEndpointID (lr_Lease r) \<noteq> endpointID \<or> \<not> l_Active (lr_Lease r) \<or> \<not> l_ExpiresAt (lr_Lease r) > now
      then owner_lease_loop clusterID endpointID now rs selected
      else if (case selected of None \<Rightarrow> False | Some q \<Rightarrow> l_ResourceID (lr_Lease q) \<noteq> []) then None
      else owner_lease_loop clusterID endpointID now rs (Some r))"

definition activeOwnershipLease :: "rid \<Rightarrow> rid \<Rightarrow> go_time \<Rightarrow> snapshot \<Rightarrow> LeaseRecord option" where
  "activeOwnershipLease clusterID endpointID now s =
     (case owner_lease_loop clusterID endpointID now (CoordinationLeases_list s) None of
        None \<Rightarrow> None
      | Some r \<Rightarrow> if l_ResourceID (lr_Lease r) \<noteq> [] then Some r else None)"

definition runningTransition :: "OperationRecord \<Rightarrow> bool" where
  "runningTransition operation \<longleftrightarrow> or_Status operation = OperationRunning \<and> (or_Stage operation = StageExecute \<or> or_Stage operation = StageVerify)"

definition promotedUnverified :: "rid \<Rightarrow> Lease \<Rightarrow> OperationRecord \<Rightarrow> bool" where
  "promotedUnverified instanceID lease operation \<longleftrightarrow>
     or_TargetID operation = instanceID \<and> or_Status operation = OperationIndeterminate \<and> or_Stage operation = StageVerify \<and>
     or_FailureClass operation = ''promoted_unverified'' \<and> op_Kind (or_Operation operation) = OperationFailover \<and>
     op_RequestedBy (or_Operation operation) = ''clusterguard-automatic-recovery'' \<and>
     pl_OperationID (or_Plan operation) = or_ResourceID operation \<and> pl_ClusterID (or_Plan operation) = op_ClusterID (or_Operation operation) \<and>
     pl_TargetID (or_Plan operation) = or_TargetID operation \<and> ValidResourceID (pl_SourceID (or_Plan operation)) \<and>
     l_PreviousOwnerID lease = pl_SourceID (or_Plan operation) \<and> l_OwnerID lease = or_TargetID operation"

definition transitionAuthorizes :: "rid \<Rightarrow> Lease \<Rightarrow> snapshot \<Rightarrow> bool" where
  "transitionAuthorizes instanceID lease s =
     (if (case repository_Operation (l_OperationID lease) s of None \<Rightarrow> False
          | Some operation \<Rightarrow> or_TargetID operation = instanceID \<and> runningTransition operation) then True
      else if (case repository_Operation (l_OperationID lease) s of None \<Rightarrow> False
          | Some operation \<Rightarrow> promotedUnverified instanceID lease operation) then True
      else if l_OperationID lease \<noteq> l_HAEndpointID lease \<or> l_OwnerID lease \<noteq> instanceID then False
      else list_ex (\<lambda>candidate. or_TargetID candidate = instanceID \<and> runningTransition candidate \<and>
             (op_Kind (or_Operation candidate) = OperationSwitchover \<or> op_Kind (or_Operation candidate) = OperationFailover))
           (repository_Operations (l_ClusterID lease) s))"

definition transitionSourceAuthorizes :: "rid \<Rightarrow> Lease \<Rightarrow> snapshot \<Rightarrow> bool" where
  "transitionSourceAuthorizes instanceID lease s =
     (if l_OperationID lease = l_HAEndpointID lease \<or> l_PreviousOwnerID lease \<noteq> instanceID then False
      else case repository_Operation (l_OperationID lease) s of
        None \<Rightarrow> False
      | Some operation \<Rightarrow>
          if or_TargetID operation \<noteq> l_OwnerID lease \<or> \<not> runningTransition operation then False
          else if op_Kind (or_Operation operation) \<noteq> OperationSwitchover then False
          else \<not> ValidResourceID (pl_SourceID (or_Plan operation)) \<or> pl_SourceID (or_Plan operation) = instanceID)"

definition validBootstrapLeaseRecord :: "LeaseRecord \<Rightarrow> go_time \<Rightarrow> bool" where
  "validBootstrapLeaseRecord r now =
     (if IsZero (lr_UpdatedAt r) \<or> lr_UpdatedAt r > now then False
      else let lifetime = time_sub (l_ExpiresAt (lr_Lease r)) (lr_UpdatedAt r) in lifetime > 0 \<and> lifetime \<le> minute)"

definition zeroLease :: Lease where
  "zeroLease = \<lparr>l_ResourceID = [], l_ClusterID = [], l_HAEndpointID = [], l_OperationID = [], l_OwnerID = [], l_PreviousOwnerID = [],
     l_ExpiresAt = 0, l_Active = False\<rparr>"

definition leaseEvidence :: "TopologySnapshot option \<Rightarrow> LeaseRecord \<Rightarrow> go_time \<Rightarrow> snapshot \<Rightarrow> SelfIsolationEvidence \<Rightarrow> SelfIsolationEvidence" where
  "leaseEvidence topo leaseRecord now s evidence =
     (let lease = lr_Lease leaseRecord; instanceID = si_LocalInstanceID evidence; target = transitionAuthorizes instanceID lease s;
          evidence = evidence\<lparr>si_Lease := lease, si_TransitionTarget := target, si_TransitionSource := transitionSourceAuthorizes instanceID lease s,
            si_StableTarget := (l_OperationID lease = l_HAEndpointID lease \<and> l_OwnerID lease = instanceID \<and> validBootstrapLeaseRecord leaseRecord now)\<rparr>
      in case topo of
           None \<Rightarrow> evidence
         | Some snapshot \<Rightarrow>
             if \<not> target \<and> si_CurrentPrimaryID evidence = [] \<and> si_CanonicalOwnerID evidence = instanceID \<and> si_EndpointOwnerID evidence = instanceID \<and>
                validBootstrapLeaseRecord leaseRecord now
             then evidence\<lparr>si_BootstrapTarget := (case RebootBootstrapCandidate snapshot instanceID now (15 * second) of
                    Inl _ \<Rightarrow> False | Inr candidate \<Rightarrow> di_ResourceID candidate = instanceID)\<rparr>
             else evidence)"

definition gatherEvidence :: "rid \<Rightarrow> rid \<Rightarrow> go_time \<Rightarrow> snapshot \<Rightarrow> SelfIsolationEvidence" where
  "gatherEvidence clusterID instanceID now s =
     (let topo = repository_TopologySnapshot clusterID s;
          evidence = \<lparr>si_LocalInstanceID = instanceID, si_CurrentPrimaryID = (case topo of None \<Rightarrow> [] | Some snapshot \<Rightarrow> topologyPrimaryID snapshot),
            si_CanonicalOwnerID = [], si_EndpointOwnerID = [], si_Lease = zeroLease, si_TransitionTarget = False, si_TransitionSource = False,
            si_StableTarget = False, si_BootstrapTarget = False, si_Now = now\<rparr>
      in case Server_activeVIP clusterID s of
           None \<Rightarrow> evidence
         | Some (resource, vipEndpoint) \<Rightarrow>
             let evidence = evidence\<lparr>si_CanonicalOwnerID := he_OwnerID resource, si_EndpointOwnerID := ep_InstanceID vipEndpoint\<rparr> in
             case activeOwnershipLease clusterID (he_ResourceID resource) now s of
               None \<Rightarrow> evidence
             | Some leaseRecord \<Rightarrow> leaseEvidence topo leaseRecord now s evidence)"

section \<open>The answer\<close>

datatype ReconcileAction =
  ReconcileKeepVIP | ReconcileTransitionTarget | ReconcileTransitionSource | ReconcileBootstrapPrimary | ReconcileSelfIsolate
  | ReconcileRecoveryPrimary | ReconcileRecoveryActivate | ReconcileRecoveryReplica | ReconcileRecoveryPrepare | ReconcileOther string

record ReconcileResponse =
  re_RecoveryTaskID :: rid
  re_ClusterID :: rid
  re_InstanceID :: rid
  re_Action :: ReconcileAction
  re_Reason :: string
  re_LeaseID :: rid
  re_ValidUntil :: go_time
  re_ControllerID :: rid

definition decisionResponse :: "SelfIsolationEvidence \<Rightarrow> SelfIsolationDecision \<Rightarrow> rid \<Rightarrow> rid \<Rightarrow> go_time \<Rightarrow> ReconcileResponse" where
  "decisionResponse evidence decision clusterID controllerID now =
     (let short = time_add now (10 * second);
          response = \<lparr>re_RecoveryTaskID = [], re_ClusterID = clusterID, re_InstanceID = si_LocalInstanceID evidence, re_Action = ReconcileSelfIsolate,
            re_Reason = sd_Reason decision, re_LeaseID = [], re_ValidUntil = short, re_ControllerID = controllerID\<rparr>
      in if sd_Action decision = SelfIsolationKeepVIP \<or> sd_Action decision = SelfIsolationHoldTransitionSource \<or> sd_Action decision = SelfIsolationBootstrapPrimary
         then response\<lparr>re_Action := (if sd_Action decision = SelfIsolationBootstrapPrimary then ReconcileBootstrapPrimary
                  else if sd_Action decision = SelfIsolationHoldTransitionSource then ReconcileTransitionSource
                  else if si_TransitionTarget evidence then ReconcileTransitionTarget else ReconcileKeepVIP),
                re_LeaseID := l_ResourceID (si_Lease evidence),
                re_ValidUntil := (if l_ExpiresAt (si_Lease evidence) > short then short else l_ExpiresAt (si_Lease evidence))\<rparr>
         else response)"

definition recoveryResponse :: "SelfIsolationEvidence \<Rightarrow> RecoveryTask \<Rightarrow> go_time \<Rightarrow> go_time \<Rightarrow> ReconcileResponse \<Rightarrow> ReconcileResponse" where
  "recoveryResponse evidence task expiresAt now response =
     (let lease = si_Lease evidence;
          response = response\<lparr>re_RecoveryTaskID := rt_ResourceID task, re_LeaseID := rt_LeaseID task,
            re_Action := (if rt_Stage task = RecoveryFencing \<or> rt_Stage task = RecoveryInspecting then ReconcileRecoveryPrepare
              else if rt_PrimaryID task \<noteq> re_InstanceID response then ReconcileRecoveryReplica else ReconcileRecoveryPrimary),
            re_Reason := (if rt_Stage task = RecoveryFencing \<or> rt_Stage task = RecoveryInspecting
              then ''recovery preparation is isolated by offline mode and does not authorize a primary or VIP''
              else if rt_PrimaryID task \<noteq> re_InstanceID response
              then ''recovery replica reconstruction requires a verified local offline-mode guard; VIP remains prohibited''
              else ''recovery-only primary permit requires a verified local business-access guard; VIP remains prohibited''),
            re_ValidUntil := (if expiresAt < re_ValidUntil response then expiresAt else re_ValidUntil response)\<rparr>
      in if rt_Stage task = RecoveryCommitted \<and> si_CanonicalOwnerID evidence = rt_PrimaryID task \<and> si_EndpointOwnerID evidence = rt_PrimaryID task \<and>
            l_OwnerID lease = rt_PrimaryID task \<and> l_OperationID lease = l_HAEndpointID lease \<and> l_Active lease \<and> l_ExpiresAt lease > now
         then response\<lparr>re_Action := ReconcileRecoveryActivate, re_Reason := ''Recovery Commit and majority writer lease authorize guarded activation'',
                re_ValidUntil := (if l_ExpiresAt lease < re_ValidUntil response then l_ExpiresAt lease else re_ValidUntil response)\<rparr>
         else response)"

definition reconcileDecision :: "rid \<Rightarrow> rid \<Rightarrow> rid \<Rightarrow> go_time \<Rightarrow> snapshot \<Rightarrow> ReconcileResponse" where
  "reconcileDecision clusterID instanceID controllerID now s =
     (let evidence = gatherEvidence clusterID instanceID now s;
          response = decisionResponse evidence (EvaluateSelfIsolation evidence) clusterID controllerID now
      in case map_of (Clusters s) clusterID of
           None \<Rightarrow> response
         | Some cluster \<Rightarrow>
             if \<not> DisasterRecoveryActive cluster then response
             else
               let response = response\<lparr>re_Action := ReconcileSelfIsolate, re_LeaseID := [],
                     re_Reason := ''disaster recovery freeze prohibits normal writer and VIP authorization'',
                     re_ValidUntil := time_add now (10 * second)\<rparr>
               in case RecoveryAuthorization clusterID instanceID now s of
                    None \<Rightarrow> response
                  | Some (task, expiresAt) \<Rightarrow> recoveryResponse evidence task expiresAt now response)"

section \<open>The authorisation tracker\<close>

record agentAuthorizationRecord =
  aa_leadershipEpoch :: uint64
  aa_validUntil :: go_time

type_synonym tracker = "((rid \<times> rid) \<times> agentAuthorizationRecord) list"

fun positiveAgentAuthorization :: "ReconcileAction \<Rightarrow> bool" where
  "positiveAgentAuthorization ReconcileSelfIsolate = False"
| "positiveAgentAuthorization (ReconcileOther _) = False"
| "positiveAgentAuthorization _ = True"

definition recordable :: "ReconcileResponse \<Rightarrow> uint64 \<Rightarrow> bool" where
  "recordable response leadershipEpoch \<longleftrightarrow> leadershipEpoch \<noteq> 0 \<and> ValidResourceID (re_ClusterID response) \<and> ValidResourceID (re_InstanceID response) \<and>
     ValidResourceID (re_LeaseID response) \<and> positiveAgentAuthorization (re_Action response) \<and> \<not> IsZero (re_ValidUntil response)"

definition Tracker_Record :: "ReconcileResponse \<Rightarrow> uint64 \<Rightarrow> tracker \<Rightarrow> tracker" where
  "Tracker_Record response leadershipEpoch records =
     (if \<not> recordable response leadershipEpoch then records
      else
        let key = (re_ClusterID response, re_InstanceID response);
            r = \<lparr>aa_leadershipEpoch = leadershipEpoch, aa_validUntil = re_ValidUntil response\<rparr>
        in case map_of records key of
             None \<Rightarrow> AList.update key r records
           | Some current \<Rightarrow>
               if aa_leadershipEpoch current > leadershipEpoch then records
               else if aa_leadershipEpoch current = leadershipEpoch \<and> \<not> aa_validUntil r > aa_validUntil current then records
               else AList.update key r records)"

definition AuthorizationUntil :: "rid \<Rightarrow> rid \<Rightarrow> uint64 \<Rightarrow> tracker \<Rightarrow> go_time option" where
  "AuthorizationUntil clusterID instanceID leadershipEpoch records =
     (if leadershipEpoch = 0 \<or> \<not> ValidResourceID clusterID \<or> \<not> ValidResourceID instanceID then None
      else case map_of records (clusterID, instanceID) of
        None \<Rightarrow> None
      | Some r \<Rightarrow> if aa_leadershipEpoch r \<noteq> leadershipEpoch \<or> IsZero (aa_validUntil r) then None else Some (aa_validUntil r))"

section \<open>The reconcile request\<close>

datatype reconcile_error = NoMajority authority_error | LeaderUnknown | LeadershipChanged

text \<open>
  The controller's part of one request after authentication. The leader's identity and the leadership epoch
  before and after the decision are answers of the consensus layer; epoch zero stands for a layer without
  epochs. A tracker may not be configured.
\<close>

definition agentReconcile :: "authority_error option \<Rightarrow> rid option \<Rightarrow> uint64 \<Rightarrow> uint64 \<Rightarrow> rid \<Rightarrow> rid \<Rightarrow> go_time \<Rightarrow> snapshot \<Rightarrow> tracker option \<Rightarrow>
    (reconcile_error + ReconcileResponse) \<times> tracker option" where
  "agentReconcile authority leader leadershipEpoch epochAfter clusterID instanceID now s agentAuthz =
     (case authority of
        Some e \<Rightarrow> (Inl (NoMajority e), agentAuthz)
      | None \<Rightarrow>
         (case leader of
            None \<Rightarrow> (Inl LeaderUnknown, agentAuthz)
          | Some controllerID \<Rightarrow>
              let response = reconcileDecision clusterID instanceID controllerID now s in
              if agentAuthz \<noteq> None \<and> leadershipEpoch > 0
              then if epochAfter \<noteq> leadershipEpoch then (Inl LeadershipChanged, agentAuthz)
                   else (Inr response, map_option (Tracker_Record response leadershipEpoch) agentAuthz)
              else (Inr response, agentAuthz)))"

section \<open>The lease behind an answer\<close>

lemma owner_lease_loop_Some:
  assumes "owner_lease_loop c e now rs sel = Some r"
  shows "r \<in> set rs \<and> leaseLive now (lr_Lease r) \<and> l_ClusterID (lr_Lease r) = c \<and> l_HAEndpointID (lr_Lease r) = e \<or>
    sel = Some r \<and> (\<forall>q \<in> set rs. leaseLive now (lr_Lease q) \<and> l_ClusterID (lr_Lease q) = c \<and> l_HAEndpointID (lr_Lease q) = e \<longrightarrow>
      l_ResourceID (lr_Lease r) = [])"
  using assms by (induction rs arbitrary: sel) (auto split: if_splits option.splits)

lemma owner_lease_loop_unique:
  assumes "owner_lease_loop c e now rs sel = Some r" "l_ResourceID (lr_Lease r) \<noteq> []" "\<forall>q \<in> set rs. l_ResourceID (lr_Lease q) \<noteq> []"
    "q \<in> set rs" "leaseLive now (lr_Lease q)" "l_ClusterID (lr_Lease q) = c" "l_HAEndpointID (lr_Lease q) = e"
  shows "q = r"
  using assms
proof (induction rs arbitrary: sel)
  case (Cons x rs)
  show ?case
  proof (cases "leaseLive now (lr_Lease x) \<and> l_ClusterID (lr_Lease x) = c \<and> l_HAEndpointID (lr_Lease x) = e")
    case True
    with Cons.prems(1) have l: "owner_lease_loop c e now rs (Some x) = Some r" by (auto split: if_splits)
    have "x = r"
      using owner_lease_loop_Some [OF l] Cons.IH [OF l] Cons.prems(2,3) l
    proof (elim disjE)
      assume "r \<in> set rs \<and> leaseLive now (lr_Lease r) \<and> l_ClusterID (lr_Lease r) = c \<and> l_HAEndpointID (lr_Lease r) = e"
      moreover have "\<not> (r \<in> set rs \<and> leaseLive now (lr_Lease r) \<and> l_ClusterID (lr_Lease r) = c \<and> l_HAEndpointID (lr_Lease r) = e)"
        if "owner_lease_loop c e now rs (Some x) = Some r" "l_ResourceID (lr_Lease x) \<noteq> []"
        using that by (induction rs) (auto split: if_splits)
      ultimately show ?thesis using l Cons.prems(3) by simp
    qed simp
    with Cons.prems l Cons.IH [OF l] show ?thesis by auto
  next
    case False
    with Cons.prems have "owner_lease_loop c e now rs sel = Some r" "q \<in> set rs" by auto
    with Cons show ?thesis by auto
  qed
qed simp

lemma activeOwnershipLease_Some:
  assumes "activeOwnershipLease c e now s = Some r"
  shows "r \<in> lease_records s \<and> leaseLive now (lr_Lease r) \<and> l_ClusterID (lr_Lease r) = c \<and> l_HAEndpointID (lr_Lease r) = e"
proof -
  from assms have l: "owner_lease_loop c e now (CoordinationLeases_list s) None = Some r"
    by (auto simp: activeOwnershipLease_def split: option.splits if_splits)
  from owner_lease_loop_Some [OF l] show ?thesis by auto
qed

text \<open>A lease found at one instant is the one found later, as long as the table does not change and one is still found.\<close>

lemma activeOwnershipLease_later:
  assumes "leases_wf s" "activeOwnershipLease c e t s = Some r" "activeOwnershipLease c e u s = Some q" "t \<le> u"
  shows "q = r"
proof -
  have ids: "\<forall>x \<in> set (CoordinationLeases_list s). l_ResourceID (lr_Lease x) \<noteq> []"
    using assms(1) by (auto simp: leases_wf_def leaseFieldsValid_def ValidResourceID_nonempty)
  have l: "owner_lease_loop c e t (CoordinationLeases_list s) None = Some r" "l_ResourceID (lr_Lease r) \<noteq> []"
    using assms(2) by (auto simp: activeOwnershipLease_def split: option.splits if_splits)
  note q = activeOwnershipLease_Some [OF assms(3)]
  show ?thesis by (rule owner_lease_loop_unique [OF l ids]) (use q assms(4) in auto)
qed

definition writerLease :: "rid \<Rightarrow> go_time \<Rightarrow> snapshot \<Rightarrow> Lease option" where
  "writerLease c now s = (case Server_activeVIP c s of None \<Rightarrow> None
     | Some (he, ep) \<Rightarrow> map_option lr_Lease (activeOwnershipLease c (he_ResourceID he) now s))"

lemma writerLease_Some:
  assumes "writerLease c now s = Some l"
  shows "l \<in> lease_set s \<and> leaseLive now l \<and> l_ClusterID l = c"
  using assms activeOwnershipLease_Some by (fastforce simp: writerLease_def lease_set_def split: option.splits)

lemma writerLease_later:
  assumes "leases_wf s" "writerLease c t s = Some l" "writerLease c u s = Some m" "t \<le> u"
  shows "m = l"
  using assms activeOwnershipLease_later by (fastforce simp: writerLease_def split: option.splits prod.splits)

lemma leaseEvidence_sel [simp]:
  "si_LocalInstanceID (leaseEvidence topo r now s ev) = si_LocalInstanceID ev" "si_Now (leaseEvidence topo r now s ev) = si_Now ev"
  "si_Lease (leaseEvidence topo r now s ev) = lr_Lease r"
  "si_TransitionSource (leaseEvidence topo r now s ev) = transitionSourceAuthorizes (si_LocalInstanceID ev) (lr_Lease r) s"
  by (simp_all add: leaseEvidence_def Let_def split: option.split)

lemma gatherEvidence_sel:
  "si_LocalInstanceID (gatherEvidence c i now s) = i" "si_Now (gatherEvidence c i now s) = now"
  "si_Lease (gatherEvidence c i now s) = (case writerLease c now s of None \<Rightarrow> zeroLease | Some l \<Rightarrow> l)"
  "si_TransitionSource (gatherEvidence c i now s) = (case writerLease c now s of None \<Rightarrow> False | Some l \<Rightarrow> transitionSourceAuthorizes i l s)"
  by (simp_all add: gatherEvidence_def writerLease_def Let_def split: option.split prod.split)

lemma EvaluateSelfIsolation_cases:
  assumes "sd_Action (EvaluateSelfIsolation ev) \<noteq> SelfIsolationReleaseAndReadOnly"
  shows "leaseLive (si_Now ev) (si_Lease ev) \<and> ValidResourceID (l_ResourceID (si_Lease ev)) \<and>
    (if sd_Action (EvaluateSelfIsolation ev) = SelfIsolationHoldTransitionSource
     then si_TransitionSource ev \<and> l_PreviousOwnerID (si_Lease ev) = si_LocalInstanceID ev
     else l_OwnerID (si_Lease ev) = si_LocalInstanceID ev)"
  using assms
  by (cases "si_TransitionSource ev"; cases "si_TransitionTarget ev"; cases "si_BootstrapTarget ev")
    (auto simp: EvaluateSelfIsolation_def isolate_def Let_def split: if_splits)

text \<open>Answers that let an instance act as writer or hold the address as the target of a transition.\<close>

fun writerAction :: "ReconcileAction \<Rightarrow> bool" where
  "writerAction ReconcileKeepVIP = True"
| "writerAction ReconcileTransitionTarget = True"
| "writerAction ReconcileBootstrapPrimary = True"
| "writerAction ReconcileRecoveryPrimary = True"
| "writerAction ReconcileRecoveryActivate = True"
| "writerAction _ = False"

definition recovering :: "rid \<Rightarrow> snapshot \<Rightarrow> bool" where
  "recovering c s \<longleftrightarrow> (\<exists>cluster. map_of (Clusters s) c = Some cluster \<and> DisasterRecoveryActive cluster)"

lemma RecoveryAuthorization_Some:
  assumes "RecoveryAuthorization c i now s = Some (task, expires)"
  shows "recoveryLeaseValid s task now \<and> now < expires \<and>
    (rt_PrimaryID task = i \<or> rt_Stage task = RecoveryRebuilding \<or> rt_Stage task = RecoveryFencing \<or> rt_Stage task = RecoveryInspecting)"
  using assms by (auto simp: RecoveryAuthorization_def recoveryLeaseValid_def Let_def split: option.splits if_splits)

lemma RecoveryAuthorization_task:
  assumes "RecoveryAuthorization c i t s = Some (task, ex)" "RecoveryAuthorization c j u s = Some (task', ex')"
  shows "task' = task"
  using assms by (auto simp: RecoveryAuthorization_def Let_def split: option.splits if_splits)

lemma reconcileDecision_normal:
  assumes "\<not> recovering c s"
  shows "reconcileDecision c i k now s = decisionResponse (gatherEvidence c i now s) (EvaluateSelfIsolation (gatherEvidence c i now s)) c k now"
  using assms by (auto simp: reconcileDecision_def recovering_def Let_def split: option.split)

lemma recoveryResponse_sel:
  assumes "recoveryResponse ev task ex now base = r" "re_ValidUntil base = now + 10 * second" "now < ex"
    and "rt_PrimaryID task = re_InstanceID base \<or> rt_Stage task = RecoveryRebuilding \<or> rt_Stage task = RecoveryFencing \<or> rt_Stage task = RecoveryInspecting"
  shows "re_RecoveryTaskID r = rt_ResourceID task" "re_LeaseID r = rt_LeaseID task" "now < re_ValidUntil r \<and> re_ValidUntil r \<le> now + 10 * second \<and> re_ValidUntil r \<le> ex"
    "re_Action r \<in> {ReconcileRecoveryPrimary, ReconcileRecoveryActivate} \<and> rt_PrimaryID task = re_InstanceID base \<or>
       re_Action r \<in> {ReconcileRecoveryReplica, ReconcileRecoveryPrepare}"
proof -
  show "re_RecoveryTaskID r = rt_ResourceID task" "re_LeaseID r = rt_LeaseID task" using assms(1) by (auto simp: recoveryResponse_def Let_def)
  show "now < re_ValidUntil r \<and> re_ValidUntil r \<le> now + 10 * second \<and> re_ValidUntil r \<le> ex"
    using assms(1-3) second_pos by (auto simp: recoveryResponse_def Let_def)
  show "re_Action r \<in> {ReconcileRecoveryPrimary, ReconcileRecoveryActivate} \<and> rt_PrimaryID task = re_InstanceID base \<or>
       re_Action r \<in> {ReconcileRecoveryReplica, ReconcileRecoveryPrepare}"
    using assms(1,4) by (cases "rt_PrimaryID task = re_InstanceID base"; cases "rt_Stage task") (auto simp: recoveryResponse_def Let_def split: if_splits)
qed

lemma reconcileDecision_recovering:
  assumes "recovering c s" "reconcileDecision c i k now s = r" "re_Action r \<noteq> ReconcileSelfIsolate"
  shows "\<exists>task expires. RecoveryAuthorization c i now s = Some (task, expires) \<and> re_RecoveryTaskID r = rt_ResourceID task \<and>
      re_LeaseID r = rt_LeaseID task \<and> now < re_ValidUntil r \<and> re_ValidUntil r \<le> now + 10 * second \<and> re_ValidUntil r \<le> expires \<and>
      (re_Action r \<in> {ReconcileRecoveryPrimary, ReconcileRecoveryActivate} \<and> rt_PrimaryID task = i \<or>
       re_Action r \<in> {ReconcileRecoveryReplica, ReconcileRecoveryPrepare})"
proof (cases "RecoveryAuthorization c i now s")
  case None
  with assms show ?thesis by (auto simp: reconcileDecision_def recovering_def Let_def)
next
  case (Some p)
  obtain task ex where p: "p = (task, ex)" by fastforce
  note a = RecoveryAuthorization_Some [OF Some [unfolded p]]
  have inst: "re_InstanceID (decisionResponse ev d c k now) = si_LocalInstanceID ev" for ev d
    by (simp add: decisionResponse_def Let_def)
  from assms(1,2) Some p obtain ev base where r: "recoveryResponse ev task ex now base = r" "re_ValidUntil base = now + 10 * second" "re_InstanceID base = i"
    by (auto simp: reconcileDecision_def recovering_def Let_def inst gatherEvidence_sel time_add_def)
  from recoveryResponse_sel [OF r(1,2)] a r(3) Some p show ?thesis by auto
qed

lemma reconcileDecision_leased:
  assumes "\<not> recovering c s" "reconcileDecision c i k now s = r" "re_Action r \<noteq> ReconcileSelfIsolate"
  shows "\<exists>l. writerLease c now s = Some l \<and> re_LeaseID r = l_ResourceID l \<and> re_ValidUntil r = min (now + 10 * second) (l_ExpiresAt l) \<and>
    ValidResourceID (l_ResourceID l) \<and>
    (if re_Action r = ReconcileTransitionSource then transitionSourceAuthorizes i l s else l_OwnerID l = i) \<and>
    re_Action r \<in> {ReconcileKeepVIP, ReconcileTransitionTarget, ReconcileTransitionSource, ReconcileBootstrapPrimary}"
proof -
  define ev where "ev = gatherEvidence c i now s"
  let ?d = "EvaluateSelfIsolation ev"
  have r: "r = decisionResponse ev ?d c k now" using assms(1,2) by (simp add: reconcileDecision_normal ev_def)
  have a: "sd_Action ?d \<noteq> SelfIsolationReleaseAndReadOnly"
    using assms(3) by (auto simp: r decisionResponse_def Let_def split: if_splits)
  note e = EvaluateSelfIsolation_cases [OF a]
  have w: "writerLease c now s = Some (si_Lease ev)"
    using e by (auto simp: ev_def gatherEvidence_sel zeroLease_def split: option.splits)
  have src: "si_TransitionSource ev = transitionSourceAuthorizes i (si_Lease ev) s" "si_LocalInstanceID ev = i"
    using w by (auto simp: ev_def gatherEvidence_sel split: option.splits)
  from a consider (keep) "sd_Action ?d = SelfIsolationKeepVIP" | (hold) "sd_Action ?d = SelfIsolationHoldTransitionSource"
    | (boot) "sd_Action ?d = SelfIsolationBootstrapPrimary" by (cases "sd_Action ?d") auto
  then have act: "(if re_Action r = ReconcileTransitionSource then transitionSourceAuthorizes i (si_Lease ev) s else l_OwnerID (si_Lease ev) = i) \<and>
    re_Action r \<in> {ReconcileKeepVIP, ReconcileTransitionTarget, ReconcileTransitionSource, ReconcileBootstrapPrimary}"
    using e src by cases (simp_all add: r decisionResponse_def Let_def)
  have "sd_Action ?d = SelfIsolationKeepVIP \<or> sd_Action ?d = SelfIsolationHoldTransitionSource \<or> sd_Action ?d = SelfIsolationBootstrapPrimary"
    using a by (cases "sd_Action ?d") auto
  then have "re_LeaseID r = l_ResourceID (si_Lease ev)" "re_ValidUntil r = min (now + 10 * second) (l_ExpiresAt (si_Lease ev))"
    by (simp_all add: r decisionResponse_def Let_def time_add_def min_def)
  with w e act show ?thesis by blast
qed

section \<open>Properties\<close>


text \<open>
  (C34) An answer authorises for a short time and only what the repository holds. A positive answer is valid
  beyond now, for at most ten seconds. Outside disaster recovery it carries a live lease of the cluster and ends with
  it; the instance owns that lease, or it is the source of a switchover that is executing and whose
  target owns the lease. During disaster recovery no normal authorisation is given, only one
  that carries the recovery's task and lock and ends with the lock.
\<close>

theorem reconcileDecision_bounded:
  assumes "reconcileDecision c i k now s = r" "positiveAgentAuthorization (re_Action r)"
  shows "now < re_ValidUntil r \<and> re_ValidUntil r \<le> now + 10 * second \<and>
    (if recovering c s
     then re_Action r \<in> {ReconcileRecoveryPrimary, ReconcileRecoveryActivate, ReconcileRecoveryReplica, ReconcileRecoveryPrepare} \<and>
       (\<exists>task expires. RecoveryAuthorization c i now s = Some (task, expires) \<and> re_RecoveryTaskID r = rt_ResourceID task \<and>
          re_LeaseID r = rt_LeaseID task \<and> re_ValidUntil r \<le> expires)
     else \<exists>l \<in> lease_set s. leaseLive now l \<and> l_ClusterID l = c \<and> re_LeaseID r = l_ResourceID l \<and> re_ValidUntil r \<le> l_ExpiresAt l \<and>
       (if re_Action r = ReconcileTransitionSource
        then l_PreviousOwnerID l = i \<and> (\<exists>op. map_of (Operations s) (l_OperationID l) = Some op \<and> or_Status op = OperationRunning \<and>
               op_Kind (or_Operation op) = OperationSwitchover \<and> or_TargetID op = l_OwnerID l)
        else l_OwnerID l = i))"
proof (cases "recovering c s")
  case True
  have "re_Action r \<noteq> ReconcileSelfIsolate" using assms(2) by auto
  from reconcileDecision_recovering [OF True assms(1) this] True show ?thesis by auto
next
  case False
  have "re_Action r \<noteq> ReconcileSelfIsolate" using assms(2) by auto
  from reconcileDecision_leased [OF False assms(1) this] obtain l where
    l: "writerLease c now s = Some l" "re_LeaseID r = l_ResourceID l" "re_ValidUntil r = min (now + 10 * second) (l_ExpiresAt l)"
      "if re_Action r = ReconcileTransitionSource then transitionSourceAuthorizes i l s else l_OwnerID l = i"
    by blast
  have who: "l_PreviousOwnerID l = i \<and> (\<exists>op. map_of (Operations s) (l_OperationID l) = Some op \<and> or_Status op = OperationRunning \<and>
             op_Kind (or_Operation op) = OperationSwitchover \<and> or_TargetID op = l_OwnerID l)" if "transitionSourceAuthorizes i l s"
    using that by (auto simp: transitionSourceAuthorizes_def repository_Operation_def runningTransition_def split: if_splits option.splits)
  note live = writerLease_Some [OF l(1)]
  have "re_ValidUntil r \<le> l_ExpiresAt l" "re_ValidUntil r \<le> now + 10 * second" "now < re_ValidUntil r"
    using l(3) live second_pos by auto
  moreover have "if re_Action r = ReconcileTransitionSource
        then l_PreviousOwnerID l = i \<and> (\<exists>op. map_of (Operations s) (l_OperationID l) = Some op \<and> or_Status op = OperationRunning \<and>
               op_Kind (or_Operation op) = OperationSwitchover \<and> or_TargetID op = l_OwnerID l)
        else l_OwnerID l = i"
    using l(4) who by (cases "re_Action r = ReconcileTransitionSource") simp_all
  ultimately show ?thesis using False live l(2) by (simp only: if_False) blast
qed

section \<open>The tracker as a running maximum\<close>

definition tracked :: "(ReconcileResponse \<times> uint64) list \<Rightarrow> tracker" where
  "tracked hist = fold (\<lambda>(r, e). Tracker_Record r e) hist []"

text \<open>What was granted to an instance: the epoch and the end of every answer worth recording.\<close>

definition granted :: "rid \<Rightarrow> rid \<Rightarrow> (ReconcileResponse \<times> uint64) list \<Rightarrow> (uint64 \<times> go_time) set" where
  "granted c i hist = {(e, re_ValidUntil r) | r e. (r, e) \<in> set hist \<and> recordable r e \<and> re_ClusterID r = c \<and> re_InstanceID r = i}"

definition latest :: "(uint64 \<times> go_time) set \<Rightarrow> uint64 \<times> go_time \<Rightarrow> bool" where
  "latest S p \<longleftrightarrow> p \<in> S \<and> (\<forall>q \<in> S. fst q < fst p \<or> fst q = fst p \<and> snd q \<le> snd p)"

lemma granted_simps [simp]:
  "granted c i [] = {}"
  "granted c i (hist @ [(r, e)]) = (if recordable r e \<and> re_ClusterID r = c \<and> re_InstanceID r = i then insert (e, re_ValidUntil r) (granted c i hist) else granted c i hist)"
  by (auto simp: granted_def)

lemma latest_insert:
  "latest S p \<Longrightarrow> latest (insert q S) (if fst q < fst p \<or> fst q = fst p \<and> snd q \<le> snd p then p else q)"
  by (fastforce simp: latest_def)

lemma latest_unique:
  assumes "latest S (e, v)" "latest S (e', v')"
  shows "e = e' \<and> v = v'"
proof -
  have "(e', v') \<in> S" "(e, v) \<in> S" using assms by (simp_all add: latest_def)
  then have "e' < e \<or> e' = e \<and> v' \<le> v" "e < e' \<or> e = e' \<and> v \<le> v'" using assms unfolding latest_def by fastforce+
  then show ?thesis by auto
qed

lemma Tracker_Record_lookup:
  "map_of (Tracker_Record r e records) (c, i) =
     (if recordable r e \<and> re_ClusterID r = c \<and> re_InstanceID r = i
      then Some (case map_of records (c, i) of
          None \<Rightarrow> \<lparr>aa_leadershipEpoch = e, aa_validUntil = re_ValidUntil r\<rparr>
        | Some cur \<Rightarrow> if e < aa_leadershipEpoch cur \<or> e = aa_leadershipEpoch cur \<and> re_ValidUntil r \<le> aa_validUntil cur then cur
            else \<lparr>aa_leadershipEpoch = e, aa_validUntil = re_ValidUntil r\<rparr>)
      else map_of records (c, i))"
  by (auto simp: Tracker_Record_def Let_def update_conv' split: option.splits)

lemma tracked_latest:
  "(case map_of (tracked hist) (c, i) of None \<Rightarrow> granted c i hist = {} | Some r \<Rightarrow> latest (granted c i hist) (aa_leadershipEpoch r, aa_validUntil r))"
proof (induction hist rule: rev_induct)
  case (snoc x hist)
  obtain r e where x: "x = (r, e)" by fastforce
  have t: "tracked (hist @ [x]) = Tracker_Record r e (tracked hist)" by (simp add: tracked_def x)
  show ?case
  proof (cases "recordable r e \<and> re_ClusterID r = c \<and> re_InstanceID r = i")
    case True
    show ?thesis
    proof (cases "map_of (tracked hist) (c, i)")
      case None
      with snoc True show ?thesis unfolding t by (simp add: Tracker_Record_lookup x latest_def)
    next
      case (Some cur)
      with snoc have "latest (granted c i hist) (aa_leadershipEpoch cur, aa_validUntil cur)" by simp
      from latest_insert [OF this, of "(e, re_ValidUntil r)"] Some True show ?thesis
        unfolding t by (cases "e < aa_leadershipEpoch cur \<or> e = aa_leadershipEpoch cur \<and> re_ValidUntil r \<le> aa_validUntil cur")
          (auto simp: Tracker_Record_lookup x)
    qed
  next
    case False
    then have "map_of (Tracker_Record r e (tracked hist)) (c, i) = map_of (tracked hist) (c, i)" "granted c i (hist @ [x]) = granted c i hist"
      by (simp_all only: Tracker_Record_lookup x granted_simps if_False)
    with snoc show ?thesis unfolding t by (simp cong: option.case_cong)
  qed
qed (simp add: tracked_def)

lemma tracked_until:
  assumes "AuthorizationUntil c i e (tracked hist) = Some v"
  shows "latest (granted c i hist) (e, v)"
  using assms tracked_latest [where hist = hist and c = c and i = i] by (auto simp: AuthorizationUntil_def split: option.splits if_splits)

text \<open>
  (C35) The tracker is a running maximum. After any sequence of answers it reports, for an instance and a
  leadership epoch, exactly the latest end of validity among the answers recorded for that
  instance in that epoch, provided no answer of a later epoch was recorded; otherwise nothing.
\<close>

theorem AuthorizationUntil_latest:
  "AuthorizationUntil c i e (tracked hist) = Some v \<longleftrightarrow> latest (granted c i hist) (e, v)"
proof
  assume l: "latest (granted c i hist) (e, v)"
  then have ok: "e \<noteq> 0 \<and> ValidResourceID c \<and> ValidResourceID i \<and> \<not> IsZero v" "granted c i hist \<noteq> {}"
    by (auto simp: latest_def granted_def recordable_def)
  with tracked_latest [where hist = hist and c = c and i = i] obtain r where
    r: "map_of (tracked hist) (c, i) = Some r" "latest (granted c i hist) (aa_leadershipEpoch r, aa_validUntil r)"
    by (auto split: option.splits)
  with latest_unique [OF r(2) l] ok show "AuthorizationUntil c i e (tracked hist) = Some v" by (simp add: AuthorizationUntil_def)
qed (rule tracked_until)

section \<open>Sample answers\<close>

definition sampleOwnerLease :: Lease where
  "sampleOwnerLease = \<lparr>l_ResourceID = sampleID (CHR ''6''), l_ClusterID = sampleID (CHR ''1''), l_HAEndpointID = sampleID (CHR ''2''),
     l_OperationID = sampleID (CHR ''2''), l_OwnerID = sampleID (CHR ''5''), l_PreviousOwnerID = [], l_ExpiresAt = 30, l_Active = True\<rparr>"

definition sampleLeased :: snapshot where
  "sampleLeased = sampleKept\<lparr>CoordinationLeases := [(sampleID (CHR ''6''), \<lparr>lr_Lease = sampleOwnerLease, lr_CreatedAt = 1, lr_UpdatedAt = 1\<rparr>)]\<rparr>"

lemma sampleLeased_wf: "leases_wf sampleLeased"
  by (simp add: leases_wf_def lease_records_def sampleLeased_def sampleOwnerLease_def keyed_by_def leaseFieldsValid_def IsZero_def)

lemma sample_vip: "Server_activeVIP (sampleID (CHR ''1'')) sampleLeased = Some (sampleHA, sampleVIP)"
  by (simp add: Server_activeVIP_def repository_HAEndpoints_def repository_Endpoint_def sorted_values_def sampleLeased_def sampleKept_def sampleInventory_def
      sampleHA_def sampleVIP_def)

lemma sample_writer_lease: "activeOwnershipLease (sampleID (CHR ''1'')) (he_ResourceID sampleHA) 5 sampleLeased = Some \<lparr>lr_Lease = sampleOwnerLease, lr_CreatedAt = 1, lr_UpdatedAt = 1\<rparr>"
  by (simp add: activeOwnershipLease_def CoordinationLeases_list_def sorted_values_def sampleLeased_def sampleOwnerLease_def sampleHA_def)

lemma sample_no_operations: "Operations sampleLeased = []" "map_of (Clusters sampleLeased) (sampleID (CHR ''1'')) = Some sampleCluster"
  by (simp_all add: sampleLeased_def sampleKept_def sampleInventory_def sampleRepo_def emptySnapshot_def)

lemma sample_seen:
  "repository_TopologySnapshot (sampleID (CHR ''1'')) sampleLeased = Some (sampleTopology writingPrimary)"
  "topologyPrimaryID (sampleTopology writingPrimary) = sampleID (CHR ''4'')"
proof -
  have "repository_TopologySnapshot c sampleLeased = repository_TopologySnapshot c sampleKept" for c
    by (simp add: repository_TopologySnapshot_def sampleLeased_def cong: option.case_cong)
  then show "repository_TopologySnapshot (sampleID (CHR ''1'')) sampleLeased = Some (sampleTopology writingPrimary)"
    by (simp add: sample_topology)
  show "topologyPrimaryID (sampleTopology writingPrimary) = sampleID (CHR ''4'')"
    by (simp add: topologyPrimaryID_def sampleTopology_def writingPrimary_def sampleReplica_def sampleInstance_def)
qed

lemma sample_evidence:
  fixes ev
  defines "ev \<equiv> gatherEvidence (sampleID (CHR ''1'')) (sampleID (CHR ''5'')) 5 sampleLeased"
  shows "si_LocalInstanceID ev = sampleID (CHR ''5'')" "si_Lease ev = sampleOwnerLease" "si_Now ev = 5" "\<not> si_TransitionSource ev" "\<not> si_TransitionTarget ev"
    "\<not> si_BootstrapTarget ev" "si_CanonicalOwnerID ev = sampleID (CHR ''5'')" "si_EndpointOwnerID ev = sampleID (CHR ''5'')" "si_StableTarget ev"
proof -
  have v: "validBootstrapLeaseRecord \<lparr>lr_Lease = sampleOwnerLease, lr_CreatedAt = 1, lr_UpdatedAt = 1\<rparr> 5" by code_simp
  have a: "\<not> transitionAuthorizes i l sampleLeased" "\<not> transitionSourceAuthorizes i l sampleLeased" for i l
    by (simp_all add: transitionAuthorizes_def transitionSourceAuthorizes_def repository_Operation_def repository_Operations_def sample_no_operations)
  have o: "he_OwnerID sampleHA = sampleID (CHR ''5'')" "ep_InstanceID sampleVIP = sampleID (CHR ''5'')" "l_OwnerID sampleOwnerLease = sampleID (CHR ''5'')"
    "l_OperationID sampleOwnerLease = l_HAEndpointID sampleOwnerLease"
    by (simp_all add: sampleHA_def sampleVIP_def sampleOwnerLease_def)
  show "si_LocalInstanceID ev = sampleID (CHR ''5'')" "si_Lease ev = sampleOwnerLease" "si_Now ev = 5" "\<not> si_TransitionSource ev" "\<not> si_TransitionTarget ev"
    "\<not> si_BootstrapTarget ev" "si_CanonicalOwnerID ev = sampleID (CHR ''5'')" "si_EndpointOwnerID ev = sampleID (CHR ''5'')" "si_StableTarget ev"
    by (simp_all add: ev_def gatherEvidence_def sample_vip sample_seen sample_writer_lease leaseEvidence_def a v o Let_def)
qed

lemma sample_keeps:
  "re_Action (reconcileDecision (sampleID (CHR ''1'')) (sampleID (CHR ''5'')) (sampleID (CHR ''3'')) 5 sampleLeased) = ReconcileKeepVIP"
proof -
  have l: "l_Active sampleOwnerLease" "ValidResourceID (l_ResourceID sampleOwnerLease)" "5 < l_ExpiresAt sampleOwnerLease" "l_OwnerID sampleOwnerLease = sampleID (CHR ''5'')"
    "l_OperationID sampleOwnerLease = l_HAEndpointID sampleOwnerLease" "ValidResourceID (l_HAEndpointID sampleOwnerLease)"
    by (simp_all add: sampleOwnerLease_def)
  have "\<not> DisasterRecoveryActive sampleCluster" by (simp add: DisasterRecoveryActive_def sampleCluster_def)
  then show ?thesis
    by (simp add: reconcileDecision_def sample_no_operations decisionResponse_def EvaluateSelfIsolation_def sample_evidence l Let_def)
qed


theorem reconcileDecision_bounded_witness:
  "\<exists>r l. reconcileDecision (sampleID (CHR ''1'')) (sampleID (CHR ''5'')) (sampleID (CHR ''3'')) 5 sampleLeased = r \<and> re_Action r = ReconcileKeepVIP \<and>
     5 < re_ValidUntil r \<and> l \<in> lease_set sampleLeased \<and> re_ValidUntil r \<le> l_ExpiresAt l \<and> l_OwnerID l = sampleID (CHR ''5'')"
proof -
  have "\<not> recovering (sampleID (CHR ''1'')) sampleLeased"
    by (simp add: recovering_def sample_no_operations) (simp add: DisasterRecoveryActive_def sampleCluster_def)
  with reconcileDecision_bounded [OF refl, of "sampleID (CHR ''1'')" "sampleID (CHR ''5'')" "sampleID (CHR ''3'')" 5 sampleLeased] sample_keeps
  show ?thesis by auto
qed

end
