(* ===== verification/Failover_Safety.thy ===== *)
theory Failover_Safety
  imports Agent_Decisions Failure_Window
begin

text \<open>
  Fencing the old primary before a failover (\<^verbatim>\<open>internal/coordination/failover_safety.go\<close>). The leader
  takes the transition lease for the target, asks the old primary's agent to isolate itself or an
  external fencer to cut it off, and, when neither answers, waits until every
  authorisation the old primary may still hold has expired, renewing the lease meanwhile.

  The provider's collaborators are Go interfaces. \<open>fence_env\<close> gives their behaviour: it is indexed by the
  number of the call, so every sequence of answers, delays and changes of the
  repository by others between two calls is an instance of it. A call takes the time \<open>fe_delay\<close>; the lease store works on the
  repository as the others have left it. A wait lasts at least as long as asked for, or fails when the context ends.
\<close>

section \<open>The world of a failover\<close>

record agent_reply =
  ar_StatusOK :: bool
  ar_OwnsVIP :: "bool option"
  ar_ReadOnly :: "bool option"
  ar_SuperReadOnly :: "bool option"
  ar_ServiceRunning :: "bool option"
  ar_DatabaseReachable :: "bool option"
  ar_RestartReadOnly :: "bool option"
  ar_PersistedReadOnly :: "bool option"

record fence_env =
  fe_delay :: "nat \<Rightarrow> nat"
  fe_others :: "nat \<Rightarrow> snapshot \<Rightarrow> snapshot"
  fe_authority :: "nat \<Rightarrow> authority_error option"
  fe_commit :: "nat \<Rightarrow> snapshot \<Rightarrow> snapshot \<Rightarrow> commit_outcome"
  fe_fresh :: "nat \<Rightarrow> rid"
  fe_done :: "nat \<Rightarrow> string option"
  fe_failures :: "nat \<Rightarrow> FailureWindow"
  fe_tracker :: "nat \<Rightarrow> tracker"
  fe_epoch :: "nat \<Rightarrow> uint64"
  fe_agent :: "nat \<Rightarrow> string \<Rightarrow> rid \<Rightarrow> string + agent_reply"
  fe_fence :: "nat \<Rightarrow> rid \<Rightarrow> string option"
  fe_fenced :: "nat \<Rightarrow> rid \<Rightarrow> string + bool"

record fence_world =
  fw_calls :: nat
  fw_clock :: go_time
  fw_repo :: snapshot

definition pass :: "fence_env \<Rightarrow> fence_world \<Rightarrow> fence_world" where
  "pass env w = \<lparr>fw_calls = fw_calls w + 1, fw_clock = fw_clock w + int (fe_delay env (fw_calls w)), fw_repo = fe_others env (fw_calls w) (fw_repo w)\<rparr>"

definition call_env :: "fence_env \<Rightarrow> fence_world \<Rightarrow> lease_env" where
  "call_env env w = \<lparr>le_authority = fe_authority env (fw_calls w), le_now = fw_clock w,
     le_repo = \<lparr>env_now = fw_clock w, env_commit = fe_commit env (fw_calls w)\<rparr>\<rparr>"

definition call_authority :: "fence_env \<Rightarrow> fence_world \<Rightarrow> authority_error option \<times> fence_world" where
  "call_authority env w = (fe_authority env (fw_calls w), pass env w)"

definition call_acquire :: "(lease_env, snapshot) LeaseStore \<Rightarrow> fence_env \<Rightarrow> LeaseRequest \<Rightarrow> fence_world \<Rightarrow> (lease_error + Lease) \<times> fence_world" where
  "call_acquire st env request w =
     (let w = pass env w; (r, s') = ls_Acquire st (call_env env w) request (fe_fresh env (fw_calls w)) (fw_repo w) in (r, w\<lparr>fw_repo := s'\<rparr>))"

definition call_validate :: "(lease_env, snapshot) LeaseStore \<Rightarrow> fence_env \<Rightarrow> Lease \<Rightarrow> fence_world \<Rightarrow> lease_error option \<times> fence_world" where
  "call_validate st env lease w = (let w = pass env w in (ls_Validate st (call_env env w) lease (fw_repo w), w))"

definition call_current :: "(lease_env, snapshot) LeaseStore \<Rightarrow> fence_env \<Rightarrow> rid \<Rightarrow> rid \<Rightarrow> fence_world \<Rightarrow> (lease_error + Lease) \<times> fence_world" where
  "call_current st env clusterID endpointID w =
     (let w = pass env w; (r, s') = ls_Current st (call_env env w) clusterID endpointID (fw_repo w) in (r, w\<lparr>fw_repo := s'\<rparr>))"

definition call_wait :: "fence_env \<Rightarrow> duration \<Rightarrow> fence_world \<Rightarrow> string option \<times> fence_world" where
  "call_wait env duration w =
     (case fe_done env (fw_calls w) of
        Some e \<Rightarrow> (Some e, pass env w)
      | None \<Rightarrow> (None, (pass env w)\<lparr>fw_clock := fw_clock (pass env w) + duration\<rparr>))"

definition call_agent :: "fence_env \<Rightarrow> string \<Rightarrow> rid \<Rightarrow> fence_world \<Rightarrow> (string + agent_reply) \<times> fence_world" where
  "call_agent env command leaseID w = (fe_agent env (fw_calls w) command leaseID, pass env w)"

section \<open>The provider\<close>

record ResolvedOperation =
  ro_OperationID :: rid
  ro_AutomaticFailureIncidentAt :: go_time
  ro_Cluster :: DatabaseCluster
  ro_Primary :: DatabaseInstance
  ro_Target :: DatabaseInstance
  ro_VerifiedIsolatedSourceID :: rid

record GuardedFailoverSafety =
  gs_transport :: bool
  gs_secret :: string
  gs_external :: "(rid \<Rightarrow> bool) option"
  gs_agentQuorum :: bool
  gs_agentQuorumGrace :: duration
  gs_authorizations :: bool

definition WithAgentQuorumFencing :: "duration \<Rightarrow> GuardedFailoverSafety \<Rightarrow> GuardedFailoverSafety" where
  "WithAgentQuorumFencing grace provider =
     provider\<lparr>gs_agentQuorum := True, gs_agentQuorumGrace := (if grace < 15 * second then 15 * second else grace)\<rparr>"

definition NewGuardedFailoverSafety :: "bool \<Rightarrow> string \<Rightarrow> GuardedFailoverSafety" where
  "NewGuardedFailoverSafety transport secret = \<lparr>gs_transport = transport, gs_secret = TrimSpace secret, gs_external = None, gs_agentQuorum = False,
     gs_agentQuorumGrace = 15 * second, gs_authorizations = False\<rparr>"

definition configured :: "GuardedFailoverSafety \<Rightarrow> bool" where
  "configured provider \<longleftrightarrow> gs_transport provider \<and> gs_secret provider \<noteq> [] \<or> gs_external provider \<noteq> None"

definition externalAvailable :: "GuardedFailoverSafety \<Rightarrow> rid \<Rightarrow> bool" where
  "externalAvailable provider instanceID = (case gs_external provider of None \<Rightarrow> False | Some available \<Rightarrow> available instanceID)"

definition stableFailure :: "FailureWindow \<Rightarrow> ResolvedOperation \<Rightarrow> go_time \<Rightarrow> bool" where
  "stableFailure failures resolved now =
     (if IsZero (ro_AutomaticFailureIncidentAt resolved) then Stable failures (cl_ResourceID (ro_Cluster resolved)) now
      else StableIncident failures (cl_ResourceID (ro_Cluster resolved)) (ro_AutomaticFailureIncidentAt resolved))"

section \<open>The writer endpoint of a cluster\<close>

definition endpointProviderKind :: "HAEndpoint \<Rightarrow> Endpoint \<Rightarrow> EndpointProviderKind" where
  "endpointProviderKind resource endpoint =
     (if he_Provider resource = ProviderNone \<and> he_Kind resource = EndpointVIP \<and> ep_Kind endpoint = EndpointVIP
      then EndpointProviderLinuxVIP else he_Provider resource)"

definition writerEndpoint :: "HAEndpoint \<Rightarrow> Endpoint \<Rightarrow> bool" where
  "writerEndpoint resource candidate =
     (let kind = endpointProviderKind resource candidate in
      if kind = EndpointProviderLinuxVIP \<and> (he_Kind resource \<noteq> EndpointVIP \<or> ep_Kind candidate \<noteq> EndpointVIP) then False
      else if kind = EndpointProviderKubernetesService \<and> (he_Kind resource \<noteq> EndpointService \<or> ep_Kind candidate \<noteq> EndpointService) then False
      else EndpointProviderKind_Valid kind)"

fun failover_vip_loop :: "snapshot \<Rightarrow> HAEndpoint list \<Rightarrow> (HAEndpoint \<times> Endpoint) list \<Rightarrow> (HAEndpoint \<times> Endpoint) list" where
  "failover_vip_loop s [] found = found"
| "failover_vip_loop s (resource # resources) found =
     (case repository_Endpoint (he_EndpointID resource) s of
        None \<Rightarrow> failover_vip_loop s resources found
      | Some candidate \<Rightarrow>
          if \<not> ep_Active candidate \<or> \<not> writerEndpoint resource candidate then failover_vip_loop s resources found
          else failover_vip_loop s resources ((resource, candidate) # found))"

datatype fence_error =
  FenceNotConfigured | FenceAuthority authority_error | EvidenceExpired | WriterEndpointRequired | LinuxVIPIncomplete | KubernetesIncomplete
  | FenceAcquire lease_error | AgentUnreachable string | AgentBlocked | IsolationUnavailable | ExternalFenceFailed string | ExternalStatusFailed string
  | ExternalNotIsolated | FenceWait string | FenceRevalidate authority_error | FenceRenew lease_error | FenceIdentityChanged | FenceValidate lease_error
  | FenceCurrent lease_error | LeaseNotTransition | StillReachable string | RestartWritable | ServiceUnreachable | FenceStatusUnavailable string | ProbeUnavailable

definition activeVIP :: "rid \<Rightarrow> snapshot \<Rightarrow> fence_error + HAEndpoint \<times> Endpoint" where
  "activeVIP clusterID s =
     (case failover_vip_loop s (repository_HAEndpoints clusterID s) [] of
        [(resource, endpoint)] \<Rightarrow>
          if endpointProviderKind resource endpoint = EndpointProviderLinuxVIP \<and>
             (TrimSpace (ep_IPAddress endpoint) = [] \<or> TrimSpace (he_Interface resource) = [] \<or> he_Prefix resource < 1 \<or> he_Prefix resource > 32)
          then Inl LinuxVIPIncomplete
          else if endpointProviderKind resource endpoint = EndpointProviderKubernetesService \<and>
             (TrimSpace (ep_Hostname endpoint) = [] \<or> ep_Port endpoint < 1 \<or> ep_Port endpoint > 65535 \<or> TrimSpace (he_ProviderRef resource) = [])
          then Inl KubernetesIncomplete
          else Inr (resource, endpoint)
      | _ \<Rightarrow> Inl WriterEndpointRequired)"

definition agentPath :: "GuardedFailoverSafety \<Rightarrow> HAEndpoint \<times> Endpoint \<Rightarrow> bool" where
  "agentPath provider resource \<longleftrightarrow> endpointProviderKind (fst resource) (snd resource) = EndpointProviderLinuxVIP \<and> gs_transport provider \<and> gs_secret provider \<noteq> []"

definition agentQuorumEnabled :: "GuardedFailoverSafety \<Rightarrow> ResolvedOperation \<Rightarrow> snapshot \<Rightarrow> bool" where
  "agentQuorumEnabled provider resolved s \<longleftrightarrow>
     gs_agentQuorum provider \<and> (cl_Engine (ro_Cluster resolved) = EngineMySQL \<or> cl_Engine (ro_Cluster resolved) = EnginePostgreSQL) \<and>
     (case activeVIP (cl_ResourceID (ro_Cluster resolved)) s of Inl _ \<Rightarrow> False | Inr resource \<Rightarrow> agentPath provider resource)"

definition transitionLeaseTTL :: "GuardedFailoverSafety \<Rightarrow> ResolvedOperation \<Rightarrow> snapshot \<Rightarrow> duration" where
  "transitionLeaseTTL provider resolved s = (if \<not> agentQuorumEnabled provider resolved s then 30 * second else minute)"

section \<open>Is the old primary isolated?\<close>

definition bool_text :: "bool \<Rightarrow> string" where
  "bool_text b = (if b then ''true'' else ''false'')"

record isolationProbe =
  ip_isolated :: bool
  ip_method :: string

text \<open>The verdict on the two answers of the agent; \<open>None\<close> when they do not decide.\<close>

definition judgeIsolation :: "Engine \<Rightarrow> bool \<Rightarrow> agent_reply \<Rightarrow> (fence_error + isolationProbe) option" where
  "judgeIsolation engine ownsVIP role =
     (if engine = EnginePostgreSQL
      then case ar_ServiceRunning role of
          Some running \<Rightarrow> if ar_StatusOK role then Some (Inr \<lparr>ip_isolated = (\<not> ownsVIP \<and> \<not> running),
              ip_method = ''restricted PostgreSQL agent (owns_vip='' @ bool_text ownsVIP @ '' service_running='' @ bool_text running @ '')''\<rparr>) else None
        | None \<Rightarrow> None
      else if \<not> ar_StatusOK role then None
      else case (ar_ReadOnly role, ar_SuperReadOnly role) of
          (Some readOnly, Some superReadOnly) \<Rightarrow>
            (case (ar_DatabaseReachable role, ar_ServiceRunning role, ar_RestartReadOnly role, ar_PersistedReadOnly role) of
               (Some reachable, Some running, Some restartReadOnly, Some persisted) \<Rightarrow>
                 if \<not> restartReadOnly then Some (Inl RestartWritable)
                 else if \<not> reachable
                 then if running then Some (Inl ServiceUnreachable)
                      else Some (Inr \<lparr>ip_isolated = (\<not> ownsVIP \<and> persisted),
                        ip_method = ''restricted agent durable restart fence (owns_vip='' @ bool_text ownsVIP @ '' service_running='' @ bool_text running @
                          '' database_reachable='' @ bool_text reachable @ '' restart_read_only='' @ bool_text restartReadOnly @
                          '' persisted_read_only='' @ bool_text persisted @ '')''\<rparr>)
                 else Some (Inr \<lparr>ip_isolated = (\<not> ownsVIP \<and> readOnly \<and> superReadOnly \<and> persisted),
                        ip_method = ''restricted agent durable restart fence (owns_vip='' @ bool_text ownsVIP @ '' service_running='' @ bool_text running @
                          '' database_reachable='' @ bool_text reachable @ '' read_only='' @ bool_text readOnly @ '' super_read_only='' @ bool_text superReadOnly @
                          '' restart_read_only='' @ bool_text restartReadOnly @ '' persisted_read_only='' @ bool_text persisted @ '')''\<rparr>)
             | _ \<Rightarrow> Some (Inr \<lparr>ip_isolated = (\<not> ownsVIP \<and> readOnly \<and> superReadOnly),
                        ip_method = ''restricted agent (owns_vip='' @ bool_text ownsVIP @ '' read_only='' @ bool_text readOnly @
                          '' super_read_only='' @ bool_text superReadOnly @ '')''\<rparr>))
        | _ \<Rightarrow> None)"

definition probeAgent :: "GuardedFailoverSafety \<Rightarrow> fence_env \<Rightarrow> ResolvedOperation \<Rightarrow> fence_world \<Rightarrow> (fence_error + isolationProbe) option \<times> fence_world" where
  "probeAgent provider env resolved w =
     (case activeVIP (cl_ResourceID (ro_Cluster resolved)) (fw_repo w) of
        Inl _ \<Rightarrow> (None, w)
      | Inr resource \<Rightarrow>
          if \<not> agentPath provider resource then (None, w)
          else case call_agent env ''vip_status'' [] w of
            (Inr vip, w1) \<Rightarrow>
              (case (ar_StatusOK vip, ar_OwnsVIP vip) of
                 (True, Some ownsVIP) \<Rightarrow>
                   (let engine = cl_Engine (ro_Cluster resolved) in
                    case call_agent env (if engine = EnginePostgreSQL then ''postgresql_status'' else ''role_status'') [] w1 of
                      (Inr role, w2) \<Rightarrow> (judgeIsolation engine ownsVIP role, w2)
                    | (Inl _, w2) \<Rightarrow> (None, w2))
               | _ \<Rightarrow> (None, w1))
          | (Inl _, w1) \<Rightarrow> (None, w1))"

definition probeIsolation :: "GuardedFailoverSafety \<Rightarrow> fence_env \<Rightarrow> ResolvedOperation \<Rightarrow> fence_world \<Rightarrow> (fence_error + isolationProbe) \<times> fence_world" where
  "probeIsolation provider env resolved w =
     (case probeAgent provider env resolved w of
        (Some verdict, w1) \<Rightarrow> (verdict, w1)
      | (None, w1) \<Rightarrow>
          if externalAvailable provider (di_ResourceID (ro_Primary resolved))
          then case fe_fenced env (fw_calls w1) [] of
              Inl e \<Rightarrow> (Inl (FenceStatusUnavailable e), pass env w1)
            | Inr isolated \<Rightarrow> (Inr \<lparr>ip_isolated = isolated, ip_method = ''external fencing''\<rparr>, pass env w1)
          else (Inl ProbeUnavailable, w1))"

section \<open>The lease during the transition\<close>

definition verifyAgentQuorumLeaseForResource :: "(lease_env, snapshot) LeaseStore \<Rightarrow> fence_env \<Rightarrow> ResolvedOperation \<Rightarrow> HAEndpoint \<times> Endpoint \<Rightarrow> bool \<Rightarrow> fence_world \<Rightarrow>
    fence_error option \<times> fence_world" where
  "verifyAgentQuorumLeaseForResource st env resolved resource allowFinalized w =
     (case call_current st env (cl_ResourceID (ro_Cluster resolved)) (he_ResourceID (fst resource)) w of
        (Inl e, w1) \<Rightarrow> (Some (FenceCurrent e), w1)
      | (Inr lease, w1) \<Rightarrow>
          let target = di_ResourceID (ro_Target resolved);
              exactTransition = (l_OperationID lease = ro_OperationID resolved \<and> l_OwnerID lease = target \<and> l_PreviousOwnerID lease = di_ResourceID (ro_Primary resolved));
              finalizedTarget = (allowFinalized \<and> l_OperationID lease = he_ResourceID (fst resource) \<and> l_OwnerID lease = target \<and>
                he_OwnerID (fst resource) = target \<and> ep_InstanceID (snd resource) = target)
          in if \<not> exactTransition \<and> \<not> finalizedTarget then (Some LeaseNotTransition, w1)
             else case call_validate st env lease w1 of
               (Some e, w2) \<Rightarrow> (Some (FenceValidate e), w2)
             | (None, w2) \<Rightarrow> (None, w2))"

definition verifyAgentQuorumLease :: "(lease_env, snapshot) LeaseStore \<Rightarrow> fence_env \<Rightarrow> ResolvedOperation \<Rightarrow> fence_world \<Rightarrow> fence_error option \<times> fence_world" where
  "verifyAgentQuorumLease st env resolved w =
     (case activeVIP (cl_ResourceID (ro_Cluster resolved)) (fw_repo w) of
        Inl e \<Rightarrow> (Some e, w)
      | Inr resource \<Rightarrow>
         (case call_authority env w of
            (Some e, w1) \<Rightarrow> (Some (FenceAuthority e), w1)
          | (None, w1) \<Rightarrow> verifyAgentQuorumLeaseForResource st env resolved resource True w1))"

section \<open>Waiting for the old authorisations to expire\<close>

partial_function (option) fence_loop :: "(lease_env, snapshot) LeaseStore \<Rightarrow> fence_env \<Rightarrow> LeaseRequest \<Rightarrow> duration \<Rightarrow> Lease \<Rightarrow> fence_world \<Rightarrow>
    ((fence_error + Lease) \<times> fence_world) option" where
  "fence_loop st env request remainingGrace transition w =
     (let wait = min remainingGrace (rq_TTL request div 2) in
      case (if wait > 0 then call_wait env wait w else (None, w)) of
        (Some e, w1) \<Rightarrow> Some (Inl (FenceWait e), w1)
      | (None, w1) \<Rightarrow>
         (case call_authority env w1 of
            (Some e, w2) \<Rightarrow> Some (Inl (FenceRevalidate e), w2)
          | (None, w2) \<Rightarrow>
             (case call_acquire st env request w2 of
                (Inl e, w3) \<Rightarrow> Some (Inl (FenceRenew e), w3)
              | (Inr renewed, w3) \<Rightarrow>
                  if \<not> SameLeaseIdentity transition renewed then Some (Inl FenceIdentityChanged, w3)
                  else if remainingGrace - wait \<le> 0 then Some (Inr renewed, w3)
                  else fence_loop st env request (remainingGrace - wait) renewed w3)))"

declare fence_loop.simps [code]

fun settle_loop :: "GuardedFailoverSafety \<Rightarrow> fence_env \<Rightarrow> ResolvedOperation \<Rightarrow> nat \<Rightarrow> string \<Rightarrow> fence_world \<Rightarrow> fence_error option \<times> fence_world" where
  "settle_loop provider env resolved 0 lastMethod w = (Some (StillReachable lastMethod), w)"
| "settle_loop provider env resolved (Suc n) lastMethod w =
     (case probeIsolation provider env resolved w of
        (Inl _, w1) \<Rightarrow> (None, w1)
      | (Inr probe, w1) \<Rightarrow>
          if ip_isolated probe then (None, w1)
          else if n > 0
          then case call_wait env (500 * millisecond) w1 of
              (Some e, w2) \<Rightarrow> (Some (FenceWait e), w2)
            | (None, w2) \<Rightarrow> settle_loop provider env resolved n (ip_method probe) w2
          else settle_loop provider env resolved n (ip_method probe) w1)"

definition awaitAgentQuorumFence :: "GuardedFailoverSafety \<Rightarrow> (lease_env, snapshot) LeaseStore \<Rightarrow> fence_env \<Rightarrow> ResolvedOperation \<Rightarrow> HAEndpoint \<times> Endpoint \<Rightarrow>
    LeaseRequest \<Rightarrow> Lease \<Rightarrow> go_time \<Rightarrow> go_time option \<Rightarrow> fence_world \<Rightarrow> (fence_error option \<times> fence_world) option" where
  "awaitAgentQuorumFence provider st env resolved resource request transition transitionStartedAt authorizationUntil w =
     (let fenceDeadline = (case authorizationUntil of
            None \<Rightarrow> time_add transitionStartedAt (gs_agentQuorumGrace provider)
          | Some until \<Rightarrow> time_add until second) in
      case fence_loop st env (request\<lparr>rq_RenewOnly := True\<rparr>) (time_sub fenceDeadline (fw_clock w)) transition w of
        None \<Rightarrow> None
      | Some (Inl e, w1) \<Rightarrow> Some (Some e, w1)
      | Some (Inr renewed, w1) \<Rightarrow>
         (case call_validate st env renewed w1 of
            (Some e, w2) \<Rightarrow> Some (Some (FenceValidate e), w2)
          | (None, w2) \<Rightarrow>
             (case verifyAgentQuorumLeaseForResource st env resolved resource False w2 of
                (Some e, w3) \<Rightarrow> Some (Some e, w3)
              | (None, w3) \<Rightarrow> Some (settle_loop provider env resolved 5 [] w3))))"

definition authorizationUntil :: "GuardedFailoverSafety \<Rightarrow> fence_env \<Rightarrow> ResolvedOperation \<Rightarrow> fence_world \<Rightarrow> go_time option" where
  "authorizationUntil provider env resolved w =
     (if \<not> gs_authorizations provider then None
      else AuthorizationUntil (cl_ResourceID (ro_Cluster resolved)) (di_ResourceID (ro_Primary resolved)) (fe_epoch env (fw_calls w)) (fe_tracker env (fw_calls w)))"

section \<open>Fencing\<close>

definition fenceRequest :: "GuardedFailoverSafety \<Rightarrow> ResolvedOperation \<Rightarrow> HAEndpoint \<Rightarrow> snapshot \<Rightarrow> LeaseRequest" where
  "fenceRequest provider resolved resource s = \<lparr>rq_ClusterID = cl_ResourceID (ro_Cluster resolved), rq_HAEndpointID = he_ResourceID resource,
     rq_OperationID = ro_OperationID resolved, rq_OwnerID = di_ResourceID (ro_Target resolved), rq_PreviousOwnerID = di_ResourceID (ro_Primary resolved),
     rq_TTL = transitionLeaseTTL provider resolved s, rq_RenewOnly = False\<rparr>"

text \<open>The old primary's agent is asked to isolate itself; \<open>None\<close> when it confirms.\<close>

definition isolateThroughAgent :: "GuardedFailoverSafety \<Rightarrow> fence_env \<Rightarrow> HAEndpoint \<times> Endpoint \<Rightarrow> Lease \<Rightarrow> fence_world \<Rightarrow> fence_error option \<times> bool \<times> fence_world" where
  "isolateThroughAgent provider env resource lease w =
     (if \<not> agentPath provider resource then (None, False, w)
      else case call_agent env ''self_isolate'' (l_ResourceID lease) w of
        (Inl e, w1) \<Rightarrow> (Some (AgentUnreachable e), False, w1)
      | (Inr reply, w1) \<Rightarrow> if ar_StatusOK reply then (None, True, w1) else (Some AgentBlocked, False, w1))"

definition externalFence :: "fence_env \<Rightarrow> Lease \<Rightarrow> fence_world \<Rightarrow> fence_error option \<times> fence_world" where
  "externalFence env lease w =
     (case fe_fence env (fw_calls w) (l_ResourceID lease) of
        Some e \<Rightarrow> (Some (ExternalFenceFailed e), pass env w)
      | None \<Rightarrow>
          let w1 = pass env w in
          case fe_fenced env (fw_calls w1) (l_ResourceID lease) of
            Inl e \<Rightarrow> (Some (ExternalStatusFailed e), pass env w1)
          | Inr isolated \<Rightarrow> (if isolated then None else Some ExternalNotIsolated, pass env w1))"

definition Fence :: "GuardedFailoverSafety \<Rightarrow> (lease_env, snapshot) LeaseStore \<Rightarrow> fence_env \<Rightarrow> ResolvedOperation \<Rightarrow> fence_world \<Rightarrow>
    (fence_error option \<times> fence_world) option" where
  "Fence provider st env resolved w =
     (if \<not> configured provider then Some (Some FenceNotConfigured, w)
      else case call_authority env w of
        (Some e, w1) \<Rightarrow> Some (Some (FenceAuthority e), w1)
      | (None, w1) \<Rightarrow>
          if \<not> stableFailure (fe_failures env (fw_calls w1)) resolved (fw_clock w1) then Some (Some EvidenceExpired, w1)
          else case activeVIP (cl_ResourceID (ro_Cluster resolved)) (fw_repo w1) of
            Inl e \<Rightarrow> Some (Some e, w1)
          | Inr resource \<Rightarrow>
              let request = fenceRequest provider resolved (fst resource) (fw_repo w1) in
              case call_acquire st env request w1 of
                (Inl e, w2) \<Rightarrow> Some (Some (FenceAcquire e), w2)
              | (Inr lease, w2) \<Rightarrow>
                  let until = authorizationUntil provider env resolved w2; startedAt = fw_clock w2 in
                  (case isolateThroughAgent provider env resource lease w2 of
                     (agentFailure, confirmed, w3) \<Rightarrow>
                       if confirmed then Some (None, w3)
                       else if \<not> externalAvailable provider (di_ResourceID (ro_Primary resolved))
                       then if agentQuorumEnabled provider resolved (fw_repo w3)
                            then awaitAgentQuorumFence provider st env resolved resource request lease startedAt until w3
                            else Some (case agentFailure of None \<Rightarrow> Some IsolationUnavailable | Some e \<Rightarrow> Some e, w3)
                       else Some (externalFence env lease w3)))"

section \<open>Checks\<close>

definition Precheck :: "GuardedFailoverSafety \<Rightarrow> fence_env \<Rightarrow> ResolvedOperation \<Rightarrow> fence_world \<Rightarrow> Check list \<times> fence_world" where
  "Precheck provider env resolved w =
     (if cl_RecoveryFreeze (ro_Cluster resolved)
      then ([mk_check ''recovery_frozen'' CheckFail ''cluster recovery is frozen by a planned shutdown''], w)
      else if \<not> configured provider
      then ([mk_check ''stable_primary_failure'' CheckFail ''stable primary-failure observation is not configured'',
             mk_check ''controller_quorum'' CheckFail ''controller quorum is not configured'',
             mk_check ''old_primary_fenced'' CheckFail ''old-primary fencing is not configured''], w)
      else
        let stable = (if stableFailure (fe_failures env (fw_calls w)) resolved (fw_clock w)
              then mk_check ''stable_primary_failure'' CheckPass ''consecutive primary-failure observations satisfy the configured stability window''
              else mk_check ''stable_primary_failure'' CheckFail ''primary failure has not remained stable for the configured observation window'');
            (authority, w1) = call_authority env w;
            quorum = (case authority of
                Some _ \<Rightarrow> mk_check ''controller_quorum'' CheckFail ''local controller lacks leader-backed majority authority''
              | None \<Rightarrow> mk_check ''controller_quorum'' CheckPass ''local leader has controller majority authority'')
        in if agentQuorumEnabled provider resolved (fw_repo w1)
           then ([stable, quorum, mk_check ''old_primary_fenced'' CheckPass
                   ''Raft majority lease and Agent fail-closed reconciliation will isolate the old primary before promotion''], w1)
           else case probeIsolation provider env resolved w1 of
               (Inl _, w2) \<Rightarrow>
                 ([stable, quorum, if agentQuorumEnabled provider resolved (fw_repo w2)
                     then mk_check ''old_primary_fenced'' CheckPass ''Raft majority lease and Agent fail-closed reconciliation will isolate the old primary before promotion''
                     else mk_check ''old_primary_fenced'' CheckFail ''old-primary isolation path is unreachable or incomplete''], w2)
             | (Inr probe, w2) \<Rightarrow>
                 ([stable, quorum, mk_check ''old_primary_fenced'' CheckPass
                     (if ip_isolated probe then ''old primary isolation is verified through '' @ ip_method probe
                      else ip_method probe @ '' old-primary isolation path is reachable and will run before promotion'')], w2))"

definition Verify :: "GuardedFailoverSafety \<Rightarrow> (lease_env, snapshot) LeaseStore \<Rightarrow> fence_env \<Rightarrow> ResolvedOperation \<Rightarrow> fence_world \<Rightarrow> Check \<times> fence_world" where
  "Verify provider st env resolved w =
     (if \<not> configured provider then (mk_check ''old_primary_fenced'' CheckFail ''old-primary fencing is not configured'', w)
      else
        let (early, w1) = (if agentQuorumEnabled provider resolved (fw_repo w) \<and> ro_VerifiedIsolatedSourceID resolved = di_ResourceID (ro_Primary resolved)
              then case verifyAgentQuorumLease st env resolved w of (e, w1) \<Rightarrow> (e = None, w1) else (False, w))
        in if early
           then (mk_check ''old_primary_fenced'' CheckPass ''old-primary isolation was established and the majority ownership lease remains active'', w1)
           else case probeIsolation provider env resolved w1 of
               (Inl _, w2) \<Rightarrow>
                 if agentQuorumEnabled provider resolved (fw_repo w2)
                 then case verifyAgentQuorumLease st env resolved w2 of
                     (None, w3) \<Rightarrow> (mk_check ''old_primary_fenced'' CheckPass ''old-primary authorization expired and the majority transition lease remains active'', w3)
                   | (Some _, w3) \<Rightarrow> (mk_check ''old_primary_fenced'' CheckFail ''old-primary isolation cannot be verified'', w3)
                 else (mk_check ''old_primary_fenced'' CheckFail ''old-primary isolation cannot be verified'', w2)
             | (Inr probe, w2) \<Rightarrow>
                 if \<not> ip_isolated probe
                 then (mk_check ''old_primary_fenced'' CheckFail ''old primary still owns the writer endpoint or remains writable'', w2)
                 else (mk_check ''old_primary_fenced'' CheckPass (''old-primary isolation is verified through '' @ ip_method probe), w2))"

section \<open>Time only moves forward\<close>

lemma pass_clock [simp]: "fw_clock w \<le> fw_clock (pass env w)"
  by (simp add: pass_def)

named_theorems clock_mono

lemma call_authority_clock [clock_mono]: "call_authority env w = (r, w') \<Longrightarrow> fw_clock w \<le> fw_clock w'"
  by (auto simp: call_authority_def)

lemma call_acquire_clock [clock_mono]: "call_acquire st env rq w = (r, w') \<Longrightarrow> fw_clock w \<le> fw_clock w'"
  by (auto simp: call_acquire_def Let_def split: prod.splits)

lemma call_validate_clock [clock_mono]: "call_validate st env l w = (r, w') \<Longrightarrow> fw_clock w \<le> fw_clock w'"
  by (auto simp: call_validate_def Let_def)

lemma call_current_clock [clock_mono]: "call_current st env c e w = (r, w') \<Longrightarrow> fw_clock w \<le> fw_clock w'"
  by (auto simp: call_current_def Let_def split: prod.splits)

lemma call_agent_clock [clock_mono]: "call_agent env cmd l w = (r, w') \<Longrightarrow> fw_clock w \<le> fw_clock w'"
  by (auto simp: call_agent_def)

lemma call_wait_clock: "call_wait env d w = (r, w') \<Longrightarrow> 0 \<le> d \<Longrightarrow> fw_clock w \<le> fw_clock w' \<and> (r = None \<longrightarrow> fw_clock w + d \<le> fw_clock w')"
  by (auto simp: call_wait_def pass_def split: option.splits)

lemma probeAgent_clock [clock_mono]:
  assumes "probeAgent provider env resolved w = (r, w')"
  shows "fw_clock w \<le> fw_clock w'"
proof (cases "activeVIP (cl_ResourceID (ro_Cluster resolved)) (fw_repo w)")
  case (Inl e)
  with assms show ?thesis by (simp add: probeAgent_def)
next
  case (Inr resource)
  obtain vip w1 where v: "call_agent env ''vip_status'' [] w = (vip, w1)" by fastforce
  obtain role w2 where r: "call_agent env (if cl_Engine (ro_Cluster resolved) = EnginePostgreSQL then ''postgresql_status'' else ''role_status'') [] w1 = (role, w2)"
    by fastforce
  have "w' \<in> {w, w1, w2}"
    using assms Inr v r by (auto simp: probeAgent_def Let_def split: if_splits sum.splits option.splits bool.splits)
  with call_agent_clock [OF v] call_agent_clock [OF r] show ?thesis by auto
qed

lemma probeIsolation_clock [clock_mono]: "probeIsolation provider env resolved w = (r, w') \<Longrightarrow> fw_clock w \<le> fw_clock w'"
  using pass_clock by (auto simp: probeIsolation_def split: prod.splits option.splits if_splits sum.splits dest!: probeAgent_clock intro: order_trans)

lemma verify_clock [clock_mono]:
  assumes "verifyAgentQuorumLeaseForResource st env resolved resource fin w = (r, w')"
  shows "fw_clock w \<le> fw_clock w'"
proof -
  obtain c w1 where c: "call_current st env (cl_ResourceID (ro_Cluster resolved)) (he_ResourceID (fst resource)) w = (c, w1)" by fastforce
  show ?thesis
  proof (cases c)
    case (Inl e)
    with assms c show ?thesis by (auto simp: verifyAgentQuorumLeaseForResource_def dest: call_current_clock)
  next
    case (Inr l)
    obtain v w2 where v: "call_validate st env l w1 = (v, w2)" by fastforce
    have "w' = w1 \<or> w' = w2" using assms c Inr v by (auto simp: verifyAgentQuorumLeaseForResource_def Let_def split: if_splits option.splits)
    with call_current_clock [OF c] call_validate_clock [OF v] show ?thesis by auto
  qed
qed

lemma settle_clock [clock_mono]:
  assumes "settle_loop provider env resolved n m w = (r, w')"
  shows "fw_clock w \<le> fw_clock w'"
  using assms
proof (induction n arbitrary: m w)
  case (Suc n)
  obtain p w1 where p: "probeIsolation provider env resolved w = (p, w1)" by fastforce
  obtain x w2 where x: "call_wait env (500 * millisecond) w1 = (x, w2)" by fastforce
  have d: "fw_clock w1 \<le> fw_clock w2" using call_wait_clock [OF x] by (simp add: millisecond_def)
  have "w' = w1 \<or> w' = w2 \<or> (\<exists>m'. settle_loop provider env resolved n m' w1 = (r, w')) \<or> (\<exists>m'. settle_loop provider env resolved n m' w2 = (r, w'))"
    using Suc.prems p x by (auto split: sum.splits if_splits option.splits)
  with probeIsolation_clock [OF p] d Suc.IH show ?case by force
qed simp

section \<open>The waiting loop\<close>

text \<open>One turn of the loop, and how the loop unfolds into turns.\<close>

definition fence_turn :: "(lease_env, snapshot) LeaseStore \<Rightarrow> fence_env \<Rightarrow> LeaseRequest \<Rightarrow> duration \<Rightarrow> Lease \<Rightarrow> fence_world \<Rightarrow> (fence_error + Lease) \<times> fence_world" where
  "fence_turn st env request wait transition w =
     (case (if wait > 0 then call_wait env wait w else (None, w)) of
        (Some e, w1) \<Rightarrow> (Inl (FenceWait e), w1)
      | (None, w1) \<Rightarrow>
         (case call_authority env w1 of
            (Some e, w2) \<Rightarrow> (Inl (FenceRevalidate e), w2)
          | (None, w2) \<Rightarrow>
             (case call_acquire st env request w2 of
                (Inl e, w3) \<Rightarrow> (Inl (FenceRenew e), w3)
              | (Inr renewed, w3) \<Rightarrow> if \<not> SameLeaseIdentity transition renewed then (Inl FenceIdentityChanged, w3) else (Inr renewed, w3))))"

lemma fence_loop_turn:
  "fence_loop st env request remaining transition w =
     (let wait = min remaining (rq_TTL request div 2) in
      case fence_turn st env request wait transition w of
        (Inl e, w1) \<Rightarrow> Some (Inl e, w1)
      | (Inr renewed, w1) \<Rightarrow> if remaining - wait \<le> 0 then Some (Inr renewed, w1) else fence_loop st env request (remaining - wait) renewed w1)"
  by (subst fence_loop.simps) (auto simp: fence_turn_def Let_def split: prod.split option.split sum.split if_split)

lemma fence_turn_clock:
  assumes "fence_turn st env request wait transition w = (r, w')"
  shows "fw_clock w \<le> fw_clock w' \<and> (\<forall>l. r = Inr l \<longrightarrow> fw_clock w + wait \<le> fw_clock w' \<and> SameLeaseIdentity transition l)"
proof -
  obtain x w1 where x: "(if wait > 0 then call_wait env wait w else (None, w)) = (x, w1)" by fastforce
  obtain a w2 where a: "call_authority env w1 = (a, w2)" by fastforce
  obtain q w3 where q: "call_acquire st env request w2 = (q, w3)" by fastforce
  have t: "fw_clock w \<le> fw_clock w1" "x = None \<longrightarrow> fw_clock w + wait \<le> fw_clock w1"
    using x call_wait_clock [of env wait w x w1] by (auto split: if_splits)
  have "w' \<in> {w1, w2, w3} \<and> (\<forall>l. r = Inr l \<longrightarrow> w' = w3 \<and> x = None \<and> SameLeaseIdentity transition l)"
    using assms x a q by (auto simp: fence_turn_def split: option.splits sum.splits if_splits)
  with t call_authority_clock [OF a] call_acquire_clock [OF q] show ?thesis by auto
qed

lemma fence_loop_returns:
  assumes "2 \<le> rq_TTL request"
  shows "\<exists>y. fence_loop st env request remaining transition w = Some y"
proof (induction "nat remaining" arbitrary: remaining transition w rule: less_induct)
  case less
  let ?wait = "min remaining (rq_TTL request div 2)"
  obtain r w1 where r: "fence_turn st env request ?wait transition w = (r, w1)" by fastforce
  show ?case
  proof (cases "\<exists>l. r = Inr l \<and> \<not> remaining - ?wait \<le> 0")
    case True
    then obtain l where l: "r = Inr l" "remaining - ?wait > 0" by auto
    have "nat (remaining - ?wait) < nat remaining" using assms l(2) by auto
    from less [OF this] l r show ?thesis by (subst fence_loop_turn) (auto simp: Let_def)
  next
    case False
    with r show ?thesis by (subst fence_loop_turn) (auto simp: Let_def split: sum.splits)
  qed
qed

lemma fence_loop_waits:
  assumes "2 \<le> rq_TTL request" "fence_loop st env request remaining transition w = Some (r, w')"
  shows "fw_clock w \<le> fw_clock w' \<and> (\<forall>l. r = Inr l \<longrightarrow> fw_clock w + remaining \<le> fw_clock w' \<and> SameLeaseIdentity transition l)"
  using assms(2)
proof (induction "nat remaining" arbitrary: remaining transition w rule: less_induct)
  case less
  let ?wait = "min remaining (rq_TTL request div 2)"
  obtain x w1 where x: "fence_turn st env request ?wait transition w = (x, w1)" by fastforce
  note t = fence_turn_clock [OF x]
  show ?case
  proof (cases "\<exists>l. x = Inr l \<and> \<not> remaining - ?wait \<le> 0")
    case True
    then obtain l where l: "x = Inr l" "remaining - ?wait > 0" by auto
    have m: "nat (remaining - ?wait) < nat remaining" using assms(1) l(2) by auto
    have loop: "fence_loop st env request (remaining - ?wait) l w1 = Some (r, w')"
      using less.prems x l by (subst (asm) fence_loop_turn) (auto simp: Let_def split: if_splits)
    have t1: "fw_clock w \<le> fw_clock w1" "fw_clock w + ?wait \<le> fw_clock w1" "SameLeaseIdentity transition l" using t l(1) by auto
    have ih: "fw_clock w1 \<le> fw_clock w'" "\<And>q. r = Inr q \<Longrightarrow> fw_clock w1 + (remaining - ?wait) \<le> fw_clock w' \<and> SameLeaseIdentity l q"
      using less.hyps [OF m loop] by auto
    show ?thesis
      using t1 ih SameLeaseIdentity_trans by (intro conjI allI impI) (fastforce, fastforce, blast)
  next
    case False
    have "w' = w1 \<and> (\<forall>l. r = Inr l \<longrightarrow> x = Inr l \<and> remaining - ?wait \<le> 0)"
      using less.prems x False by (subst (asm) fence_loop_turn) (auto simp: Let_def split: sum.splits if_splits)
    with t show ?thesis by force
  qed
qed

section \<open>The lease store's answers\<close>

text \<open>Whatever the table holds, a granted lease carries the request's scope, owner and operation.\<close>

lemma acquire_loop_named:
  assumes "acquire_loop env rq rs s = (Some (Inr l), s')"
  shows "leaseFor l rq \<and> leaseOwned l rq"
  using assms
proof (induction rs arbitrary: s)
  case (Cons r rs)
  then show ?case
    by (auto simp: acquire_hit_def putLease_def handoffLease_def Let_def split: if_splits prod.splits option.splits)
qed simp

lemma Acquire_named:
  assumes "LeaseStore_Acquire env rq fresh s = (Inr l, s')"
  shows "leaseFor l rq \<and> leaseOwned l rq"
proof -
  have p: "putLease env what r q = (Inr l, q') \<Longrightarrow> l = lr_Lease r" for what r q q' by (auto simp: putLease_def split: prod.splits option.splits)
  let ?rq = "rq\<lparr>rq_TTL := leaseTTL (rq_TTL rq)\<rparr>"
  obtain x s1 where x: "acquire_loop env ?rq (CoordinationLeases_list s) s = (x, s1)" by fastforce
  show ?thesis
  proof (cases x)
    case None
    with assms x show ?thesis by (auto simp: LeaseStore_Acquire_def Let_def grantLease_def split: option.splits if_splits dest!: p)
  next
    case (Some y)
    with assms x have "y = Inr l" by (auto simp: LeaseStore_Acquire_def Let_def split: option.splits if_splits)
    with acquire_loop_named [of env ?rq "CoordinationLeases_list s" s l s1] x Some show ?thesis by simp
  qed
qed

lemma current_loop_named:
  assumes "current_loop now c e ls sel = Inr (Some l)"
  shows "sel = Some l \<or> leaseLive now l \<and> l_ClusterID l = c \<and> l_HAEndpointID l = e"
  using assms by (induction ls arbitrary: sel) (auto split: if_splits)

lemma Current_named:
  assumes "LeaseStore_Current env c e s = (Inr l, s')"
  shows "l_ClusterID l = c \<and> l_HAEndpointID l = e"
proof -
  from assms have "current_loop (le_now env) c e (map lr_Lease (CoordinationLeases_list s)) None = Inr (Some l)"
    by (auto simp: LeaseStore_Current_def selectedLease_def bindR_Inr_iff split: option.splits if_splits)
  from current_loop_named [OF this] show ?thesis by simp
qed

lemma Validate_live:
  assumes "LeaseStore_Validate env l s = None"
  shows "\<exists>c \<in> lease_set s. leaseLive (le_now env) c \<and> SameLeaseIdentity c l"
proof -
  have "le_authority env = None" using assms by (auto simp: LeaseStore_Validate_def split: option.splits)
  with assms show ?thesis by (simp add: Validate_iff)
qed

text \<open>The exact transition is in the table of some moment during the check.\<close>

definition transitionHeld :: "ResolvedOperation \<Rightarrow> HAEndpoint \<Rightarrow> fence_world \<Rightarrow> bool" where
  "transitionHeld resolved resource w \<longleftrightarrow> (\<exists>l \<in> lease_set (fw_repo w). leaseLive (fw_clock w) l \<and> l_ClusterID l = cl_ResourceID (ro_Cluster resolved) \<and>
     l_HAEndpointID l = he_ResourceID resource \<and> l_OperationID l = ro_OperationID resolved \<and> l_OwnerID l = di_ResourceID (ro_Target resolved) \<and>
     l_PreviousOwnerID l = di_ResourceID (ro_Primary resolved))"

lemma verify_held:
  assumes "verifyAgentQuorumLeaseForResource quorumLeaseStore env resolved resource False w = (None, w')"
  shows "transitionHeld resolved (fst resource) w'"
proof -
  obtain c w1 where c: "call_current quorumLeaseStore env (cl_ResourceID (ro_Cluster resolved)) (he_ResourceID (fst resource)) w = (c, w1)" by fastforce
  from assms c obtain l where l: "c = Inr l" "l_OperationID l = ro_OperationID resolved" "l_OwnerID l = di_ResourceID (ro_Target resolved)"
      "l_PreviousOwnerID l = di_ResourceID (ro_Primary resolved)" "call_validate quorumLeaseStore env l w1 = (None, w')"
    by (cases c) (auto simp: verifyAgentQuorumLeaseForResource_def Let_def split: if_splits prod.splits option.splits)
  have n: "l_ClusterID l = cl_ResourceID (ro_Cluster resolved)" "l_HAEndpointID l = he_ResourceID (fst resource)"
    using c l(1) Current_named by (auto simp: call_current_def Let_def split: prod.splits)
  have "LeaseStore_Validate (call_env env w') l (fw_repo w') = None" using l(5) by (auto simp: call_validate_def Let_def)
  from Validate_live [OF this] n l show ?thesis by (auto simp: transitionHeld_def SameLeaseIdentity_def call_env_def)
qed

definition fenceDeadline :: "GuardedFailoverSafety \<Rightarrow> go_time \<Rightarrow> go_time option \<Rightarrow> go_time" where
  "fenceDeadline provider startedAt until = (case until of None \<Rightarrow> startedAt + gs_agentQuorumGrace provider | Some u \<Rightarrow> u + second)"

lemma awaitAgentQuorumFence_None:
  assumes "2 \<le> rq_TTL request"
    and "awaitAgentQuorumFence provider quorumLeaseStore env resolved resource request transition startedAt until w = Some (None, w')"
  shows "\<exists>w1. transitionHeld resolved (fst resource) w1 \<and> fw_clock w1 \<le> fw_clock w' \<and>
    time_sub (fenceDeadline provider startedAt until) (fw_clock w) \<le> fw_clock w1 - fw_clock w"
proof -
  let ?d = "fenceDeadline provider startedAt until" and ?rq = "request\<lparr>rq_RenewOnly := True\<rparr>"
  have d: "(case until of None \<Rightarrow> time_add startedAt (gs_agentQuorumGrace provider) | Some u \<Rightarrow> time_add u second) = ?d"
    by (simp add: fenceDeadline_def time_add_def split: option.split)
  obtain y where y: "fence_loop quorumLeaseStore env ?rq (time_sub ?d (fw_clock w)) transition w = Some y"
    using fence_loop_returns [of ?rq] assms(1) by fastforce
  obtain r w1 where r: "y = (r, w1)" by fastforce
  from assms(2) y r obtain l w2 w3 where l: "r = Inr l" "call_validate quorumLeaseStore env l w1 = (None, w2)"
      "verifyAgentQuorumLeaseForResource quorumLeaseStore env resolved resource False w2 = (None, w3)" "settle_loop provider env resolved 5 [] w3 = (None, w')"
    by (cases r) (auto simp: awaitAgentQuorumFence_def d split: prod.splits option.splits)
  have "fw_clock w + time_sub ?d (fw_clock w) \<le> fw_clock w1"
    using fence_loop_waits [of ?rq quorumLeaseStore env _ transition w r w1] assms(1) y r l(1) by simp
  with call_validate_clock [OF l(2)] verify_clock [OF l(3)] settle_clock [OF l(4)] verify_held [OF l(3)] show ?thesis
    by (intro exI [of _ w3]) auto
qed

lemma TTL_positive: "2 \<le> rq_TTL (fenceRequest provider resolved resource s)"
  by (simp add: fenceRequest_def transitionLeaseTTL_def second_def minute_def)

section \<open>Properties\<close>

text \<open>
  (C22) Fencing always returns. Whatever the collaborators answer and however long they take, the call ends,
  with a verdict and no earlier than it began: the loop that renews the lease while old
  authorisations expire shortens the remaining grace by at least half the lease's lifetime in every turn.
\<close>

theorem Fence_returns:
  "\<exists>verdict w'. Fence provider st env resolved w = Some (verdict, w')"
proof -
  have await: "\<exists>verdict w'. awaitAgentQuorumFence provider st env resolved resource (fenceRequest provider resolved h s) transition startedAt until v = Some (verdict, w')"
    for resource h s transition startedAt until v
  proof -
    have "2 \<le> rq_TTL ((fenceRequest provider resolved h s)\<lparr>rq_RenewOnly := True\<rparr>)" using TTL_positive by simp
    from fence_loop_returns [OF this] show ?thesis
      unfolding awaitAgentQuorumFence_def Let_def by (fastforce split: prod.splits sum.splits option.splits)
  qed
  show ?thesis
    unfolding Fence_def Let_def using await by (auto split: prod.splits option.splits sum.splits if_splits)
qed

lemma Fence_stages:
  assumes "Fence provider quorumLeaseStore env resolved w = Some (None, w')"
  obtains w1 w2 resource endpoint lease and w3 :: fence_world where "configured provider" "call_authority env w = (None, w1)"
    "stableFailure (fe_failures env (fw_calls w1)) resolved (fw_clock w1)"
    "activeVIP (cl_ResourceID (ro_Cluster resolved)) (fw_repo w1) = Inr (resource, endpoint)"
    "call_acquire quorumLeaseStore env (fenceRequest provider resolved resource (fw_repo w1)) w1 = (Inr lease, w2)"
    "leaseFor lease (fenceRequest provider resolved resource (fw_repo w1))" "leaseOwned lease (fenceRequest provider resolved resource (fw_repo w1))"
    "fw_clock w2 \<le> fw_clock w3"
    "(\<exists>reply. fe_agent env (fw_calls w2) ''self_isolate'' (l_ResourceID lease) = Inr reply \<and> ar_StatusOK reply) \<or>
     externalAvailable provider (di_ResourceID (ro_Primary resolved)) \<and> fe_fence env (fw_calls w3) (l_ResourceID lease) = None \<and>
       fe_fenced env (fw_calls w3 + 1) (l_ResourceID lease) = Inr True \<or>
     (\<exists>w4. transitionHeld resolved resource w4 \<and> fw_clock w4 \<le> fw_clock w' \<and>
       time_sub (fenceDeadline provider (fw_clock w2) (authorizationUntil provider env resolved w2)) (fw_clock w3) \<le> fw_clock w4 - fw_clock w3)"
proof -
  obtain a w1 where a: "call_authority env w = (a, w1)" by fastforce
  from assms a have pre: "configured provider" "a = None" "stableFailure (fe_failures env (fw_calls w1)) resolved (fw_clock w1)"
    by (auto simp: Fence_def split: if_splits option.splits)
  from assms a pre obtain resource endpoint where vip: "activeVIP (cl_ResourceID (ro_Cluster resolved)) (fw_repo w1) = Inr (resource, endpoint)"
    by (cases "activeVIP (cl_ResourceID (ro_Cluster resolved)) (fw_repo w1)") (auto simp: Fence_def)
  let ?rq = "fenceRequest provider resolved resource (fw_repo w1)"
  obtain x w2 where x: "call_acquire quorumLeaseStore env ?rq w1 = (x, w2)" by fastforce
  from assms a pre vip x obtain lease where lease: "x = Inr lease" by (cases x) (auto simp: Fence_def Let_def)
  have named: "leaseFor lease ?rq \<and> leaseOwned lease ?rq"
    using x lease Acquire_named by (auto simp: call_acquire_def Let_def split: prod.splits)
  obtain f ok w3 where i: "isolateThroughAgent provider env (resource, endpoint) lease w2 = (f, ok, w3)" by (metis prod.exhaust)
  have i': "fw_clock w2 \<le> fw_clock w3 \<and> (ok \<longrightarrow> (\<exists>reply. fe_agent env (fw_calls w2) ''self_isolate'' (l_ResourceID lease) = Inr reply \<and> ar_StatusOK reply))"
    using i by (auto simp: isolateThroughAgent_def call_agent_def split: if_splits sum.splits)
  define until where "until = authorizationUntil provider env resolved w2"
  have rest: "(if ok then Some (None, w3)
      else if \<not> externalAvailable provider (di_ResourceID (ro_Primary resolved))
      then if agentQuorumEnabled provider resolved (fw_repo w3)
           then awaitAgentQuorumFence provider quorumLeaseStore env resolved (resource, endpoint) ?rq lease (fw_clock w2) until w3
           else Some (case f of None \<Rightarrow> Some IsolationUnavailable | Some e \<Rightarrow> Some e, w3)
      else Some (externalFence env lease w3)) = Some (None, w')" (is "?rest = _")
  proof -
    have "Fence provider quorumLeaseStore env resolved w = ?rest"
      unfolding Fence_def Let_def until_def a pre(2) prod.case option.case if_not_P [OF notI [OF notE [OF _ pre(1)]]]
      by (simp add: pre(1,3) vip x lease i cong: if_cong)
    from trans [OF sym [OF this] assms] show ?thesis .
  qed
  have ev: "(\<exists>reply. fe_agent env (fw_calls w2) ''self_isolate'' (l_ResourceID lease) = Inr reply \<and> ar_StatusOK reply) \<or>
     externalAvailable provider (di_ResourceID (ro_Primary resolved)) \<and> fe_fence env (fw_calls w3) (l_ResourceID lease) = None \<and>
       fe_fenced env (fw_calls w3 + 1) (l_ResourceID lease) = Inr True \<or>
     (\<exists>w4. transitionHeld resolved resource w4 \<and> fw_clock w4 \<le> fw_clock w' \<and>
       time_sub (fenceDeadline provider (fw_clock w2) until) (fw_clock w3) \<le> fw_clock w4 - fw_clock w3)"
  proof (cases ok)
    case True
    with i' show ?thesis by blast
  next
    case False
    show ?thesis
    proof (cases "externalAvailable provider (di_ResourceID (ro_Primary resolved))")
      case True
      with False rest have "externalFence env lease w3 = (None, w')" by simp
      then have "fe_fence env (fw_calls w3) (l_ResourceID lease) = None" "fe_fenced env (fw_calls w3 + 1) (l_ResourceID lease) = Inr True"
        by (auto simp: externalFence_def Let_def pass_def split: option.splits sum.splits if_splits)
      with True show ?thesis by blast
    next
      case ext: False
      with False rest have "awaitAgentQuorumFence provider quorumLeaseStore env resolved (resource, endpoint) ?rq lease (fw_clock w2) until w3 = Some (None, w')"
        by (auto split: if_splits option.splits)
      from awaitAgentQuorumFence_None [OF TTL_positive this] show ?thesis by simp
    qed
  qed
  show ?thesis
    by (rule that [OF pre(1) _ pre(3) vip _ _ _ _ ev [unfolded until_def]]) (use a pre(2) x lease named i' in auto)
qed


lemma answer_validity:
  assumes "reconcileDecision c i k t s = r" "positiveAgentAuthorization (re_Action r)"
  shows "re_ValidUntil r \<le> t + 10 * second"
proof -
  have "re_Action r \<noteq> ReconcileSelfIsolate" using assms(2) by auto
  then show ?thesis
    using reconcileDecision_recovering [OF _ assms(1)] reconcileDecision_leased [OF _ assms(1)] by (cases "recovering c s") auto
qed

text \<open>
  (C4) A promotion never overlaps an answer already given. Suppose the controllers answered the agents by
  \<open>reconcileDecision\<close> and tracked their answers, and the fence then succeeds by waiting: no agent confirmed its isolation and no
  external fencer serves the old primary. Then every answer of the current leadership epoch
  that let the old primary keep the writer role has run out when the fence returns, whether the deadline
  came from the tracker or from the fixed grace.
\<close>

theorem fence_outlives_authorizations:
  assumes run: "Fence provider quorumLeaseStore env resolved w = Some (None, w')"
    and grace: "15 * second \<le> gs_agentQuorumGrace provider" "gs_agentQuorumGrace provider \<le> max_duration"
    and tracker: "\<forall>n. fe_tracker env n = tracked hist \<and> fe_epoch env n = epoch"
    and answers: "\<forall>(r, e) \<in> set hist. \<exists>k t s. reconcileDecision (re_ClusterID r) (re_InstanceID r) k t s = r \<and> t \<le> fw_clock w"
    and silent: "\<forall>n l reply. fe_agent env n ''self_isolate'' l = Inr reply \<longrightarrow> \<not> ar_StatusOK reply"
    and internal: "\<not> externalAvailable provider (di_ResourceID (ro_Primary resolved))"
    and given: "(answer, epoch) \<in> set hist" "recordable answer epoch" "re_ClusterID answer = cl_ResourceID (ro_Cluster resolved)"
      "re_InstanceID answer = di_ResourceID (ro_Primary resolved)"
  shows "re_ValidUntil answer < fw_clock w'"
proof (rule Fence_stages [OF run], goal_cases)
  case (1 w1 w2 resource endpoint lease w3)
  let ?D = "fenceDeadline provider (fw_clock w2) (authorizationUntil provider env resolved w2)"
  have clock: "fw_clock w \<le> fw_clock w2" using call_authority_clock [OF 1(2)] call_acquire_clock [OF 1(5)] by simp
  from 1(9) silent internal obtain w4 :: fence_world where w4: "fw_clock w4 \<le> fw_clock w'" "time_sub ?D (fw_clock w3) \<le> fw_clock w4 - fw_clock w3" by blast
  have valid: "re_ValidUntil r \<le> fw_clock w + 10 * second" if "(r, e) \<in> set hist" "recordable r e" for r e
  proof -
    from answers that(1) obtain k t s where "reconcileDecision (re_ClusterID r) (re_InstanceID r) k t s = r" "t \<le> fw_clock w" by fastforce
    with answer_validity that(2) show ?thesis by (fastforce simp: recordable_def)
  qed
  have in_time: "re_ValidUntil answer < ?D \<and> ?D - fw_clock w3 \<le> max_duration"
  proof (cases "authorizationUntil provider env resolved w2")
    case None
    with valid [OF given(1,2)] clock grace 1(8) show ?thesis by (auto simp: fenceDeadline_def second_def)
  next
    case (Some u)
    then have "latest (granted (cl_ResourceID (ro_Cluster resolved)) (di_ResourceID (ro_Primary resolved)) hist) (epoch, u)"
      using tracker tracked_until by (auto simp: authorizationUntil_def split: if_splits)
    with given have "re_ValidUntil answer \<le> u" "\<exists>r. (r, epoch) \<in> set hist \<and> recordable r epoch \<and> re_ValidUntil r = u"
      by (auto simp: latest_def granted_def)
    with valid [of _ epoch] have "re_ValidUntil answer \<le> u" "u \<le> fw_clock w + 10 * second" by auto
    with clock 1(8) Some show ?thesis by (simp add: fenceDeadline_def second_def max_duration_def)
  qed
  with w4 show ?case by (auto simp: time_sub_def max_duration_def min_duration_def)
qed

section \<open>A sample failover\<close>

definition sampleFenceEnv :: "rid \<Rightarrow> tracker \<Rightarrow> fence_env" where
  "sampleFenceEnv lease trk = \<lparr>fe_delay = \<lambda>_. 0, fe_others = \<lambda>_ s. s, fe_authority = \<lambda>_. None, fe_commit = \<lambda>_ _ _. CommitApplied, fe_fresh = \<lambda>_. lease,
     fe_done = \<lambda>_. None, fe_failures = \<lambda>_. record_all sampleWindow sampleObservations, fe_tracker = \<lambda>_. trk, fe_epoch = \<lambda>_. 1,
     fe_agent = \<lambda>_ _ _. Inl ''timeout'', fe_fence = \<lambda>_ _. None, fe_fenced = \<lambda>_ _. Inr False\<rparr>"

definition sampleGuard :: GuardedFailoverSafety where
  "sampleGuard = WithAgentQuorumFencing 0 (NewGuardedFailoverSafety True ''secret'')\<lparr>gs_authorizations := True\<rparr>"

definition sampleResolved :: ResolvedOperation where
  "sampleResolved = \<lparr>ro_OperationID = sampleID (CHR ''7''), ro_AutomaticFailureIncidentAt = 0, ro_Cluster = sampleCluster,
     ro_Primary = sampleMember (CHR ''5''), ro_Target = sampleMember (CHR ''4''), ro_VerifiedIsolatedSourceID = []\<rparr>"

definition sampleHeld :: snapshot where
  "sampleHeld = sampleKept\<lparr>CoordinationLeases := [(sampleID (CHR ''6''), \<lparr>lr_Lease = sampleOwnerLease\<lparr>l_ExpiresAt := 20 * second\<rparr>, lr_CreatedAt = 1, lr_UpdatedAt = 1\<rparr>)]\<rparr>"

definition sampleAnswer :: ReconcileResponse where
  "sampleAnswer = reconcileDecision (sampleID (CHR ''1'')) (sampleID (CHR ''5'')) (sampleID (CHR ''3'')) 100 sampleHeld"

definition sampleFailover :: fence_world where
  "sampleFailover = \<lparr>fw_calls = 0, fw_clock = 112, fw_repo = sampleHeld\<rparr>"

lemma sample_answer: "recordable sampleAnswer 1" "re_ClusterID sampleAnswer = sampleID (CHR ''1'')" "re_InstanceID sampleAnswer = sampleID (CHR ''5'')"
    "re_ValidUntil sampleAnswer = 100 + 10 * second"
  by code_simp+

lemma sample_fence:
  "\<exists>w'. Fence sampleGuard quorumLeaseStore (sampleFenceEnv (sampleID (CHR ''8'')) (tracked [(sampleAnswer, 1)])) sampleResolved sampleFailover = Some (None, w')"
proof -
  have "case Fence sampleGuard quorumLeaseStore (sampleFenceEnv (sampleID (CHR ''8'')) (tracked [(sampleAnswer, 1)])) sampleResolved sampleFailover of
      Some (None, w') \<Rightarrow> True | _ \<Rightarrow> False"
    by code_simp
  then show ?thesis by (auto split: option.splits prod.splits)
qed

lemma sample_resolved: "cl_ResourceID (ro_Cluster sampleResolved) = sampleID (CHR ''1'')" "di_ResourceID (ro_Primary sampleResolved) = sampleID (CHR ''5'')"
    "di_ResourceID (ro_Target sampleResolved) = sampleID (CHR ''4'')"
  by (simp_all add: sampleResolved_def sampleCluster_def sampleMember_def)

lemma sample_silent: "\<not> externalAvailable sampleGuard i" "fe_agent (sampleFenceEnv lease trk) n cmd l = Inl ''timeout''"
    "fe_tracker (sampleFenceEnv lease trk) n = trk" "fe_epoch (sampleFenceEnv lease trk) n = 1" "gs_agentQuorumGrace sampleGuard = 15 * second"
  by (simp_all add: externalAvailable_def sampleGuard_def WithAgentQuorumFencing_def NewGuardedFailoverSafety_def sampleFenceEnv_def)


theorem fence_outlives_authorizations_witness:
  "\<exists>w'. Fence sampleGuard quorumLeaseStore (sampleFenceEnv (sampleID (CHR ''8'')) (tracked [(sampleAnswer, 1)])) sampleResolved sampleFailover = Some (None, w') \<and>
    re_ValidUntil sampleAnswer = 100 + 10 * second \<and> re_ValidUntil sampleAnswer < fw_clock w'"
proof -
  obtain w' where w': "Fence sampleGuard quorumLeaseStore (sampleFenceEnv (sampleID (CHR ''8'')) (tracked [(sampleAnswer, 1)])) sampleResolved sampleFailover = Some (None, w')"
    using sample_fence by blast
  have answer: "\<exists>k t s. reconcileDecision (sampleID (CHR ''1'')) (sampleID (CHR ''5'')) k t s = sampleAnswer \<and> t \<le> fw_clock sampleFailover"
    unfolding sampleAnswer_def by (intro exI conjI) (rule refl, simp add: sampleFailover_def)
  from fence_outlives_authorizations [OF w', where hist = "[(sampleAnswer, 1)]" and epoch = 1 and answer = sampleAnswer] answer w' sample_answer
  show ?thesis by (simp add: sample_silent sample_resolved second_def max_duration_def)
qed

end
