(* ===== verification/Disaster_Store.thy ===== *)
theory Disaster_Store
  imports Disaster_Selection Operations_Store Endpoint_Store
begin

text \<open>
  The life of a disaster recovery (\<^verbatim>\<open>internal/store/disaster.go\<close>, with \<^verbatim>\<open>pkg/identity\<close> for native identities and
  the power lifecycle's release of protections). A recovery task is planned, then an executor that holds the
  cluster's operation lock begins it: the cluster is frozen, every member is put into maintenance and every writer
  lease is revoked in one commit. The executor advances the task stage by stage, commits the verified
  topology, and completes it. While the freeze lasts no writer lease of the cluster may be granted except to the committed primary.

  The context's error, when the caller has given up, is the argument \<open>ctxErr\<close>; the digest of a plan is \<open>planDigest\<close>, the
  redaction of free text \<open>redactText\<close>, a fresh identifier \<open>fresh\<close>.
\<close>

section \<open>Native identity\<close>

definition identity_value :: "metadata \<Rightarrow> string \<Rightarrow> string" where
  "identity_value identity key = ToLower (TrimSpace (mget identity key))"

definition validPostgreSQLSystemIdentifier :: "string \<Rightarrow> bool" where
  "validPostgreSQLSystemIdentifier val = (case ParseUint (TrimSpace val) of None \<Rightarrow> False | Some parsed \<Rightarrow> parsed > 0)"

definition InstanceKey :: "Engine \<Rightarrow> metadata \<Rightarrow> string option" where
  "InstanceKey engine identity =
     (let v = identity_value identity in
      if engine = EngineMySQL then (if v ''server_uuid'' \<noteq> [] then Some (''mysql:'' @ v ''server_uuid'') else None)
      else if engine = EnginePostgreSQL
      then (if ValidResourceID (v ''resource_id'') \<and> validPostgreSQLSystemIdentifier (v ''system_identifier'')
            then Some (''postgresql:'' @ v ''resource_id'') else None)
      else if engine = EngineOracle
      then (if v ''dbid'' \<noteq> [] \<and> v ''db_unique_name'' \<noteq> [] \<and> v ''instance_name'' \<noteq> []
            then Some (''oracle:'' @ v ''dbid'' @ '':'' @ v ''db_unique_name'' @ '':'' @ v ''instance_name'') else None)
      else if engine = EngineSQLServer
      then (if v ''group_id'' \<noteq> [] \<and> v ''replica_id'' \<noteq> [] then Some (''sqlserver:'' @ v ''group_id'' @ '':'' @ v ''replica_id'') else None)
      else None)"

definition ClusterKey :: "Engine \<Rightarrow> metadata \<Rightarrow> string option" where
  "ClusterKey engine identity =
     (let v = identity_value identity in
      if engine = EngineMySQL then (if v ''server_uuid'' \<noteq> [] then Some (''mysql:'' @ v ''server_uuid'') else None)
      else if engine = EnginePostgreSQL
      then (if validPostgreSQLSystemIdentifier (v ''system_identifier'') then Some (''postgresql:'' @ v ''system_identifier'') else None)
      else if engine = EngineOracle then (if v ''dbid'' \<noteq> [] then Some (''oracle:'' @ v ''dbid'') else None)
      else if engine = EngineSQLServer then (if v ''group_id'' \<noteq> [] then Some (''sqlserver:'' @ v ''group_id'') else None)
      else None)"

section \<open>Errors and stages\<close>

datatype topology_error =
  TopologyCluster | TopologyIncomplete | TopologyUnhealthy | TopologyStale | MemberDuplicate | MemberForeign | MemberChanged | MemberUnknown
  | PrimaryRole | ReplicaBehind | PrimaryMissing | ProbesInvalid | ProbesIncomplete | PrimaryIdentity | LinksInvalid | UpstreamWrong

datatype recovery_error = RecoveryError store_error | TopologyError topology_error | NilRecovery

definition recoveryTransition :: "RecoveryStage \<Rightarrow> RecoveryStage \<Rightarrow> bool" where
  "recoveryTransition start target =
     (if target = RecoveryBlocked then start \<noteq> RecoverySucceeded \<and> start \<noteq> RecoverySuperseded \<and> start \<noteq> RecoveryPlanned
      else if start = target then start \<noteq> RecoverySucceeded \<and> start \<noteq> RecoverySuperseded \<and> start \<noteq> RecoveryPlanned
      else start = RecoveryFencing \<and> target = RecoveryInspecting \<or> start = RecoveryInspecting \<and> target = RecoverySelecting \<or>
           start = RecoverySelecting \<and> target = RecoveryStarting \<or> start = RecoveryStarting \<and> target = RecoveryRebuilding \<or>
           start = RecoveryRebuilding \<and> target = RecoveryVerifying)"

definition recoveryEvent :: "go_time \<Rightarrow> RecoveryStage \<Rightarrow> string \<Rightarrow> RecoveryEvent" where
  "recoveryEvent now stage message = \<lparr>rn_At = now, rn_Stage = stage, rn_InstanceID = [], rn_Message = message\<rparr>"

text \<open>The common part of every change of a task: new revision, time, stage, message and event.\<close>

definition markTask :: "go_time \<Rightarrow> RecoveryStage \<Rightarrow> string \<Rightarrow> RecoveryTask \<Rightarrow> RecoveryTask" where
  "markTask now stage message task = task\<lparr>rt_Stage := stage, rt_MetadataRevision := rt_MetadataRevision task + 1, rt_UpdatedAt := now, rt_Message := message,
     rt_Events := rt_Events task @ [recoveryEvent now stage message]\<rparr>"

definition putTask :: "rid \<Rightarrow> RecoveryTask \<Rightarrow> snapshot \<Rightarrow> snapshot" where
  "putTask resourceID task s = s\<lparr>RecoveryTasks := AList.update resourceID task (RecoveryTasks s)\<rparr>"

definition clusterOf :: "snapshot \<Rightarrow> rid \<Rightarrow> DatabaseCluster" where
  "clusterOf s clusterID = (case map_of (Clusters s) clusterID of None \<Rightarrow> zeroCluster | Some cluster \<Rightarrow> cluster)"

definition putCluster :: "rid \<Rightarrow> DatabaseCluster \<Rightarrow> snapshot \<Rightarrow> snapshot" where
  "putCluster clusterID cluster s = s\<lparr>Clusters := AList.update clusterID cluster (Clusters s)\<rparr>"

definition commitTask :: "repo_env \<Rightarrow> snapshot \<Rightarrow> snapshot \<Rightarrow> RecoveryTask \<Rightarrow> (recovery_error + RecoveryTask) \<times> snapshot" where
  "commitTask env s next task =
     (case commitSnapshotLocked env s next of (None, s') \<Rightarrow> (Inr task, s') | (Some e, s') \<Rightarrow> (Inl (RecoveryError e), s'))"

section \<open>Lookups\<close>

definition repository_RecoveryTask :: "rid \<Rightarrow> snapshot \<Rightarrow> RecoveryTask option" where
  "repository_RecoveryTask resourceID s = map_of (RecoveryTasks s) resourceID"

definition repository_RecoveryTasks :: "rid \<Rightarrow> snapshot \<Rightarrow> RecoveryTask list" where
  "repository_RecoveryTasks clusterID s = rev (sort_key rt_CreatedAt (filter (\<lambda>task. rt_ClusterID task = clusterID) (map snd (RecoveryTasks s))))"

section \<open>Planning\<close>

definition recoveryPlanReplaceable :: "snapshot \<Rightarrow> DatabaseCluster \<Rightarrow> RecoveryTask \<Rightarrow> go_time \<Rightarrow> bool" where
  "recoveryPlanReplaceable s cluster task now =
     (if rt_Stage task \<noteq> RecoveryPlanned \<and> rt_Stage task \<noteq> RecoveryBlocked \<or> \<not> IsZero (rt_AttemptStartedAt task) \<or> \<not> IsZero (rt_CommittedAt task) \<or>
         rt_PrimaryID task \<noteq> [] \<or> rt_Evidence task \<noteq> [] \<or> rt_Proofs task \<noteq> [] \<or>
         (case cl_Recovery cluster of None \<Rightarrow> False | Some r \<Rightarrow> rs_TaskID r = rt_ResourceID task)
      then False
      else \<not> list_ex (\<lambda>p. ol_ClusterID (snd p) = rt_ClusterID task \<and> ol_ExpiresAt (snd p) > now) (OperationLocks s))"

definition closedTask :: "RecoveryTask \<Rightarrow> bool" where
  "closedTask task \<longleftrightarrow> rt_Stage task = RecoverySucceeded \<or> rt_Stage task = RecoverySuperseded"

fun plan_loop :: "snapshot \<Rightarrow> DatabaseCluster \<Rightarrow> rid \<Rightarrow> go_time \<Rightarrow> RecoveryTask list \<Rightarrow> RecoveryTask list \<Rightarrow> RecoveryTask + RecoveryTask list" where
  "plan_loop s cluster clusterID now [] obsolete = Inr obsolete"
| "plan_loop s cluster clusterID now (task # tasks) obsolete =
     (if rt_ClusterID task \<noteq> clusterID \<or> closedTask task then plan_loop s cluster clusterID now tasks obsolete
      else if \<not> recoveryInventoryValid s task \<and> recoveryPlanReplaceable s cluster task now then plan_loop s cluster clusterID now tasks (obsolete @ [task])
      else Inl task)"

definition activePower :: "rid \<Rightarrow> snapshot \<Rightarrow> bool" where
  "activePower clusterID s = list_ex (\<lambda>p. po_ClusterID (snd p) = clusterID \<and> \<not> TerminalPowerState (po_State (snd p))) (PowerOperations s)"

definition plannedTask :: "(RecoveryTask \<Rightarrow> string) \<Rightarrow> rid \<Rightarrow> go_time \<Rightarrow> rid \<Rightarrow> DatabaseCluster \<Rightarrow> string \<Rightarrow> DatabaseInstance list \<Rightarrow> snapshot \<Rightarrow> RecoveryTask" where
  "plannedTask planDigest fresh now clusterID cluster actor members s =
     (let task = zeroRecoveryTask\<lparr>rt_ResourceID := fresh, rt_MetadataRevision := 1, rt_CreatedAt := now, rt_UpdatedAt := now, rt_ClusterID := clusterID,
            rt_Engine := cl_Engine cluster, rt_RequestedBy := actor, rt_Stage := RecoveryPlanned,
            rt_InventoryGeneration := (case map_of (InventoryGenerations s) clusterID of None \<Rightarrow> 0 | Some g \<Rightarrow> g), rt_Members := members,
            rt_Message := ''all members will be fenced before authoritative history selection''\<rparr>
      in task\<lparr>rt_PlanDigest := planDigest task\<rparr>)"

definition supersede :: "rid \<Rightarrow> go_time \<Rightarrow> RecoveryTask \<Rightarrow> snapshot \<Rightarrow> snapshot" where
  "supersede fresh now old next = putTask (rt_ResourceID old) (markTask now RecoverySuperseded
     (''unstarted recovery plan superseded by '' @ fresh @ '' after immutable inventory changed; fresh confirmation required'') old) next"

definition PlanRecovery :: "repo_env \<Rightarrow> (RecoveryTask \<Rightarrow> string) \<Rightarrow> store_error option \<Rightarrow> rid \<Rightarrow> string \<Rightarrow> rid \<Rightarrow> snapshot \<Rightarrow> (recovery_error + RecoveryTask) \<times> snapshot" where
  "PlanRecovery env planDigest ctxErr clusterID actor fresh s =
     (case ctxErr of Some e \<Rightarrow> (Inl (RecoveryError e), s)
      | None \<Rightarrow>
          if TrimSpace actor = [] then (Inl (RecoveryError (ErrValidation ''recovery actor is required'')), s)
          else case map_of (Clusters s) clusterID of
            None \<Rightarrow> (Inl (RecoveryError (ErrNotFound ''unknown cluster'')), s)
          | Some cluster \<Rightarrow>
              if cl_Engine cluster \<noteq> EngineMySQL \<and> cl_Engine cluster \<noteq> EnginePostgreSQL
              then (Inl (RecoveryError (ErrValidation ''disaster recovery supports MySQL and PostgreSQL'')), s)
              else
                let now = env_now env in
                case plan_loop s cluster clusterID now (map snd (RecoveryTasks s)) [] of
                  Inl task \<Rightarrow> (Inr task, s)
                | Inr obsolete \<Rightarrow>
                    if activePower clusterID s then (Inl (RecoveryError (ErrConflict ''a planned power lifecycle is active'')), s)
                    else
                      let members = sort_key di_ResourceID (filter (\<lambda>i. di_ClusterID i = clusterID) (map snd (Instances s))) in
                      if length members < 2 then (Inl (RecoveryError (ErrValidation ''recovery requires all registered database members'')), s)
                      else
                        let task = plannedTask planDigest fresh now clusterID cluster actor members s
                        in commitTask env s (putTask fresh task (fold (supersede fresh now) obsolete s)) task)"

definition ValidateRecoveryPlan :: "store_error option \<Rightarrow> RecoveryTask \<Rightarrow> snapshot \<Rightarrow> store_error option" where
  "ValidateRecoveryPlan ctxErr task s =
     (case ctxErr of Some e \<Rightarrow> Some e
      | None \<Rightarrow>
         (case map_of (RecoveryTasks s) (rt_ResourceID task) of
            None \<Rightarrow> Some (ErrConflict ''recovery confirmation is stale; reload the recovery plan'')
          | Some current \<Rightarrow>
              if rt_MetadataRevision current \<noteq> rt_MetadataRevision task \<or> rt_Stage current \<noteq> RecoveryPlanned \<and> rt_Stage current \<noteq> RecoveryBlocked
              then Some (ErrConflict ''recovery confirmation is stale; reload the recovery plan'')
              else if \<not> recoveryInventoryValid s current
              then Some (ErrConflict ''recovery plan immutable inventory changed; replan before confirmation; started recovery protections require review'')
              else None))"

section \<open>Failed and abandoned attempts\<close>

definition RecordRecoveryStartFailure :: "repo_env \<Rightarrow> (string \<Rightarrow> string) \<Rightarrow> store_error option \<Rightarrow> rid \<Rightarrow> uint64 \<Rightarrow> string \<Rightarrow> snapshot \<Rightarrow> store_error option \<times> snapshot" where
  "RecordRecoveryStartFailure env redactText ctxErr resourceID revision message s =
     (case ctxErr of Some e \<Rightarrow> (Some e, s)
      | None \<Rightarrow>
         (case map_of (RecoveryTasks s) resourceID of
            None \<Rightarrow> (None, s)
          | Some task \<Rightarrow>
              if rt_MetadataRevision task \<noteq> revision \<or> rt_Stage task \<noteq> RecoveryPlanned \<and> rt_Stage task \<noteq> RecoveryBlocked then (None, s)
              else commitSnapshotLocked env s (putTask resourceID (markTask (env_now env) RecoveryBlocked (redactText message) task) s)))"

definition abandoned :: "snapshot \<Rightarrow> go_time \<Rightarrow> RecoveryTask \<Rightarrow> bool" where
  "abandoned s now task =
     (if rt_Stage task = RecoveryPlanned \<or> rt_Stage task = RecoveryBlocked \<or> closedTask task then False
      else if recoveryLeaseValid s task (time_add now (- 15 * second)) then False
      else \<not> time_sub now (rt_UpdatedAt task) < 15 * second)"

definition blockedState :: "RecoveryState \<Rightarrow> RecoveryState" where
  "blockedState r = r\<lparr>rs_LastRecoveryStatus := ''blocked'', rs_ActualState := ''unknown'', rs_IncidentActive := True, rs_IncidentRecovered := False\<rparr>"

definition blockTask :: "go_time \<Rightarrow> rid \<times> RecoveryTask \<Rightarrow> snapshot \<Rightarrow> snapshot" where
  "blockTask now p next =
     (let (resourceID, task) = p;
          next = putTask resourceID (markTask now RecoveryBlocked ''recovery executor lease expired; member fencing remains required before retry'' task) next;
          cluster = clusterOf next (rt_ClusterID task)
      in case cl_Recovery cluster of
           None \<Rightarrow> next
         | Some r \<Rightarrow>
             if rs_TaskID r = resourceID
             then putCluster (rt_ClusterID task) (cluster\<lparr>cl_RecoveryFreeze := True, cl_Recovery := Some (blockedState r),
                    cl_MetadataRevision := cl_MetadataRevision cluster + 1, cl_UpdatedAt := now\<rparr>) next
             else next)"

definition BlockAbandonedRecoveries :: "repo_env \<Rightarrow> store_error option \<Rightarrow> snapshot \<Rightarrow> store_error option \<times> snapshot" where
  "BlockAbandonedRecoveries env ctxErr s =
     (case ctxErr of Some e \<Rightarrow> (Some e, s)
      | None \<Rightarrow>
          let tasks = filter (\<lambda>p. abandoned s (env_now env) (snd p)) (RecoveryTasks s) in
          if tasks = [] then (None, s) else commitSnapshotLocked env s (fold (blockTask (env_now env)) tasks s))"

section \<open>Beginning\<close>

definition protectMembers :: "rid \<Rightarrow> bool \<Rightarrow> go_time \<Rightarrow> (rid \<times> DatabaseInstance) list \<Rightarrow> (rid \<times> DatabaseInstance) list" where
  "protectMembers clusterID maintenance now instances =
     map (\<lambda>(k, i). (k, if di_ClusterID i = clusterID
       then i\<lparr>di_Maintenance := maintenance, di_MetadataRevision := di_MetadataRevision i + 1, di_UpdatedAt := now\<rparr> else i)) instances"

definition begunTask :: "rid \<Rightarrow> go_time \<Rightarrow> RecoveryTask \<Rightarrow> RecoveryTask" where
  "begunTask leaseID now task =
     (markTask now RecoveryFencing ''recovery freeze acquired; every member must be fenced'' task)\<lparr>rt_LeaseID := leaseID, rt_AttemptStartedAt := now,
        rt_CommittedAt := 0, rt_VerifiedAt := 0, rt_PrimaryID := [], rt_Evidence := [], rt_Proofs := []\<rparr>"

definition runningState :: "rid \<Rightarrow> RecoveryState" where
  "runningState resourceID = zeroRecoveryState\<lparr>rs_TaskID := resourceID, rs_ExpectedState := ''running'', rs_ActualState := ''recovering'', rs_IncidentActive := True,
     rs_LastRecoveryStatus := ''running'', rs_LastShutdownClassification := ''unplanned''\<rparr>"

definition begunSnapshot :: "rid \<Rightarrow> RecoveryTask \<Rightarrow> go_time \<Rightarrow> snapshot \<Rightarrow> snapshot" where
  "begunSnapshot resourceID task now s =
     (let clusterID = rt_ClusterID task; cluster = clusterOf s clusterID;
          next = putCluster clusterID (cluster\<lparr>cl_RecoveryFreeze := True, cl_MetadataRevision := cl_MetadataRevision cluster + 1, cl_UpdatedAt := now,
            cl_Recovery := Some (runningState resourceID)\<rparr>) (putTask resourceID task s)
      in next\<lparr>Instances := protectMembers clusterID True now (Instances next),
              CoordinationLeases := filter (\<lambda>p. l_ClusterID (lr_Lease (snd p)) \<noteq> clusterID) (CoordinationLeases next)\<rparr>)"

definition BeginRecovery :: "repo_env \<Rightarrow> store_error option \<Rightarrow> rid \<Rightarrow> uint64 \<Rightarrow> rid \<Rightarrow> snapshot \<Rightarrow> (recovery_error + RecoveryTask) \<times> snapshot" where
  "BeginRecovery env ctxErr resourceID revision leaseID s =
     (let now = env_now env; refuse = (\<lambda>e. (Inl (RecoveryError e), s)) in
      case ctxErr of Some e \<Rightarrow> refuse e
      | None \<Rightarrow>
         (case map_of (RecoveryTasks s) resourceID of
            None \<Rightarrow> refuse (ErrNotFound ''unknown recovery task'')
          | Some task \<Rightarrow>
              if rt_MetadataRevision task \<noteq> revision \<or> closedTask task \<or>
                 rt_Stage task \<noteq> RecoveryPlanned \<and> rt_Stage task \<noteq> RecoveryBlocked \<and> recoveryLeaseValid s task now
              then refuse (ErrConflict ''recovery task changed or already has an executor'')
              else if \<not> recoveryLeaseValid s (task\<lparr>rt_LeaseID := leaseID\<rparr>) now \<or> \<not> recoveryInventoryValid s (task\<lparr>rt_LeaseID := leaseID\<rparr>)
              then refuse (ErrConflict ''recovery lease or immutable inventory changed'')
              else if list_ex snd (ConfigurationTasksActive s) then refuse (ErrConflict ''configuration distribution maintenance active'')
              else if UpdateGate s \<noteq> None then refuse (ErrConflict ''software upgrade maintenance is active'')
              else if list_ex (\<lambda>p. ol_ClusterID (snd p) = rt_ClusterID task \<and> ol_ResourceID (snd p) \<noteq> leaseID \<and> ol_ExpiresAt (snd p) > now) (OperationLocks s)
              then refuse (ErrConflict ''another cluster operation lock is active'')
              else if activePower (rt_ClusterID task) s then refuse (ErrConflict ''a planned power lifecycle became active'')
              else if list_ex (\<lambda>p. op_ClusterID (or_Operation (snd p)) = rt_ClusterID task \<and> (or_Status (snd p) = OperationRunning \<or> RequiresReview (snd p))) (Operations s)
              then refuse (ErrConflict ''database operation is running or needs verification'')
              else let task = begunTask leaseID now task in commitTask env s (begunSnapshot resourceID task now s) task))"

section \<open>Advancing\<close>

definition staleEvidence :: "RecoveryTask \<Rightarrow> go_time \<Rightarrow> RecoveryEvidence \<Rightarrow> bool" where
  "staleEvidence current now e \<longleftrightarrow> rv_ObservedAt e < rt_AttemptStartedAt current \<or> rv_ObservedAt e > now \<or> time_sub now (rv_ObservedAt e) > 5 * minute"

definition advancedSnapshot :: "RecoveryTask \<Rightarrow> RecoveryStage \<Rightarrow> snapshot \<Rightarrow> snapshot" where
  "advancedSnapshot current stage s =
     (let next = putTask (rt_ResourceID current) current s; cluster = clusterOf next (rt_ClusterID current) in
      case cl_Recovery cluster of
        None \<Rightarrow> next
      | Some r \<Rightarrow>
          let r = r\<lparr>rs_CurrentPrimaryID := rt_PrimaryID current\<rparr> in
          putCluster (rt_ClusterID current) (cluster\<lparr>cl_Recovery := Some (if stage = RecoveryBlocked then blockedState r else r)\<rparr>) next)"

definition AdvanceRecovery :: "repo_env \<Rightarrow> (RecoveryEvidence \<Rightarrow> string) \<Rightarrow> (string \<Rightarrow> string) \<Rightarrow> store_error option \<Rightarrow> RecoveryTask \<Rightarrow> RecoveryEvent \<Rightarrow> snapshot \<Rightarrow>
    (recovery_error + RecoveryTask) \<times> snapshot" where
  "AdvanceRecovery env digest redactText ctxErr task event s =
     (let now = env_now env; refuse = (\<lambda>e. (Inl (RecoveryError e), s)) in
      case ctxErr of Some e \<Rightarrow> refuse e
      | None \<Rightarrow>
         (case map_of (RecoveryTasks s) (rt_ResourceID task) of
            None \<Rightarrow> refuse (ErrNotFound ''unknown recovery task'')
          | Some current \<Rightarrow>
              if rt_MetadataRevision current \<noteq> rt_MetadataRevision task \<or> \<not> recoveryTransition (rt_Stage current) (rn_Stage event) \<or>
                 rt_LeaseID current \<noteq> rt_LeaseID task \<or> \<not> recoveryLeaseValid s current now
              then refuse (ErrConflict ''recovery executor or stage changed'')
              else if \<not> recoveryInventoryValid s current then refuse (ErrConflict ''recovery inventory changed'')
              else if rn_Stage event = RecoveryStarting \<and> list_ex (staleEvidence current now) (rt_Evidence task)
              then refuse (ErrValidation ''recovery evidence is stale or from another attempt'')
              else if rn_Stage event = RecoveryStarting \<and> Select digest (rt_Members current) (rt_Evidence task) (rt_Proofs task) \<noteq> Inr (rt_PrimaryID task)
              then refuse (ErrValidation ''recovery primary lacks complete authoritative evidence'')
              else
                let current = (if rn_Stage event = RecoveryStarting
                      then current\<lparr>rt_PrimaryID := rt_PrimaryID task, rt_Evidence := rt_Evidence task, rt_Proofs := rt_Proofs task\<rparr> else current);
                    event = event\<lparr>rn_At := now, rn_Message := redactText (rn_Message event)\<rparr>;
                    current = current\<lparr>rt_Stage := rn_Stage event, rt_Message := rn_Message event, rt_UpdatedAt := now,
                      rt_MetadataRevision := rt_MetadataRevision current + 1, rt_Events := rt_Events current @ [event]\<rparr>
                in commitTask env s (advancedSnapshot current (rn_Stage event) s) current))"

section \<open>Verification\<close>

definition memberChanged :: "DatabaseInstance \<Rightarrow> DatabaseInstance \<Rightarrow> bool" where
  "memberChanged instance' member \<longleftrightarrow> \<not> same_map (di_EngineIdentity member) (di_EngineIdentity instance') \<or> di_NodeID member \<noteq> di_NodeID instance' \<or>
     di_IPAddress member \<noteq> di_IPAddress instance' \<or> di_Port member \<noteq> di_Port instance'"

definition replicaCaughtUp :: "Engine \<Rightarrow> DatabaseInstance \<Rightarrow> bool" where
  "replicaCaughtUp engine i \<longleftrightarrow> di_Role i = (if engine = EnginePostgreSQL then RoleStandby else RoleReplica) \<and> rs_IOThread (di_Replication i) = ThreadRunning \<and>
     rs_SQLThread (di_Replication i) = ThreadRunning \<and> rs_LagSeconds (di_Replication i) = Some 0"

fun verify_members :: "RecoveryTask \<Rightarrow> DatabaseInstance list \<Rightarrow> rid list \<Rightarrow> DatabaseInstance option \<Rightarrow> topology_error + rid list \<times> DatabaseInstance option" where
  "verify_members task [] seen primary = Inr (seen, primary)"
| "verify_members task (i # is) seen primary =
     (if di_ResourceID i \<in> set seen \<or> h_State (di_Health i) \<noteq> HealthHealthy then Inl MemberDuplicate
      else if di_ClusterID i \<noteq> rt_ClusterID task \<or> di_Engine i \<noteq> rt_Engine task then Inl MemberForeign
      else
        let same = filter (\<lambda>member. di_ResourceID member = di_ResourceID i) (rt_Members task) in
        if list_ex (memberChanged i) same then Inl MemberChanged
        else if same = [] then Inl MemberUnknown
        else if di_ResourceID i = rt_PrimaryID task
        then if di_Role i \<noteq> RolePrimary then Inl PrimaryRole else verify_members task is (di_ResourceID i # seen) (Some i)
        else if \<not> replicaCaughtUp (rt_Engine task) i then Inl ReplicaBehind
        else verify_members task is (di_ResourceID i # seen) primary)"

fun verify_probes :: "RecoveryTask \<Rightarrow> go_time \<Rightarrow> rid list \<Rightarrow> ProbeStatus list \<Rightarrow> rid list \<Rightarrow> topology_error + rid list" where
  "verify_probes task now seen [] probed = Inr probed"
| "verify_probes task now seen (p # ps) probed =
     (if pb_InstanceID p \<notin> set seen \<or> pb_InstanceID p \<in> set probed \<or> pb_Outcome p \<noteq> ProbeOutcomeReachable \<or> h_State (pb_Health p) \<noteq> HealthHealthy \<or>
         pb_DiscoveryObservedAt p < rt_UpdatedAt task \<or> pb_DiscoveryObservedAt p > now
      then Inl ProbesInvalid else verify_probes task now seen ps (pb_InstanceID p # probed))"

fun verify_links :: "RecoveryTask \<Rightarrow> rid list \<Rightarrow> ReplicationLink list \<Rightarrow> rid list \<Rightarrow> topology_error option" where
  "verify_links task seen [] targets = None"
| "verify_links task seen (l # ls) targets =
     (if rl_ClusterID l \<noteq> rt_ClusterID task \<or> rl_SourceInstanceID l \<noteq> rt_PrimaryID task \<or> rl_TargetInstanceID l = rt_PrimaryID task \<or>
         rl_TargetInstanceID l \<notin> set seen \<or> rl_TargetInstanceID l \<in> set targets \<or> \<not> rl_Healthy l \<or> rl_LagSeconds l \<noteq> Some 0
      then Some LinksInvalid else verify_links task seen ls (rl_TargetInstanceID l # targets))"

definition verifyRecoveryTopology :: "RecoveryTask \<Rightarrow> TopologySnapshot \<Rightarrow> go_time \<Rightarrow> topology_error option" where
  "verifyRecoveryTopology task topology now =
     (if ts_ClusterID topology \<noteq> rt_ClusterID task then Some TopologyCluster
      else if length (ts_Instances topology) \<noteq> length (rt_Members task) \<or> int (length (ts_Links topology)) \<noteq> int (length (rt_Members task)) - 1
      then Some TopologyIncomplete
      else if h_State (ts_Health topology) \<noteq> HealthHealthy then Some TopologyUnhealthy
      else if ts_ObservedAt topology < rt_UpdatedAt task \<or> ts_ObservedAt topology > now \<or> time_sub now (ts_ObservedAt topology) > 30 * second then Some TopologyStale
      else case verify_members task (ts_Instances topology) [] None of
          Inl e \<Rightarrow> Some e
        | Inr (seen, primary) \<Rightarrow>
           (case primary of
              None \<Rightarrow> Some PrimaryMissing
            | Some p \<Rightarrow>
                if di_ResourceID p = [] then Some PrimaryMissing
                else case verify_probes task now seen (ts_Probes topology) [] of
                    Inl e \<Rightarrow> Some e
                  | Inr probed \<Rightarrow>
                      if length probed \<noteq> length seen then Some ProbesIncomplete
                      else case InstanceKey (di_Engine p) (di_EngineIdentity p) of
                          None \<Rightarrow> Some PrimaryIdentity
                        | Some key \<Rightarrow>
                           (case verify_links task seen (ts_Links topology) [] of
                              Some e \<Rightarrow> Some e
                            | None \<Rightarrow>
                                if list_ex (\<lambda>i. di_ResourceID i \<noteq> rt_PrimaryID task \<and>
                                     InstanceKey (di_Engine i) (rs_SourceIdentity (di_Replication i)) \<noteq> Some key) (ts_Instances topology)
                                then Some UpstreamWrong else None)))"

section \<open>Committing and completing\<close>

fun publish_loop :: "go_time \<Rightarrow> DatabaseInstance list \<Rightarrow> snapshot \<Rightarrow> DatabaseInstance list \<times> snapshot" where
  "publish_loop now [] next = ([], next)"
| "publish_loop now (i # is) next =
     (let revision = (case map_of (Instances next) (di_ResourceID i) of None \<Rightarrow> 0 | Some old \<Rightarrow> di_MetadataRevision old);
          i = i\<lparr>di_DesiredRole := di_Role i, di_Maintenance := True, di_MetadataRevision := revision + 1, di_UpdatedAt := now\<rparr>;
          (is, next) = publish_loop now is (next\<lparr>Instances := AList.update (di_ResourceID i) i (Instances next)\<rparr>)
      in (i # is, next))"

fun own_endpoints :: "rid \<Rightarrow> rid \<Rightarrow> go_time \<Rightarrow> (rid \<times> HAEndpoint) list \<Rightarrow> snapshot \<Rightarrow> snapshot option" where
  "own_endpoints clusterID primaryID now [] next = Some next"
| "own_endpoints clusterID primaryID now ((k, he) # rest) next =
     (if he_ClusterID he \<noteq> clusterID then own_endpoints clusterID primaryID now rest next
      else case map_of (clusterEndpoints clusterID next) (he_EndpointID he) of
          None \<Rightarrow> None
        | Some registered \<Rightarrow>
            if ep_ClusterID registered \<noteq> clusterID then None
            else own_endpoints clusterID primaryID now rest
              (next\<lparr>HAEndpoints := AList.update k (ownHAEndpoint primaryID False now he) (HAEndpoints next),
                 Endpoints := AList.update clusterID (AList.update (he_EndpointID he) (ownEndpoint primaryID now registered) (clusterEndpoints clusterID next)) (Endpoints next)\<rparr>))"

definition committedState :: "RecoveryTask \<Rightarrow> RecoveryState" where
  "committedState task = zeroRecoveryState\<lparr>rs_TaskID := rt_ResourceID task, rs_CurrentPrimaryID := rt_PrimaryID task, rs_ExpectedState := ''running'',
     rs_ActualState := ''running'', rs_IncidentRecovered := True, rs_LastRecoveryStatus := ''committed'', rs_LastShutdownClassification := ''unplanned''\<rparr>"

definition publishedSnapshot :: "RecoveryTask \<Rightarrow> TopologySnapshot \<Rightarrow> go_time \<Rightarrow> snapshot \<Rightarrow> snapshot" where
  "publishedSnapshot current topology now s =
     (let clusterID = rt_ClusterID current;
          (instances, next) = publish_loop now (ts_Instances topology) s;
          next = next\<lparr>ReplicationLinks := AList.update clusterID (ts_Links topology) (ReplicationLinks next),
            TopologySnapshots := AList.update clusterID (topology\<lparr>ts_Instances := instances\<rparr>) (TopologySnapshots next),
            ObservationWatermarks := AList.update clusterID now (ObservationWatermarks next)\<rparr>;
          cluster = clusterOf next clusterID
      in putCluster clusterID (cluster\<lparr>cl_MetadataRevision := cl_MetadataRevision cluster + 1, cl_UpdatedAt := now,
           cl_Health := ts_Health topology, cl_Recovery := Some (committedState current)\<rparr>) next)"

definition committedTask :: "go_time \<Rightarrow> go_time \<Rightarrow> RecoveryTask \<Rightarrow> RecoveryTask" where
  "committedTask now observedAt current =
     (markTask now RecoveryCommitted ''Recovery Commit persisted; business entry remains protected until activation verification'' current)
       \<lparr>rt_CommittedAt := now, rt_VerifiedAt := observedAt\<rparr>"

definition CommitRecovery :: "repo_env \<Rightarrow> store_error option \<Rightarrow> RecoveryTask \<Rightarrow> TopologySnapshot \<Rightarrow> snapshot \<Rightarrow> (recovery_error + RecoveryTask) \<times> snapshot" where
  "CommitRecovery env ctxErr task topology s =
     (let now = env_now env; refuse = (\<lambda>e. (Inl e, s)) in
      case ctxErr of Some e \<Rightarrow> refuse (RecoveryError e)
      | None \<Rightarrow>
         (case map_of (RecoveryTasks s) (rt_ResourceID task) of
            None \<Rightarrow> refuse (RecoveryError (ErrConflict ''recovery commit lost its executor or inventory''))
          | Some current \<Rightarrow>
              if rt_MetadataRevision current \<noteq> rt_MetadataRevision task \<or> rt_Stage current \<noteq> RecoveryVerifying \<or> \<not> recoveryLeaseValid s current now \<or>
                 \<not> recoveryInventoryValid s current
              then refuse (RecoveryError (ErrConflict ''recovery commit lost its executor or inventory''))
              else case verifyRecoveryTopology current topology now of
                  Some e \<Rightarrow> refuse (TopologyError e)
                | None \<Rightarrow>
                    let next = publishedSnapshot current topology now s in
                    case own_endpoints (rt_ClusterID current) (rt_PrimaryID current) now (HAEndpoints next) next of
                      None \<Rightarrow> refuse (RecoveryError (ErrValidation ''recovery endpoint registration is incomplete''))
                    | Some next \<Rightarrow>
                        let current = committedTask now (ts_ObservedAt topology) current
                        in commitTask env s (putTask (rt_ResourceID current) current next) current))"

definition zeroTopology :: TopologySnapshot where
  "zeroTopology = \<lparr>ts_ClusterID = [], ts_Instances = [], ts_Links = [], ts_Probes = [], ts_Health = zeroHealth, ts_Anomalies = [], ts_ObservedAt = 0\<rparr>"

definition releaseTopology :: "TopologySnapshot \<Rightarrow> TopologySnapshot" where
  "releaseTopology topology = topology\<lparr>ts_Instances := map (\<lambda>i. i\<lparr>di_Maintenance := False\<rparr>) (ts_Instances topology)\<rparr>"

definition releasedSnapshot :: "rid \<Rightarrow> DatabaseCluster \<Rightarrow> go_time \<Rightarrow> snapshot \<Rightarrow> snapshot" where
  "releasedSnapshot clusterID cluster now s =
     (let next = putCluster clusterID cluster s;
          next = next\<lparr>Instances := protectMembers clusterID False now (Instances next)\<rparr>
      in case map_of (TopologySnapshots next) clusterID of
           None \<Rightarrow> next
         | Some topology \<Rightarrow> next\<lparr>TopologySnapshots := AList.update clusterID (releaseTopology topology) (TopologySnapshots next)\<rparr>)"

definition CompleteRecovery :: "repo_env \<Rightarrow> store_error option \<Rightarrow> RecoveryTask \<Rightarrow> snapshot \<Rightarrow> (recovery_error + RecoveryTask) \<times> snapshot" where
  "CompleteRecovery env ctxErr task s =
     (let now = env_now env; refuse = (\<lambda>e. (Inl e, s)) in
      case ctxErr of Some e \<Rightarrow> refuse (RecoveryError e)
      | None \<Rightarrow>
         (case map_of (RecoveryTasks s) (rt_ResourceID task) of
            None \<Rightarrow> refuse (RecoveryError (ErrConflict ''recovery completion lost its committed task or executor''))
          | Some current \<Rightarrow>
              if rt_MetadataRevision current \<noteq> rt_MetadataRevision task \<or> rt_Stage current \<noteq> RecoveryCommitted \<or> IsZero (rt_CommittedAt current) \<or>
                 \<not> recoveryLeaseValid s current now \<or> \<not> recoveryInventoryValid s current
              then refuse (RecoveryError (ErrConflict ''recovery completion lost its committed task or executor''))
              else if IsZero (rt_VerifiedAt current) then refuse (RecoveryError (ErrConflict ''recovery has no committed verification''))
              else case verifyRecoveryTopology (current\<lparr>rt_UpdatedAt := rt_VerifiedAt current\<rparr>)
                     (case map_of (TopologySnapshots s) (rt_ClusterID current) of None \<Rightarrow> zeroTopology | Some topology \<Rightarrow> topology) now of
                  Some e \<Rightarrow> refuse (TopologyError e)
                | None \<Rightarrow>
                    let clusterID = rt_ClusterID current; cluster = clusterOf s clusterID in
                    case cl_Recovery cluster of
                      None \<Rightarrow> refuse NilRecovery
                    | Some r \<Rightarrow>
                        let next = releasedSnapshot clusterID (cluster\<lparr>cl_RecoveryFreeze := False, cl_MetadataRevision := cl_MetadataRevision cluster + 1,
                              cl_UpdatedAt := now, cl_Recovery := Some (r\<lparr>rs_LastRecoveryStatus := ''succeeded'', rs_RecoveredAt := now\<rparr>)\<rparr>) now s;
                            current = (markTask now RecoverySucceeded ''all members, replication, writer and business entry verified; recovery protections released'' current)
                              \<lparr>rt_CompletedAt := now\<rparr>
                        in commitTask env s (putTask (rt_ResourceID current) current next) current))"

end
