(* ===== verification/Power_Store.thy ===== *)
theory Power_Store
  imports Disaster_Store
begin

text \<open>
  The planned power lifecycle of a cluster (\<^verbatim>\<open>pkg/model/power.go\<close>, \<^verbatim>\<open>internal/store/power.go\<close>, \<^verbatim>\<open>power_complete.go\<close>,
  \<^verbatim>\<open>maintenance.go\<close>): a shutdown is planned, the cluster is frozen, and after the boot a verified recovery releases the
  protections together with the terminal state in one commit.

  Completing a power recovery changes the stored topology before it commits: the code takes the topology out of the
  repository without copying its slice of instances, clears their maintenance flags there, and only then
  commits. The model keeps that: a refused commit leaves the flags cleared.
\<close>

section \<open>States\<close>

fun PowerState_Valid :: "PowerState \<Rightarrow> bool" where
  "PowerState_Valid (PowerStateOther _) = False"
| "PowerState_Valid _ = True"

fun allowedPowerTransitions :: "PowerState \<Rightarrow> PowerState list" where
  "allowedPowerTransitions PowerNormal = [PowerPrechecking, PowerFailed]"
| "allowedPowerTransitions PowerPrechecking = [PowerMaintenance, PowerNormal, PowerFailed]"
| "allowedPowerTransitions PowerMaintenance = [PowerShutdownPlanned, PowerFailed]"
| "allowedPowerTransitions PowerShutdownPlanned = [PowerShuttingDown, PowerNormal, PowerFailed]"
| "allowedPowerTransitions PowerShuttingDown = [PowerPoweredOff, PowerFailed]"
| "allowedPowerTransitions PowerPoweredOff = [PowerBootDetected, PowerFailed]"
| "allowedPowerTransitions PowerBootDetected = [PowerRecovering, PowerFailed]"
| "allowedPowerTransitions PowerRecovering = [PowerVerifying, PowerFailed]"
| "allowedPowerTransitions PowerVerifying = [PowerCompleted, PowerFailed]"
| "allowedPowerTransitions _ = []"

definition ValidPowerTransition :: "PowerState \<Rightarrow> PowerState \<Rightarrow> bool" where
  "ValidPowerTransition start target =
     (if \<not> PowerState_Valid start \<or> \<not> PowerState_Valid target then False
      else if target = PowerFailed \<and> \<not> TerminalPowerState start then True
      else target \<in> set (allowedPowerTransitions start))"

fun PowerOperationType_Valid :: "PowerOperationType \<Rightarrow> bool" where
  "PowerOperationType_Valid (PowerOperationTypeOther _) = False"
| "PowerOperationType_Valid _ = True"

definition ShutdownTime :: "PowerOperation \<Rightarrow> go_time option" where
  "ShutdownTime operation = (if po_State operation = PowerNormal \<or> po_State operation = PowerPrechecking then None else Some (po_StartedAt operation))"

section \<open>Operations\<close>

definition putPower :: "PowerOperation \<Rightarrow> snapshot \<Rightarrow> snapshot" where
  "putPower operation s = s\<lparr>PowerOperations := AList.update (po_ResourceID operation) operation (PowerOperations s)\<rparr>"

definition commitPower :: "repo_env \<Rightarrow> snapshot \<Rightarrow> snapshot \<Rightarrow> PowerOperation \<Rightarrow> (store_error + PowerOperation) \<times> snapshot" where
  "commitPower env s next operation = (case commitSnapshotLocked env s next of (None, s') \<Rightarrow> (Inr operation, s') | (Some e, s') \<Rightarrow> (Inl e, s'))"

definition createdPower :: "rid \<Rightarrow> go_time \<Rightarrow> DatabaseCluster \<Rightarrow> PowerOperation \<Rightarrow> PowerOperation" where
  "createdPower fresh now cluster operation = operation\<lparr>po_ResourceID := fresh, po_MetadataRevision := 1, po_CreatedAt := now, po_UpdatedAt := now,
     po_State := PowerNormal, po_Engine := cl_Engine cluster, po_StartedAt := (if IsZero (po_StartedAt operation) then now else po_StartedAt operation)\<rparr>"

definition CreatePowerOperation :: "repo_env \<Rightarrow> store_error option \<Rightarrow> PowerOperation \<Rightarrow> rid \<Rightarrow> snapshot \<Rightarrow> (store_error + PowerOperation) \<times> snapshot" where
  "CreatePowerOperation env ctxErr operation fresh s =
     (case ctxErr of Some e \<Rightarrow> (Inl e, s)
      | None \<Rightarrow>
          if \<not> ValidResourceID (po_ClusterID operation) then (Inl (ErrValidation ''power operation cluster ID is invalid''), s)
          else if \<not> PowerOperationType_Valid (po_OperationType operation) then (Inl (ErrValidation ''power operation type must be service or poweroff''), s)
          else if TrimSpace (po_RequestedBy operation) = [] then (Inl (ErrValidation ''power operation requester is required''), s)
          else if list_ex snd (ConfigurationTasksActive s) then (Inl (ErrConflict ''configuration distribution maintenance active''), s)
          else case map_of (Clusters s) (po_ClusterID operation) of
              None \<Rightarrow> (Inl (ErrNotFound (''unknown cluster ID: '' @ po_ClusterID operation)), s)
            | Some cluster \<Rightarrow>
                if activePower (po_ClusterID operation) s then (Inl (ErrConflict (''cluster '' @ po_ClusterID operation @ '' already has an active power operation'')), s)
                else
                  let operation = createdPower fresh (env_now env) cluster operation in commitPower env s (putPower operation s) operation)"

definition repository_PowerOperation :: "rid \<Rightarrow> snapshot \<Rightarrow> PowerOperation option" where
  "repository_PowerOperation resourceID s = map_of (PowerOperations s) resourceID"

definition ActivePowerOperation :: "store_error option \<Rightarrow> rid \<Rightarrow> snapshot \<Rightarrow> PowerOperation option" where
  "ActivePowerOperation ctxErr clusterID s =
     (if ctxErr \<noteq> None then None
      else List.find (\<lambda>operation. po_ClusterID operation = clusterID \<and> \<not> TerminalPowerState (po_State operation)) (map snd (PowerOperations s)))"

text \<open>Newest first; equal times are ordered by creation, then by identifier.\<close>

definition powerKey :: "PowerOperation \<Rightarrow> go_time \<times> go_time \<times> rid" where
  "powerKey operation = (po_UpdatedAt operation, po_CreatedAt operation, po_ResourceID operation)"

definition PowerOperationsByCluster :: "rid \<Rightarrow> snapshot \<Rightarrow> PowerOperation list" where
  "PowerOperationsByCluster clusterID s = rev (sort_key powerKey (filter (\<lambda>operation. po_ClusterID operation = clusterID) (map snd (PowerOperations s))))"

definition transitionGate :: "PowerState \<Rightarrow> bool" where
  "transitionGate state \<longleftrightarrow> state = PowerPrechecking \<or> state = PowerMaintenance \<or> state = PowerShutdownPlanned \<or> state = PowerShuttingDown"

definition movedPower :: "go_time \<Rightarrow> PowerState \<Rightarrow> string \<Rightarrow> string \<Rightarrow> PowerSnapshot option \<Rightarrow> PowerOperation \<Rightarrow> PowerOperation" where
  "movedPower now targetState approvedBy message powerSnapshot operation = operation\<lparr>po_State := targetState,
     po_MetadataRevision := po_MetadataRevision operation + 1, po_UpdatedAt := now,
     po_ApprovedBy := (if TrimSpace approvedBy \<noteq> [] then approvedBy else po_ApprovedBy operation),
     po_Message := (if TrimSpace message \<noteq> [] then message else po_Message operation),
     po_Snapshot := (if powerSnapshot \<noteq> None then powerSnapshot else po_Snapshot operation),
     po_CompletedAt := (if TerminalPowerState targetState then now else po_CompletedAt operation)\<rparr>"

definition TransitionPowerOperation :: "repo_env \<Rightarrow> store_error option \<Rightarrow> rid \<Rightarrow> uint64 \<Rightarrow> PowerState \<Rightarrow> string \<Rightarrow> string \<Rightarrow> PowerSnapshot option \<Rightarrow> snapshot \<Rightarrow>
    (store_error + PowerOperation) \<times> snapshot" where
  "TransitionPowerOperation env ctxErr resourceID expectedRevision targetState approvedBy message powerSnapshot s =
     (case ctxErr of Some e \<Rightarrow> (Inl e, s)
      | None \<Rightarrow>
          if \<not> ValidResourceID resourceID then (Inl (ErrValidation ''power operation ID is invalid''), s)
          else if \<not> PowerState_Valid targetState then (Inl (ErrValidation ''power state is invalid''), s)
          else if transitionGate targetState \<and> list_ex snd (ConfigurationTasksActive s) then (Inl (ErrConflict ''configuration distribution maintenance active''), s)
          else case map_of (PowerOperations s) resourceID of
              None \<Rightarrow> (Inl (ErrNotFound (''unknown power operation ID: '' @ resourceID)), s)
            | Some operation \<Rightarrow>
                if po_MetadataRevision operation \<noteq> expectedRevision then (Inl (ErrConflict ''power operation metadata revision changed''), s)
                else if TerminalPowerState (po_State operation) then (Inl (ErrConflict ''power operation is already terminal''), s)
                else if \<not> ValidPowerTransition (po_State operation) targetState then (Inl (ErrConflict ''invalid power state transition''), s)
                else
                  let operation = movedPower (env_now env) targetState approvedBy message powerSnapshot operation
                  in commitPower env s (s\<lparr>PowerOperations := AList.update resourceID operation (PowerOperations s)\<rparr>) operation)"

section \<open>Protections\<close>

definition SetMaintenance :: "repo_env \<Rightarrow> store_error option \<Rightarrow> rid \<Rightarrow> rid \<Rightarrow> bool \<Rightarrow> snapshot \<Rightarrow> store_error option \<times> snapshot" where
  "SetMaintenance env ctxErr clusterID instanceID val s =
     (case ctxErr of Some e \<Rightarrow> (Some e, s)
      | None \<Rightarrow>
          if \<not> ValidResourceID clusterID \<or> \<not> ValidResourceID instanceID then (Some (ErrValidation ''maintenance resource scope is invalid''), s)
          else case map_of (Instances s) instanceID of
              None \<Rightarrow> (Some (ErrValidation ''maintenance target is not in the selected cluster''), s)
            | Some i \<Rightarrow>
                if di_ClusterID i \<noteq> clusterID then (Some (ErrValidation ''maintenance target is not in the selected cluster''), s)
                else if \<not> val \<and> DisasterRecoveryActive (clusterOf s clusterID)
                then (Some (ErrConflict ''disaster recovery member protection cannot be released separately''), s)
                else if di_Maintenance i = val then (None, s)
                else commitSnapshotLocked env s (s\<lparr>Instances := AList.update instanceID
                       (i\<lparr>di_Maintenance := val, di_MetadataRevision := di_MetadataRevision i + 1, di_UpdatedAt := env_now env\<rparr>) (Instances s)\<rparr>))"

definition repository_Maintenance :: "store_error option \<Rightarrow> rid \<Rightarrow> rid \<Rightarrow> snapshot \<Rightarrow> store_error + bool" where
  "repository_Maintenance ctxErr clusterID instanceID s =
     (case ctxErr of Some e \<Rightarrow> Inl e
      | None \<Rightarrow>
         (case map_of (Instances s) instanceID of
            None \<Rightarrow> Inl (ErrValidation ''maintenance target is not in the selected cluster'')
          | Some i \<Rightarrow> if di_ClusterID i \<noteq> clusterID then Inl (ErrValidation ''maintenance target is not in the selected cluster'') else Inr (di_Maintenance i)))"

text \<open>
  The two protection changes freeze or release the cluster and then its instances one by one, each with a commit of its own: \<open>env n\<close> is
  the environment of the \<open>n\<close>-th. The instances come in the order of their display names, the argument \<open>ids\<close>.
\<close>

fun maintenance_loop :: "(nat \<Rightarrow> repo_env) \<Rightarrow> store_error option \<Rightarrow> rid \<Rightarrow> bool \<Rightarrow> rid list \<Rightarrow> nat \<Rightarrow> snapshot \<Rightarrow> store_error option \<times> snapshot" where
  "maintenance_loop env ctxErr clusterID val [] n s = (None, s)"
| "maintenance_loop env ctxErr clusterID val (i # is) n s =
     (case SetMaintenance (env n) ctxErr clusterID i val s of
        (Some e, s') \<Rightarrow> (Some e, s')
      | (None, s') \<Rightarrow> maintenance_loop env ctxErr clusterID val is (n + 1) s')"

definition ApplyPowerProtections :: "(nat \<Rightarrow> repo_env) \<Rightarrow> store_error option \<Rightarrow> rid \<Rightarrow> rid list \<Rightarrow> snapshot \<Rightarrow> store_error option \<times> snapshot" where
  "ApplyPowerProtections env ctxErr clusterID ids s =
     (case SetRecoveryFreeze (env 0) ctxErr clusterID True s of
        (Some e, s') \<Rightarrow> (Some e, s')
      | (None, s') \<Rightarrow> maintenance_loop env ctxErr clusterID True ids 1 s')"

definition ReleasePowerProtections :: "(nat \<Rightarrow> repo_env) \<Rightarrow> store_error option \<Rightarrow> rid \<Rightarrow> rid list \<Rightarrow> snapshot \<Rightarrow> store_error option \<times> snapshot" where
  "ReleasePowerProtections env ctxErr clusterID ids s =
     (case SetRecoveryFreeze (env 0) ctxErr clusterID False s of
        (Some e, s') \<Rightarrow> (Some e, s')
      | (None, s') \<Rightarrow> maintenance_loop env ctxErr clusterID False ids 1 s')"

fun latest_power :: "PowerOperation list \<Rightarrow> PowerOperation option \<Rightarrow> PowerOperation option" where
  "latest_power [] latest' = latest'"
| "latest_power (operation # operations) latest' =
     (case latest' of
        None \<Rightarrow> latest_power operations (Some operation)
      | Some l \<Rightarrow>
          if po_UpdatedAt operation > po_UpdatedAt l \<or> po_UpdatedAt operation = po_UpdatedAt l \<and> po_CreatedAt operation > po_CreatedAt l \<or>
             po_UpdatedAt operation = po_UpdatedAt l \<and> po_CreatedAt operation = po_CreatedAt l \<and> po_ResourceID operation > po_ResourceID l
          then latest_power operations (Some operation) else latest_power operations (Some l))"

definition powerProtects :: "PowerState \<Rightarrow> bool" where
  "powerProtects state \<longleftrightarrow> state = PowerShuttingDown \<or> state = PowerPoweredOff \<or> state = PowerBootDetected \<or> state = PowerRecovering \<or> state = PowerVerifying \<or>
     state = PowerFailed"

definition IsClusterPowerProtected :: "rid \<Rightarrow> snapshot \<Rightarrow> bool \<times> PowerState" where
  "IsClusterPowerProtected clusterID s =
     (case latest_power (filter (\<lambda>operation. po_ClusterID operation = clusterID) (map snd (PowerOperations s))) None of
        None \<Rightarrow> (False, PowerNormal)
      | Some l \<Rightarrow>
          let cluster = clusterOf s clusterID in
          if \<not> cl_RecoveryFreeze cluster \<and>
             (case cl_Recovery cluster of None \<Rightarrow> False
              | Some r \<Rightarrow> rs_LastRecoveryStatus r = ''succeeded'' \<and> rs_IncidentRecovered r \<and> rs_RecoveredAt r > po_UpdatedAt l)
          then (False, PowerNormal)
          else if powerProtects (po_State l) then (True, po_State l) else (False, PowerNormal))"

section \<open>Completion\<close>

definition completedPower :: "go_time \<Rightarrow> PowerOperation \<Rightarrow> PowerOperation" where
  "completedPower now operation = operation\<lparr>po_State := PowerCompleted, po_CompletedAt := now, po_UpdatedAt := now,
     po_MetadataRevision := po_MetadataRevision operation + 1, po_Message := ''recovery verified; completion and protection release committed atomically''\<rparr>"

definition CompletePowerRecovery :: "repo_env \<Rightarrow> store_error option \<Rightarrow> rid \<Rightarrow> uint64 \<Rightarrow> go_time \<Rightarrow> snapshot \<Rightarrow> (store_error + PowerOperation) \<times> snapshot" where
  "CompletePowerRecovery env ctxErr resourceID revision observedAt s =
     (case ctxErr of Some e \<Rightarrow> (Inl e, s)
      | None \<Rightarrow>
         (case map_of (PowerOperations s) resourceID of
            None \<Rightarrow> (Inl (ErrNotFound ''unknown power operation''), s)
          | Some operation \<Rightarrow>
              if po_MetadataRevision operation \<noteq> revision \<or> po_State operation \<noteq> PowerVerifying then (Inl (ErrConflict ''power recovery verification changed''), s)
              else case map_of (TopologySnapshots s) (po_ClusterID operation) of
                  None \<Rightarrow> (Inl (ErrConflict ''verified power topology changed''), s)
                | Some topology \<Rightarrow>
                    if IsZero observedAt \<or> ts_ObservedAt topology \<noteq> observedAt then (Inl (ErrConflict ''verified power topology changed''), s)
                    else
                      let clusterID = po_ClusterID operation; cluster = clusterOf s clusterID in
                      if DisasterRecoveryActive cluster then (Inl (ErrConflict ''disaster recovery owns the cluster protections''), s)
                      else
                        let now = env_now env;
                            operation = completedPower now operation;
                            next = putCluster clusterID (cluster\<lparr>cl_RecoveryFreeze := False, cl_UpdatedAt := now, cl_MetadataRevision := cl_MetadataRevision cluster + 1\<rparr>)
                              (s\<lparr>PowerOperations := AList.update resourceID operation (PowerOperations s)\<rparr>);
                            released = AList.update clusterID (releaseTopology topology) (TopologySnapshots s);
                            next = next\<lparr>Instances := protectMembers clusterID False now (Instances next), TopologySnapshots := released\<rparr>
                        in commitPower env (s\<lparr>TopologySnapshots := released\<rparr>) next operation))"

section \<open>The lifecycle moves forward\<close>

inductive power_step :: "snapshot \<Rightarrow> snapshot \<Rightarrow> bool" where
  power_create: "CreatePowerOperation env ctxErr operation fresh s = (r, s') \<Longrightarrow> fresh \<notin> fst ` set (PowerOperations s) \<Longrightarrow> power_step s s'"
| power_transition: "TransitionPowerOperation env ctxErr k revision target approvedBy message snap s = (r, s') \<Longrightarrow> power_step s s'"
| power_complete: "CompletePowerRecovery env ctxErr k revision observedAt s = (r, s') \<Longrightarrow> power_step s s'"

definition power_wf :: "snapshot \<Rightarrow> bool" where
  "power_wf s \<longleftrightarrow> keyed_by po_ResourceID (PowerOperations s) \<and>
     (\<forall>p \<in> snd ` set (PowerOperations s). \<forall>q \<in> snd ` set (PowerOperations s).
        po_ClusterID p = po_ClusterID q \<and> \<not> TerminalPowerState (po_State p) \<and> \<not> TerminalPowerState (po_State q) \<longrightarrow> p = q)"

lemma commitPower_table:
  "commitPower env c next operation = (r, s') \<Longrightarrow> PowerOperations s' = PowerOperations c \<or> PowerOperations s' = PowerOperations next"
  by (auto simp: commitPower_def commitSnapshotLocked_def Let_def split: commit_outcome.splits prod.splits option.splits)

text \<open>A moved operation leaves a state that is not terminal, keeps its cluster, and gets the next revision.\<close>

definition powerMoved :: "PowerOperation \<Rightarrow> PowerOperation \<Rightarrow> bool" where
  "powerMoved p p' \<longleftrightarrow> ValidPowerTransition (po_State p) (po_State p') \<and> \<not> TerminalPowerState (po_State p) \<and> po_MetadataRevision p' = po_MetadataRevision p + 1 \<and>
     po_ClusterID p' = po_ClusterID p \<and> po_ResourceID p' = po_ResourceID p"

lemma power_update_wf:
  assumes "power_wf s" "map_of (PowerOperations s) k = Some p" "powerMoved p p'" "PowerOperations s' = AList.update k p' (PowerOperations s)"
  shows "power_wf s' \<and> (\<forall>j q. map_of (PowerOperations s) j = Some q \<longrightarrow> (\<exists>q'. map_of (PowerOperations s') j = Some q' \<and> (q' = q \<or> powerMoved q q')))"
proof -
  have key: "keyed_by po_ResourceID (PowerOperations s)" and
    one: "\<And>p q. p \<in> snd ` set (PowerOperations s) \<Longrightarrow> q \<in> snd ` set (PowerOperations s) \<Longrightarrow> po_ClusterID p = po_ClusterID q \<Longrightarrow>
      \<not> TerminalPowerState (po_State p) \<Longrightarrow> \<not> TerminalPowerState (po_State q) \<Longrightarrow> p = q"
    using assms(1) unfolding power_wf_def by blast+
  have kp: "p \<in> snd ` set (PowerOperations s)" "po_ResourceID p = k" using assms(2) keyed_by_lookup [OF key] key by (force simp: keyed_by_def)+
  have m: "po_ResourceID p' = k" "po_ClusterID p' = po_ClusterID p" "\<not> TerminalPowerState (po_State p)" using assms(3) kp by (simp_all add: powerMoved_def)
  have same: False if "q \<in> snd ` set (PowerOperations s)" "po_ResourceID q \<noteq> k" "po_ClusterID q = po_ClusterID p'" "\<not> TerminalPowerState (po_State q)" for q
    using one [OF that(1) kp(1)] that m kp(2) by auto
  have key': "keyed_by po_ResourceID (PowerOperations s')" unfolding assms(4) by (rule keyed_by_update [OF key m(1)])
  have "\<forall>a \<in> snd ` set (PowerOperations s'). \<forall>b \<in> snd ` set (PowerOperations s').
      po_ClusterID a = po_ClusterID b \<and> \<not> TerminalPowerState (po_State a) \<and> \<not> TerminalPowerState (po_State b) \<longrightarrow> a = b"
    unfolding assms(4) keyed_by_values_update [OF key m(1)]
  proof (intro ballI impI)
    fix a b
    assume ab: "a \<in> insert p' {q \<in> snd ` set (PowerOperations s). po_ResourceID q \<noteq> k}" "b \<in> insert p' {q \<in> snd ` set (PowerOperations s). po_ResourceID q \<noteq> k}"
      "po_ClusterID a = po_ClusterID b \<and> \<not> TerminalPowerState (po_State a) \<and> \<not> TerminalPowerState (po_State b)"
    show "a = b"
      using ab one [of a b] same [of a] same [of b] by (cases "a = p'"; cases "b = p'") auto
  qed
  with key' have "power_wf s'" unfolding power_wf_def by blast
  moreover have "\<exists>q'. map_of (PowerOperations s') j = Some q' \<and> (q' = q \<or> powerMoved q q')" if "map_of (PowerOperations s) j = Some q" for j q
    using that assms(2,3) by (cases "j = k") (simp_all add: assms(4) update_conv')
  ultimately show ?thesis by blast
qed

lemma TransitionPowerOperation_cases:
  assumes "TransitionPowerOperation env ctxErr k revision target approvedBy message snap s = (r, s')"
  shows "PowerOperations s' = PowerOperations s \<or>
    (\<exists>p. map_of (PowerOperations s) k = Some p \<and> powerMoved p (movedPower (env_now env) target approvedBy message snap p) \<and>
      PowerOperations s' = AList.update k (movedPower (env_now env) target approvedBy message snap p) (PowerOperations s))"
proof (cases "map_of (PowerOperations s) k")
  case None
  with assms show ?thesis by (auto simp: TransitionPowerOperation_def split: option.splits if_splits)
next
  case (Some p)
  show ?thesis
  proof (cases "powerMoved p (movedPower (env_now env) target approvedBy message snap p)")
    case True
    with assms Some show ?thesis
      by (cases ctxErr) (auto simp: TransitionPowerOperation_def Let_def split: if_splits dest!: commitPower_table)
  next
    case False
    then have "TerminalPowerState (po_State p) \<or> \<not> ValidPowerTransition (po_State p) target" by (auto simp: powerMoved_def movedPower_def)
    with assms Some show ?thesis by (cases ctxErr) (auto simp: TransitionPowerOperation_def split: if_splits)
  qed
qed

lemma CompletePowerRecovery_cases:
  assumes "CompletePowerRecovery env ctxErr k revision observedAt s = (r, s')"
  shows "PowerOperations s' = PowerOperations s \<or>
    (\<exists>p. map_of (PowerOperations s) k = Some p \<and> powerMoved p (completedPower (env_now env) p) \<and>
      PowerOperations s' = AList.update k (completedPower (env_now env) p) (PowerOperations s))"
proof (cases "map_of (PowerOperations s) k")
  case None
  with assms show ?thesis by (auto simp: CompletePowerRecovery_def split: option.splits)
next
  case (Some p)
  show ?thesis
  proof (cases "po_State p = PowerVerifying")
    case True
    then have "powerMoved p (completedPower (env_now env) p)" by (simp add: powerMoved_def completedPower_def ValidPowerTransition_def TerminalPowerState_def)
    with assms Some show ?thesis
      by (cases ctxErr; cases "map_of (TopologySnapshots s) (po_ClusterID p)")
        (auto simp: CompletePowerRecovery_def Let_def putCluster_def split: if_splits dest!: commitPower_table)
  next
    case False
    with assms Some show ?thesis by (cases ctxErr) (auto simp: CompletePowerRecovery_def split: if_splits)
  qed
qed

lemma CreatePowerOperation_cases:
  assumes "CreatePowerOperation env ctxErr operation fresh s = (r, s')"
  shows "PowerOperations s' = PowerOperations s \<or>
    (\<exists>p. po_ResourceID p = fresh \<and> \<not> activePower (po_ClusterID p) s \<and> PowerOperations s' = AList.update fresh p (PowerOperations s))"
proof (cases ctxErr)
  case None
  show ?thesis
  proof (cases "map_of (Clusters s) (po_ClusterID operation)")
    case (Some cluster)
    let ?p = "createdPower fresh (env_now env) cluster operation"
    have p: "po_ResourceID ?p = fresh" "po_ClusterID ?p = po_ClusterID operation" by (simp_all add: createdPower_def)
    have "PowerOperations s' = PowerOperations s \<or> \<not> activePower (po_ClusterID ?p) s \<and> PowerOperations s' = AList.update fresh ?p (PowerOperations s)"
      using assms None Some p by (auto simp: CreatePowerOperation_def Let_def putPower_def split: if_splits dest!: commitPower_table)
    with p(1) show ?thesis by blast
  qed (use assms None in \<open>auto simp: CreatePowerOperation_def split: if_splits\<close>)
qed (use assms in \<open>simp add: CreatePowerOperation_def\<close>)

text \<open>
  (C37) A cluster has at most one power lifecycle in progress, and a lifecycle only moves forward: every step of the
  repository leaves each recorded operation as it is or moves it along an allowed transition with the
  next revision; an operation that completed or failed is never changed again.
\<close>

theorem power_lifecycle:
  assumes "power_step s s'" "power_wf s"
  shows "power_wf s' \<and> (\<forall>k p. map_of (PowerOperations s) k = Some p \<longrightarrow>
    (\<exists>p'. map_of (PowerOperations s') k = Some p' \<and> (p' = p \<or> powerMoved p p')))"
  using assms
proof (induction rule: power_step.induct)
  case (power_create env ctxErr operation fresh s r s')
  have key: "keyed_by po_ResourceID (PowerOperations s)" and
    one: "\<And>p q. p \<in> snd ` set (PowerOperations s) \<Longrightarrow> q \<in> snd ` set (PowerOperations s) \<Longrightarrow> po_ClusterID p = po_ClusterID q \<Longrightarrow>
      \<not> TerminalPowerState (po_State p) \<Longrightarrow> \<not> TerminalPowerState (po_State q) \<Longrightarrow> p = q"
    using power_create(3) unfolding power_wf_def by blast+
  show ?case
  proof (cases "PowerOperations s' = PowerOperations s")
    case False
    with CreatePowerOperation_cases [OF power_create(1)] obtain p where p: "po_ResourceID p = fresh" "\<not> activePower (po_ClusterID p) s"
        "PowerOperations s' = AList.update fresh p (PowerOperations s)" by blast
    have idle: "TerminalPowerState (po_State q)" if "q \<in> snd ` set (PowerOperations s)" "po_ClusterID q = po_ClusterID p" for q
      using p(2) that by (auto simp: activePower_def list_ex_iff)
    have "keyed_by po_ResourceID (PowerOperations s')" unfolding p(3) by (rule keyed_by_update [OF key p(1)])
    moreover have "a = b" if "a \<in> snd ` set (PowerOperations s')" "b \<in> snd ` set (PowerOperations s')" "po_ClusterID a = po_ClusterID b"
        "\<not> TerminalPowerState (po_State a)" "\<not> TerminalPowerState (po_State b)" for a b
      using that one [of a b] idle [of a] idle [of b] unfolding p(3) keyed_by_values_update [OF key p(1)]
      by (cases "a = p"; cases "b = p") auto
    ultimately have "power_wf s'" unfolding power_wf_def by blast
    moreover have "map_of (PowerOperations s') k = Some q" if "map_of (PowerOperations s) k = Some q" for k q
    proof -
      have "k \<noteq> fresh" using that power_create(2) by (metis map_of_eq_None_iff option.distinct(1))
      with that show ?thesis by (simp add: p(3) update_conv')
    qed
    ultimately show ?thesis by blast
  qed (use power_create(3) in \<open>simp add: power_wf_def\<close>)
next
  case (power_transition env ctxErr k revision target approvedBy message snap s r s')
  show ?case
  proof (cases "PowerOperations s' = PowerOperations s")
    case False
    with TransitionPowerOperation_cases [OF power_transition(1)] power_update_wf [OF power_transition(2)] show ?thesis by blast
  qed (use power_transition(2) in \<open>simp add: power_wf_def\<close>)
next
  case (power_complete env ctxErr k revision observedAt s r s')
  show ?case
  proof (cases "PowerOperations s' = PowerOperations s")
    case False
    with CompletePowerRecovery_cases [OF power_complete(1)] power_update_wf [OF power_complete(2)] show ?thesis by blast
  qed (use power_complete(2) in \<open>simp add: power_wf_def\<close>)
qed

text \<open>
  (C38) The stored topology changes even when the commit of a completed power recovery is refused: the maintenance flags of its instances are
  cleared, while the operation, the cluster and the instances stay as they were.
\<close>

lemma CompletePowerRecovery_refused_commit:
  assumes "map_of (PowerOperations s) k = Some p" "po_State p = PowerVerifying" "map_of (TopologySnapshots s) (po_ClusterID p) = Some topology"
    "\<not> IsZero (ts_ObservedAt topology)" "\<not> DisasterRecoveryActive (clusterOf s (po_ClusterID p))" "\<And>x y. env_commit env x y = CommitRejected e"
  shows "CompletePowerRecovery env None k (po_MetadataRevision p) (ts_ObservedAt topology) s =
    (Inl e, s\<lparr>TopologySnapshots := AList.update (po_ClusterID p) (releaseTopology topology) (TopologySnapshots s)\<rparr>)"
  using assms by (simp add: CompletePowerRecovery_def Let_def commitPower_def commitSnapshotLocked_def)

definition samplePower :: PowerOperation where
  "samplePower = \<lparr>po_ResourceID = [], po_MetadataRevision = 0, po_CreatedAt = 0, po_UpdatedAt = 0, po_ClusterID = sampleID (CHR ''1''), po_Engine = EngineMySQL,
     po_OperationType = PowerService, po_State = PowerNormal, po_Mode = [], po_RequestedBy = ''admin'', po_ApprovedBy = [], po_OperationID = [], po_AutoRecovery = True,
     po_Snapshot = None, po_Message = [], po_StartedAt = 0, po_CompletedAt = 0\<rparr>"

theorem CompletePowerRecovery_refused_commit_witness:
  "\<exists>s s' topology. CompletePowerRecovery \<lparr>env_now = 9, env_commit = \<lambda>_ _. CommitRejected (ErrConflict [])\<rparr> None (sampleID (CHR ''8'')) 0 7 s = (Inl (ErrConflict []), s') \<and>
     map_of (TopologySnapshots s) (sampleID (CHR ''1'')) = Some topology \<and> list_ex di_Maintenance (ts_Instances topology) \<and>
     map_of (TopologySnapshots s') (sampleID (CHR ''1'')) = Some (releaseTopology topology) \<and> \<not> list_ex di_Maintenance (ts_Instances (releaseTopology topology))"
proof -
  define topology where "topology = zeroTopology\<lparr>ts_ObservedAt := 7, ts_Instances := [zeroInstance\<lparr>di_Maintenance := True\<rparr>]\<rparr>"
  define s where "s = emptySnapshot\<lparr>PowerOperations := [(sampleID (CHR ''8''), samplePower\<lparr>po_State := PowerVerifying\<rparr>)], TopologySnapshots := [(sampleID (CHR ''1''), topology)]\<rparr>"
  have "CompletePowerRecovery \<lparr>env_now = 9, env_commit = \<lambda>_ _. CommitRejected (ErrConflict [])\<rparr> None (sampleID (CHR ''8'')) 0 7 s =
      (Inl (ErrConflict []), s\<lparr>TopologySnapshots := AList.update (sampleID (CHR ''1'')) (releaseTopology topology) (TopologySnapshots s)\<rparr>)"
    using CompletePowerRecovery_refused_commit [of s "sampleID (CHR ''8'')" "samplePower\<lparr>po_State := PowerVerifying\<rparr>" topology
        "\<lparr>env_now = 9, env_commit = \<lambda>_ _. CommitRejected (ErrConflict [])\<rparr>" "ErrConflict []"]
    by (simp add: s_def topology_def samplePower_def IsZero_def clusterOf_def emptySnapshot_def zeroCluster_def DisasterRecoveryActive_def)
  then show ?thesis by (intro exI [of _ s] exI conjI) (auto simp: s_def topology_def releaseTopology_def)
qed

theorem power_lifecycle_witness:
  "\<exists>s'. power_step (emptySnapshot\<lparr>Clusters := [(sampleID (CHR ''1''), zeroCluster)]\<rparr>) s' \<and> power_wf s' \<and> activePower (sampleID (CHR ''1'')) s'"
proof -
  let ?s = "emptySnapshot\<lparr>Clusters := [(sampleID (CHR ''1''), zeroCluster)]\<rparr>"
  obtain r s' where c: "CreatePowerOperation (sampleRepoEnv 5) None samplePower (sampleID (CHR ''8'')) ?s = (r, s')" by fastforce
  have "activePower (sampleID (CHR ''1'')) (snd (CreatePowerOperation (sampleRepoEnv 5) None samplePower (sampleID (CHR ''8'')) ?s))" by code_simp
  then have a: "activePower (sampleID (CHR ''1'')) s'" unfolding c by simp
  have "power_step ?s s'" by (rule power_create [OF c]) (simp add: emptySnapshot_def)
  moreover have "power_wf ?s" by (simp add: power_wf_def emptySnapshot_def)
  ultimately show ?thesis using power_lifecycle [of ?s s'] a by blast
qed

end
