(* ===== verification/Recovery_Protocol.thy ===== *)
theory Recovery_Protocol
  imports Power_Store Leases
begin

text \<open>
  Disaster recovery against the lease table: the recovery operations of the repository, the lease operations, the release of
  protections by a power recovery or an administrator, and all other work of the repository as steps of one system with a clock. The
  invariant says what a recovery in progress guarantees; it is the reason why no old
  writer can be authorised while the history of a cluster is being reconstructed.
\<close>

section \<open>The invariant\<close>

definition activeStage :: "RecoveryStage \<Rightarrow> bool" where
  "activeStage stage \<longleftrightarrow> stage \<in> {RecoveryFencing, RecoveryInspecting, RecoverySelecting, RecoveryStarting, RecoveryRebuilding, RecoveryVerifying, RecoveryCommitted}"

definition selectedStage :: "RecoveryStage \<Rightarrow> bool" where
  "selectedStage stage \<longleftrightarrow> stage \<in> {RecoveryStarting, RecoveryRebuilding, RecoveryVerifying, RecoveryCommitted}"

text \<open>An attempted recovery has acquired its protections and has not released them.\<close>

definition attempted :: "RecoveryTask \<Rightarrow> bool" where
  "attempted task \<longleftrightarrow> \<not> closedTask task \<and> \<not> IsZero (rt_AttemptStartedAt task)"

definition statusOf :: "RecoveryStage \<Rightarrow> string" where
  "statusOf stage = (if stage = RecoveryBlocked then ''blocked'' else if stage = RecoveryCommitted then ''committed'' else ''running'')"

definition protected :: "snapshot \<Rightarrow> RecoveryTask \<Rightarrow> bool" where
  "protected s task \<longleftrightarrow> (\<exists>cluster r. map_of (Clusters s) (rt_ClusterID task) = Some cluster \<and> cl_RecoveryFreeze cluster \<and> cl_Recovery cluster = Some r \<and>
     rs_TaskID r = rt_ResourceID task \<and> rs_LastRecoveryStatus r = statusOf (rt_Stage task))"

definition quiet :: "go_time \<Rightarrow> snapshot \<Rightarrow> RecoveryTask \<Rightarrow> bool" where
  "quiet t s task \<longleftrightarrow> (\<forall>l \<in> lease_set s. l_ClusterID l = rt_ClusterID task \<and> leaseLive t l \<longrightarrow>
     \<not> IsZero (rt_CommittedAt task) \<and> l_OwnerID l = rt_PrimaryID task \<and> l_OperationID l = l_HAEndpointID l)"

definition task_ok :: "(RecoveryEvidence \<Rightarrow> string) \<Rightarrow> go_time \<Rightarrow> snapshot \<Rightarrow> RecoveryTask \<Rightarrow> bool" where
  "task_ok digest t s task \<longleftrightarrow>
     (activeStage (rt_Stage task) \<longrightarrow> attempted task) \<and>
     (attempted task \<longrightarrow> (activeStage (rt_Stage task) \<or> rt_Stage task = RecoveryBlocked) \<and> protected s task \<and> quiet t s task) \<and>
     (activeStage (rt_Stage task) \<and> rt_Stage task \<noteq> RecoveryCommitted \<longrightarrow> IsZero (rt_CommittedAt task)) \<and>
     (selectedStage (rt_Stage task) \<or> \<not> IsZero (rt_CommittedAt task) \<longrightarrow>
        Select digest (rt_Members task) (rt_Evidence task) (rt_Proofs task) = Inr (rt_PrimaryID task))"

abbreviation tasks :: "snapshot \<Rightarrow> RecoveryTask set" where
  "tasks s \<equiv> snd ` set (RecoveryTasks s)"

definition recovery_inv :: "(RecoveryEvidence \<Rightarrow> string) \<Rightarrow> go_time \<Rightarrow> snapshot \<Rightarrow> bool" where
  "recovery_inv digest t s \<longleftrightarrow> 0 < t \<and> keyed_by rt_ResourceID (RecoveryTasks s) \<and>
     (\<forall>a \<in> tasks s. \<forall>b \<in> tasks s. \<not> closedTask a \<and> \<not> closedTask b \<and> rt_ClusterID a = rt_ClusterID b \<longrightarrow> a = b) \<and>
     (\<forall>task \<in> tasks s. task_ok digest t s task)"

lemma recovery_invI:
  "0 < t \<Longrightarrow> keyed_by rt_ResourceID (RecoveryTasks s) \<Longrightarrow>
   (\<And>a b. a \<in> tasks s \<Longrightarrow> b \<in> tasks s \<Longrightarrow> \<not> closedTask a \<Longrightarrow> \<not> closedTask b \<Longrightarrow> rt_ClusterID a = rt_ClusterID b \<Longrightarrow> a = b) \<Longrightarrow>
   (\<And>a. a \<in> tasks s \<Longrightarrow> task_ok digest t s a) \<Longrightarrow> recovery_inv digest t s"
  unfolding recovery_inv_def by blast

lemma recovery_invD:
  assumes "recovery_inv digest t s"
  shows "0 < t" "keyed_by rt_ResourceID (RecoveryTasks s)" "a \<in> tasks s \<Longrightarrow> task_ok digest t s a"
    "a \<in> tasks s \<Longrightarrow> b \<in> tasks s \<Longrightarrow> \<not> closedTask a \<Longrightarrow> \<not> closedTask b \<Longrightarrow> rt_ClusterID a = rt_ClusterID b \<Longrightarrow> a = b"
  using assms unfolding recovery_inv_def by blast+

section \<open>Steps\<close>

definition sameProtection :: "snapshot \<Rightarrow> snapshot \<Rightarrow> rid \<Rightarrow> bool" where
  "sameProtection s s' c \<longleftrightarrow> map_option (\<lambda>cluster. (cl_RecoveryFreeze cluster, cl_Recovery cluster)) (map_of (Clusters s') c) =
     map_option (\<lambda>cluster. (cl_RecoveryFreeze cluster, cl_Recovery cluster)) (map_of (Clusters s) c)"

text \<open>
  A step happens at an instant not before the clock. The last rule stands for all other operations of the repository: they
  leave the recovery tasks, the leases and the protections of the clusters alone.
\<close>

inductive recovery_step :: "(RecoveryEvidence \<Rightarrow> string) \<Rightarrow> go_time \<times> snapshot \<Rightarrow> go_time \<times> snapshot \<Rightarrow> bool" for digest where
  step_plan: "PlanRecovery env planDigest ctxErr c actor fresh s = (r, s') \<Longrightarrow> fresh \<notin> fst ` set (RecoveryTasks s) \<Longrightarrow> t \<le> env_now env \<Longrightarrow>
    recovery_step digest (t, s) (env_now env, s')"
| step_fail: "RecordRecoveryStartFailure env redactText ctxErr k revision message s = (e, s') \<Longrightarrow> t \<le> env_now env \<Longrightarrow> recovery_step digest (t, s) (env_now env, s')"
| step_begin: "BeginRecovery env ctxErr k revision leaseID s = (r, s') \<Longrightarrow> t \<le> env_now env \<Longrightarrow> recovery_step digest (t, s) (env_now env, s')"
| step_advance: "AdvanceRecovery env digest redactText ctxErr task event s = (r, s') \<Longrightarrow> t \<le> env_now env \<Longrightarrow> recovery_step digest (t, s) (env_now env, s')"
| step_commit: "CommitRecovery env ctxErr task topology s = (r, s') \<Longrightarrow> t \<le> env_now env \<Longrightarrow> recovery_step digest (t, s) (env_now env, s')"
| step_complete: "CompleteRecovery env ctxErr task s = (r, s') \<Longrightarrow> t \<le> env_now env \<Longrightarrow> recovery_step digest (t, s) (env_now env, s')"
| step_block: "BlockAbandonedRecoveries env ctxErr s = (e, s') \<Longrightarrow> t \<le> env_now env \<Longrightarrow> recovery_step digest (t, s) (env_now env, s')"
| step_put: "PutCoordinationLease env lease s = (e, s') \<Longrightarrow> t \<le> env_now env \<Longrightarrow> recovery_step digest (t, s) (env_now env, s')"
| step_delete: "DeleteCoordinationLease env k s = (e, s') \<Longrightarrow> t \<le> env_now env \<Longrightarrow> recovery_step digest (t, s) (env_now env, s')"
| step_replace: "ReplaceCoordinationLeases env leases s = (e, s') \<Longrightarrow> t \<le> env_now env \<Longrightarrow> recovery_step digest (t, s) (env_now env, s')"
| step_freeze: "SetRecoveryFreeze env ctxErr c val s = (e, s') \<Longrightarrow> t \<le> env_now env \<Longrightarrow> recovery_step digest (t, s) (env_now env, s')"
| step_power: "CompletePowerRecovery env ctxErr k revision observedAt s = (p, s') \<Longrightarrow> t \<le> env_now env \<Longrightarrow> recovery_step digest (t, s) (env_now env, s')"
| step_other: "RecoveryTasks s' = RecoveryTasks s \<Longrightarrow> CoordinationLeases s' = CoordinationLeases s \<Longrightarrow> \<forall>c. sameProtection s s' c \<Longrightarrow> t \<le> t' \<Longrightarrow>
    recovery_step digest (t, s) (t', s')"

section \<open>What leaves the invariant alone\<close>

definition fewerLeases :: "snapshot \<Rightarrow> snapshot \<Rightarrow> rid \<Rightarrow> bool" where
  "fewerLeases s s' c \<longleftrightarrow> (\<forall>l \<in> lease_set s'. l_ClusterID l = c \<longrightarrow> l \<in> lease_set s)"

lemma task_ok_frame:
  assumes "task_ok digest t s x" "t \<le> t'" "attempted x \<Longrightarrow> sameProtection s s' (rt_ClusterID x) \<and> fewerLeases s s' (rt_ClusterID x)"
  shows "task_ok digest t' s' x"
proof (cases "attempted x")
  case True
  with assms(1) have ok: "protected s x" "quiet t s x" by (auto simp: task_ok_def)
  then obtain cluster r where c: "map_of (Clusters s) (rt_ClusterID x) = Some cluster" "cl_RecoveryFreeze cluster" "cl_Recovery cluster = Some r"
      "rs_TaskID r = rt_ResourceID x" "rs_LastRecoveryStatus r = statusOf (rt_Stage x)" unfolding protected_def by blast
  have "sameProtection s s' (rt_ClusterID x)" using assms(3) True by blast
  with c(1) obtain cluster' where "map_of (Clusters s') (rt_ClusterID x) = Some cluster'" "cl_RecoveryFreeze cluster' = cl_RecoveryFreeze cluster"
      "cl_Recovery cluster' = cl_Recovery cluster" unfolding sameProtection_def by (cases "map_of (Clusters s') (rt_ClusterID x)") auto
  with c have "protected s' x" unfolding protected_def by auto
  moreover have "quiet t' s' x" using ok(2) assms(2,3) True by (fastforce simp: quiet_def fewerLeases_def)
  ultimately show ?thesis using assms(1) by (auto simp: task_ok_def)
next
  case False
  with assms(1) show ?thesis by (auto simp: task_ok_def)
qed

lemma inv_frame:
  assumes "recovery_inv digest t s" "RecoveryTasks s' = RecoveryTasks s" "t \<le> t'"
    and "\<And>x. x \<in> tasks s \<Longrightarrow> attempted x \<Longrightarrow> sameProtection s s' (rt_ClusterID x) \<and> fewerLeases s s' (rt_ClusterID x)"
  shows "recovery_inv digest t' s'"
proof (rule recovery_invI)
  show "0 < t'" using recovery_invD(1) [OF assms(1)] assms(3) by linarith
  show "keyed_by rt_ResourceID (RecoveryTasks s')" unfolding assms(2) by (rule recovery_invD(2) [OF assms(1)])
  show "a = b" if "a \<in> tasks s'" "b \<in> tasks s'" "\<not> closedTask a" "\<not> closedTask b" "rt_ClusterID a = rt_ClusterID b" for a b
    using recovery_invD(4) [OF assms(1)] that unfolding assms(2) by blast
  show "task_ok digest t' s' a" if "a \<in> tasks s'" for a
    using task_ok_frame [OF recovery_invD(3) [OF assms(1)] assms(3)] assms(4) that unfolding assms(2) by blast
qed

lemma inv_compact [simp]: "recovery_inv digest t (compactSnapshotHistory s now) = recovery_inv digest t s"
  by (simp add: recovery_inv_def task_ok_def protected_def quiet_def lease_set_def lease_records_def)

lemma sameProtection_refl [simp]: "Clusters s' = Clusters s \<Longrightarrow> sameProtection s s' c"
  by (simp add: sameProtection_def)

lemma fewerLeases_refl [simp]: "CoordinationLeases s' = CoordinationLeases s \<Longrightarrow> fewerLeases s s' c"
  by (simp add: fewerLeases_def lease_set_def lease_records_def)

lemma inv_time: "recovery_inv digest t s \<Longrightarrow> t \<le> t' \<Longrightarrow> recovery_inv digest t' s"
  by (rule inv_frame [of digest t s]) auto

lemma commitSnapshotLocked_inv:
  assumes "commitSnapshotLocked env s next = (e, s')" "recovery_inv digest t s" "recovery_inv digest t next"
  shows "recovery_inv digest t s'"
  using assms by (auto simp: commitSnapshotLocked_def Let_def split: commit_outcome.splits)

lemma commitTask_inv:
  assumes "commitTask env s next task = (r, s')" "recovery_inv digest t s" "recovery_inv digest t next"
  shows "recovery_inv digest t s'"
  using assms commitSnapshotLocked_inv by (fastforce simp: commitTask_def split: prod.splits option.splits)

text \<open>Changing one open task, its cluster and its leases is judged by that task alone.\<close>

lemma update_task_inv:
  assumes inv: "recovery_inv digest t s" and task: "map_of (RecoveryTasks s) k = Some task" "\<not> closedTask task"
    and same: "rt_ResourceID task' = rt_ResourceID task" "rt_ClusterID task' = rt_ClusterID task"
    and tasks': "RecoveryTasks s' = AList.update k task' (RecoveryTasks s)" and t: "t \<le> t'"
    and other: "\<And>c. c \<noteq> rt_ClusterID task \<Longrightarrow> sameProtection s s' c \<and> fewerLeases s s' c"
    and ok: "task_ok digest t' s' task'"
  shows "recovery_inv digest t' s'"
proof -
  note key = recovery_invD(2) [OF inv] and one = recovery_invD(4) [OF inv] and oks = recovery_invD(3) [OF inv]
  have k: "task \<in> tasks s" "rt_ResourceID task = k" using task(1) keyed_by_lookup [OF key] key by (force simp: keyed_by_def)+
  have ts: "tasks s' = insert task' {a \<in> tasks s. rt_ResourceID a \<noteq> k}"
    unfolding tasks' by (rule keyed_by_values_update [OF key]) (simp add: same k)
  have key': "keyed_by rt_ResourceID (RecoveryTasks s')" unfolding tasks' by (rule keyed_by_update [OF key]) (simp add: same k)
  have elsewhere: "closedTask a" if "a \<in> tasks s" "rt_ResourceID a \<noteq> k" "rt_ClusterID a = rt_ClusterID task" for a
    using one [OF that(1) k(1)] that task(2) k(2) by blast
  have "task_ok digest t' s' a" if "a \<in> tasks s" "rt_ResourceID a \<noteq> k" for a
    by (rule task_ok_frame [OF oks [OF that(1)] t]) (use other elsewhere [OF that] in \<open>unfold attempted_def, blast\<close>)
  with ok have all: "task_ok digest t' s' a" if "a \<in> tasks s'" for a using that unfolding ts by blast
  have "a = b" if "a \<in> tasks s'" "b \<in> tasks s'" "\<not> closedTask a" "\<not> closedTask b" "rt_ClusterID a = rt_ClusterID b" for a b
    using that one [of a b] elsewhere [of a] elsewhere [of b] same(2) unfolding ts by (cases "a = task'"; cases "b = task'") auto
  with key' all show ?thesis using recovery_invD(1) [OF inv] t by (intro recovery_invI) auto
qed

section \<open>Every step keeps the invariant\<close>

lemma closed_mark [simp]: "rt_ResourceID (markTask now st m x) = rt_ResourceID x" "rt_ClusterID (markTask now st m x) = rt_ClusterID x"
    "rt_Stage (markTask now st m x) = st" "rt_AttemptStartedAt (markTask now st m x) = rt_AttemptStartedAt x" "rt_CommittedAt (markTask now st m x) = rt_CommittedAt x"
    "rt_PrimaryID (markTask now st m x) = rt_PrimaryID x" "rt_Members (markTask now st m x) = rt_Members x" "rt_Evidence (markTask now st m x) = rt_Evidence x"
    "rt_Proofs (markTask now st m x) = rt_Proofs x"
  by (simp_all add: markTask_def)

lemma put_sel [simp]: "RecoveryTasks (putTask k x s) = AList.update k x (RecoveryTasks s)" "Clusters (putTask k x s) = Clusters s"
    "CoordinationLeases (putTask k x s) = CoordinationLeases s" "RecoveryTasks (putCluster c y s) = RecoveryTasks s"
    "Clusters (putCluster c y s) = AList.update c y (Clusters s)" "CoordinationLeases (putCluster c y s) = CoordinationLeases s"
  by (simp_all add: putTask_def putCluster_def)

lemma sameProtection_update [simp]: "Clusters s' = AList.update c y (Clusters s) \<Longrightarrow> d \<noteq> c \<Longrightarrow> sameProtection s s' d"
  by (simp add: sameProtection_def update_conv')

lemma inv_task: "recovery_inv digest t s \<Longrightarrow> map_of (RecoveryTasks s) k = Some x \<Longrightarrow> x \<in> tasks s \<and> task_ok digest t s x \<and> rt_ResourceID x = k \<and> 0 < t"
  by (force simp: recovery_inv_def keyed_by_def dest: map_of_SomeD)

text \<open>The claim about a task, by its stage.\<close>

abbreviation selection_ok :: "(RecoveryEvidence \<Rightarrow> string) \<Rightarrow> RecoveryTask \<Rightarrow> bool" where
  "selection_ok digest x \<equiv> Select digest (rt_Members x) (rt_Evidence x) (rt_Proofs x) = Inr (rt_PrimaryID x)"

lemma task_ok_active:
  "activeStage (rt_Stage x) \<Longrightarrow> task_ok digest t s x \<longleftrightarrow> \<not> IsZero (rt_AttemptStartedAt x) \<and> protected s x \<and> quiet t s x \<and>
     (rt_Stage x \<noteq> RecoveryCommitted \<longrightarrow> IsZero (rt_CommittedAt x)) \<and> (selectedStage (rt_Stage x) \<or> \<not> IsZero (rt_CommittedAt x) \<longrightarrow> selection_ok digest x)"
  by (auto simp: task_ok_def attempted_def closedTask_def activeStage_def)

lemma task_ok_blocked:
  "rt_Stage x = RecoveryBlocked \<Longrightarrow> task_ok digest t s x \<longleftrightarrow> (\<not> IsZero (rt_AttemptStartedAt x) \<longrightarrow> protected s x \<and> quiet t s x) \<and>
     (\<not> IsZero (rt_CommittedAt x) \<longrightarrow> selection_ok digest x)"
  by (auto simp: task_ok_def attempted_def closedTask_def activeStage_def selectedStage_def)

lemma task_ok_closed: "closedTask x \<Longrightarrow> task_ok digest t s x \<longleftrightarrow> (\<not> IsZero (rt_CommittedAt x) \<longrightarrow> selection_ok digest x)"
  by (auto simp: task_ok_def attempted_def closedTask_def activeStage_def selectedStage_def)

lemma task_ok_idle:
  "rt_Stage x = RecoveryPlanned \<or> rt_Stage x = RecoveryStageNone \<Longrightarrow>
   task_ok digest t s x \<longleftrightarrow> IsZero (rt_AttemptStartedAt x) \<and> (\<not> IsZero (rt_CommittedAt x) \<longrightarrow> selection_ok digest x)"
  by (elim disjE; simp add: task_ok_def attempted_def closedTask_def activeStage_def selectedStage_def)

lemma task_ok_selection: "task_ok digest t s x \<Longrightarrow> \<not> IsZero (rt_CommittedAt x) \<Longrightarrow> selection_ok digest x"
  by (simp add: task_ok_def)

text \<open>A live lease lets a task pass only through the three fields it reads.\<close>

lemma quiet_cong:
  "quiet t s x \<Longrightarrow> CoordinationLeases s' = CoordinationLeases s \<Longrightarrow> rt_ClusterID x' = rt_ClusterID x \<Longrightarrow>
   IsZero (rt_CommittedAt x) \<or> rt_CommittedAt x' = rt_CommittedAt x \<and> rt_PrimaryID x' = rt_PrimaryID x \<Longrightarrow> quiet t s' x'"
  unfolding quiet_def lease_set_def lease_records_def by (metis (no_types, lifting))

lemma protectedI:
  "map_of (Clusters s) (rt_ClusterID x) = Some cluster \<Longrightarrow> cl_RecoveryFreeze cluster \<Longrightarrow> cl_Recovery cluster = Some r \<Longrightarrow> rs_TaskID r = rt_ResourceID x \<Longrightarrow>
   rs_LastRecoveryStatus r = statusOf (rt_Stage x) \<Longrightarrow> protected s x"
  unfolding protected_def by blast

lemma quiet_put [simp]: "quiet t (putTask k y s) x = quiet t s x" "quiet t (putCluster c z s) x = quiet t s x"
  by (simp_all add: quiet_def lease_set_def lease_records_def)

lemma protected_put [simp]: "protected (putTask k y s) x = protected s x"
  by (simp add: protected_def)

section \<open>Failed starts\<close>

lemma task_ok_fail:
  assumes "task_ok digest t s x" "rt_Stage x = RecoveryPlanned \<or> rt_Stage x = RecoveryBlocked"
  shows "task_ok digest t (putTask k y s) (markTask now RecoveryBlocked m x)"
proof (cases "rt_Stage x = RecoveryBlocked")
  case True
  have "protected s (markTask now RecoveryBlocked m x) = protected s x" "quiet t s (markTask now RecoveryBlocked m x) = quiet t s x"
    using True by (simp_all add: protected_def quiet_def)
  with assms(1) True show ?thesis by (simp add: task_ok_blocked)
next
  case False
  with assms show ?thesis by (simp add: task_ok_blocked task_ok_idle)
qed

lemma step_fail_inv:
  assumes "RecordRecoveryStartFailure env redactText ctxErr k revision message s = (e, s')" "recovery_inv digest (env_now env) s"
  shows "recovery_inv digest (env_now env) s'"
proof (cases "map_of (RecoveryTasks s) k")
  case None
  with assms show ?thesis by (auto simp: RecordRecoveryStartFailure_def split: option.splits)
next
  case (Some x)
  note x = inv_task [OF assms(2) Some]
  show ?thesis
  proof (cases "ctxErr = None \<and> rt_MetadataRevision x = revision \<and> (rt_Stage x = RecoveryPlanned \<or> rt_Stage x = RecoveryBlocked)")
    case True
    let ?next = "putTask k (markTask (env_now env) RecoveryBlocked (redactText message) x) s"
    from assms(1) Some True have c: "commitSnapshotLocked env s ?next = (e, s')" by (auto simp: RecordRecoveryStartFailure_def)
    have "task_ok digest (env_now env) ?next (markTask (env_now env) RecoveryBlocked (redactText message) x)"
      using x True by (intro task_ok_fail) auto
    then have "recovery_inv digest (env_now env) ?next"
      by (intro update_task_inv [OF assms(2) Some]) (use True in \<open>auto simp: closedTask_def\<close>)
    with commitSnapshotLocked_inv [OF c assms(2)] show ?thesis by blast
  next
    case False
    with assms Some show ?thesis by (auto simp: RecordRecoveryStartFailure_def split: option.splits if_splits)
  qed
qed

section \<open>Beginning and advancing\<close>

lemma begun_sel [simp]: "RecoveryTasks (begunSnapshot k x now s) = AList.update k x (RecoveryTasks s)"
    "Clusters (begunSnapshot k x now s) = AList.update (rt_ClusterID x) (let cluster = clusterOf s (rt_ClusterID x) in
       cluster\<lparr>cl_RecoveryFreeze := True, cl_MetadataRevision := cl_MetadataRevision cluster + 1, cl_UpdatedAt := now, cl_Recovery := Some (runningState k)\<rparr>) (Clusters s)"
    "CoordinationLeases (begunSnapshot k x now s) = filter (\<lambda>p. l_ClusterID (lr_Lease (snd p)) \<noteq> rt_ClusterID x) (CoordinationLeases s)"
  by (simp_all add: begunSnapshot_def Let_def)

lemma begunTask_sel [simp]: "rt_ResourceID (begunTask l now x) = rt_ResourceID x" "rt_ClusterID (begunTask l now x) = rt_ClusterID x"
    "rt_Stage (begunTask l now x) = RecoveryFencing" "rt_AttemptStartedAt (begunTask l now x) = now" "rt_CommittedAt (begunTask l now x) = 0"
  by (simp_all add: begunTask_def)

lemma begun_ok:
  assumes "0 < now" "rt_ResourceID x = k"
  shows "task_ok digest now (begunSnapshot k (begunTask l now x) now s) (begunTask l now x)"
proof -
  have "protected (begunSnapshot k (begunTask l now x) now s) (begunTask l now x)"
    using assms(2) by (simp add: protected_def Let_def runningState_def statusOf_def update_conv')
  moreover have "quiet now (begunSnapshot k (begunTask l now x) now s) (begunTask l now x)"
    by (auto simp: quiet_def lease_set_def lease_records_def)
  ultimately show ?thesis using assms(1) by (simp add: task_ok_active activeStage_def selectedStage_def IsZero_def)
qed

lemma fewerLeases_filter: "CoordinationLeases s' = filter P (CoordinationLeases s) \<Longrightarrow> fewerLeases s s' c"
  by (auto simp: fewerLeases_def lease_set_def lease_records_def)

lemma step_begin_inv:
  assumes "BeginRecovery env ctxErr k revision leaseID s = (r, s')" "recovery_inv digest (env_now env) s"
  shows "recovery_inv digest (env_now env) s'"
proof (cases "map_of (RecoveryTasks s) k")
  case None
  with assms show ?thesis by (auto simp: BeginRecovery_def Let_def split: option.splits)
next
  case (Some x)
  note x = inv_task [OF assms(2) Some]
  let ?x = "begunTask leaseID (env_now env) x"
  have "s' = s \<or> \<not> closedTask x \<and> commitTask env s (begunSnapshot k ?x (env_now env) s) ?x = (r, s')"
    using assms(1) Some by (cases ctxErr) (auto simp: BeginRecovery_def Let_def split: if_splits)
  moreover have "recovery_inv digest (env_now env) (begunSnapshot k ?x (env_now env) s)" if "\<not> closedTask x"
    by (rule update_task_inv [OF assms(2) Some that _ _ _ order.refl])
      (use x recovery_invD(1) [OF assms(2)] in \<open>auto intro: begun_ok fewerLeases_filter\<close>)
  ultimately show ?thesis using commitTask_inv [OF _ assms(2)] assms(2) by blast
qed

lemma advanced_sel [simp]: "RecoveryTasks (advancedSnapshot x st s) = AList.update (rt_ResourceID x) x (RecoveryTasks s)"
    "CoordinationLeases (advancedSnapshot x st s) = CoordinationLeases s"
  by (auto simp: advancedSnapshot_def Let_def split: option.splits)

lemma clusterOf_put [simp]: "clusterOf (putTask k x s) c = clusterOf s c"
  by (simp add: clusterOf_def)

lemma clusterOf_Some: "map_of (Clusters s) c = Some y \<Longrightarrow> clusterOf s c = y"
  by (simp add: clusterOf_def)

lemma advanced_other: "c \<noteq> rt_ClusterID x \<Longrightarrow> sameProtection s (advancedSnapshot x st s) c"
  by (auto simp: advancedSnapshot_def Let_def sameProtection_def update_conv' split: option.splits)

lemma advanced_protected:
  assumes "protected s x" "rt_ClusterID x' = rt_ClusterID x" "rt_ResourceID x' = rt_ResourceID x" "st = rt_Stage x'"
    "rt_Stage x' = RecoveryBlocked \<or> statusOf (rt_Stage x') = statusOf (rt_Stage x)"
  shows "protected (advancedSnapshot x' st s) x'"
proof -
  obtain cluster r where c: "map_of (Clusters s) (rt_ClusterID x) = Some cluster" "cl_RecoveryFreeze cluster" "cl_Recovery cluster = Some r"
      "rs_TaskID r = rt_ResourceID x" "rs_LastRecoveryStatus r = statusOf (rt_Stage x)" using assms(1) unfolding protected_def by blast
  define y where "y = cluster\<lparr>cl_Recovery := Some (if rt_Stage x' = RecoveryBlocked then blockedState (r\<lparr>rs_CurrentPrimaryID := rt_PrimaryID x'\<rparr>)
    else r\<lparr>rs_CurrentPrimaryID := rt_PrimaryID x'\<rparr>)\<rparr>"
  have "map_of (Clusters (advancedSnapshot x' st s)) (rt_ClusterID x') = Some y"
    using clusterOf_Some [OF c(1)] c(3) assms(2,4) by (simp add: advancedSnapshot_def Let_def update_conv' y_def)
  moreover have "cl_RecoveryFreeze y" using c(2) by (simp add: y_def)
  moreover obtain r' where "cl_Recovery y = Some r'" "rs_TaskID r' = rt_ResourceID x'" "rs_LastRecoveryStatus r' = statusOf (rt_Stage x')"
    using c(4,5) assms(3,5) by (cases "rt_Stage x' = RecoveryBlocked") (simp_all add: y_def blockedState_def statusOf_def)
  ultimately show ?thesis by (rule protectedI)
qed

lemma transition_cases:
  assumes "recoveryTransition start target"
  obtains (block) "target = RecoveryBlocked" "activeStage start \<or> start = RecoveryBlocked \<or> start = RecoveryStageNone"
  | (stay) "start = target" "activeStage start \<or> start = RecoveryStageNone"
  | (forward) "activeStage start" "activeStage target" "start \<noteq> RecoveryCommitted" "target \<noteq> RecoveryCommitted" "selectedStage target \<longrightarrow> target = RecoveryStarting \<or> selectedStage start"
  using assms by (cases start; cases target) (simp_all add: recoveryTransition_def activeStage_def selectedStage_def)

lemma advanced_ok:
  assumes ok: "task_ok digest t s x" and step: "recoveryTransition (rt_Stage x) (rt_Stage x')"
    and same: "rt_ClusterID x' = rt_ClusterID x" "rt_ResourceID x' = rt_ResourceID x" "rt_AttemptStartedAt x' = rt_AttemptStartedAt x" "rt_CommittedAt x' = rt_CommittedAt x"
    and sel: "if rt_Stage x' = RecoveryStarting then selection_ok digest x'
      else rt_PrimaryID x' = rt_PrimaryID x \<and> (selection_ok digest x \<longrightarrow> selection_ok digest x')"
  shows "task_ok digest t (advancedSnapshot x' (rt_Stage x') s) x'"
proof -
  let ?s = "advancedSnapshot x' (rt_Stage x') s"
  have prot: "protected ?s x'" if "protected s x" "rt_Stage x' = RecoveryBlocked \<or> statusOf (rt_Stage x') = statusOf (rt_Stage x)"
    by (rule advanced_protected [OF that(1) same(1,2) refl that(2)])
  have q: "quiet t ?s x'" if "quiet t s x" "rt_Stage x' = RecoveryStarting \<Longrightarrow> IsZero (rt_CommittedAt x)"
    by (rule quiet_cong [OF that(1)]) (use sel same that(2) in \<open>auto split: if_splits\<close>)
  from step show ?thesis
  proof (cases rule: transition_cases)
    case block
    with ok prot q sel same show ?thesis by (elim disjE) (auto simp: task_ok_active task_ok_blocked task_ok_idle)
  next
    case stay
    then show ?thesis
    proof (elim disjE)
      assume a: "activeStage (rt_Stage x)"
      with stay ok prot q sel same show ?thesis by (auto simp: task_ok_active split: if_splits)
    next
      assume a: "rt_Stage x = RecoveryStageNone"
      with stay ok sel same show ?thesis by (auto simp: task_ok_idle)
    qed
  next
    case forward
    then have "statusOf (rt_Stage x') = statusOf (rt_Stage x)" by (auto simp: statusOf_def activeStage_def)
    with forward ok prot q sel same show ?thesis by (auto simp: task_ok_active split: if_splits)
  qed
qed

lemma transition_open: "recoveryTransition (rt_Stage x) st \<Longrightarrow> \<not> closedTask x"
  by (auto simp: recoveryTransition_def closedTask_def split: if_splits)

lemma step_advance_inv:
  assumes "AdvanceRecovery env digest redactText ctxErr task event s = (r, s')" "recovery_inv digest (env_now env) s"
  shows "recovery_inv digest (env_now env) s'"
proof (cases "map_of (RecoveryTasks s) (rt_ResourceID task)")
  case None
  with assms show ?thesis by (auto simp: AdvanceRecovery_def Let_def split: option.splits)
next
  case (Some x)
  note x = inv_task [OF assms(2) Some]
  let ?start = "rn_Stage event = RecoveryStarting"
  define y where "y = (if ?start then x\<lparr>rt_PrimaryID := rt_PrimaryID task, rt_Evidence := rt_Evidence task, rt_Proofs := rt_Proofs task\<rparr> else x)"
  define ev where "ev = event\<lparr>rn_At := env_now env, rn_Message := redactText (rn_Message event)\<rparr>"
  define x' where "x' = y\<lparr>rt_Stage := rn_Stage event, rt_Message := rn_Message ev, rt_UpdatedAt := env_now env,
    rt_MetadataRevision := rt_MetadataRevision y + 1, rt_Events := rt_Events y @ [ev]\<rparr>"
  have "s' = s \<or> recoveryTransition (rt_Stage x) (rn_Stage event) \<and> (?start \<longrightarrow> Select digest (rt_Members x) (rt_Evidence task) (rt_Proofs task) = Inr (rt_PrimaryID task)) \<and>
      commitTask env s (advancedSnapshot x' (rn_Stage event) s) x' = (r, s')"
    using assms(1) Some unfolding AdvanceRecovery_def Let_def y_def ev_def x'_def
    by (cases ctxErr) (auto split: if_splits)
  moreover have "recovery_inv digest (env_now env) (advancedSnapshot x' (rn_Stage event) s)"
    if tr: "recoveryTransition (rt_Stage x) (rn_Stage event)" and sel: "?start \<longrightarrow> Select digest (rt_Members x) (rt_Evidence task) (rt_Proofs task) = Inr (rt_PrimaryID task)"
  proof -
    have "task_ok digest (env_now env) (advancedSnapshot x' (rt_Stage x') s) x'"
      by (rule advanced_ok [of digest "env_now env" s x]) (use x tr sel in \<open>simp_all add: x'_def y_def\<close>)
    then have "task_ok digest (env_now env) (advancedSnapshot x' (rn_Stage event) s) x'" by (simp add: x'_def)
    moreover have "rt_ClusterID x' = rt_ClusterID x" "rt_ResourceID x' = rt_ResourceID x" by (simp_all add: x'_def y_def)
    ultimately show ?thesis
      by (intro update_task_inv [OF assms(2) Some transition_open [OF tr]]) (use x in \<open>auto intro: advanced_other\<close>)
  qed
  ultimately show ?thesis using commitTask_inv [OF _ assms(2)] assms(2) by blast
qed

section \<open>Committing and completing\<close>

lemma publish_keeps:
  "publish_loop now is s = (js, s') \<Longrightarrow> RecoveryTasks s' = RecoveryTasks s \<and> Clusters s' = Clusters s \<and> CoordinationLeases s' = CoordinationLeases s"
  by (induction "now" "is" s arbitrary: js s' rule: publish_loop.induct) (auto simp: Let_def split: prod.splits)

lemma own_keeps:
  "own_endpoints c primary now es s = Some s' \<Longrightarrow>
   RecoveryTasks s' = RecoveryTasks s \<and> Clusters s' = Clusters s \<and> CoordinationLeases s' = CoordinationLeases s \<and> Instances s' = Instances s"
proof (induction c primary "now" es s arbitrary: s' rule: own_endpoints.induct)
  case (2 c primary "now" k he rest s)
  show ?case
  proof (cases "he_ClusterID he = c")
    case True
    show ?thesis
    proof (cases "map_of (clusterEndpoints c s) (he_EndpointID he)")
      case (Some registered)
      with 2(3) True have "ep_ClusterID registered = c" by (auto split: if_splits)
      with 2(2) [OF _ Some] 2(3) True Some show ?thesis by simp
    qed (use 2(3) True in simp)
  qed (use 2(1,3) in simp)
qed simp

text \<open>What a commit that is not refused writes.\<close>

lemma CommitRecovery_cases:
  assumes "CommitRecovery env ctxErr task topology s = (r, s')"
  obtains (refused) e where "r = Inl e" "s' = s"
  | (tried) x n where "ctxErr = None" "map_of (RecoveryTasks s) (rt_ResourceID task) = Some x" "rt_Stage x = RecoveryVerifying" "recoveryLeaseValid s x (env_now env)"
      "recoveryInventoryValid s x" "verifyRecoveryTopology x topology (env_now env) = None"
      "own_endpoints (rt_ClusterID x) (rt_PrimaryID x) (env_now env) (HAEndpoints (publishedSnapshot x topology (env_now env) s)) (publishedSnapshot x topology (env_now env) s) = Some n"
      "commitTask env s (putTask (rt_ResourceID x) (committedTask (env_now env) (ts_ObservedAt topology) x) n) (committedTask (env_now env) (ts_ObservedAt topology) x) = (r, s')"
proof (cases "map_of (RecoveryTasks s) (rt_ResourceID task)")
  case None
  with assms refused show ?thesis by (auto simp: CommitRecovery_def Let_def split: option.splits)
next
  case (Some x)
  have id: "rt_ResourceID (committedTask (env_now env) (ts_ObservedAt topology) x) = rt_ResourceID x" by (simp add: committedTask_def)
  show ?thesis
  proof (cases "ctxErr = None \<and> rt_MetadataRevision x = rt_MetadataRevision task \<and> rt_Stage x = RecoveryVerifying \<and> recoveryLeaseValid s x (env_now env) \<and>
      recoveryInventoryValid s x \<and> verifyRecoveryTopology x topology (env_now env) = None")
    case True
    show ?thesis
    proof (cases "own_endpoints (rt_ClusterID x) (rt_PrimaryID x) (env_now env) (HAEndpoints (publishedSnapshot x topology (env_now env) s)) (publishedSnapshot x topology (env_now env) s)")
      case None
      with assms Some True refused show ?thesis by (auto simp: CommitRecovery_def Let_def)
    next
      case (Some n)
      with assms True id tried \<open>map_of (RecoveryTasks s) (rt_ResourceID task) = Some x\<close> show ?thesis by (simp add: CommitRecovery_def Let_def)
    qed
  next
    case False
    with assms Some refused show ?thesis by (cases ctxErr) (auto simp: CommitRecovery_def Let_def split: if_splits option.splits)
  qed
qed

lemma published_sel [simp]: "RecoveryTasks (publishedSnapshot x topology now s) = RecoveryTasks s" "CoordinationLeases (publishedSnapshot x topology now s) = CoordinationLeases s"
    "Clusters (publishedSnapshot x topology now s) = AList.update (rt_ClusterID x) (let cluster = clusterOf s (rt_ClusterID x) in
       cluster\<lparr>cl_MetadataRevision := cl_MetadataRevision cluster + 1, cl_UpdatedAt := now, cl_Health := ts_Health topology, cl_Recovery := Some (committedState x)\<rparr>) (Clusters s)"
  by (cases "publish_loop now (ts_Instances topology) s"; use publish_keeps in \<open>fastforce simp: publishedSnapshot_def Let_def clusterOf_def\<close>)+

lemma committed_sel [simp]: "rt_ResourceID (committedTask now v x) = rt_ResourceID x" "rt_ClusterID (committedTask now v x) = rt_ClusterID x"
    "rt_Stage (committedTask now v x) = RecoveryCommitted" "rt_AttemptStartedAt (committedTask now v x) = rt_AttemptStartedAt x" "rt_CommittedAt (committedTask now v x) = now"
    "rt_PrimaryID (committedTask now v x) = rt_PrimaryID x" "rt_Members (committedTask now v x) = rt_Members x" "rt_Evidence (committedTask now v x) = rt_Evidence x"
    "rt_Proofs (committedTask now v x) = rt_Proofs x"
  by (simp_all add: committedTask_def)

lemma step_commit_inv:
  assumes "CommitRecovery env ctxErr task topology s = (r, s')" "recovery_inv digest (env_now env) s"
  shows "recovery_inv digest (env_now env) s'"
  using assms(1)
proof (cases rule: CommitRecovery_cases)
  case (tried x n)
  let ?x = "committedTask (env_now env) (ts_ObservedAt topology) x"
  let ?s = "putTask (rt_ResourceID x) ?x n"
  note x = inv_task [OF assms(2) tried(2)]
  note own = own_keeps [OF tried(7)]
  have act: "activeStage (rt_Stage x)" "selectedStage (rt_Stage x)" using tried(3) by (simp_all add: activeStage_def selectedStage_def)
  with x have ok: "\<not> IsZero (rt_AttemptStartedAt x)" "protected s x" "quiet (env_now env) s x" "IsZero (rt_CommittedAt x)" "selection_ok digest x"
    using tried(3) by (simp_all add: task_ok_active)
  from ok(2) obtain cluster where c: "map_of (Clusters s) (rt_ClusterID x) = Some cluster" "cl_RecoveryFreeze cluster" unfolding protected_def by blast
  have "protected ?s ?x" using own c clusterOf_Some [OF c(1)] by (simp add: protected_def Let_def update_conv' committedState_def statusOf_def)
  moreover have "quiet (env_now env) ?s ?x" by (rule quiet_cong [OF ok(3)]) (use own ok(4) in simp_all)
  ultimately have "task_ok digest (env_now env) ?s ?x" using ok by (simp add: task_ok_active activeStage_def)
  then have "recovery_inv digest (env_now env) ?s"
    by (intro update_task_inv [OF assms(2) tried(2)]) (use own x tried(3) in \<open>auto simp: closedTask_def sameProtection_def update_conv'\<close>)
  with commitTask_inv [OF tried(8) assms(2)] show ?thesis by blast
qed (use assms(2) in simp)

lemma released_sel [simp]: "RecoveryTasks (releasedSnapshot c y now s) = RecoveryTasks s" "CoordinationLeases (releasedSnapshot c y now s) = CoordinationLeases s"
    "Clusters (releasedSnapshot c y now s) = AList.update c y (Clusters s)"
  by (simp_all add: releasedSnapshot_def Let_def split: option.splits)

lemma step_complete_inv:
  assumes "CompleteRecovery env ctxErr task s = (r, s')" "recovery_inv digest (env_now env) s"
  shows "recovery_inv digest (env_now env) s'"
proof (cases "map_of (RecoveryTasks s) (rt_ResourceID task)")
  case None
  with assms show ?thesis by (auto simp: CompleteRecovery_def Let_def split: option.splits)
next
  case (Some x)
  note x = inv_task [OF assms(2) Some]
  define x' where "x' = (markTask (env_now env) RecoverySucceeded ''all members, replication, writer and business entry verified; recovery protections released'' x)
    \<lparr>rt_CompletedAt := env_now env\<rparr>"
  have sel: "rt_ResourceID x' = rt_ResourceID x" "rt_ClusterID x' = rt_ClusterID x" "closedTask x'" "rt_CommittedAt x' = rt_CommittedAt x"
    "rt_PrimaryID x' = rt_PrimaryID x" "rt_Members x' = rt_Members x" "rt_Evidence x' = rt_Evidence x" "rt_Proofs x' = rt_Proofs x" by (simp_all add: x'_def closedTask_def)
  have step: "s' = s \<or> rt_Stage x = RecoveryCommitted \<and>
      (\<exists>y. commitTask env s (putTask (rt_ResourceID x') x' (releasedSnapshot (rt_ClusterID x) y (env_now env) s)) x' = (r, s'))"
    using assms(1) Some unfolding CompleteRecovery_def Let_def x'_def
    by (cases ctxErr) (auto split: if_splits option.splits)
  have "recovery_inv digest (env_now env) (putTask (rt_ResourceID x') x' (releasedSnapshot (rt_ClusterID x) y (env_now env) s))" if "rt_Stage x = RecoveryCommitted" for y
    by (rule update_task_inv [OF assms(2) Some _ sel(1,2)])
      (use that x sel in \<open>auto simp: closedTask_def [of x] sameProtection_def update_conv' task_ok_closed task_ok_active activeStage_def selectedStage_def\<close>)
  with step assms(2) commitTask_inv [OF _ assms(2)] show ?thesis by blast
qed

section \<open>Abandoned executors\<close>

lemma blockTask_protected:
  assumes "protected s x" "rt_ResourceID x = k"
  shows "protected (blockTask now (k, x) s) (markTask now RecoveryBlocked m x)"
proof -
  obtain cluster r where c: "map_of (Clusters s) (rt_ClusterID x) = Some cluster" "cl_RecoveryFreeze cluster" "cl_Recovery cluster = Some r"
      "rs_TaskID r = rt_ResourceID x" using assms(1) unfolding protected_def by blast
  with clusterOf_Some [OF c(1)] assms(2) show ?thesis
    by (simp add: blockTask_def Let_def protected_def update_conv' blockedState_def statusOf_def)
qed

lemma blockTask_sel [simp]: "CoordinationLeases (blockTask now p s) = CoordinationLeases s"
    "\<exists>m. RecoveryTasks (blockTask now (k, x) s) = AList.update k (markTask now RecoveryBlocked m x) (RecoveryTasks s)"
  by (auto simp: blockTask_def Let_def split: option.splits prod.splits)

lemma blockTask_other: "c \<noteq> rt_ClusterID x \<Longrightarrow> sameProtection s (blockTask now (k, x) s) c"
  by (auto simp: blockTask_def Let_def sameProtection_def update_conv' split: option.splits)

lemma blockTask_inv:
  assumes "recovery_inv digest t s" "map_of (RecoveryTasks s) k = Some x" "activeStage (rt_Stage x) \<or> rt_Stage x = RecoveryStageNone"
  shows "recovery_inv digest t (blockTask now (k, x) s)"
proof -
  note x = inv_task [OF assms(1,2)]
  obtain m where m: "RecoveryTasks (blockTask now (k, x) s) = AList.update k (markTask now RecoveryBlocked m x) (RecoveryTasks s)" using blockTask_sel by blast
  have ok: "IsZero (rt_AttemptStartedAt x) \<or> protected s x \<and> quiet t s x" "\<not> IsZero (rt_CommittedAt x) \<longrightarrow> selection_ok digest x"
    using x assms(3) by (auto simp: task_ok_active task_ok_idle)
  have "quiet t (blockTask now (k, x) s) (markTask now RecoveryBlocked m x)" if "quiet t s x" by (rule quiet_cong [OF that]) simp_all
  with ok blockTask_protected [of s x k "now" m] x have "task_ok digest t (blockTask now (k, x) s) (markTask now RecoveryBlocked m x)"
    by (auto simp: task_ok_blocked)
  then show ?thesis
    by (intro update_task_inv [OF assms(1,2) _ _ _ m]) (use assms(3) in \<open>auto simp: activeStage_def closedTask_def intro: blockTask_other\<close>)
qed

lemma block_fold_inv:
  "recovery_inv digest t s \<Longrightarrow> distinct (map fst ps) \<Longrightarrow> (\<And>k x. (k, x) \<in> set ps \<Longrightarrow> map_of (RecoveryTasks s) k = Some x \<and> (activeStage (rt_Stage x) \<or> rt_Stage x = RecoveryStageNone)) \<Longrightarrow>
   recovery_inv digest t (fold (blockTask now) ps s)"
proof (induction ps arbitrary: s)
  case (Cons p ps)
  obtain k x where p: "p = (k, x)" by fastforce
  with Cons(4) have k: "map_of (RecoveryTasks s) k = Some x" "activeStage (rt_Stage x) \<or> rt_Stage x = RecoveryStageNone" by auto
  obtain m where m: "RecoveryTasks (blockTask now p s) = AList.update k (markTask now RecoveryBlocked m x) (RecoveryTasks s)"
    using blockTask_sel(2) p by blast
  have "map_of (RecoveryTasks (blockTask now p s)) j = Some y \<and> (activeStage (rt_Stage y) \<or> rt_Stage y = RecoveryStageNone)" if "(j, y) \<in> set ps" for j y
  proof -
    have "j \<noteq> k" using that Cons(3) p by force
    with Cons(4) [of j y] that show ?thesis unfolding m by (simp add: update_conv')
  qed
  with Cons(1) [OF blockTask_inv [OF Cons(2) k]] Cons(3) p show ?case by simp
qed simp

lemma step_block_inv:
  assumes "BlockAbandonedRecoveries env ctxErr s = (e, s')" "recovery_inv digest (env_now env) s"
  shows "recovery_inv digest (env_now env) s'"
proof -
  let ?ps = "filter (\<lambda>p. abandoned s (env_now env) (snd p)) (RecoveryTasks s)"
  note key = recovery_invD(2) [OF assms(2)]
  have open': "abandoned s now x \<Longrightarrow> activeStage (rt_Stage x) \<or> rt_Stage x = RecoveryStageNone" for x now
    by (cases "rt_Stage x") (auto simp: abandoned_def closedTask_def activeStage_def split: if_splits)
  have "distinct (map fst ?ps)" using key distinct_map_filter unfolding keyed_by_def by blast
  moreover have "map_of (RecoveryTasks s) k = Some x \<and> (activeStage (rt_Stage x) \<or> rt_Stage x = RecoveryStageNone)" if "(k, x) \<in> set ?ps" for k x
    using that keyed_by_lookup [OF key] open' by auto
  ultimately have "recovery_inv digest (env_now env) (fold (blockTask (env_now env)) ?ps s)" by (rule block_fold_inv [OF assms(2)])
  with assms commitSnapshotLocked_inv [OF _ assms(2)] show ?thesis
    by (auto simp: BlockAbandonedRecoveries_def Let_def split: option.splits if_splits)
qed

section \<open>Planning\<close>

lemma plan_loop_open:
  "plan_loop s cluster c now ts os = Inr os' \<Longrightarrow> os' = os @ filter (\<lambda>x. rt_ClusterID x = c \<and> \<not> closedTask x) ts"
proof (induction ts arbitrary: os)
  case (Cons x ts)
  show ?case
  proof (cases "rt_ClusterID x \<noteq> c \<or> closedTask x")
    case True
    with Cons(1) [of os] Cons(2) show ?thesis by simp
  next
    case False
    with Cons(1) [of "os @ [x]"] Cons(2) show ?thesis by (simp split: if_splits)
  qed
qed simp

lemma supersede_sel [simp]: "Clusters (supersede fresh now x s) = Clusters s" "CoordinationLeases (supersede fresh now x s) = CoordinationLeases s"
    "\<exists>m. RecoveryTasks (supersede fresh now x s) = AList.update (rt_ResourceID x) (markTask now RecoverySuperseded m x) (RecoveryTasks s)"
  by (auto simp: supersede_def)

lemma supersede_inv:
  assumes "recovery_inv digest t s" "map_of (RecoveryTasks s) (rt_ResourceID x) = Some x" "\<not> closedTask x"
  shows "recovery_inv digest t (supersede fresh now x s)"
proof -
  obtain m where m: "RecoveryTasks (supersede fresh now x s) = AList.update (rt_ResourceID x) (markTask now RecoverySuperseded m x) (RecoveryTasks s)"
    using supersede_sel by blast
  have "task_ok digest t (supersede fresh now x s) (markTask now RecoverySuperseded m x)"
    using task_ok_selection [of digest t s x] inv_task [OF assms(1,2)] by (simp add: task_ok_closed closedTask_def)
  then show ?thesis by (intro update_task_inv [OF assms(1,2,3) _ _ m]) auto
qed

text \<open>After the open tasks of a cluster are superseded it has none.\<close>

lemma supersede_fold_inv:
  "recovery_inv digest t s \<Longrightarrow> distinct (map rt_ResourceID os) \<Longrightarrow>
   (\<And>x. x \<in> set os \<Longrightarrow> map_of (RecoveryTasks s) (rt_ResourceID x) = Some x \<and> \<not> closedTask x) \<Longrightarrow>
   (\<And>x. x \<in> tasks s \<Longrightarrow> rt_ClusterID x = c \<Longrightarrow> closedTask x \<or> x \<in> set os) \<Longrightarrow>
   recovery_inv digest t (fold (supersede fresh now) os s) \<and> (\<forall>x \<in> tasks (fold (supersede fresh now) os s). rt_ClusterID x = c \<longrightarrow> closedTask x) \<and>
   fst ` set (RecoveryTasks (fold (supersede fresh now) os s)) = fst ` set (RecoveryTasks s)"
proof (induction os arbitrary: s)
  case (Cons o' os)
  have o': "map_of (RecoveryTasks s) (rt_ResourceID o') = Some o'" "\<not> closedTask o'" using Cons(4) by auto
  let ?s = "supersede fresh now o' s"
  obtain m where m: "RecoveryTasks ?s = AList.update (rt_ResourceID o') (markTask now RecoverySuperseded m o') (RecoveryTasks s)"
    using supersede_sel by blast
  have ts: "tasks ?s = insert (markTask now RecoverySuperseded m o') {a \<in> tasks s. rt_ResourceID a \<noteq> rt_ResourceID o'}"
    unfolding m by (rule keyed_by_values_update [OF recovery_invD(2) [OF Cons(2)]]) simp
  have rest: "map_of (RecoveryTasks ?s) (rt_ResourceID x) = Some x \<and> \<not> closedTask x" if "x \<in> set os" for x
  proof -
    have "rt_ResourceID x \<noteq> rt_ResourceID o'" using that Cons(3) by (metis distinct.simps(2) image_eqI list.set_map list.simps(9))
    with Cons(4) [of x] that show ?thesis unfolding m by (simp add: update_conv')
  qed
  have "closedTask (markTask now RecoverySuperseded m o')" by (simp add: closedTask_def)
  then have left: "closedTask x \<or> x \<in> set os" if "x \<in> tasks ?s" "rt_ClusterID x = c" for x
    using that Cons(5) [of x] unfolding ts by auto
  have "fst ` set (RecoveryTasks ?s) = fst ` set (RecoveryTasks s)"
    unfolding m dom_map_of_conv_image_fst [symmetric] update_conv' using o'(1) by (auto simp: dom_def)
  moreover have "distinct (map rt_ResourceID os)" using Cons(3) by simp
  note Cons(1) [OF supersede_inv [OF Cons(2) o'] this rest left]
  ultimately show ?case unfolding fold_simps by metis
qed auto

lemma insert_task_inv:
  assumes inv: "recovery_inv digest t s" and fresh: "k \<notin> fst ` set (RecoveryTasks s)" "rt_ResourceID x = k" and stage: "rt_Stage x = RecoveryPlanned"
    "IsZero (rt_AttemptStartedAt x)" "IsZero (rt_CommittedAt x)" and none: "\<forall>y \<in> tasks s. rt_ClusterID y = rt_ClusterID x \<longrightarrow> closedTask y"
  shows "recovery_inv digest t (putTask k x s)"
proof -
  note key = recovery_invD(2) [OF inv]
  have "k \<notin> rt_ResourceID ` tasks s" using fresh(1) keyed_by_absent [OF key] by (simp add: map_of_eq_None_iff)
  then have ts: "tasks (putTask k x s) = insert x (tasks s)" using keyed_by_values_new [OF key, of x] fresh(2) by simp
  have "task_ok digest t (putTask k x s) x" using stage by (simp add: task_ok_idle)
  moreover have "task_ok digest t (putTask k x s) y" if "y \<in> tasks s" for y
    by (rule task_ok_frame [OF recovery_invD(3) [OF inv that]]) simp_all
  ultimately have all: "task_ok digest t (putTask k x s) y" if "y \<in> tasks (putTask k x s)" for y using that unfolding ts by blast
  have one: "a = b" if "a \<in> tasks (putTask k x s)" "b \<in> tasks (putTask k x s)" "\<not> closedTask a" "\<not> closedTask b" "rt_ClusterID a = rt_ClusterID b" for a b
    using that recovery_invD(4) [OF inv, of a b] none unfolding ts by (cases "a = x"; cases "b = x") auto
  have key': "keyed_by rt_ResourceID (RecoveryTasks (putTask k x s))" using keyed_by_update [OF key fresh(2)] by simp
  show ?thesis by (rule recovery_invI [OF recovery_invD(1) [OF inv] key' one all])
qed

lemma step_plan_inv:
  assumes "PlanRecovery env planDigest ctxErr c actor fresh s = (r, s')" "fresh \<notin> fst ` set (RecoveryTasks s)" "recovery_inv digest (env_now env) s"
  shows "recovery_inv digest (env_now env) s'"
proof (cases "s' = s")
  case False
  note key = recovery_invD(2) [OF assms(3)]
  from False assms(1) obtain cluster os members where p: "plan_loop s cluster c (env_now env) (map snd (RecoveryTasks s)) [] = Inr os"
      "commitTask env s (putTask fresh (plannedTask planDigest fresh (env_now env) c cluster actor members s) (fold (supersede fresh (env_now env)) os s))
        (plannedTask planDigest fresh (env_now env) c cluster actor members s) = (r, s')"
    by (auto simp: PlanRecovery_def Let_def split: option.splits if_splits sum.splits)
  have os: "os = filter (\<lambda>x. rt_ClusterID x = c \<and> \<not> closedTask x) (map snd (RecoveryTasks s))" using plan_loop_open [OF p(1)] by simp
  have "distinct (map rt_ResourceID (map snd (RecoveryTasks s)))"
    using key unfolding keyed_by_def by (metis (no_types, lifting) list.map_comp map_eq_conv comp_apply)
  then have d: "distinct (map rt_ResourceID os)" unfolding os by (rule distinct_map_filter)
  let ?s = "fold (supersede fresh (env_now env)) os s"
  have s: "recovery_inv digest (env_now env) ?s \<and> (\<forall>x \<in> tasks ?s. rt_ClusterID x = c \<longrightarrow> closedTask x) \<and> fst ` set (RecoveryTasks ?s) = fst ` set (RecoveryTasks s)"
  proof (rule supersede_fold_inv [OF assms(3) d])
    show "map_of (RecoveryTasks s) (rt_ResourceID x) = Some x \<and> \<not> closedTask x" if "x \<in> set os" for x
    proof -
      have "x \<in> tasks s" "\<not> closedTask x" using that unfolding os by auto
      then show ?thesis using keyed_by_value [OF key] keyed_by_lookup [OF key] by blast
    qed
    show "closedTask x \<or> x \<in> set os" if "x \<in> tasks s" "rt_ClusterID x = c" for x using that unfolding os by auto
  qed
  have "recovery_inv digest (env_now env) (putTask fresh (plannedTask planDigest fresh (env_now env) c cluster actor members s) ?s)"
    by (rule insert_task_inv [OF conjunct1 [OF s]]) (use s assms(2) in \<open>simp_all add: plannedTask_def zeroRecoveryTask_def Let_def IsZero_def\<close>)
  with commitTask_inv [OF p(2) assms(3)] show ?thesis by blast
qed (use assms(3) in simp)

section \<open>Leases, freeze and power\<close>

text \<open>A lease admitted while the cluster is frozen belongs to the committed primary.\<close>

lemma allowed_lease:
  assumes "recovery_inv digest now s" "x \<in> tasks s" "attempted x" "recoveryWriterLeaseAllowed s r now" "l_ClusterID (lr_Lease r) = rt_ClusterID x" "leaseLive now (lr_Lease r)"
  shows "\<not> IsZero (rt_CommittedAt x) \<and> l_OwnerID (lr_Lease r) = rt_PrimaryID x \<and> l_OperationID (lr_Lease r) = l_HAEndpointID (lr_Lease r)"
proof -
  have "protected s x" using recovery_invD(3) [OF assms(1,2)] assms(3) by (simp add: task_ok_def)
  then obtain cluster q where c: "map_of (Clusters s) (rt_ClusterID x) = Some cluster" "cl_RecoveryFreeze cluster" "cl_Recovery cluster = Some q"
      "rs_TaskID q = rt_ResourceID x" "rs_LastRecoveryStatus q = statusOf (rt_Stage x)" unfolding protected_def by blast
  have "DisasterRecoveryActive cluster" using c by (simp add: DisasterRecoveryActive_def statusOf_def)
  moreover have "map_of (RecoveryTasks s) (rt_ResourceID x) = Some x"
    using keyed_by_value [OF recovery_invD(2) [OF assms(1)] assms(2)] keyed_by_lookup [OF recovery_invD(2) [OF assms(1)]] by blast
  ultimately show ?thesis using assms(4-6) c by (simp add: recoveryWriterLeaseAllowed_def Let_def)
qed

lemma lease_table_inv:
  assumes inv: "recovery_inv digest now s" and same: "RecoveryTasks s' = RecoveryTasks s" "Clusters s' = Clusters s"
    and new: "\<And>r. r \<in> lease_records s' \<Longrightarrow> r \<in> lease_records s \<or> recoveryWriterLeaseAllowed s r now"
  shows "recovery_inv digest now s'"
proof (rule recovery_invI)
  show "0 < now" by (rule recovery_invD(1) [OF inv])
  show "keyed_by rt_ResourceID (RecoveryTasks s')" unfolding same by (rule recovery_invD(2) [OF inv])
  show "a = b" if "a \<in> tasks s'" "b \<in> tasks s'" "\<not> closedTask a" "\<not> closedTask b" "rt_ClusterID a = rt_ClusterID b" for a b
    using recovery_invD(4) [OF inv] that unfolding same by blast
  fix x assume "x \<in> tasks s'"
  then have x: "x \<in> tasks s" unfolding same .
  note ok = recovery_invD(3) [OF inv x]
  have prot: "protected s' x = protected s x" by (simp add: protected_def same)
  have "quiet now s' x" if "attempted x"
    unfolding quiet_def
  proof (intro ballI impI)
    fix l assume l: "l \<in> lease_set s'" "l_ClusterID l = rt_ClusterID x \<and> leaseLive now l"
    then obtain r where r: "r \<in> lease_records s'" "l = lr_Lease r" by (auto simp: lease_set_def)
    from new [OF r(1)] show "\<not> IsZero (rt_CommittedAt x) \<and> l_OwnerID l = rt_PrimaryID x \<and> l_OperationID l = l_HAEndpointID l"
    proof
      assume "r \<in> lease_records s"
      with r have "l \<in> lease_set s" by (simp add: lease_set_def)
      with ok that l(2) show ?thesis by (simp add: task_ok_def quiet_def)
    qed (use allowed_lease [OF inv x that] l(2) r(2) in blast)
  qed
  with ok prot show "task_ok digest now s' x" by (simp add: task_ok_def)
qed

lemma set_update_subset: "set (AList.update k v m) \<subseteq> insert (k, v) (set m)"
  by (induction m) auto

lemma step_put_inv:
  assumes "PutCoordinationLease env r s = (e, s')" "recovery_inv digest (env_now env) s"
  shows "recovery_inv digest (env_now env) s'"
proof (cases "leaseFieldsValid (lr_Lease r) \<and> map_of (Clusters s) (l_ClusterID (lr_Lease r)) \<noteq> None \<and> recoveryWriterLeaseAllowed s r (env_now env)")
  case True
  with assms(1) have c: "commitSnapshotLocked env s (s\<lparr>CoordinationLeases := AList.update (recordID r) r (CoordinationLeases s)\<rparr>) = (e, s')"
    by (auto simp: PutCoordinationLease_def Let_def)
  have "recovery_inv digest (env_now env) (s\<lparr>CoordinationLeases := AList.update (recordID r) r (CoordinationLeases s)\<rparr>)"
    by (rule lease_table_inv [OF assms(2)]) (use True set_update_subset [of "recordID r" r "CoordinationLeases s"] in \<open>auto simp: lease_records_def\<close>)
  with commitSnapshotLocked_inv [OF c assms(2)] show ?thesis by blast
qed (use assms in \<open>auto simp: PutCoordinationLease_def Let_def split: if_splits\<close>)

lemma step_delete_inv:
  assumes "DeleteCoordinationLease env k s = (e, s')" "recovery_inv digest (env_now env) s"
  shows "recovery_inv digest (env_now env) s'"
proof -
  have "recovery_inv digest (env_now env) (s\<lparr>CoordinationLeases := AList.delete k (CoordinationLeases s)\<rparr>)"
    by (rule lease_table_inv [OF assms(2)]) (auto simp: lease_records_def set_delete_alist)
  with assms commitSnapshotLocked_inv [OF _ assms(2)] show ?thesis by (auto simp: DeleteCoordinationLease_def split: if_splits)
qed

lemma replace_check_allowed: "replace_check s now rs = None \<Longrightarrow> r \<in> set rs \<Longrightarrow> recoveryWriterLeaseAllowed s r now"
  by (induction rs) (auto split: if_splits)

lemma step_replace_inv:
  assumes "ReplaceCoordinationLeases env rs s = (e, s')" "recovery_inv digest (env_now env) s"
  shows "recovery_inv digest (env_now env) s'"
proof (cases "replace_loop rs []")
  case (Inr m)
  show ?thesis
  proof (cases "replace_check s (env_now env) (map snd m)")
    case None
    have "recovery_inv digest (env_now env) (s\<lparr>CoordinationLeases := m\<rparr>)"
      by (rule lease_table_inv [OF assms(2)]) (use replace_check_allowed [OF None] in \<open>auto simp: lease_records_def\<close>)
    with assms Inr None commitSnapshotLocked_inv [OF _ assms(2)] show ?thesis by (simp add: ReplaceCoordinationLeases_def)
  qed (use assms Inr in \<open>simp add: ReplaceCoordinationLeases_def\<close>)
qed (use assms in \<open>simp add: ReplaceCoordinationLeases_def\<close>)

text \<open>A change of a cluster that no recovery protects is judged by no task.\<close>

lemma unprotected_inv:
  assumes inv: "recovery_inv digest t s" and "\<not> (\<exists>cluster. map_of (Clusters s) c = Some cluster \<and> DisasterRecoveryActive cluster)"
    and "Clusters s' = AList.update c y (Clusters s)" "RecoveryTasks s' = RecoveryTasks s" "CoordinationLeases s' = CoordinationLeases s"
  shows "recovery_inv digest t s'"
proof (rule inv_frame [OF inv assms(4) order.refl])
  fix x assume x: "x \<in> tasks s" "attempted x"
  have "protected s x" using recovery_invD(3) [OF inv x(1)] x(2) by (simp add: task_ok_def)
  then have "rt_ClusterID x \<noteq> c" using assms(2) by (auto simp: protected_def DisasterRecoveryActive_def statusOf_def split: if_splits)
  with assms(3,5) show "sameProtection s s' (rt_ClusterID x) \<and> fewerLeases s s' (rt_ClusterID x)" by simp
qed

lemma step_freeze_inv:
  assumes "SetRecoveryFreeze env ctxErr c val s = (e, s')" "recovery_inv digest (env_now env) s"
  shows "recovery_inv digest (env_now env) s'"
proof (cases "s' = s")
  case False
  with assms(1) obtain cluster where c: "map_of (Clusters s) c = Some cluster" "cl_RecoveryFreeze cluster \<noteq> val"
      "\<not> (\<not> val \<and> cl_RecoveryFreeze cluster \<and> (case cl_Recovery cluster of None \<Rightarrow> False | Some r \<Rightarrow> rs_LastRecoveryStatus r \<noteq> ''succeeded''))"
      "commitSnapshotLocked env s (s\<lparr>Clusters := AList.update c
         (cluster\<lparr>cl_RecoveryFreeze := val, cl_MetadataRevision := cl_MetadataRevision cluster + 1, cl_UpdatedAt := env_now env\<rparr>) (Clusters s)\<rparr>) = (e, s')"
    unfolding SetRecoveryFreeze_def by (cases ctxErr; cases "map_of (Clusters s) c") (auto split: if_splits)
  then have "\<not> DisasterRecoveryActive cluster" by (auto simp: DisasterRecoveryActive_def)
  with c(1) have "\<not> (\<exists>cluster. map_of (Clusters s) c = Some cluster \<and> DisasterRecoveryActive cluster)" by simp
  from commitSnapshotLocked_inv [OF c(4) assms(2)] unprotected_inv [OF assms(2) this] show ?thesis by simp
qed (use assms(2) in simp)

lemma commitPower_state: "commitPower env s n operation = (r, s') \<Longrightarrow> s' = s \<or> s' = compactSnapshotHistory n (env_now env)"
  by (auto simp: commitPower_def commitSnapshotLocked_def Let_def split: commit_outcome.splits prod.splits option.splits)

lemma CompletePowerRecovery_frame:
  assumes "CompletePowerRecovery env ctxErr k revision observedAt s = (p, s')"
  shows "RecoveryTasks s' = RecoveryTasks s" "CoordinationLeases s' = CoordinationLeases s"
    "Clusters s' = Clusters s \<or> (\<exists>c y. \<not> DisasterRecoveryActive (clusterOf s c) \<and> Clusters s' = AList.update c y (Clusters s))"
  using assms unfolding CompletePowerRecovery_def Let_def
  by (auto split: option.splits if_splits dest!: commitPower_state) blast

lemma step_power_inv:
  assumes "CompletePowerRecovery env ctxErr k revision observedAt s = (p, s')" "recovery_inv digest (env_now env) s"
  shows "recovery_inv digest (env_now env) s'"
  using CompletePowerRecovery_frame(3) [OF assms(1)]
proof (elim disjE exE conjE)
  assume "Clusters s' = Clusters s"
  with CompletePowerRecovery_frame(1,2) [OF assms(1)] show ?thesis by (intro inv_frame [OF assms(2)]) simp_all
next
  fix c y assume c: "\<not> DisasterRecoveryActive (clusterOf s c)" "Clusters s' = AList.update c y (Clusters s)"
  then have "\<not> (\<exists>cluster. map_of (Clusters s) c = Some cluster \<and> DisasterRecoveryActive cluster)" by (auto simp: clusterOf_def)
  from unprotected_inv [OF assms(2) this c(2) CompletePowerRecovery_frame(1,2) [OF assms(1)]] show ?thesis .
qed

section \<open>No writer but the committed primary\<close>

lemma recovery_step_inv:
  assumes "recovery_step digest x y" "recovery_inv digest (fst x) (snd x)"
  shows "recovery_inv digest (fst y) (snd y)"
  using assms
proof (induction rule: recovery_step.induct)
  case (step_plan env planDigest ctxErr c actor fresh s r s' t)
  show ?case unfolding fst_conv snd_conv
    by (rule step_plan_inv [OF step_plan(1,2) inv_time [OF step_plan(4) [unfolded fst_conv snd_conv] step_plan(3)]])
next
  case step_fail
  show ?case unfolding fst_conv snd_conv by (rule step_fail_inv [OF step_fail(1) inv_time [OF step_fail(3) [unfolded fst_conv snd_conv] step_fail(2)]])
next
  case step_begin
  show ?case unfolding fst_conv snd_conv by (rule step_begin_inv [OF step_begin(1) inv_time [OF step_begin(3) [unfolded fst_conv snd_conv] step_begin(2)]])
next
  case step_advance
  show ?case unfolding fst_conv snd_conv by (rule step_advance_inv [OF step_advance(1) inv_time [OF step_advance(3) [unfolded fst_conv snd_conv] step_advance(2)]])
next
  case step_commit
  show ?case unfolding fst_conv snd_conv by (rule step_commit_inv [OF step_commit(1) inv_time [OF step_commit(3) [unfolded fst_conv snd_conv] step_commit(2)]])
next
  case step_complete
  show ?case unfolding fst_conv snd_conv by (rule step_complete_inv [OF step_complete(1) inv_time [OF step_complete(3) [unfolded fst_conv snd_conv] step_complete(2)]])
next
  case step_block
  show ?case unfolding fst_conv snd_conv by (rule step_block_inv [OF step_block(1) inv_time [OF step_block(3) [unfolded fst_conv snd_conv] step_block(2)]])
next
  case step_put
  show ?case unfolding fst_conv snd_conv by (rule step_put_inv [OF step_put(1) inv_time [OF step_put(3) [unfolded fst_conv snd_conv] step_put(2)]])
next
  case step_delete
  show ?case unfolding fst_conv snd_conv by (rule step_delete_inv [OF step_delete(1) inv_time [OF step_delete(3) [unfolded fst_conv snd_conv] step_delete(2)]])
next
  case step_replace
  show ?case unfolding fst_conv snd_conv by (rule step_replace_inv [OF step_replace(1) inv_time [OF step_replace(3) [unfolded fst_conv snd_conv] step_replace(2)]])
next
  case step_freeze
  show ?case unfolding fst_conv snd_conv by (rule step_freeze_inv [OF step_freeze(1) inv_time [OF step_freeze(3) [unfolded fst_conv snd_conv] step_freeze(2)]])
next
  case step_power
  show ?case unfolding fst_conv snd_conv by (rule step_power_inv [OF step_power(1) inv_time [OF step_power(3) [unfolded fst_conv snd_conv] step_power(2)]])
next
  case (step_other s' s t t')
  show ?case unfolding fst_conv snd_conv
    by (rule inv_frame [OF step_other(5) [unfolded fst_conv snd_conv] step_other(1,4)]) (use step_other(2,3) in simp)
qed

lemma recovery_reachable_inv:
  assumes "(recovery_step digest)\<^sup>*\<^sup>* x y" "recovery_inv digest (fst x) (snd x)"
  shows "recovery_inv digest (fst y) (snd y)"
  using assms by (induction rule: rtranclp_induct) (auto intro: recovery_step_inv)

lemma recovery_inv_start: "0 < t \<Longrightarrow> RecoveryTasks s = [] \<Longrightarrow> recovery_inv digest t s"
  by (simp add: recovery_inv_def)


section \<open>What a committed recovery publishes\<close>

text \<open>Every accepted member is a healthy member of the plan, each counted once; one of them is the primary and the others have caught up.\<close>

lemma verify_members_ok:
  assumes "verify_members task is seen primary = Inr (seen', primary')"
  shows "set seen' = set seen \<union> di_ResourceID ` set is" "distinct (map di_ResourceID is)"
    and "primary' = primary \<or> (\<exists>p \<in> set is. primary' = Some p \<and> di_ResourceID p = rt_PrimaryID task)"
    and "i \<in> set is \<Longrightarrow> h_State (di_Health i) = HealthHealthy \<and> di_ClusterID i = rt_ClusterID task \<and> di_ResourceID i \<in> di_ResourceID ` set (rt_Members task) \<and>
      (if di_ResourceID i = rt_PrimaryID task then di_Role i = RolePrimary else replicaCaughtUp (rt_Engine task) i)"
proof -
  let ?good = "\<lambda>i. h_State (di_Health i) = HealthHealthy \<and> di_ClusterID i = rt_ClusterID task \<and> di_ResourceID i \<in> di_ResourceID ` set (rt_Members task) \<and>
      (if di_ResourceID i = rt_PrimaryID task then di_Role i = RolePrimary else replicaCaughtUp (rt_Engine task) i)"
  have "set seen' = set seen \<union> di_ResourceID ` set is \<and> distinct (map di_ResourceID is) \<and> di_ResourceID ` set is \<inter> set seen = {} \<and>
      (primary' = primary \<or> (\<exists>p \<in> set is. primary' = Some p \<and> di_ResourceID p = rt_PrimaryID task)) \<and> (\<forall>i \<in> set is. ?good i)"
    using assms
  proof (induction "is" arbitrary: seen primary)
    case (Cons j js)
    let ?same = "filter (\<lambda>m. di_ResourceID m = di_ResourceID j) (rt_Members task)"
    from Cons(2) have j: "di_ResourceID j \<notin> set seen" "h_State (di_Health j) = HealthHealthy" "di_ClusterID j = rt_ClusterID task" "?same \<noteq> []"
        "if di_ResourceID j = rt_PrimaryID task then di_Role j = RolePrimary else replicaCaughtUp (rt_Engine task) j"
        "verify_members task js (di_ResourceID j # seen) (if di_ResourceID j = rt_PrimaryID task then Some j else primary) = Inr (seen', primary')"
      by (auto simp: Let_def split: if_splits)
    from j(4) have "di_ResourceID j \<in> di_ResourceID ` set (rt_Members task)" by (metis (mono_tags, lifting) filter_empty_conv image_eqI)
    with Cons(1) [OF j(6)] j(1,2,3,5) show ?case by (auto split: if_splits)
  qed simp
  then show "set seen' = set seen \<union> di_ResourceID ` set is" "distinct (map di_ResourceID is)"
    "primary' = primary \<or> (\<exists>p \<in> set is. primary' = Some p \<and> di_ResourceID p = rt_PrimaryID task)" "i \<in> set is \<Longrightarrow> ?good i"
    by blast+
qed

lemma verifyRecoveryTopology_ok:
  assumes "verifyRecoveryTopology task topology now = None"
  obtains p where "p \<in> set (ts_Instances topology)" "di_ResourceID p = rt_PrimaryID task" "di_Role p = RolePrimary" "distinct (map di_ResourceID (ts_Instances topology))"
    "length (ts_Instances topology) = length (rt_Members task)"
    "\<And>i. i \<in> set (ts_Instances topology) \<Longrightarrow> di_ResourceID i \<in> di_ResourceID ` set (rt_Members task) \<and> (i = p \<or> replicaCaughtUp (rt_Engine task) i \<and>
      InstanceKey (di_Engine i) (rs_SourceIdentity (di_Replication i)) = InstanceKey (di_Engine p) (di_EngineIdentity p))"
proof -
  from assms obtain seen p key where v: "length (ts_Instances topology) = length (rt_Members task)" "verify_members task (ts_Instances topology) [] None = Inr (seen, Some p)"
      "InstanceKey (di_Engine p) (di_EngineIdentity p) = Some key"
      "\<not> list_ex (\<lambda>i. di_ResourceID i \<noteq> rt_PrimaryID task \<and> InstanceKey (di_Engine i) (rs_SourceIdentity (di_Replication i)) \<noteq> Some key) (ts_Instances topology)"
    unfolding verifyRecoveryTopology_def by (auto split: if_splits sum.splits prod.splits option.splits)
  note ok = verify_members_ok [OF v(2)]
  from ok(3) have p: "p \<in> set (ts_Instances topology)" "di_ResourceID p = rt_PrimaryID task" by auto
  show ?thesis
  proof (rule that [OF p])
    show "di_Role p = RolePrimary" using ok(4) [OF p(1)] p(2) by simp
    show "distinct (map di_ResourceID (ts_Instances topology))" by (rule ok(2))
    show "length (ts_Instances topology) = length (rt_Members task)" by (rule v(1))
    fix i assume i: "i \<in> set (ts_Instances topology)"
    show "di_ResourceID i \<in> di_ResourceID ` set (rt_Members task) \<and> (i = p \<or> replicaCaughtUp (rt_Engine task) i \<and>
      InstanceKey (di_Engine i) (rs_SourceIdentity (di_Replication i)) = InstanceKey (di_Engine p) (di_EngineIdentity p))"
    proof (cases "di_ResourceID i = rt_PrimaryID task")
      case True
      then have "i = p" using ok(2) i p by (metis distinct_map inj_onD)
      then show ?thesis using ok(4) [OF i] by simp
    next
      case False
      then show ?thesis using ok(4) [OF i] v(3,4) i by (auto simp: list_ex_iff)
    qed
  qed
qed

lemma own_endpoints_owned:
  "own_endpoints c primary now es s = Some s' \<Longrightarrow> distinct (map fst es) \<Longrightarrow>
   map_of (HAEndpoints s') k = (case map_of es k of None \<Rightarrow> map_of (HAEndpoints s) k
     | Some he \<Rightarrow> if he_ClusterID he = c then Some (ownHAEndpoint primary False now he) else map_of (HAEndpoints s) k)"
proof (induction c primary "now" es s arbitrary: s' rule: own_endpoints.induct)
  case (2 c primary "now" j he rest s)
  have fresh: "map_of rest j = None" using 2(4) by (simp add: map_of_eq_None_iff)
  show ?case
  proof (cases "he_ClusterID he = c")
    case True
    show ?thesis
    proof (cases "map_of (clusterEndpoints c s) (he_EndpointID he)")
      case (Some registered)
      with 2(3) True have "ep_ClusterID registered = c" by (auto split: if_splits)
      with 2(2) [OF _ Some] 2(3,4) True Some fresh show ?thesis by (simp add: update_conv' split: option.splits)
    qed (use 2(3) True in simp)
  qed (use 2(1,3,4) fresh in \<open>auto split: option.splits\<close>)
qed simp

lemma publish_loop_published:
  "publish_loop now is s = (js, s') \<Longrightarrow> distinct (map di_ResourceID is) \<Longrightarrow>
   (\<forall>i \<in> set is. \<exists>j. map_of (Instances s') (di_ResourceID i) = Some j \<and> di_Role j = di_Role i \<and> di_DesiredRole j = di_Role i \<and> di_Maintenance j) \<and>
   (\<forall>k. k \<notin> di_ResourceID ` set is \<longrightarrow> map_of (Instances s') k = map_of (Instances s) k) \<and> HAEndpoints s' = HAEndpoints s"
proof (induction "now" "is" s arbitrary: js s' rule: publish_loop.induct)
  case (2 "now" i "is" s)
  define j where "j = i\<lparr>di_DesiredRole := di_Role i, di_Maintenance := True,
    di_MetadataRevision := (case map_of (Instances s) (di_ResourceID i) of None \<Rightarrow> 0 | Some old \<Rightarrow> di_MetadataRevision old) + 1, di_UpdatedAt := now\<rparr>"
  have j: "di_ResourceID j = di_ResourceID i" "di_Role j = di_Role i" "di_DesiredRole j = di_Role i" "di_Maintenance j" by (simp_all add: j_def)
  obtain ks where ks: "publish_loop now is (s\<lparr>Instances := AList.update (di_ResourceID j) j (Instances s)\<rparr>) = (ks, s')"
    using 2(2) by (auto simp: Let_def j_def split: prod.splits)
  have "distinct (map di_ResourceID is)" "di_ResourceID i \<notin> di_ResourceID ` set is" using 2(3) by auto
  with 2(1) [OF refl j_def ks] j show ?case by (auto simp: update_conv')
qed simp

lemma published_inventory:
  assumes "distinct (map di_ResourceID (ts_Instances topology))"
  shows "HAEndpoints (publishedSnapshot x topology now s) = HAEndpoints s"
    "i \<in> set (ts_Instances topology) \<Longrightarrow> \<exists>j. map_of (Instances (publishedSnapshot x topology now s)) (di_ResourceID i) = Some j \<and> di_Role j = di_Role i \<and>
       di_DesiredRole j = di_Role i \<and> di_Maintenance j"
  by (cases "publish_loop now (ts_Instances topology) s"; use publish_loop_published [OF _ assms] in \<open>fastforce simp: publishedSnapshot_def Let_def putCluster_def\<close>)+

lemma commitTask_Inr:
  "commitTask env s n x = (Inr y, s') \<Longrightarrow> y = x \<and> s' = compactSnapshotHistory n (env_now env)"
  by (auto simp: commitTask_def split: prod.splits option.splits dest: commit_None)

text \<open>
  (C12) A committed recovery publishes one consistent topology. When \<^verbatim>\<open>CommitRecovery\<close> succeeds, the observed instances are distinct
  members of the plan, as many as the plan has; exactly the selected one is the writer, and each other one is a caught-up replica whose upstream is that
  primary's native identity. Every published instance keeps its observed role as its desired role and stays in maintenance, every HA
  endpoint of the cluster is owned by the primary, the freeze stays, and no lease changes.
\<close>

theorem CommitRecovery_sound:
  assumes "CommitRecovery env ctxErr task topology s = (Inr task', s')" "distinct (map fst (HAEndpoints s))" "keyed_by rt_ResourceID (RecoveryTasks s)"
  shows "rt_Stage task' = RecoveryCommitted \<and> map_of (RecoveryTasks s') (rt_ResourceID task) = Some task' \<and> CoordinationLeases s' = CoordinationLeases s \<and>
    cl_RecoveryFreeze (clusterOf s' (rt_ClusterID task')) = cl_RecoveryFreeze (clusterOf s (rt_ClusterID task')) \<and>
    distinct (map di_ResourceID (ts_Instances topology)) \<and> length (ts_Instances topology) = length (rt_Members task') \<and>
    (\<exists>p \<in> set (ts_Instances topology). di_ResourceID p = rt_PrimaryID task' \<and> di_Role p = RolePrimary \<and>
      (\<forall>i \<in> set (ts_Instances topology). di_ResourceID i \<in> di_ResourceID ` set (rt_Members task') \<and> (i = p \<or> replicaCaughtUp (rt_Engine task') i \<and>
        InstanceKey (di_Engine i) (rs_SourceIdentity (di_Replication i)) = InstanceKey (di_Engine p) (di_EngineIdentity p)))) \<and>
    (\<forall>i \<in> set (ts_Instances topology). \<exists>j. map_of (Instances s') (di_ResourceID i) = Some j \<and> di_Role j = di_Role i \<and> di_DesiredRole j = di_Role i \<and> di_Maintenance j) \<and>
    (\<forall>k he. map_of (HAEndpoints s') k = Some he \<and> he_ClusterID he = rt_ClusterID task' \<longrightarrow> he_OwnerID he = rt_PrimaryID task')"
  using assms(1)
proof (cases rule: CommitRecovery_cases)
  case (tried x n)
  note own = own_keeps [OF tried(7)]
  from commitTask_Inr [OF tried(8)] have c: "task' = committedTask (env_now env) (ts_ObservedAt topology) x"
      "s' = compactSnapshotHistory (putTask (rt_ResourceID x) task' n) (env_now env)" by simp_all
  have key: "rt_ResourceID x = rt_ResourceID task" using tried(2) keyed_by_lookup [OF assms(3)] assms(3) by (auto simp: keyed_by_def)
  have task: "rt_Stage task' = RecoveryCommitted" "rt_ClusterID task' = rt_ClusterID x" "rt_PrimaryID task' = rt_PrimaryID x" "rt_Members task' = rt_Members x"
    "rt_Engine task' = rt_Engine x" by (simp_all add: c(1)) (simp add: committedTask_def markTask_def)
  obtain p where p: "p \<in> set (ts_Instances topology)" "di_ResourceID p = rt_PrimaryID x" "di_Role p = RolePrimary" "distinct (map di_ResourceID (ts_Instances topology))"
      "length (ts_Instances topology) = length (rt_Members x)"
      "\<And>i. i \<in> set (ts_Instances topology) \<Longrightarrow> di_ResourceID i \<in> di_ResourceID ` set (rt_Members x) \<and> (i = p \<or> replicaCaughtUp (rt_Engine x) i \<and>
        InstanceKey (di_Engine i) (rs_SourceIdentity (di_Replication i)) = InstanceKey (di_Engine p) (di_EngineIdentity p))"
    by (rule verifyRecoveryTopology_ok [OF tried(6)]) blast
  note pub = published_inventory [OF p(4), where x = x and now = "env_now env" and s = s]
  have s': "Instances s' = Instances n" "HAEndpoints s' = HAEndpoints n" "Clusters s' = Clusters n" "CoordinationLeases s' = CoordinationLeases s"
      "map_of (RecoveryTasks s') (rt_ResourceID task) = Some task'"
    using own key by (simp_all add: c(2) putTask_def update_conv')
  have endpoints: "he_OwnerID he = rt_PrimaryID x" if "map_of (HAEndpoints s') k = Some he" "he_ClusterID he = rt_ClusterID x" for k he
    using that own_endpoints_owned [OF tried(7), of k] assms(2) unfolding s' pub(1)
    by (auto simp: ownHAEndpoint_def split: option.splits if_splits)
  have "cl_RecoveryFreeze (clusterOf s' (rt_ClusterID x)) = cl_RecoveryFreeze (clusterOf s (rt_ClusterID x))"
    using own by (simp add: clusterOf_def [of s'] s' update_conv' Let_def)
  moreover have "\<forall>i \<in> set (ts_Instances topology). \<exists>j. map_of (Instances s') (di_ResourceID i) = Some j \<and> di_Role j = di_Role i \<and> di_DesiredRole j = di_Role i \<and> di_Maintenance j"
    using pub(2) own unfolding s' by simp
  ultimately show ?thesis unfolding task using p endpoints s'(4,5) by blast
qed simp

section \<open>A recovery run\<close>

definition sampleNode :: "char \<Rightarrow> DatabaseInstance" where
  "sampleNode c = zeroInstance\<lparr>di_ResourceID := sampleID c, di_ClusterID := sampleID (CHR ''1''), di_Engine := EngineMySQL, di_EngineIdentity := [(''server_uuid'', [c])],
     di_Health := \<lparr>h_State = HealthHealthy, h_Summary = [], h_ObservedAt = 0\<rparr>\<rparr>"

definition sampleDisaster :: snapshot where
  "sampleDisaster = emptySnapshot\<lparr>Clusters := [(sampleID (CHR ''1''), zeroCluster\<lparr>cl_Engine := EngineMySQL\<rparr>)],
     Instances := [(sampleID (CHR ''4''), sampleNode (CHR ''4'')), (sampleID (CHR ''5''), sampleNode (CHR ''5''))],
     HAEndpoints := [(sampleID (CHR ''2''), sampleHA)], Endpoints := [(sampleID (CHR ''1''), [(sampleID (CHR ''3''), sampleVIP)])],
     OperationLocks := [(sampleID (CHR ''7''), \<lparr>ol_ResourceID = sampleID (CHR ''7''), ol_ClusterID = sampleID (CHR ''1''), ol_OperationID = sampleID (CHR ''8''),
       ol_ExpiresAt = 1000, ol_CreatedAt = 1, ol_UpdatedAt = 1\<rparr>)]\<rparr>"

definition sampleBegun :: snapshot where
  "sampleBegun = snd (BeginRecovery (sampleRepoEnv 6) None (sampleID (CHR ''8'')) 1 (sampleID (CHR ''7''))
     (snd (PlanRecovery (sampleRepoEnv 5) (\<lambda>_. []) None (sampleID (CHR ''1'')) ''admin'' (sampleID (CHR ''8'')) sampleDisaster)))"

lemma sampleBegun_reachable: "(recovery_step digest)\<^sup>*\<^sup>* (1, sampleDisaster) (6, sampleBegun)"
proof -
  let ?p = "PlanRecovery (sampleRepoEnv 5) (\<lambda>_. []) None (sampleID (CHR ''1'')) ''admin'' (sampleID (CHR ''8'')) sampleDisaster"
  have "recovery_step digest (1, sampleDisaster) (5, snd ?p)"
    using step_plan [of "sampleRepoEnv 5" "\<lambda>_. []" None "sampleID (CHR ''1'')" "''admin''" "sampleID (CHR ''8'')" sampleDisaster "fst ?p" "snd ?p" 1]
    by (simp add: sampleRepoEnv_def) (simp add: sampleDisaster_def emptySnapshot_def)
  moreover have "recovery_step digest (5, snd ?p) (6, sampleBegun)"
  proof -
    let ?b = "BeginRecovery (sampleRepoEnv 6) None (sampleID (CHR ''8'')) 1 (sampleID (CHR ''7'')) (snd ?p)"
    have "?b = (fst ?b, sampleBegun)" by (simp add: sampleBegun_def)
    from step_begin [OF this, of 5] show ?thesis by (simp add: sampleRepoEnv_def)
  qed
  ultimately show ?thesis by (meson rtranclp.simps)
qed


definition sampleVerifying :: RecoveryTask where
  "sampleVerifying = zeroRecoveryTask\<lparr>rt_ResourceID := sampleID (CHR ''8''), rt_MetadataRevision := 6, rt_UpdatedAt := 9, rt_ClusterID := sampleID (CHR ''1''),
     rt_Engine := EngineMySQL, rt_Stage := RecoveryVerifying, rt_Members := [sampleNode (CHR ''4''), sampleNode (CHR ''5'')], rt_PrimaryID := sampleID (CHR ''4''),
     rt_LeaseID := sampleID (CHR ''7''), rt_AttemptStartedAt := 6\<rparr>"

definition sampleObserved :: TopologySnapshot where
  "sampleObserved = \<lparr>ts_ClusterID = sampleID (CHR ''1''), ts_Instances = [(sampleNode (CHR ''4''))\<lparr>di_Role := RolePrimary\<rparr>, (sampleNode (CHR ''5''))\<lparr>di_Role := RoleReplica,
       di_Replication := zeroReplication\<lparr>rs_SourceIdentity := [(''server_uuid'', ''4'')], rs_IOThread := ThreadRunning, rs_SQLThread := ThreadRunning, rs_LagSeconds := Some 0\<rparr>\<rparr>],
     ts_Links = [\<lparr>rl_ClusterID = sampleID (CHR ''1''), rl_SourceInstanceID = sampleID (CHR ''4''), rl_TargetInstanceID = sampleID (CHR ''5''), rl_Healthy = True, rl_LagSeconds = Some 0\<rparr>],
     ts_Probes = map (\<lambda>c. \<lparr>pb_InstanceID = sampleID c, pb_Outcome = ProbeOutcomeReachable, pb_DiscoveryObservedAt = 10,
       pb_Health = \<lparr>h_State = HealthHealthy, h_Summary = [], h_ObservedAt = 0\<rparr>\<rparr>) [CHR ''4'', CHR ''5''],
     ts_Health = \<lparr>h_State = HealthHealthy, h_Summary = [], h_ObservedAt = 0\<rparr>, ts_Anomalies = [], ts_ObservedAt = 10\<rparr>"

theorem CommitRecovery_sound_witness:
  "\<exists>task' s'. CommitRecovery (sampleRepoEnv 12) None sampleVerifying sampleObserved (sampleDisaster\<lparr>RecoveryTasks := [(sampleID (CHR ''8''), sampleVerifying)]\<rparr>) = (Inr task', s') \<and>
     rt_Stage task' = RecoveryCommitted \<and> map_of (RecoveryTasks s') (sampleID (CHR ''8'')) = Some task'"
proof -
  let ?s = "sampleDisaster\<lparr>RecoveryTasks := [(sampleID (CHR ''8''), sampleVerifying)]\<rparr>"
  have "isOk (fst (CommitRecovery (sampleRepoEnv 12) None sampleVerifying sampleObserved ?s))" by code_simp
  then obtain task' s' where c: "CommitRecovery (sampleRepoEnv 12) None sampleVerifying sampleObserved ?s = (Inr task', s')"
    by (cases "CommitRecovery (sampleRepoEnv 12) None sampleVerifying sampleObserved ?s") (auto simp: isOk_def split: sum.splits)
  have id: "rt_ResourceID sampleVerifying = sampleID (CHR ''8'')" by (simp add: sampleVerifying_def)
  have "distinct (map fst (HAEndpoints ?s))" "keyed_by rt_ResourceID (RecoveryTasks ?s)"
    by (simp_all add: sampleDisaster_def keyed_by_def id)
  from CommitRecovery_sound [OF c this] c id show ?thesis by metis
qed

end
