(* ===== verification/Disaster_Manager.thy ===== *)
theory Disaster_Manager
  imports Recovery_Protocol
begin

text \<open>
  The executor of disaster recovery (\<^verbatim>\<open>internal/disaster/manager.go\<close>): the stages that \<^verbatim>\<open>Execute\<close> runs over the repository's recovery task
  and the driver that acts on the members. The driver, the authority, the locks and the maintenance gate are Go interfaces; each of their
  answers, the instants of the calls and what other actors do to the repository between two calls are arguments of the model, one per call.
  The world records every call with its instant, so that the theorems can speak about the order of calls.
\<close>

section \<open>The world of an execution\<close>

datatype manager_error = ManagerUnconfigured | ConfirmationStale | Collaborator string | StoreFailed recovery_error | SelectionFailed selection_error

datatype recovery_call =
  CallAuthority bool | CallMaintenance bool | CallPreflight bool | CallLock bool | CallBegin "RecoveryTask option" | CallAdvance RecoveryStage rid bool
  | CallFence rid bool | CallDrained bool | CallInspect rid "RecoveryEvidence option" | CallCompare "RecoveryProof list option" | CallStartPrimary rid bool
  | CallRebuild rid bool | CallVerify bool | CallCommit bool | CallActivate rid bool | CallComplete bool

text \<open>
  Answers are indexed by the number of the call. \<open>mv_others\<close> is what happened to clock and repository before the call, \<open>mv_completing\<close> what the
  driver itself does to them when it completes the recovery.
\<close>

record manager_env =
  mv_configured :: bool
  mv_DrainInterval :: duration
  mv_others :: "nat \<Rightarrow> go_time \<times> snapshot \<Rightarrow> go_time \<times> snapshot"
  mv_completing :: "nat \<Rightarrow> go_time \<times> snapshot \<Rightarrow> go_time \<times> snapshot"
  mv_delay :: "nat \<Rightarrow> nat"
  mv_commit :: "nat \<Rightarrow> snapshot \<Rightarrow> snapshot \<Rightarrow> commit_outcome"
  mv_ctxErr :: "nat \<Rightarrow> store_error option"
  mv_Cause :: "nat \<Rightarrow> string option"
  mv_RequireMutationAuthority :: "nat \<Rightarrow> string option"
  mv_Check :: "nat \<Rightarrow> string option"
  mv_Acquire :: "nat \<Rightarrow> string + rid"
  mv_Preflight :: "nat \<Rightarrow> string option"
  mv_Fence :: "nat \<Rightarrow> string option"
  mv_Inspect :: "nat \<Rightarrow> rid \<Rightarrow> string + RecoveryEvidence"
  mv_Compare :: "nat \<Rightarrow> string + RecoveryProof list"
  mv_StartPrimary :: "nat \<Rightarrow> string option"
  mv_Rebuild :: "nat \<Rightarrow> string option"
  mv_Verify :: "nat \<Rightarrow> string + TopologySnapshot"
  mv_Activate :: "nat \<Rightarrow> string option"
  mv_Complete :: "nat \<Rightarrow> string + RecoveryTask"

record manager_world =
  mw_calls :: nat
  mw_at :: go_time
  mw_repo :: snapshot
  mw_task :: RecoveryTask
  mw_evidence :: "RecoveryEvidence list"
  mw_trace :: "(go_time \<times> recovery_call) list"

text \<open>A statement of \<^verbatim>\<open>Execute\<close> changes the world, its local variables included, and yields an error, a list as \<^verbatim>\<open>errors.Join\<close> builds it.\<close>

type_synonym statement = "manager_world \<Rightarrow> manager_error list \<times> manager_world"

definition andThen :: "statement \<Rightarrow> statement \<Rightarrow> statement" where
  "andThen a b w = (case a w of ([], w') \<Rightarrow> b w' | (err, w') \<Rightarrow> (err, w'))"

definition turn :: "manager_env \<Rightarrow> manager_world \<Rightarrow> manager_world" where
  "turn m w = (let (t, s) = mv_others m (mw_calls w) (mw_at w, mw_repo w) in w\<lparr>mw_calls := Suc (mw_calls w), mw_at := t, mw_repo := s\<rparr>)"

definition record_call :: "recovery_call \<Rightarrow> manager_world \<Rightarrow> manager_world" where
  "record_call c w = w\<lparr>mw_trace := mw_trace w @ [(mw_at w, c)]\<rparr>"

definition ask :: "manager_env \<Rightarrow> (nat \<Rightarrow> string option) \<Rightarrow> (bool \<Rightarrow> recovery_call) \<Rightarrow> statement" where
  "ask m answer c w =
     (case answer (mw_calls w) of
        None \<Rightarrow> ([], record_call (c True) (turn m w))
      | Some e \<Rightarrow> ([Collaborator e], record_call (c False) (turn m w)))"

definition repoEnv :: "manager_env \<Rightarrow> nat \<Rightarrow> go_time \<Rightarrow> repo_env" where
  "repoEnv m n t = \<lparr>env_now = t + int (mv_delay m n), env_commit = mv_commit m n\<rparr>"

text \<open>A call of a repository operation; the answer of a successful one becomes the local task.\<close>

definition callStore :: "manager_env \<Rightarrow> (repo_env \<Rightarrow> store_error option \<Rightarrow> snapshot \<Rightarrow> (recovery_error + RecoveryTask) \<times> snapshot) \<Rightarrow>
    (RecoveryTask option \<Rightarrow> recovery_call) \<Rightarrow> statement" where
  "callStore m operation c w =
     (let n = mw_calls w; w = turn m w; env = repoEnv m n (mw_at w); w = w\<lparr>mw_at := env_now env\<rparr> in
      case operation env (mv_ctxErr m n) (mw_repo w) of
        (Inl e, s) \<Rightarrow> ([StoreFailed e], record_call (c None) (w\<lparr>mw_repo := s\<rparr>))
      | (Inr task, s) \<Rightarrow> ([], record_call (c (Some task)) (w\<lparr>mw_repo := s, mw_task := task\<rparr>)))"

section \<open>Stages\<close>

definition requireAuthority :: "manager_env \<Rightarrow> statement" where
  "requireAuthority m = ask m (mv_RequireMutationAuthority m) CallAuthority"

definition manager_Preflight :: "manager_env \<Rightarrow> statement" where
  "manager_Preflight m =
     andThen (\<lambda>w. (if mv_configured m then [] else [ManagerUnconfigured], w))
    (andThen (requireAuthority m)
    (andThen (ask m (mv_Check m) CallMaintenance)
    (andThen (\<lambda>w. let n = mw_calls w; w = turn m w in
        (case ValidateRecoveryPlan (mv_ctxErr m n) (mw_task w) (mw_repo w) of None \<Rightarrow> ([], w) | Some e \<Rightarrow> ([StoreFailed (RecoveryError e)], w)))
      (ask m (mv_Preflight m) CallPreflight))))"

definition checkCause :: "manager_env \<Rightarrow> statement" where
  "checkCause m w = (case mv_Cause m (mw_calls w) of None \<Rightarrow> ([], turn m w) | Some e \<Rightarrow> ([Collaborator e], turn m w))"

definition storeEvent :: "RecoveryStage \<Rightarrow> rid \<Rightarrow> string \<Rightarrow> RecoveryEvent" where
  "storeEvent stage member message = \<lparr>rn_At = 0, rn_Stage = stage, rn_InstanceID = member, rn_Message = message\<rparr>"

definition storeAdvance :: "manager_env \<Rightarrow> (RecoveryEvidence \<Rightarrow> string) \<Rightarrow> (string \<Rightarrow> string) \<Rightarrow> RecoveryStage \<Rightarrow> rid \<Rightarrow> string \<Rightarrow> statement" where
  "storeAdvance m digest redactText stage member message w =
     callStore m (\<lambda>env ctxErr. AdvanceRecovery env digest redactText ctxErr (mw_task w) (storeEvent stage member message)) (\<lambda>r. CallAdvance stage member (r \<noteq> None)) w"

definition advance :: "manager_env \<Rightarrow> (RecoveryEvidence \<Rightarrow> string) \<Rightarrow> (string \<Rightarrow> string) \<Rightarrow> RecoveryStage \<Rightarrow> rid \<Rightarrow> string \<Rightarrow> statement" where
  "advance m digest redactText stage member message =
     andThen (checkCause m) (andThen (requireAuthority m) (storeAdvance m digest redactText stage member message))"

fun fence_members :: "manager_env \<Rightarrow> (RecoveryEvidence \<Rightarrow> string) \<Rightarrow> (string \<Rightarrow> string) \<Rightarrow> DatabaseInstance list \<Rightarrow> statement" where
  "fence_members m digest redactText [] = Pair []"
| "fence_members m digest redactText (member # members) =
     andThen (advance m digest redactText RecoveryFencing (di_ResourceID member) ''isolating member and verifying persistent write fence'')
    (andThen (ask m (mv_Fence m) (CallFence (di_ResourceID member)))
    (andThen (advance m digest redactText RecoveryFencing (di_ResourceID member) ''member write fence verified'')
      (fence_members m digest redactText members)))"

definition drainInterval :: "manager_env \<Rightarrow> duration" where
  "drainInterval m = (if mv_DrainInterval m \<le> 0 then 11 * second else mv_DrainInterval m)"

text \<open>The timer fires no earlier than its interval; otherwise the lease context ended first.\<close>

definition drain :: "manager_env \<Rightarrow> statement" where
  "drain m w =
     (case mv_Cause m (mw_calls w) of
        None \<Rightarrow> let w' = turn m w in ([], record_call (CallDrained True) (w'\<lparr>mw_at := mw_at w' + drainInterval m\<rparr>))
      | Some e \<Rightarrow> ([Collaborator e], record_call (CallDrained False) (turn m w)))"

definition inspect :: "manager_env \<Rightarrow> rid \<Rightarrow> statement" where
  "inspect m member w =
     (case mv_Inspect m (mw_calls w) member of
        Inl e \<Rightarrow> ([Collaborator e], record_call (CallInspect member None) (turn m w))
      | Inr e \<Rightarrow> ([], record_call (CallInspect member (Some e)) ((turn m w)\<lparr>mw_evidence := mw_evidence w @ [e]\<rparr>)))"

fun inspect_members :: "manager_env \<Rightarrow> (RecoveryEvidence \<Rightarrow> string) \<Rightarrow> (string \<Rightarrow> string) \<Rightarrow> DatabaseInstance list \<Rightarrow> statement" where
  "inspect_members m digest redactText [] = Pair []"
| "inspect_members m digest redactText (member # members) =
     andThen (advance m digest redactText RecoveryInspecting (di_ResourceID member) ''collecting native identity and recoverable transaction history'')
    (andThen (inspect m (di_ResourceID member)) (inspect_members m digest redactText members))"

definition validate :: "(RecoveryEvidence \<Rightarrow> string) \<Rightarrow> statement" where
  "validate digest w = (case ValidateEvidence digest (rt_Members (mw_task w)) (mw_evidence w) of None \<Rightarrow> ([], w) | Some e \<Rightarrow> ([SelectionFailed e], w))"

definition compareAndSelect :: "manager_env \<Rightarrow> (RecoveryEvidence \<Rightarrow> string) \<Rightarrow> statement" where
  "compareAndSelect m digest w =
     (case mv_Compare m (mw_calls w) of
        Inl e \<Rightarrow> ([Collaborator e], record_call (CallCompare None) (turn m w))
      | Inr proofs \<Rightarrow>
          let w = record_call (CallCompare (Some proofs)) (turn m w) in
          case Select digest (rt_Members (mw_task w)) (mw_evidence w) proofs of
            Inl e \<Rightarrow> ([SelectionFailed e], w)
          | Inr primary \<Rightarrow> ([], w\<lparr>mw_task := (mw_task w)\<lparr>rt_Evidence := mw_evidence w, rt_Proofs := proofs, rt_PrimaryID := primary\<rparr>\<rparr>))"

fun rebuild_members :: "manager_env \<Rightarrow> (RecoveryEvidence \<Rightarrow> string) \<Rightarrow> (string \<Rightarrow> string) \<Rightarrow> rid \<Rightarrow> DatabaseInstance list \<Rightarrow> statement" where
  "rebuild_members m digest redactText primary [] = Pair []"
| "rebuild_members m digest redactText primary (member # members) =
     (if di_ResourceID member = primary then rebuild_members m digest redactText primary members
      else andThen (advance m digest redactText RecoveryRebuilding (di_ResourceID member) ''reconstructing replica from the selected authoritative primary'')
          (andThen (ask m (mv_Rebuild m) (CallRebuild (di_ResourceID member)))
          (andThen (advance m digest redactText RecoveryRebuilding (di_ResourceID member) ''replica reconstruction and upstream identity verified'')
            (rebuild_members m digest redactText primary members))))"

definition verifyAndCommit :: "manager_env \<Rightarrow> statement" where
  "verifyAndCommit m w =
     (case mv_Verify m (mw_calls w) of
        Inl e \<Rightarrow> ([Collaborator e], record_call (CallVerify False) (turn m w))
      | Inr topology \<Rightarrow>
          callStore m (\<lambda>env ctxErr. CommitRecovery env ctxErr (mw_task w) topology) (\<lambda>r. CallCommit (r \<noteq> None)) (record_call (CallVerify True) (turn m w)))"

section \<open>Execute\<close>

definition collectEvidence :: "manager_env \<Rightarrow> (RecoveryEvidence \<Rightarrow> string) \<Rightarrow> (string \<Rightarrow> string) \<Rightarrow> statement" where
  "collectEvidence m digest redactText =
     andThen (\<lambda>w. fence_members m digest redactText (rt_Members (mw_task w)) w)
    (andThen (drain m)
    (andThen (advance m digest redactText RecoveryInspecting [] ''all members fenced; collecting recoverable history'')
    (andThen (\<lambda>w. inspect_members m digest redactText (rt_Members (mw_task w)) (w\<lparr>mw_evidence := []\<rparr>))
    (andThen (validate digest)
    (andThen (advance m digest redactText RecoverySelecting [] ''comparing committed history of every member'')
             (compareAndSelect m digest))))))"

definition startPrimary :: "manager_env \<Rightarrow> (RecoveryEvidence \<Rightarrow> string) \<Rightarrow> (string \<Rightarrow> string) \<Rightarrow> statement" where
  "startPrimary m digest redactText =
     andThen (\<lambda>w. advance m digest redactText RecoveryStarting (rt_PrimaryID (mw_task w)) ''authoritative primary selected from complete committed history'' w)
             (\<lambda>w. ask m (mv_StartPrimary m) (CallStartPrimary (rt_PrimaryID (mw_task w))) w)"

definition rebuildAndCommit :: "manager_env \<Rightarrow> (RecoveryEvidence \<Rightarrow> string) \<Rightarrow> (string \<Rightarrow> string) \<Rightarrow> rid \<Rightarrow> statement" where
  "rebuildAndCommit m digest redactText primary =
     andThen (advance m digest redactText RecoveryRebuilding primary ''selected primary started under recovery-only authorization'')
    (andThen (\<lambda>w. rebuild_members m digest redactText primary (rt_Members (mw_task w)) w)
    (andThen (advance m digest redactText RecoveryVerifying [] ''verifying every role, replication link and catch-up position'')
             (verifyAndCommit m)))"

definition recover :: "manager_env \<Rightarrow> (RecoveryEvidence \<Rightarrow> string) \<Rightarrow> (string \<Rightarrow> string) \<Rightarrow> statement" where
  "recover m digest redactText w =
     (if IsZero (rt_CommittedAt (mw_task w))
      then andThen (collectEvidence m digest redactText)
             (\<lambda>w. andThen (startPrimary m digest redactText) (rebuildAndCommit m digest redactText (rt_PrimaryID (mw_task w))) w) w
      else ([], w))"

definition complete :: "manager_env \<Rightarrow> statement" where
  "complete m w =
     (let n = mw_calls w; w = turn m w; (t, s) = mv_completing m n (mw_at w, mw_repo w); w = w\<lparr>mw_at := t, mw_repo := s\<rparr> in
      case mv_Complete m n of
        Inl e \<Rightarrow> ([Collaborator e], record_call (CallComplete False) w)
      | Inr task \<Rightarrow> ([], record_call (CallComplete True) (w\<lparr>mw_task := task\<rparr>)))"

definition activate :: "manager_env \<Rightarrow> statement" where
  "activate m = andThen (requireAuthority m) (andThen (\<lambda>w. ask m (mv_Activate m) (CallActivate (rt_PrimaryID (mw_task w))) w) (complete m))"

text \<open>The deferred function of \<^verbatim>\<open>Execute\<close>: fence the selected primary and record the failure.\<close>

fun refence :: "manager_env \<Rightarrow> rid \<Rightarrow> DatabaseInstance list \<Rightarrow> manager_error list \<Rightarrow> statement" where
  "refence m primary [] err w = (err, w)"
| "refence m primary (member # members) err w =
     (if di_ResourceID member = primary
      then let (e, w) = ask m (mv_Fence m) (CallFence (di_ResourceID member)) w in refence m primary members (err @ e) w
      else refence m primary members err w)"

definition onFailure :: "manager_env \<Rightarrow> (RecoveryEvidence \<Rightarrow> string) \<Rightarrow> (string \<Rightarrow> string) \<Rightarrow> (manager_error list \<Rightarrow> string) \<Rightarrow> manager_error list \<Rightarrow> statement" where
  "onFailure m digest redactText boundedText err w =
     (let (err, w) = (if rt_PrimaryID (mw_task w) = [] then (err, w)
            else case requireAuthority m w of
                ([], w) \<Rightarrow> refence m (rt_PrimaryID (mw_task w)) (rt_Members (mw_task w)) err w
              | (_, w) \<Rightarrow> (err, w));
          (persistErr, w) = storeAdvance m digest redactText RecoveryBlocked [] (boundedText err) w
      in (err @ persistErr, w))"

definition withFailureHandling :: "manager_env \<Rightarrow> (RecoveryEvidence \<Rightarrow> string) \<Rightarrow> (string \<Rightarrow> string) \<Rightarrow> (manager_error list \<Rightarrow> string) \<Rightarrow> statement \<Rightarrow> statement" where
  "withFailureHandling m digest redactText boundedText body w =
     (case body w of ([], w) \<Rightarrow> ([], w) | (e # es, w) \<Rightarrow> onFailure m digest redactText boundedText (e # es) w)"

text \<open>
  \<^verbatim>\<open>Execute\<close>. The arguments \<open>redactText\<close> and \<open>boundedText\<close> stand for the redaction of messages and for the bounded text of an error. A task that is
  returned beside an error is not modelled.
\<close>

definition Execute :: "manager_env \<Rightarrow> (RecoveryEvidence \<Rightarrow> string) \<Rightarrow> (string \<Rightarrow> string) \<Rightarrow> (manager_error list \<Rightarrow> string) \<Rightarrow> rid \<Rightarrow> uint64 \<Rightarrow> statement" where
  "Execute m digest redactText boundedText resourceID revision w =
     (if \<not> mv_configured m then ([ManagerUnconfigured], w)
      else let w = turn m w in
        case repository_RecoveryTask resourceID (mw_repo w) of
          None \<Rightarrow> ([ConfirmationStale], w)
        | Some task \<Rightarrow>
            if rt_MetadataRevision task \<noteq> revision then ([ConfirmationStale], w)
            else andThen (manager_Preflight m)
              (\<lambda>w. case mv_Acquire m (mw_calls w) of
                  Inl e \<Rightarrow> ([Collaborator e], record_call (CallLock False) (turn m w))
                | Inr leaseID \<Rightarrow>
                    andThen (callStore m (\<lambda>env ctxErr. BeginRecovery env ctxErr resourceID revision leaseID) CallBegin)
                      (withFailureHandling m digest redactText boundedText (andThen (recover m digest redactText) (activate m)))
                      (record_call (CallLock True) (turn m w)))
              (w\<lparr>mw_task := task\<rparr>))"


lemma turn_sel [simp]: "mw_task (turn m w) = mw_task w" "mw_evidence (turn m w) = mw_evidence w" "mw_trace (turn m w) = mw_trace w" "mw_calls (turn m w) = Suc (mw_calls w)"
  by (simp_all add: turn_def split: prod.split)

lemma turn_at: "mw_at (turn m w) = fst (mv_others m (mw_calls w) (mw_at w, mw_repo w))" "mw_repo (turn m w) = snd (mv_others m (mw_calls w) (mw_at w, mw_repo w))"
  by (simp_all add: turn_def split: prod.split)

section \<open>Relations that an execution respects\<close>

text \<open>
  A reflexive and transitive relation between worlds that holds for every elementary effect holds between the start and the end of a stage. The
  predicate \<open>okCall\<close> says which calls the relation admits.
\<close>

locale statement_relation =
  fixes m :: manager_env and digest :: "RecoveryEvidence \<Rightarrow> string" and redactText :: "string \<Rightarrow> string"
    and R :: "manager_world \<Rightarrow> manager_world \<Rightarrow> bool" and okCall :: "recovery_call \<Rightarrow> bool"
  assumes R_refl: "R w w"
    and R_trans: "R w1 w2 \<Longrightarrow> R w2 w3 \<Longrightarrow> R w1 w3"
    and R_turn: "R w (turn m w)"
    and R_record: "okCall c \<Longrightarrow> R w (record_call c w)"
    and R_wait: "0 \<le> d \<Longrightarrow> R w (w\<lparr>mw_at := mw_at w + d\<rparr>)"
    and R_advance: "AdvanceRecovery env digest redactText ctxErr (mw_task w) event (mw_repo w) = (Inl e, s) \<Longrightarrow> mw_at w \<le> env_now env \<Longrightarrow>
          R w (w\<lparr>mw_at := env_now env, mw_repo := s\<rparr>)"
      "AdvanceRecovery env digest redactText ctxErr (mw_task w) event (mw_repo w) = (Inr x, s) \<Longrightarrow> mw_at w \<le> env_now env \<Longrightarrow>
          R w (w\<lparr>mw_at := env_now env, mw_repo := s, mw_task := x\<rparr>)"
    and ok_common: "okCall (CallAuthority b)" "okCall (CallAdvance stage k b)"
begin

definition resp :: "statement \<Rightarrow> bool" where
  "resp a \<longleftrightarrow> (\<forall>w. R w (snd (a w)))"

lemma respI: "(\<And>w. R w (snd (a w))) \<Longrightarrow> resp a"
  by (simp add: resp_def)

lemma respD: "resp a \<Longrightarrow> a w = (e, w') \<Longrightarrow> R w w'"
  unfolding resp_def by (metis snd_conv)

lemma resp_skip: "resp (Pair es)"
  by (simp add: resp_def R_refl)

lemma resp_andThen: "resp a \<Longrightarrow> resp b \<Longrightarrow> resp (andThen a b)"
proof (rule respI)
  fix w assume a: "resp a" and b: "resp b"
  obtain e w1 where e: "a w = (e, w1)" by fastforce
  from a e have "R w w1" by (rule respD)
  moreover have "R w1 (snd (b w1))" using b by (simp add: resp_def)
  ultimately show "R w (snd (andThen a b w))" using R_trans e by (cases e) (auto simp: andThen_def)
qed

lemma R_record_turn: "okCall c \<Longrightarrow> R w (record_call c (turn m w))"
  by (rule R_trans [OF R_turn R_record])

lemma resp_ask: "(\<And>b. okCall (c b)) \<Longrightarrow> resp (ask m answer c)"
  by (rule respI) (simp add: ask_def R_record_turn split: option.split)

lemma resp_storeAdvance: "resp (storeAdvance m digest redactText stage member message)"
proof (rule respI)
  fix w
  let ?w = "turn m w"
  let ?env = "repoEnv m (mw_calls w) (mw_at ?w)"
  let ?op = "AdvanceRecovery ?env digest redactText (mv_ctxErr m (mw_calls w)) (mw_task ?w) (storeEvent stage member message) (mw_repo ?w)"
  have le: "mw_at ?w \<le> env_now ?env" by (simp add: repoEnv_def)
  note t = R_trans [OF R_turn R_trans [OF _ R_record [OF ok_common(2)]]]
  obtain r s where op: "?op = (r, s)" by fastforce
  show "R w (snd (storeAdvance m digest redactText stage member message w))"
  proof (cases r)
    case (Inl e)
    from t [OF R_advance(1) [OF op [unfolded Inl] le], of stage member False] show ?thesis
      by (simp add: storeAdvance_def callStore_def Let_def op [simplified] Inl)
  next
    case (Inr x)
    from t [OF R_advance(2) [OF op [unfolded Inr] le], of stage member True] show ?thesis
      by (simp add: storeAdvance_def callStore_def Let_def op [simplified] Inr)
  qed
qed

lemma resp_checkCause: "resp (checkCause m)"
  by (rule respI) (simp add: checkCause_def R_turn split: option.split)

lemma resp_authority: "resp (requireAuthority m)"
  unfolding requireAuthority_def by (rule resp_ask) (rule ok_common)

lemma resp_advance: "resp (advance m digest redactText stage member message)"
  unfolding advance_def by (intro resp_andThen resp_checkCause resp_authority resp_storeAdvance)

lemma resp_preflight: "(\<And>b. okCall (CallMaintenance b)) \<Longrightarrow> (\<And>b. okCall (CallPreflight b)) \<Longrightarrow> resp (manager_Preflight m)"
proof -
  assume ok: "\<And>b. okCall (CallMaintenance b)" "\<And>b. okCall (CallPreflight b)"
  have "resp (\<lambda>w. let n = mw_calls w; w = turn m w in
      (case ValidateRecoveryPlan (mv_ctxErr m n) (mw_task w) (mw_repo w) of None \<Rightarrow> ([], w) | Some e \<Rightarrow> ([StoreFailed (RecoveryError e)], w)))"
    by (rule respI) (simp add: Let_def R_turn split: option.split)
  moreover have "resp (\<lambda>w. (if mv_configured m then [] else [ManagerUnconfigured], w))" by (rule respI) (simp add: R_refl)
  ultimately show ?thesis unfolding manager_Preflight_def by (simp add: resp_andThen resp_authority resp_ask ok)
qed

lemma resp_fence: "(\<And>k b. okCall (CallFence k b)) \<Longrightarrow> resp (fence_members m digest redactText members)"
  by (induction members) (simp_all add: resp_skip resp_andThen resp_advance resp_ask)

lemma resp_rebuild: "(\<And>k b. okCall (CallRebuild k b)) \<Longrightarrow> resp (rebuild_members m digest redactText primary members)"
  by (induction members) (simp_all add: resp_skip resp_andThen resp_advance resp_ask)

lemma drain_pos: "0 < drainInterval m"
  by (simp add: drainInterval_def)

lemma resp_drain: "(\<And>b. okCall (CallDrained b)) \<Longrightarrow> resp (drain m)"
  using R_trans [OF R_turn R_trans [OF R_wait R_record]] drain_pos
  by (intro respI) (simp add: drain_def R_record_turn Let_def less_imp_le split: option.split)

lemma resp_validate: "resp (validate digest)"
  by (rule respI) (simp add: validate_def R_refl split: option.split)

lemma resp_start: "(\<And>k b. okCall (CallStartPrimary k b)) \<Longrightarrow> resp (startPrimary m digest redactText)"
proof -
  assume a: "\<And>k b. okCall (CallStartPrimary k b)"
  have "resp (\<lambda>w. ask m (mv_StartPrimary m) (CallStartPrimary (rt_PrimaryID (mw_task w))) w)" using resp_ask [OF a] by (simp add: resp_def)
  moreover have "resp (\<lambda>w. advance m digest redactText RecoveryStarting (rt_PrimaryID (mw_task w)) ''authoritative primary selected from complete committed history'' w)"
    using resp_advance by (simp add: resp_def)
  ultimately show ?thesis unfolding startPrimary_def by (simp add: resp_andThen)
qed

lemma resp_refence: "(\<And>k b. okCall (CallFence k b)) \<Longrightarrow> resp (refence m primary members err)"
proof (induction members arbitrary: err)
  case (Cons member members)
  show ?case
  proof (rule respI)
    fix w
    obtain e w1 where a: "ask m (mv_Fence m) (CallFence (di_ResourceID member)) w = (e, w1)" by fastforce
    have "R w1 (snd (refence m primary members (err @ e) w1))" "R w (snd (refence m primary members err w))"
      using Cons.IH [OF Cons.prems] by (simp_all add: resp_def)
    with R_trans [OF respD [OF resp_ask [OF Cons.prems] a]] show "R w (snd (refence m primary (member # members) err w))"
      by (cases "di_ResourceID member = primary") (use a in simp_all)
  qed
qed (simp add: resp_def R_refl)

lemma resp_onFailure: "(\<And>k b. okCall (CallFence k b)) \<Longrightarrow> resp (onFailure m digest redactText boundedText err)"
proof (rule respI)
  fix w assume f: "\<And>k b. okCall (CallFence k b)"
  let ?h = "if rt_PrimaryID (mw_task w) = [] then (err, w) else case requireAuthority m w of
      ([], w) \<Rightarrow> refence m (rt_PrimaryID (mw_task w)) (rt_Members (mw_task w)) err w | (_, w) \<Rightarrow> (err, w)"
  obtain e w1 where a: "requireAuthority m w = (e, w1)" by fastforce
  have h1: "R w (snd ?h)"
  proof (cases e)
    case Nil
    have "R w1 (snd (refence m (rt_PrimaryID (mw_task w1)) (rt_Members (mw_task w1)) err w1))" using resp_refence [OF f] by (simp add: resp_def)
    from R_trans [OF respD [OF resp_authority a] this] show ?thesis by (simp add: a Nil R_refl)
  qed (use respD [OF resp_authority a] in \<open>simp add: a R_refl\<close>)
  obtain err' w2 where h: "?h = (err', w2)" by fastforce
  obtain pe w3 where p: "storeAdvance m digest redactText RecoveryBlocked [] (boundedText err') w2 = (pe, w3)" by fastforce
  from h1 have "R w w2" unfolding h by simp
  from R_trans [OF this respD [OF resp_storeAdvance p]]
  show "R w (snd (onFailure m digest redactText boundedText err w))" unfolding onFailure_def Let_def h by (simp add: p)
qed

end

locale selection_relation = statement_relation +
  assumes R_evidence: "R w (w\<lparr>mw_evidence := es\<rparr>)"
    and R_select: "R w (w\<lparr>mw_task := (mw_task w)\<lparr>rt_Evidence := es, rt_Proofs := ps, rt_PrimaryID := p\<rparr>\<rparr>)"
begin

lemma resp_inspect: "(\<And>e. okCall (CallInspect member e)) \<Longrightarrow> resp (inspect m member)"
  using R_trans [OF R_turn R_trans [OF R_evidence R_record]]
  by (intro respI) (simp add: inspect_def R_record_turn split: sum.split)

lemma resp_inspect_members: "(\<And>k e. okCall (CallInspect k e)) \<Longrightarrow> resp (inspect_members m digest redactText members)"
  by (induction members) (simp_all add: resp_skip resp_andThen resp_advance resp_inspect)

lemma resp_compare: "(\<And>p. okCall (CallCompare p)) \<Longrightarrow> resp (compareAndSelect m digest)"
  using R_trans [OF R_record_turn R_select] R_record_turn
  by (intro respI) (simp add: compareAndSelect_def Let_def split: sum.split)

lemma resp_collect:
  assumes "\<And>k b. okCall (CallFence k b)" "\<And>b. okCall (CallDrained b)" "\<And>k e. okCall (CallInspect k e)" "\<And>p. okCall (CallCompare p)"
  shows "resp (collectEvidence m digest redactText)"
proof -
  have "resp (\<lambda>w. inspect_members m digest redactText (rt_Members (mw_task w)) (w\<lparr>mw_evidence := []\<rparr>))"
    using resp_inspect_members [OF assms(3)] R_trans [OF R_evidence] unfolding resp_def by blast
  moreover have "resp (\<lambda>w. fence_members m digest redactText (rt_Members (mw_task w)) w)"
    using resp_fence [OF assms(1)] by (simp add: resp_def)
  ultimately show ?thesis unfolding collectEvidence_def
    by (simp add: resp_andThen resp_advance resp_validate resp_drain resp_compare assms)
qed

end

locale commit_relation = statement_relation +
  assumes R_commit: "CommitRecovery env ctxErr (mw_task w) topology (mw_repo w) = (Inl e, s) \<Longrightarrow> mw_at w \<le> env_now env \<Longrightarrow> R w (w\<lparr>mw_at := env_now env, mw_repo := s\<rparr>)"
      "CommitRecovery env ctxErr (mw_task w) topology (mw_repo w) = (Inr x, s) \<Longrightarrow> mw_at w \<le> env_now env \<Longrightarrow> R w (w\<lparr>mw_at := env_now env, mw_repo := s, mw_task := x\<rparr>)"
    and ok_commit: "okCall (CallVerify b)" "okCall (CallCommit b)" "okCall (CallRebuild k b)"
begin

lemma resp_verifyAndCommit: "resp (verifyAndCommit m)"
proof (rule respI)
  fix w
  show "R w (snd (verifyAndCommit m w))"
  proof (cases "mv_Verify m (mw_calls w)")
    case (Inr topology)
    let ?v = "record_call (CallVerify True) (turn m w)"
    let ?w = "turn m ?v"
    let ?env = "repoEnv m (mw_calls ?v) (mw_at ?w)"
    obtain r s where op: "CommitRecovery ?env (mv_ctxErr m (mw_calls ?v)) (mw_task ?w) topology (mw_repo ?w) = (r, s)" by fastforce
    have le: "mw_at ?w \<le> env_now ?env" by (simp add: repoEnv_def)
    have v: "R w ?w" by (rule R_trans [OF R_record_turn R_turn]) (rule ok_commit)
    note t = R_trans [OF R_trans [OF v] R_record [OF ok_commit(2)]]
    have c: "verifyAndCommit m w = callStore m (\<lambda>env ctxErr. CommitRecovery env ctxErr (mw_task ?w) topology) (\<lambda>r. CallCommit (r \<noteq> None)) ?v"
      by (simp add: verifyAndCommit_def Inr record_call_def)
    show ?thesis
    proof (cases r)
      case (Inl e)
      from t [OF R_commit(1) [OF op [unfolded Inl] le], of False] show ?thesis unfolding c by (simp add: callStore_def Let_def op [simplified] Inl)
    next
      case (Inr x)
      from t [OF R_commit(2) [OF op [unfolded Inr] le], of True] show ?thesis unfolding c by (simp add: callStore_def Let_def op [simplified] Inr)
    qed
  qed (simp add: verifyAndCommit_def R_record_turn ok_commit)
qed

lemma resp_rebuildAndCommit: "resp (rebuildAndCommit m digest redactText primary)"
proof -
  have "resp (\<lambda>w. rebuild_members m digest redactText primary (rt_Members (mw_task w)) w)" using resp_rebuild ok_commit(3) by (simp add: resp_def)
  then show ?thesis unfolding rebuildAndCommit_def by (simp add: resp_andThen resp_advance resp_verifyAndCommit)
qed

end

locale execution_relation = selection_relation + commit_relation +
  assumes R_task: "R w (w\<lparr>mw_task := x\<rparr>)"
    and R_begin: "BeginRecovery env ctxErr k revision leaseID (mw_repo w) = (r, s) \<Longrightarrow> mw_at w \<le> env_now env \<Longrightarrow> R w (w\<lparr>mw_at := env_now env, mw_repo := s\<rparr>)"
    and R_complete: "mv_completing m n (mw_at w, mw_repo w) = (t, s) \<Longrightarrow> R w (w\<lparr>mw_at := t, mw_repo := s\<rparr>)"
    and ok_all: "okCall c"
begin

lemma R_recorded: "R w v \<Longrightarrow> R w (record_call c v)" "R w v \<Longrightarrow> R w (record_call c (v\<lparr>mw_task := x\<rparr>))"
  using R_trans [OF _ R_record [OF ok_all]] R_trans [OF _ R_task] by blast+

lemma resp_begin: "resp (callStore m (\<lambda>env ctxErr. BeginRecovery env ctxErr k revision leaseID) CallBegin)"
proof (rule respI)
  fix w
  let ?w = "turn m w"
  let ?env = "repoEnv m (mw_calls w) (mw_at ?w)"
  obtain r s where op: "BeginRecovery ?env (mv_ctxErr m (mw_calls w)) k revision leaseID (mw_repo ?w) = (r, s)" by fastforce
  have le: "mw_at ?w \<le> env_now ?env" by (simp add: repoEnv_def)
  from R_recorded [OF R_trans [OF R_turn R_begin [OF op le]]]
  show "R w (snd (callStore m (\<lambda>env ctxErr. BeginRecovery env ctxErr k revision leaseID) CallBegin w))"
    by (cases r) (simp_all add: callStore_def Let_def op)
qed

lemma resp_complete: "resp (complete m)"
proof (rule respI)
  fix w
  obtain t s where c: "mv_completing m (mw_calls w) (mw_at (turn m w), mw_repo (turn m w)) = (t, s)" by fastforce
  from R_recorded [OF R_trans [OF R_turn R_complete [OF c]]] show "R w (snd (complete m w))"
    by (cases "mv_Complete m (mw_calls w)") (simp_all add: complete_def Let_def c)
qed

lemma resp_activate: "resp (activate m)"
proof -
  have "resp (\<lambda>w. ask m (mv_Activate m) (CallActivate (rt_PrimaryID (mw_task w))) w)" using resp_ask [OF ok_all] by (simp add: resp_def)
  then show ?thesis unfolding activate_def by (simp add: resp_andThen resp_authority resp_complete)
qed

lemma resp_recover: "resp (recover m digest redactText)"
proof (rule respI)
  fix w
  have "resp (\<lambda>w. andThen (startPrimary m digest redactText) (rebuildAndCommit m digest redactText (rt_PrimaryID (mw_task w))) w)"
    using resp_andThen [OF resp_start resp_rebuildAndCommit] ok_all by (simp add: resp_def)
  then have "resp (andThen (collectEvidence m digest redactText)
      (\<lambda>w. andThen (startPrimary m digest redactText) (rebuildAndCommit m digest redactText (rt_PrimaryID (mw_task w))) w))"
    by (simp add: resp_andThen resp_collect ok_all)
  then show "R w (snd (recover m digest redactText w))" by (simp add: recover_def resp_def R_refl)
qed

lemma resp_handling: "resp body \<Longrightarrow> resp (withFailureHandling m digest redactText boundedText body)"
proof (rule respI)
  fix w assume b: "resp body"
  obtain e w1 where e: "body w = (e, w1)" by fastforce
  have "R w1 (snd (onFailure m digest redactText boundedText e w1))" using resp_onFailure ok_all by (simp add: resp_def)
  from R_trans [OF respD [OF b e] this] respD [OF b e] show "R w (snd (withFailureHandling m digest redactText boundedText body w))"
    by (cases e) (simp_all add: withFailureHandling_def e)
qed

lemma resp_locked:
  "resp (\<lambda>w. case mv_Acquire m (mw_calls w) of
      Inl e \<Rightarrow> ([Collaborator e], record_call (CallLock False) (turn m w))
    | Inr leaseID \<Rightarrow> andThen (callStore m (\<lambda>env ctxErr. BeginRecovery env ctxErr k revision leaseID) CallBegin)
        (withFailureHandling m digest redactText boundedText (andThen (recover m digest redactText) (activate m))) (record_call (CallLock True) (turn m w)))"
proof (rule respI)
  fix w
  let ?a = "\<lambda>leaseID. andThen (callStore m (\<lambda>env ctxErr. BeginRecovery env ctxErr k revision leaseID) CallBegin)
        (withFailureHandling m digest redactText boundedText (andThen (recover m digest redactText) (activate m)))"
  have "resp (?a leaseID)" for leaseID
    by (intro resp_andThen resp_begin resp_handling resp_recover resp_activate)
  then have "R (record_call (CallLock True) (turn m w)) (snd (?a leaseID (record_call (CallLock True) (turn m w))))" for leaseID by (simp add: resp_def)
  then have "R w (snd (?a leaseID (record_call (CallLock True) (turn m w))))" for leaseID by (rule R_trans [OF R_record_turn [OF ok_all]])
  then show "R w (snd (case mv_Acquire m (mw_calls w) of
      Inl e \<Rightarrow> ([Collaborator e], record_call (CallLock False) (turn m w)) | Inr leaseID \<Rightarrow> ?a leaseID (record_call (CallLock True) (turn m w))))"
    using R_record_turn [OF ok_all] by (cases "mv_Acquire m (mw_calls w)") simp_all
qed

lemma resp_Execute: "resp (Execute m digest redactText boundedText k revision)"
proof (rule respI)
  fix w
  show "R w (snd (Execute m digest redactText boundedText k revision w))"
  proof (cases "mv_configured m")
    case True
    show ?thesis
    proof (cases "repository_RecoveryTask k (mw_repo (turn m w))")
      case (Some x)
      have "R (turn m w) (snd (Execute m digest redactText boundedText k revision w))"
        unfolding Execute_def Let_def
        using R_trans [OF R_task [of "turn m w" x]] R_refl resp_andThen [OF resp_preflight [OF ok_all ok_all] resp_locked] True Some unfolding resp_def by simp
      then show ?thesis by (rule R_trans [OF R_turn])
    qed (simp add: Execute_def R_turn True)
  qed (simp add: Execute_def R_refl)
qed

end

section \<open>An execution is a run of the recovery protocol\<close>

definition follows :: "manager_env \<Rightarrow> (RecoveryEvidence \<Rightarrow> string) \<Rightarrow> bool" where
  "follows m digest \<longleftrightarrow> (\<forall>n x. (recovery_step digest)\<^sup>*\<^sup>* x (mv_others m n x) \<and> (recovery_step digest)\<^sup>*\<^sup>* x (mv_completing m n x))"

definition protocol_run :: "manager_env \<Rightarrow> (RecoveryEvidence \<Rightarrow> string) \<Rightarrow> manager_world \<Rightarrow> manager_world \<Rightarrow> bool" where
  "protocol_run m digest w w' \<longleftrightarrow> (follows m digest \<longrightarrow> (recovery_step digest)\<^sup>*\<^sup>* (mw_at w, mw_repo w) (mw_at w', mw_repo w'))"

lemma protocol_run_same: "mw_at w' = mw_at w \<Longrightarrow> mw_repo w' = mw_repo w \<Longrightarrow> protocol_run m digest w w'"
  by (simp add: protocol_run_def)

lemma protocol_run_step: "(follows m digest \<Longrightarrow> recovery_step digest (mw_at w, mw_repo w) (mw_at w', mw_repo w')) \<Longrightarrow> protocol_run m digest w w'"
  by (auto simp: protocol_run_def)

interpretation protocol: execution_relation m digest redactText "protocol_run m digest" "\<lambda>_. True" for m digest redactText
proof unfold_locales
  show "protocol_run m digest w1 w2 \<Longrightarrow> protocol_run m digest w2 w3 \<Longrightarrow> protocol_run m digest w1 w3" for w1 w2 w3
    unfolding protocol_run_def by (blast intro: rtranclp_trans)
  show "protocol_run m digest w (turn m w)" for w
    by (simp add: protocol_run_def follows_def turn_at)
  show "protocol_run m digest w (w\<lparr>mw_at := t, mw_repo := s\<rparr>)" if "mv_completing m n (mw_at w, mw_repo w) = (t, s)" for n w t s
    using that unfolding protocol_run_def follows_def by simp metis
  show "protocol_run m digest w (w\<lparr>mw_at := mw_at w + d\<rparr>)" if "0 \<le> d" for w d
    by (rule protocol_run_step) (use that in \<open>auto intro!: step_other simp: sameProtection_def\<close>)
  show "protocol_run m digest w (w\<lparr>mw_at := env_now env, mw_repo := s\<rparr>)"
    if "BeginRecovery env ctxErr k revision leaseID (mw_repo w) = (r, s)" "mw_at w \<le> env_now env" for env ctxErr k revision leaseID w r s
    by (rule protocol_run_step) (use step_begin [OF that] in simp)
  show "protocol_run m digest w (w\<lparr>mw_at := env_now env, mw_repo := s\<rparr>)"
    if "AdvanceRecovery env digest redactText ctxErr (mw_task w) event (mw_repo w) = (Inl e, s)" "mw_at w \<le> env_now env" for env ctxErr event w e s
    by (rule protocol_run_step) (use step_advance [OF that] in simp)
  show "protocol_run m digest w (w\<lparr>mw_at := env_now env, mw_repo := s, mw_task := x\<rparr>)"
    if "AdvanceRecovery env digest redactText ctxErr (mw_task w) event (mw_repo w) = (Inr x, s)" "mw_at w \<le> env_now env" for env ctxErr event w x s
    by (rule protocol_run_step) (use step_advance [OF that] in simp)
  show "protocol_run m digest w (w\<lparr>mw_at := env_now env, mw_repo := s\<rparr>)"
    if "CommitRecovery env ctxErr (mw_task w) topology (mw_repo w) = (Inl e, s)" "mw_at w \<le> env_now env" for env ctxErr topology w e s
    by (rule protocol_run_step) (use step_commit [OF that] in simp)
  show "protocol_run m digest w (w\<lparr>mw_at := env_now env, mw_repo := s, mw_task := x\<rparr>)"
    if "CommitRecovery env ctxErr (mw_task w) topology (mw_repo w) = (Inr x, s)" "mw_at w \<le> env_now env" for env ctxErr topology w x s
    by (rule protocol_run_step) (use step_commit [OF that] in simp)
qed (auto intro: protocol_run_same simp: record_call_def)


section \<open>The record of calls\<close>

text \<open>
  While the operation lock is held no other actor changes the recovery task, and clocks do not run backwards. Under this assumption a stage
  extends the record of calls by calls that happen between its start and its end.
\<close>

definition soleExecutor :: "manager_env \<Rightarrow> rid \<Rightarrow> bool" where
  "soleExecutor m k \<longleftrightarrow> (\<forall>n x. fst x \<le> fst (mv_others m n x) \<and> map_of (RecoveryTasks (snd (mv_others m n x))) k = map_of (RecoveryTasks (snd x)) k \<and>
     fst x \<le> fst (mv_completing m n x))"

definition emits :: "manager_env \<Rightarrow> rid \<Rightarrow> (recovery_call \<Rightarrow> bool) \<Rightarrow> manager_world \<Rightarrow> manager_world \<Rightarrow> bool" where
  "emits m k P w w' \<longleftrightarrow> (soleExecutor m k \<longrightarrow> (\<exists>evs. mw_trace w' = mw_trace w @ evs \<and> mw_at w \<le> mw_at w' \<and>
     (\<forall>(t, c) \<in> set evs. mw_at w \<le> t \<and> t \<le> mw_at w' \<and> P c)))"

lemma emits_later: "(soleExecutor m k \<Longrightarrow> mw_at w \<le> mw_at w') \<Longrightarrow> mw_trace w' = mw_trace w \<Longrightarrow> emits m k P w w'"
  by (simp add: emits_def)

lemma emits_trans: "emits m k P w1 w2 \<Longrightarrow> emits m k P w2 w3 \<Longrightarrow> emits m k P w1 w3"
proof (unfold emits_def, rule impI)
  assume "soleExecutor m k" and a: "soleExecutor m k \<longrightarrow> (\<exists>evs. mw_trace w2 = mw_trace w1 @ evs \<and> mw_at w1 \<le> mw_at w2 \<and> (\<forall>(t, c) \<in> set evs. mw_at w1 \<le> t \<and> t \<le> mw_at w2 \<and> P c))"
    and b: "soleExecutor m k \<longrightarrow> (\<exists>evs. mw_trace w3 = mw_trace w2 @ evs \<and> mw_at w2 \<le> mw_at w3 \<and> (\<forall>(t, c) \<in> set evs. mw_at w2 \<le> t \<and> t \<le> mw_at w3 \<and> P c))"
  then obtain xs ys where "mw_trace w2 = mw_trace w1 @ xs" "mw_at w1 \<le> mw_at w2" "\<forall>(t, c) \<in> set xs. mw_at w1 \<le> t \<and> t \<le> mw_at w2 \<and> P c"
    "mw_trace w3 = mw_trace w2 @ ys" "mw_at w2 \<le> mw_at w3" "\<forall>(t, c) \<in> set ys. mw_at w2 \<le> t \<and> t \<le> mw_at w3 \<and> P c" by blast
  then show "\<exists>evs. mw_trace w3 = mw_trace w1 @ evs \<and> mw_at w1 \<le> mw_at w3 \<and> (\<forall>(t, c) \<in> set evs. mw_at w1 \<le> t \<and> t \<le> mw_at w3 \<and> P c)"
    by (intro exI [of _ "xs @ ys"]) fastforce
qed

lemma emits_record: "P c \<Longrightarrow> emits m k P w (record_call c w)"
  by (simp add: emits_def record_call_def)

lemma emits_turn: "emits m k P w (turn m w)"
proof (rule emits_later)
  assume "soleExecutor m k"
  then have "fst (mw_at w, mw_repo w) \<le> fst (mv_others m (mw_calls w) (mw_at w, mw_repo w))" unfolding soleExecutor_def by blast
  then show "mw_at w \<le> mw_at (turn m w)" by (simp add: turn_at)
qed simp

definition quietCall :: "recovery_call \<Rightarrow> bool" where
  "quietCall c \<longleftrightarrow> (\<forall>p b. c \<noteq> CallStartPrimary p b \<and> c \<noteq> CallActivate p b)"

interpretation calls: execution_relation m digest redactText "emits m k (\<lambda>_. True)" "\<lambda>_. True" for m digest redactText k
proof unfold_locales
  show "emits m k (\<lambda>_. True) w (w\<lparr>mw_at := t, mw_repo := s\<rparr>)" if "mv_completing m n (mw_at w, mw_repo w) = (t, s)" for n w t s
  proof (rule emits_later)
    assume "soleExecutor m k"
    then have "fst (mw_at w, mw_repo w) \<le> fst (mv_completing m n (mw_at w, mw_repo w))" unfolding soleExecutor_def by blast
    then show "mw_at w \<le> mw_at (w\<lparr>mw_at := t, mw_repo := s\<rparr>)" by (simp add: that)
  qed simp
qed (auto intro: emits_later emits_trans emits_turn emits_record)

interpretation quietly: selection_relation m digest redactText "emits m k quietCall" quietCall for m digest redactText k
  by unfold_locales (auto intro: emits_later emits_trans emits_turn emits_record simp: quietCall_def)

interpretation quietly: commit_relation m digest redactText "emits m k quietCall" quietCall for m digest redactText k
  by unfold_locales (auto intro: emits_later emits_trans emits_turn emits_record simp: quietCall_def)

section \<open>The task of an execution\<close>

lemma commitTask_tasks:
  assumes "commitTask env s next task = (r, s')"
  shows "RecoveryTasks s' = RecoveryTasks s \<or> RecoveryTasks s' = RecoveryTasks next" "r = Inr x \<Longrightarrow> x = task \<and> RecoveryTasks s' = RecoveryTasks next"
  using assms by (auto simp: commitTask_def commitSnapshotLocked_def Let_def split: commit_outcome.splits prod.splits option.splits)

text \<open>What the repository does to the task of an executor.\<close>

definition advances :: "RecoveryTask \<Rightarrow> bool \<Rightarrow> snapshot \<Rightarrow> recovery_error + RecoveryTask \<Rightarrow> snapshot \<Rightarrow> bool" where
  "advances task selects s r s' \<longleftrightarrow> RecoveryTasks s' = RecoveryTasks s \<and> (\<exists>e. r = Inl e) \<or>
     (\<exists>x x'. map_of (RecoveryTasks s) (rt_ResourceID task) = Some x \<and> rt_ResourceID x' = rt_ResourceID x \<and> rt_Members x' = rt_Members x \<and>
        rt_PrimaryID x' = (if selects then rt_PrimaryID task else rt_PrimaryID x) \<and> (\<forall>y. r = Inr y \<longrightarrow> y = x') \<and>
        RecoveryTasks s' = AList.update (rt_ResourceID x) x' (RecoveryTasks s))"

lemma advances_commit:
  assumes "commitTask env s next x' = (r, s')" "map_of (RecoveryTasks s) (rt_ResourceID task) = Some x" "rt_ResourceID x' = rt_ResourceID x" "rt_Members x' = rt_Members x"
    "rt_PrimaryID x' = (if selects then rt_PrimaryID task else rt_PrimaryID x)" "RecoveryTasks next = AList.update (rt_ResourceID x) x' (RecoveryTasks s)"
  shows "advances task selects s r s'"
proof (cases r)
  case (Inl e)
  with commitTask_tasks(1) [OF assms(1)] assms(2-) show ?thesis by (auto simp: advances_def)
next
  case (Inr y)
  with commitTask_tasks(2) [OF assms(1) Inr] assms(2-) show ?thesis unfolding advances_def by (intro disjI2 exI [of _ x] exI [of _ x']) simp
qed

lemma AdvanceRecovery_advances:
  assumes "AdvanceRecovery env digest redactText ctxErr task event s = (r, s')"
  shows "advances task (rn_Stage event = RecoveryStarting) s r s'"
proof (cases "map_of (RecoveryTasks s) (rt_ResourceID task)")
  case None
  with assms show ?thesis by (auto simp: AdvanceRecovery_def advances_def Let_def split: option.splits)
next
  case (Some x)
  let ?start = "rn_Stage event = RecoveryStarting"
  define y where "y = (if ?start then x\<lparr>rt_PrimaryID := rt_PrimaryID task, rt_Evidence := rt_Evidence task, rt_Proofs := rt_Proofs task\<rparr> else x)"
  define ev where "ev = event\<lparr>rn_At := env_now env, rn_Message := redactText (rn_Message event)\<rparr>"
  define x' where "x' = y\<lparr>rt_Stage := rn_Stage event, rt_Message := rn_Message ev, rt_UpdatedAt := env_now env,
    rt_MetadataRevision := rt_MetadataRevision y + 1, rt_Events := rt_Events y @ [ev]\<rparr>"
  have c: "s' = s \<and> (\<exists>e. r = Inl e) \<or> commitTask env s (advancedSnapshot x' (rn_Stage event) s) x' = (r, s')"
    using assms Some unfolding AdvanceRecovery_def Let_def y_def ev_def x'_def by (cases ctxErr) (auto split: if_splits)
  have x': "rt_ResourceID x' = rt_ResourceID x" "rt_Members x' = rt_Members x" "rt_PrimaryID x' = (if ?start then rt_PrimaryID task else rt_PrimaryID x)"
    by (simp_all add: x'_def y_def)
  from c show ?thesis
  proof
    assume "commitTask env s (advancedSnapshot x' (rn_Stage event) s) x' = (r, s')"
    from advances_commit [OF this Some x'] x'(1) show ?thesis by simp
  qed (auto simp: advances_def)
qed

lemma CommitRecovery_advances:
  assumes "CommitRecovery env ctxErr task topology s = (r, s')"
  shows "advances task False s r s'"
  using assms
proof (cases rule: CommitRecovery_cases)
  case (tried x n)
  show ?thesis by (rule advances_commit [OF tried(8,2)]) (use own_keeps [OF tried(7)] in simp_all)
qed (simp add: advances_def)

text \<open>The local task and the stored one agree on what an execution relies on.\<close>

definition agrees :: "rid \<Rightarrow> (RecoveryTask \<Rightarrow> 'a) \<Rightarrow> 'a \<Rightarrow> manager_world \<Rightarrow> bool" where
  "agrees k view v w \<longleftrightarrow> rt_ResourceID (mw_task w) = k \<and> view (mw_task w) = v \<and>
     (\<exists>x. map_of (RecoveryTasks (mw_repo w)) k = Some x \<and> rt_ResourceID x = k \<and> view x = v)"

definition keeps :: "manager_env \<Rightarrow> rid \<Rightarrow> (RecoveryTask \<Rightarrow> 'a) \<Rightarrow> 'a \<Rightarrow> manager_world \<Rightarrow> manager_world \<Rightarrow> bool" where
  "keeps m k view v w w' \<longleftrightarrow> (soleExecutor m k \<longrightarrow> agrees k view v w \<longrightarrow> agrees k view v w')"

lemma keeps_turn: "keeps m k view v w (turn m w)"
  unfolding keeps_def agrees_def soleExecutor_def turn_sel turn_at by simp

definition stableView :: "(RecoveryTask \<Rightarrow> 'a) \<Rightarrow> bool" where
  "stableView view \<longleftrightarrow> (\<forall>x x' task. view x = view task \<longrightarrow> rt_Members x' = rt_Members x \<longrightarrow> rt_PrimaryID x' \<in> {rt_PrimaryID task, rt_PrimaryID x} \<longrightarrow> view x' = view x)"

lemma stable_views: "stableView rt_Members" "stableView (\<lambda>x. (rt_Members x, rt_PrimaryID x))"
  by (auto simp: stableView_def)

lemma keeps_advances:
  assumes view: "stableView view" and adv: "advances (mw_task w) selects (mw_repo w) r s"
  shows "keeps m k view v w (case r of Inl _ \<Rightarrow> w\<lparr>mw_at := t, mw_repo := s\<rparr> | Inr x \<Rightarrow> w\<lparr>mw_at := t, mw_repo := s, mw_task := x\<rparr>)"
  using adv unfolding advances_def
proof (elim disjE exE conjE)
  fix e assume "RecoveryTasks s = RecoveryTasks (mw_repo w)" "r = Inl e"
  then show ?thesis by (simp add: keeps_def agrees_def)
next
  fix x x' assume x: "map_of (RecoveryTasks (mw_repo w)) (rt_ResourceID (mw_task w)) = Some x" "rt_ResourceID x' = rt_ResourceID x" "rt_Members x' = rt_Members x"
    "rt_PrimaryID x' = (if selects then rt_PrimaryID (mw_task w) else rt_PrimaryID x)" "\<forall>y. r = Inr y \<longrightarrow> y = x'"
    "RecoveryTasks s = AList.update (rt_ResourceID x) x' (RecoveryTasks (mw_repo w))"
  from x(4) have "rt_PrimaryID x' \<in> {rt_PrimaryID (mw_task w), rt_PrimaryID x}" by simp
  with view x(3) have "view x' = view x" if "view x = view (mw_task w)" using that unfolding stableView_def by blast
  then have "view x' = v" if "agrees k view v w" using that x(1) by (simp add: agrees_def)
  with x show ?thesis by (cases r) (auto simp: keeps_def agrees_def update_conv')
qed

lemma keeps_other: "mw_task w' = mw_task w \<Longrightarrow> mw_repo w' = mw_repo w \<Longrightarrow> keeps m k view v w w'"
  by (simp add: keeps_def agrees_def)

lemma keeps_trans: "keeps m k view v w1 w2 \<Longrightarrow> keeps m k view v w2 w3 \<Longrightarrow> keeps m k view v w1 w3"
  by (simp add: keeps_def)

lemmas keeps_intros = keeps_turn keeps_other keeps_trans

lemma keeps_store:
  assumes "stableView view"
  shows "AdvanceRecovery env digest redactText ctxErr (mw_task w) event (mw_repo w) = (Inl e, s) \<Longrightarrow> keeps m k view v w (w\<lparr>mw_at := t, mw_repo := s\<rparr>)"
    "AdvanceRecovery env digest redactText ctxErr (mw_task w) event (mw_repo w) = (Inr x, s) \<Longrightarrow> keeps m k view v w (w\<lparr>mw_at := t, mw_repo := s, mw_task := x\<rparr>)"
    "CommitRecovery env ctxErr (mw_task w) topology (mw_repo w) = (Inl e, s) \<Longrightarrow> keeps m k view v w (w\<lparr>mw_at := t, mw_repo := s\<rparr>)"
    "CommitRecovery env ctxErr (mw_task w) topology (mw_repo w) = (Inr x, s) \<Longrightarrow> keeps m k view v w (w\<lparr>mw_at := t, mw_repo := s, mw_task := x\<rparr>)"
  using keeps_advances [OF assms AdvanceRecovery_advances, of env digest redactText ctxErr w event _ s m k v t]
    keeps_advances [OF assms CommitRecovery_advances, of env ctxErr w topology _ s m k v t] by fastforce+

interpretation members: selection_relation m digest redactText "keeps m k rt_Members ms" "\<lambda>_. True" for m digest redactText k ms
proof unfold_locales
  show "keeps m k rt_Members ms w (w\<lparr>mw_task := (mw_task w)\<lparr>rt_Evidence := es, rt_Proofs := ps, rt_PrimaryID := p\<rparr>\<rparr>)" for w es ps p
    by (simp add: keeps_def agrees_def)
qed (auto intro: keeps_intros keeps_store [OF stable_views(1)] simp: record_call_def)

interpretation primary: commit_relation m digest redactText "keeps m k (\<lambda>x. (rt_Members x, rt_PrimaryID x)) v" "\<lambda>_. True" for m digest redactText k v
  by unfold_locales (auto intro: keeps_intros keeps_store [OF stable_views(2)] simp: record_call_def)

interpretation evidence: statement_relation m digest redactText "\<lambda>w w'. mw_evidence w' = mw_evidence w" "\<lambda>_. True" for m digest redactText
  by unfold_locales (simp_all add: record_call_def)

definition keyedAt :: "rid \<Rightarrow> manager_world \<Rightarrow> bool" where
  "keyedAt k w \<longleftrightarrow> (\<forall>x. map_of (RecoveryTasks (mw_repo w)) k = Some x \<longrightarrow> rt_ResourceID x = k)"

lemma keyedAt_turn: "soleExecutor m k \<Longrightarrow> keyedAt k w \<Longrightarrow> keyedAt k (turn m w)"
  by (simp add: keyedAt_def soleExecutor_def turn_at)

definition keepsKey :: "manager_env \<Rightarrow> rid \<Rightarrow> manager_world \<Rightarrow> manager_world \<Rightarrow> bool" where
  "keepsKey m k w w' \<longleftrightarrow> (soleExecutor m k \<longrightarrow> keyedAt k w \<longrightarrow> keyedAt k w')"

lemma keepsKey_other: "mw_repo w' = mw_repo w \<Longrightarrow> keepsKey m k w w'"
  by (simp add: keepsKey_def keyedAt_def)

lemma keepsKey_advance: "AdvanceRecovery env digest redactText ctxErr task event (mw_repo w) = (r, s) \<Longrightarrow> mw_repo w' = s \<Longrightarrow> keepsKey m k w w'"
  by (drule AdvanceRecovery_advances) (auto simp: advances_def keepsKey_def keyedAt_def update_conv' split: if_splits)

interpretation key: statement_relation m digest redactText "keepsKey m k" "\<lambda>_. True" for m digest redactText k
proof unfold_locales
  show "keepsKey m k w1 w2 \<Longrightarrow> keepsKey m k w2 w3 \<Longrightarrow> keepsKey m k w1 w3" for w1 w2 w3 by (simp add: keepsKey_def)
  show "keepsKey m k w (turn m w)" for w by (simp add: keepsKey_def keyedAt_turn)
qed (auto intro: keepsKey_other keepsKey_advance simp: record_call_def)

lemma BeginRecovery_begun:
  assumes "BeginRecovery env ctxErr k revision leaseID s = (Inr task, s')"
  shows "\<exists>x. map_of (RecoveryTasks s) k = Some x \<and> rt_ResourceID task = rt_ResourceID x \<and> map_of (RecoveryTasks s') k = Some task \<and> IsZero (rt_CommittedAt task) \<and> rt_Stage task = RecoveryFencing"
proof (cases "map_of (RecoveryTasks s) k")
  case None
  with assms show ?thesis by (auto simp: BeginRecovery_def Let_def split: option.splits)
next
  case (Some x)
  let ?x = "begunTask leaseID (env_now env) x"
  have "commitTask env s (begunSnapshot k ?x (env_now env) s) ?x = (Inr task, s')"
    using assms Some by (cases ctxErr) (auto simp: BeginRecovery_def Let_def split: if_splits)
  from commitTask_tasks(2) [OF this refl] have "task = ?x" "RecoveryTasks s' = AList.update k ?x (RecoveryTasks s)" by simp_all
  with Some show ?thesis by (simp add: update_conv' IsZero_def)
qed

section \<open>What a successful stage has fin\<close>

lemma andThen_ok: "andThen a b w = ([], w') \<Longrightarrow> (\<And>w1. a w = ([], w1) \<Longrightarrow> b w1 = ([], w') \<Longrightarrow> thesis) \<Longrightarrow> thesis"
  by (auto simp: andThen_def split: prod.splits list.splits)

lemma andThen_cases:
  assumes "andThen a b w = (e, w')"
  obtains (first) "a w = (e, w')" "e \<noteq> []" | (second) w1 where "a w = ([], w1)" "b w1 = (e, w')"
  using assms by (auto simp: andThen_def split: prod.splits list.splits)

lemma ask_cases: "ask m answer c w = (e, w') \<Longrightarrow> w' = record_call (c (e = [])) (turn m w)"
  by (auto simp: ask_def split: option.splits)

lemma emitsE:
  assumes "emits m k P w w'" "soleExecutor m k"
  obtains evs where "mw_trace w' = mw_trace w @ evs" "mw_at w \<le> mw_at w'" "\<And>t c. (t, c) \<in> set evs \<Longrightarrow> mw_at w \<le> t \<and> t \<le> mw_at w' \<and> P c"
  using assms unfolding emits_def by blast

lemma record_sel [simp]: "mw_task (record_call c w) = mw_task w" "mw_repo (record_call c w) = mw_repo w" "mw_at (record_call c w) = mw_at w"
    "mw_evidence (record_call c w) = mw_evidence w" "mw_trace (record_call c w) = mw_trace w @ [(mw_at w, c)]" "mw_calls (record_call c w) = mw_calls w"
  by (simp_all add: record_call_def)

lemma fence_ok:
  assumes "soleExecutor m k" "fence_members m digest redactText members w = ([], w')"
  shows "\<exists>evs. mw_trace w' = mw_trace w @ evs \<and> (\<forall>x \<in> set members. \<exists>t. (t, CallFence (di_ResourceID x) True) \<in> set evs)"
  using assms(2)
proof (induction members arbitrary: w)
  case (Cons x members)
  from Cons.prems obtain w1 w2 w3 where s: "advance m digest redactText RecoveryFencing (di_ResourceID x) ''isolating member and verifying persistent write fence'' w = ([], w1)"
      "ask m (mv_Fence m) (CallFence (di_ResourceID x)) w1 = ([], w2)"
      "advance m digest redactText RecoveryFencing (di_ResourceID x) ''member write fence verified'' w2 = ([], w3)" "fence_members m digest redactText members w3 = ([], w')"
    by (auto elim!: andThen_ok)
  obtain e1 where e1: "mw_trace w1 = mw_trace w @ e1" by (rule emitsE [OF calls.respD [OF calls.resp_advance s(1)] assms(1)])
  obtain e3 where e3: "mw_trace w3 = mw_trace w2 @ e3" by (rule emitsE [OF calls.respD [OF calls.resp_advance s(3)] assms(1)])
  from Cons.IH [OF s(4)] obtain e4 where e4: "mw_trace w' = mw_trace w3 @ e4" "\<forall>x \<in> set members. \<exists>t. (t, CallFence (di_ResourceID x) True) \<in> set e4" by blast
  show ?case using e1 e3 e4 ask_cases [OF s(2)] by auto
qed simp

lemma inspect_ok:
  assumes "soleExecutor m k" "inspect_members m digest redactText members w = ([], w')"
  shows "\<exists>evs es. mw_trace w' = mw_trace w @ evs \<and> mw_evidence w' = mw_evidence w @ es \<and> list_all2 (\<lambda>x e. \<exists>t. (t, CallInspect (di_ResourceID x) (Some e)) \<in> set evs) members es"
  using assms(2)
proof (induction members arbitrary: w)
  case (Cons x members)
  from Cons.prems obtain w1 w2 where s: "advance m digest redactText RecoveryInspecting (di_ResourceID x) ''collecting native identity and recoverable transaction history'' w = ([], w1)"
      "inspect m (di_ResourceID x) w1 = ([], w2)" "inspect_members m digest redactText members w2 = ([], w')"
    by (auto elim!: andThen_ok)
  obtain e1 where e1: "mw_trace w1 = mw_trace w @ e1" by (rule emitsE [OF calls.respD [OF calls.resp_advance s(1)] assms(1)])
  have v1: "mw_evidence w1 = mw_evidence w" by (rule evidence.respD [OF evidence.resp_advance s(1)])
  from s(2) obtain e where e: "w2 = record_call (CallInspect (di_ResourceID x) (Some e)) ((turn m w1)\<lparr>mw_evidence := mw_evidence w1 @ [e]\<rparr>)"
    by (auto simp: inspect_def split: sum.splits)
  from Cons.IH [OF s(3)] obtain evs es where i: "mw_trace w' = mw_trace w2 @ evs" "mw_evidence w' = mw_evidence w2 @ es"
      "list_all2 (\<lambda>x e. \<exists>t. (t, CallInspect (di_ResourceID x) (Some e)) \<in> set evs) members es" by blast
  let ?evs = "e1 @ (mw_at (turn m w1), CallInspect (di_ResourceID x) (Some e)) # evs"
  have "list_all2 (\<lambda>x e. \<exists>t. (t, CallInspect (di_ResourceID x) (Some e)) \<in> set ?evs) members es" by (rule list_all2_mono [OF i(3)]) auto
  then show ?case using e1 v1 e i(1,2) by (intro exI [of _ ?evs] exI [of _ "e # es"]) auto
qed simp

lemma storeAdvance_ok:
  assumes "storeAdvance m digest redactText stage member message w = ([], w')"
  shows "\<exists>env x s. AdvanceRecovery env digest redactText (mv_ctxErr m (mw_calls w)) (mw_task w) (storeEvent stage member message) (mw_repo (turn m w)) = (Inr x, s) \<and>
    w' = record_call (CallAdvance stage member True) ((turn m w)\<lparr>mw_at := env_now env, mw_repo := s, mw_task := x\<rparr>) \<and> mw_at (turn m w) \<le> env_now env"
proof -
  let ?env = "repoEnv m (mw_calls w) (mw_at (turn m w))"
  have "mw_at (turn m w) \<le> env_now ?env" by (simp add: repoEnv_def)
  with assms show ?thesis
    by (intro exI [of _ ?env]) (auto simp: storeAdvance_def callStore_def Let_def split: prod.splits sum.splits)
qed

lemma before_advance:
  assumes "andThen (checkCause m) (requireAuthority m) w = (e, w')"
  shows "mw_task w' = mw_task w"
  using assms by (auto simp: andThen_def checkCause_def requireAuthority_def ask_def split: option.splits)

text \<open>When the repository accepts the selected primary, the stored task carries it.\<close>

lemma advance_selects:
  assumes "soleExecutor m k" "agrees k rt_Members ms w" "advance m digest redactText RecoveryStarting member message w = ([], w')"
  shows "agrees k (\<lambda>x. (rt_Members x, rt_PrimaryID x)) (ms, rt_PrimaryID (mw_task w)) w' \<and>
    (\<exists>evs. mw_trace w' = mw_trace w @ evs \<and> (\<exists>t. (t, CallAdvance RecoveryStarting member True) \<in> set evs))"
proof -
  from assms(3) obtain w1 w2 where s: "checkCause m w = ([], w1)" "requireAuthority m w1 = ([], w2)" "storeAdvance m digest redactText RecoveryStarting member message w2 = ([], w')"
    unfolding advance_def by (elim andThen_ok)
  have t2: "mw_task w2 = mw_task w" by (rule before_advance [of m _ "[]"]) (simp add: andThen_def s)
  have "keeps m k rt_Members ms w w2" by (rule keeps_trans [OF members.respD [OF members.resp_checkCause s(1)] members.respD [OF members.resp_authority s(2)]])
  from keeps_trans [OF this keeps_turn] assms(1,2) have ag: "agrees k rt_Members ms (turn m w2)" unfolding keeps_def by blast
  from storeAdvance_ok [OF s(3)] obtain env x s' where a: "AdvanceRecovery env digest redactText (mv_ctxErr m (mw_calls w2)) (mw_task (turn m w2)) (storeEvent RecoveryStarting member message) (mw_repo (turn m w2)) = (Inr x, s')"
      "w' = record_call (CallAdvance RecoveryStarting member True) ((turn m w2)\<lparr>mw_at := env_now env, mw_repo := s', mw_task := x\<rparr>)" by auto
  have "agrees k (\<lambda>x. (rt_Members x, rt_PrimaryID x)) (ms, rt_PrimaryID (mw_task w)) w'"
    using AdvanceRecovery_advances [OF a(1)] ag t2 unfolding a(2) agrees_def advances_def by (auto simp: storeEvent_def update_conv')
  moreover obtain e2 where "mw_trace w2 = mw_trace w @ e2"
    by (rule emitsE [OF emits_trans [OF calls.respD [OF calls.resp_checkCause s(1)] calls.respD [OF calls.resp_authority s(2)]] assms(1)])
  ultimately show ?thesis unfolding a(2) by auto
qed

text \<open>
  The calls before a member may be started: every member was fenced, the drain interval passed since the leases were revoked and since each fence, then every member was
  inspected, their histories were compared, and the selection on that evidence names the member; the repository accepted it.
\<close>

definition evidenceGathered :: "manager_env \<Rightarrow> (RecoveryEvidence \<Rightarrow> string) \<Rightarrow> DatabaseInstance list \<Rightarrow> go_time \<Rightarrow> (go_time \<times> recovery_call) list \<Rightarrow> rid \<Rightarrow> bool" where
  "evidenceGathered m digest members begunAt calls p \<longleftrightarrow> (\<exists>a td b evidence proofs. calls = a @ (td, CallDrained True) # b \<and> begunAt + drainInterval m \<le> td \<and>
     (\<forall>x \<in> set members. \<exists>t. t + drainInterval m \<le> td \<and> (t, CallFence (di_ResourceID x) True) \<in> set a) \<and>
     list_all2 (\<lambda>x e. \<exists>t \<ge> td. (t, CallInspect (di_ResourceID x) (Some e)) \<in> set b) members evidence \<and>
     (\<exists>t. (t, CallCompare (Some proofs)) \<in> set b) \<and> Select digest members evidence proofs = Inr p)"

lemma collect_ok:
  assumes x: "soleExecutor m k" and ag: "agrees k rt_Members ms w" and ok: "collectEvidence m digest redactText w = ([], w')"
  shows "\<exists>evs. mw_trace w' = mw_trace w @ evs \<and> evidenceGathered m digest ms (mw_at w) evs (rt_PrimaryID (mw_task w'))"
proof -
  from ok obtain w1 w2 w3 w4 w5 w6 where s: "fence_members m digest redactText (rt_Members (mw_task w)) w = ([], w1)" "drain m w1 = ([], w2)"
      "advance m digest redactText RecoveryInspecting [] ''all members fenced; collecting recoverable history'' w2 = ([], w3)"
      "inspect_members m digest redactText (rt_Members (mw_task w3)) (w3\<lparr>mw_evidence := []\<rparr>) = ([], w4)" "validate digest w4 = ([], w5)"
      "advance m digest redactText RecoverySelecting [] ''comparing committed history of every member'' w5 = ([], w6)" "compareAndSelect m digest w6 = ([], w')"
    unfolding collectEvidence_def by (auto elim!: andThen_ok)
  have "w5 = w4" using s(5) by (auto simp: validate_def split: option.splits)
  note s6 = s(6) [unfolded this]
  have m0: "rt_Members (mw_task w) = ms" using ag by (simp add: agrees_def)
  from fence_ok [OF x s(1)] m0 obtain a where a: "mw_trace w1 = mw_trace w @ a" "\<forall>x \<in> set ms. \<exists>t. (t, CallFence (di_ResourceID x) True) \<in> set a" by auto
  obtain a' where a': "mw_trace w1 = mw_trace w @ a'" "mw_at w \<le> mw_at w1" "\<And>t c. (t, c) \<in> set a' \<Longrightarrow> t \<le> mw_at w1"
    by (rule emitsE [OF calls.respD [OF calls.resp_fence s(1)] x]) simp_all
  from s(2) have d: "w2 = record_call (CallDrained True) ((turn m w1)\<lparr>mw_at := mw_at (turn m w1) + drainInterval m\<rparr>)" by (auto simp: drain_def Let_def split: option.splits)
  have "mw_at w1 \<le> mw_at (turn m w1)" by (rule emitsE [OF emits_turn [of m k "\<lambda>_. True" w1] x])
  with a'(2) d have td: "mw_at w + drainInterval m \<le> mw_at w2" "mw_at w1 + drainInterval m \<le> mw_at w2" by simp_all
  have early: "t + drainInterval m \<le> mw_at w2" if "(t, c) \<in> set a" for t c using a(1) a'(1) a'(3) [of t c] td(2) that by simp
  have fenced: "\<forall>x \<in> set ms. \<exists>t. t + drainInterval m \<le> mw_at w2 \<and> (t, CallFence (di_ResourceID x) True) \<in> set a" using a(2) early by blast
  have "keeps m k rt_Members ms w w3"
    by (rule keeps_trans [OF members.respD [OF members.resp_fence s(1)] keeps_trans [OF members.respD [OF members.resp_drain s(2)] members.respD [OF members.resp_advance s(3)]]]) simp_all
  with ag x have ag3: "agrees k rt_Members ms w3" by (simp add: keeps_def)
  then have m3: "rt_Members (mw_task w3) = ms" by (simp add: agrees_def)
  have "keeps m k rt_Members ms w3 w6"
    by (rule keeps_trans [OF keeps_trans [OF _ members.respD [OF members.resp_inspect_members s(4)]] members.respD [OF members.resp_advance s6]])
      (simp_all add: keeps_def agrees_def)
  with ag3 x have "rt_Members (mw_task w6) = ms" by (simp add: keeps_def agrees_def)
  moreover have ev6: "mw_evidence w6 = mw_evidence w4" by (rule evidence.respD [OF evidence.resp_advance s6])
  ultimately obtain proofs where c: "Select digest ms (mw_evidence w4) proofs = Inr (rt_PrimaryID (mw_task w'))" "mw_trace w' = mw_trace w6 @ [(mw_at (turn m w6), CallCompare (Some proofs))]"
    using s(7) by (auto simp: compareAndSelect_def Let_def split: sum.splits)
  obtain e3 where e3: "mw_trace w3 = mw_trace w2 @ e3" "mw_at w2 \<le> mw_at w3" by (rule emitsE [OF calls.respD [OF calls.resp_advance s(3)] x])
  from inspect_ok [OF x s(4)] m3 obtain evs es where i: "mw_trace w4 = mw_trace w3 @ evs" "mw_evidence w4 = es"
      "list_all2 (\<lambda>x e. \<exists>t. (t, CallInspect (di_ResourceID x) (Some e)) \<in> set evs) ms es" by auto
  obtain evs' where i': "mw_trace w4 = mw_trace w3 @ evs'" "\<And>t c. (t, c) \<in> set evs' \<Longrightarrow> mw_at w3 \<le> t"
    by (rule emitsE [OF calls.respD [OF calls.resp_inspect_members s(4)] x]) auto
  have late: "mw_at w2 \<le> t" if "(t, c) \<in> set evs" for t c using i(1) i'(1) i'(2) [of t c] e3(2) that by simp
  obtain e6 where e6: "mw_trace w6 = mw_trace w4 @ e6" by (rule emitsE [OF calls.respD [OF calls.resp_advance s6] x])
  let ?b = "e3 @ evs @ e6 @ [(mw_at (turn m w6), CallCompare (Some proofs))]"
  have l: "list_all2 (\<lambda>x e. \<exists>t \<ge> mw_at w2. (t, CallInspect (di_ResourceID x) (Some e)) \<in> set ?b) ms es"
    by (rule list_all2_mono [OF i(3)]) (use late in auto)
  have "evidenceGathered m digest ms (mw_at w) (a @ (mw_at w2, CallDrained True) # ?b) (rt_PrimaryID (mw_task w'))"
    unfolding evidenceGathered_def
    by (rule exI [of _ a], rule exI [of _ "mw_at w2"], rule exI [of _ ?b], rule exI [of _ es], rule exI [of _ proofs]) (use l td(1) fenced c(1) i(2) in auto)
  moreover have "mw_trace w' = mw_trace w @ a @ (mw_at w2, CallDrained True) # ?b" using a(1) d e3(1) i(1) e6 c(2) by simp
  ultimately show ?thesis by blast
qed

section \<open>The course of an execution\<close>

abbreviation taskView :: "RecoveryTask \<Rightarrow> DatabaseInstance list \<times> rid" where
  "taskView x \<equiv> (rt_Members x, rt_PrimaryID x)"

definition quietCalls :: "(go_time \<times> recovery_call) list \<Rightarrow> bool" where
  "quietCalls evs \<longleftrightarrow> (\<forall>u \<in> set evs. quietCall (snd u))"

lemma quietCalls_simps [simp]: "quietCalls []" "quietCalls (u # us) \<longleftrightarrow> quietCall (snd u) \<and> quietCalls us" "quietCalls (us @ vs) \<longleftrightarrow> quietCalls us \<and> quietCalls vs"
  by (auto simp: quietCalls_def)

lemma quietCall_simps [simp]: "quietCall (CallAuthority b)" "quietCall (CallLock b)" "quietCall (CallBegin x)" "quietCall (CallAdvance stage q b)" "quietCall (CallComplete b)"
    "\<not> quietCall (CallStartPrimary p b)" "\<not> quietCall (CallActivate p b)"
  by (simp_all add: quietCall_def)

lemma quietCalls_not [simp]: "quietCalls evs \<Longrightarrow> (t, CallStartPrimary p b) \<notin> set evs" "quietCalls evs \<Longrightarrow> (t, CallActivate p b) \<notin> set evs"
  by (force simp: quietCalls_def)+

lemma quietlyE:
  assumes "emits m k quietCall w w'" "soleExecutor m k"
  obtains evs where "mw_trace w' = mw_trace w @ evs" "quietCalls evs"
  by (rule emitsE [OF assms]) (use that in \<open>force simp: quietCalls_def\<close>)

lemma recover_split:
  "IsZero (rt_CommittedAt (mw_task w)) \<Longrightarrow> andThen (recover m digest redactText) (activate m) w =
     andThen (collectEvidence m digest redactText) (\<lambda>w. andThen (startPrimary m digest redactText) (andThen (rebuildAndCommit m digest redactText (rt_PrimaryID (mw_task w))) (activate m)) w) w"
  by (simp add: recover_def andThen_def split: prod.split list.split)

lemma rebuild_ok:
  assumes "soleExecutor m k" "rebuildAndCommit m digest redactText p w = ([], w')"
  shows "\<exists>evs. mw_trace w' = mw_trace w @ evs \<and> quietCalls evs \<and> (\<exists>t. (t, CallCommit True) \<in> set evs)"
proof -
  obtain evs where evs: "mw_trace w' = mw_trace w @ evs" "quietCalls evs" by (rule quietlyE [OF quietly.respD [OF quietly.resp_rebuildAndCommit assms(2)] assms(1)])
  from assms(2) obtain v where v: "andThen (advance m digest redactText RecoveryRebuilding p ''selected primary started under recovery-only authorization'')
      (andThen (\<lambda>w. rebuild_members m digest redactText p (rt_Members (mw_task w)) w)
        (advance m digest redactText RecoveryVerifying [] ''verifying every role, replication link and catch-up position'')) w = ([], v)" "verifyAndCommit m v = ([], w')"
    unfolding rebuildAndCommit_def by (auto simp: andThen_def split: prod.splits list.splits)
  have "emits m k (\<lambda>_. True) w v"
  proof (rule calls.respD [OF calls.resp_andThen [OF calls.resp_advance calls.resp_andThen [OF _ calls.resp_advance]] v(1)])
    show "calls.resp m k (\<lambda>w. rebuild_members m digest redactText p (rt_Members (mw_task w)) w)" using calls.resp_rebuild by (simp add: calls.resp_def)
  qed
  then obtain e1 where "mw_trace v = mw_trace w @ e1" by (rule emitsE [OF _ assms(1)])
  moreover from v(2) have "\<exists>t t'. mw_trace w' = mw_trace v @ [(t', CallVerify True), (t, CallCommit True)]"
    by (auto simp: verifyAndCommit_def callStore_def Let_def split: sum.splits prod.splits)
  ultimately show ?thesis using evs by auto
qed

text \<open>The selected primary is activated only after the commit.\<close>

definition activated :: "rid \<Rightarrow> (go_time \<times> recovery_call) list \<Rightarrow> (go_time \<times> recovery_call) list \<Rightarrow> bool" where
  "activated p rest act \<longleftrightarrow> act = [] \<or> (\<exists>t. (t, CallCommit True) \<in> set rest) \<and> (\<exists>t b fin. act = (t, CallActivate p b) # fin \<and> quietCalls fin)"

lemma activate_cases:
  assumes "soleExecutor m k" "activate m w = (e, w')"
  shows "\<exists>rest act. mw_trace w' = mw_trace w @ rest @ act \<and> quietCalls rest \<and> (act = [] \<or> (\<exists>t b fin. act = (t, CallActivate (rt_PrimaryID (mw_task w)) b) # fin \<and> quietCalls fin)) \<and>
    (e \<noteq> [] \<longrightarrow> mw_task w' = mw_task w)"
proof -
  obtain ea w1 where a: "requireAuthority m w = (ea, w1)" by fastforce
  from a have w1: "w1 = record_call (CallAuthority (ea = [])) (turn m w)" unfolding requireAuthority_def by (rule ask_cases)
  show ?thesis
  proof (cases ea)
    case (Cons f fs)
    with assms(2) a have "w' = w1" by (simp add: activate_def andThen_def)
    with w1 show ?thesis by (intro exI [of _ "[(mw_at (turn m w), CallAuthority (ea = []))]"] exI [of _ "[]"]) (simp add: quietCall_def)
  next
    case Nil
    obtain eb w2 where b: "ask m (mv_Activate m) (CallActivate (rt_PrimaryID (mw_task w1))) w1 = (eb, w2)" by fastforce
    from ask_cases [OF b] have w2: "w2 = record_call (CallActivate (rt_PrimaryID (mw_task w)) (eb = [])) (turn m w1)" by (simp add: w1)
    have "\<exists>fin. mw_trace w' = mw_trace w2 @ fin \<and> quietCalls fin \<and> (e \<noteq> [] \<longrightarrow> mw_task w' = mw_task w2)"
    proof (cases eb)
      case Nil
      with assms(2) a b \<open>ea = []\<close> have "complete m w2 = (e, w')" by (simp add: activate_def andThen_def)
      then show ?thesis by (auto simp: complete_def Let_def quietCall_def split: sum.splits prod.splits)
    next
      case Cons
      with assms(2) a b \<open>ea = []\<close> have "w' = w2" by (simp add: activate_def andThen_def)
      then show ?thesis by simp
    qed
    then obtain fin where d: "mw_trace w' = mw_trace w2 @ fin" "quietCalls fin" "e \<noteq> [] \<longrightarrow> mw_task w' = mw_task w2" by blast
    show ?thesis
      by (rule exI [of _ "[(mw_at (turn m w), CallAuthority True)]"], rule exI [of _ "(mw_at (turn m w1), CallActivate (rt_PrimaryID (mw_task w)) (eb = [])) # fin"])
        (use d w1 w2 Nil in \<open>simp add: quietCall_def\<close>)
  qed
qed

lemma finish_cases:
  assumes x: "soleExecutor m k" and ag: "agrees k taskView (ms, p) w" and run: "andThen (rebuildAndCommit m digest redactText q) (activate m) w = (e, w')"
  shows "\<exists>rest act. mw_trace w' = mw_trace w @ rest @ act \<and> quietCalls rest \<and> activated p rest act \<and> (e \<noteq> [] \<longrightarrow> rt_Members (mw_task w') = ms \<and> rt_PrimaryID (mw_task w') = p)"
  using run
proof (cases rule: andThen_cases)
  case first
  obtain evs where evs: "mw_trace w' = mw_trace w @ evs" "quietCalls evs" by (rule quietlyE [OF quietly.respD [OF quietly.resp_rebuildAndCommit first(1)] x])
  have "agrees k taskView (ms, p) w'" using primary.respD [OF primary.resp_rebuildAndCommit first(1)] x ag by (simp add: keeps_def)
  with evs show ?thesis by (intro exI [of _ evs] exI [of _ "[]"]) (simp add: activated_def agrees_def)
next
  case (second w1)
  have ag1: "agrees k taskView (ms, p) w1" using primary.respD [OF primary.resp_rebuildAndCommit second(1)] x ag by (simp add: keeps_def)
  from rebuild_ok [OF x second(1)] obtain evs tc where evs: "mw_trace w1 = mw_trace w @ evs" "quietCalls evs" "(tc, CallCommit True) \<in> set evs" by blast
  from activate_cases [OF x second(2)] obtain rest act where a: "mw_trace w' = mw_trace w1 @ rest @ act" "quietCalls rest"
      "act = [] \<or> (\<exists>t b fin. act = (t, CallActivate (rt_PrimaryID (mw_task w1)) b) # fin \<and> quietCalls fin)" "e \<noteq> [] \<longrightarrow> mw_task w' = mw_task w1" by blast
  have p1: "rt_PrimaryID (mw_task w1) = p" "rt_Members (mw_task w1) = ms" using ag1 by (simp_all add: agrees_def)
  have "activated p (evs @ rest) act" unfolding activated_def using a(3) evs(3) p1(1) by auto
  with evs(1,2) a(1,2,4) p1 show ?thesis by (intro exI [of _ "evs @ rest"] exI [of _ act]) auto
qed

lemma start_cases:
  assumes x: "soleExecutor m k" and ag: "agrees k rt_Members ms w" and run: "startPrimary m digest redactText w = (e, w')"
  shows "e \<noteq> [] \<and> emits m k quietCall w w' \<or>
    (\<exists>evs t. mw_trace w' = mw_trace w @ evs @ [(t, CallStartPrimary (rt_PrimaryID (mw_task w)) (e = []))] \<and> quietCalls evs \<and>
       (\<exists>t. (t, CallAdvance RecoveryStarting (rt_PrimaryID (mw_task w)) True) \<in> set evs) \<and> agrees k taskView (ms, rt_PrimaryID (mw_task w)) w')"
  using run unfolding startPrimary_def
proof (cases rule: andThen_cases)
  case first
  from quietly.respD [OF quietly.resp_advance first(1)] first(2) show ?thesis by simp
next
  case (second w1)
  obtain evs where evs: "mw_trace w1 = mw_trace w @ evs" "quietCalls evs" by (rule quietlyE [OF quietly.respD [OF quietly.resp_advance second(1)] x])
  from advance_selects [OF x ag second(1)] evs(1) have ag1: "agrees k taskView (ms, rt_PrimaryID (mw_task w)) w1"
    and adv: "\<exists>t. (t, CallAdvance RecoveryStarting (rt_PrimaryID (mw_task w)) True) \<in> set evs" by auto
  have w': "w' = record_call (CallStartPrimary (rt_PrimaryID (mw_task w)) (e = [])) (turn m w1)" using ask_cases [OF second(2)] ag1 by (simp add: agrees_def)
  have "agrees k taskView (ms, rt_PrimaryID (mw_task w)) (turn m w1)" using keeps_turn [of m k taskView _ w1] x ag1 unfolding keeps_def by blast
  then have "agrees k taskView (ms, rt_PrimaryID (mw_task w)) w'" by (simp add: w' agrees_def)
  with evs adv w' show ?thesis by auto
qed

text \<open>Either no primary was started, or one was, on complete evidence, and everything after it is as it should be.\<close>

definition startedOn :: "manager_env \<Rightarrow> (RecoveryEvidence \<Rightarrow> string) \<Rightarrow> DatabaseInstance list \<Rightarrow> go_time \<Rightarrow> (go_time \<times> recovery_call) list \<Rightarrow> rid \<Rightarrow> bool" where
  "startedOn m digest members begunAt calls p \<longleftrightarrow> (\<exists>pre t ok rest act. calls = pre @ (t, CallStartPrimary p ok) # rest @ act \<and> quietCalls pre \<and> quietCalls rest \<and>
     activated p rest act \<and> evidenceGathered m digest members begunAt pre p)"

lemma startedOnI:
  "quietCalls pre \<Longrightarrow> quietCalls rest \<Longrightarrow> activated p rest act \<Longrightarrow> evidenceGathered m digest members begunAt pre p \<Longrightarrow>
   startedOn m digest members begunAt (pre @ (t, CallStartPrimary p ok) # rest @ act) p"
  unfolding startedOn_def by blast

lemma recover_cases:
  assumes x: "soleExecutor m k" and ag: "agrees k rt_Members ms w" and zero: "IsZero (rt_CommittedAt (mw_task w))"
    and run: "andThen (recover m digest redactText) (activate m) w = (e, w')"
  shows "e \<noteq> [] \<and> emits m k quietCall w w' \<or>
    (\<exists>evs p. mw_trace w' = mw_trace w @ evs \<and> startedOn m digest ms (mw_at w) evs p \<and> (e \<noteq> [] \<longrightarrow> rt_Members (mw_task w') = ms \<and> rt_PrimaryID (mw_task w') = p))"
  using run unfolding recover_split [OF zero]
proof (cases rule: andThen_cases)
  case first
  from quietly.respD [OF quietly.resp_collect first(1)] first(2) show ?thesis by (simp add: quietCall_def)
next
  case (second w1)
  note collect = second(1)
  have q1: "emits m k quietCall w w1" by (rule quietly.respD [OF quietly.resp_collect collect]) (simp_all add: quietCall_def)
  then obtain e1 where e1: "mw_trace w1 = mw_trace w @ e1" "quietCalls e1" by (rule quietlyE [OF _ x])
  have ag1: "agrees k rt_Members ms w1" using members.respD [OF members.resp_collect collect] x ag by (simp add: keeps_def)
  let ?p = "rt_PrimaryID (mw_task w1)"
  from collect_ok [OF x ag collect] e1(1) have ev: "evidenceGathered m digest ms (mw_at w) e1 ?p" by auto
  have more: "evidenceGathered m digest ms (mw_at w) (e1 @ evs) ?p" for evs
    using ev unfolding evidenceGathered_def by (elim exE conjE) (fastforce elim!: list_all2_mono)
  from second(2) show ?thesis
  proof (cases rule: andThen_cases)
    case first
    from start_cases [OF x ag1 first(1)] show ?thesis
    proof (elim disjE exE conjE)
      assume "emits m k quietCall w1 w'"
      from emits_trans [OF q1 this] first(2) show ?thesis by simp
    next
      fix evs t assume s: "mw_trace w' = mw_trace w1 @ evs @ [(t, CallStartPrimary ?p (e = []))]" "quietCalls evs" "agrees k taskView (ms, ?p) w'"
      have "startedOn m digest ms (mw_at w) ((e1 @ evs) @ (t, CallStartPrimary ?p (e = [])) # [] @ []) ?p"
        by (rule startedOnI) (use s(2) e1(2) more in \<open>auto simp: activated_def\<close>)
      with s e1 show ?thesis by (intro disjI2 exI [of _ "(e1 @ evs) @ (t, CallStartPrimary ?p (e = [])) # [] @ []"] exI [of _ ?p]) (simp add: agrees_def)
    qed
  next
    case (second w2)
    from start_cases [OF x ag1 second(1)] obtain evs t where s: "mw_trace w2 = mw_trace w1 @ evs @ [(t, CallStartPrimary ?p True)]" "quietCalls evs" "agrees k taskView (ms, ?p) w2" by auto
    from finish_cases [OF x s(3) second(2)] obtain rest act where f: "mw_trace w' = mw_trace w2 @ rest @ act" "quietCalls rest" "activated ?p rest act"
        "e \<noteq> [] \<longrightarrow> rt_Members (mw_task w') = ms \<and> rt_PrimaryID (mw_task w') = ?p" by blast
    have "startedOn m digest ms (mw_at w) ((e1 @ evs) @ (t, CallStartPrimary ?p True) # rest @ act) ?p"
      by (rule startedOnI) (use s(2) e1(2) f(2,3) more in auto)
    with f(1,4) s(1) e1(1) show ?thesis by (intro disjI2 exI [of _ "(e1 @ evs) @ (t, CallStartPrimary ?p True) # rest @ act"] exI [of _ ?p]) simp
  qed
qed

lemma Select_member:
  assumes "Select digest members evidence proofs = Inr p"
  shows "p \<in> di_ResourceID ` set members" "p \<noteq> []"
proof -
  obtain c where c: "ValidateEvidence digest members evidence = None" "c \<in> set evidence" "rv_InstanceID c = p" by (rule Select_Inr [OF assms])
  then show member: "p \<in> di_ResourceID ` set members" using ValidateEvidence_None(2) [OF c(1)] by blast
  have "\<forall>x \<in> set members. ValidResourceID (di_ResourceID x)" using c(1) by (auto simp: ValidateEvidence_def list_ex_iff split: if_splits)
  with member show "p \<noteq> []" by auto
qed

lemma storeAdvance_trace: "\<exists>t b. mw_trace (snd (storeAdvance m digest redactText stage member message w)) = mw_trace w @ [(t, CallAdvance stage member b)]"
  by (auto simp: storeAdvance_def callStore_def Let_def split: prod.split sum.split)

lemma refence_trace:
  "\<exists>fences. mw_trace (snd (refence m p members err w)) = mw_trace w @ fences \<and> (\<forall>(t, c) \<in> set fences. \<exists>b. c = CallFence p b) \<and>
     (p \<in> di_ResourceID ` set members \<longrightarrow> fences \<noteq> [])"
proof (induction members arbitrary: err w)
  case (Cons x members)
  show ?case
  proof (cases "di_ResourceID x = p")
    case True
    obtain e w1 where a: "ask m (mv_Fence m) (CallFence p) w = (e, w1)" by fastforce
    from Cons.IH [of "err @ e" w1] obtain fences where f: "mw_trace (snd (refence m p members (err @ e) w1)) = mw_trace w1 @ fences" "\<forall>(t, c) \<in> set fences. \<exists>b. c = CallFence p b" by blast
    have "snd (refence m p (x # members) err w) = snd (refence m p members (err @ e) w1)" using True a by simp
    with f ask_cases [OF a] show ?thesis by (intro exI [of _ "(mw_at (turn m w), CallFence p (e = [])) # fences"]) auto
  next
    case False
    with Cons.IH [of err w] show ?thesis by auto
  qed
qed simp

text \<open>The record ends with an attempt to fence the selected primary, unless authority was lost.\<close>

definition refenced :: "rid \<Rightarrow> (go_time \<times> recovery_call) list \<Rightarrow> bool" where
  "refenced p calls \<longleftrightarrow> (\<exists>r t b. calls = r @ [(t, CallAdvance RecoveryBlocked [] b)] \<and>
     ((\<exists>t. r = [(t, CallAuthority False)]) \<or> (\<exists>t fences. r = (t, CallAuthority True) # fences \<and> fences \<noteq> [] \<and> (\<forall>(t, c) \<in> set fences. \<exists>b. c = CallFence p b))))"

lemma onFailure_refences:
  assumes "rt_PrimaryID (mw_task w) = p" "p \<in> di_ResourceID ` set (rt_Members (mw_task w))" "p \<noteq> []"
  shows "\<exists>evs. mw_trace (snd (onFailure m digest redactText boundedText err w)) = mw_trace w @ evs \<and> refenced p evs"
proof -
  obtain ea w1 where a: "requireAuthority m w = (ea, w1)" by fastforce
  from a have w1: "w1 = record_call (CallAuthority (ea = [])) (turn m w)" unfolding requireAuthority_def by (rule ask_cases)
  define h where "h = (if ea = [] then refence m p (rt_Members (mw_task w)) err w1 else (err, w1))"
  have o: "snd (onFailure m digest redactText boundedText err w) = snd (storeAdvance m digest redactText RecoveryBlocked [] (boundedText (fst h)) (snd h))"
    using assms a w1 unfolding onFailure_def h_def by (cases ea) (simp_all add: Let_def split: prod.split)
  from storeAdvance_trace obtain t b where s: "mw_trace (snd (onFailure m digest redactText boundedText err w)) = mw_trace (snd h) @ [(t, CallAdvance RecoveryBlocked [] b)]" unfolding o by blast
  show ?thesis
  proof (cases ea)
    case Nil
    from refence_trace [of m p "rt_Members (mw_task w)" err w1] assms(2) obtain fences where f: "mw_trace (snd h) = mw_trace w1 @ fences"
        "\<forall>(t, c) \<in> set fences. \<exists>b. c = CallFence p b" "fences \<noteq> []" unfolding h_def Nil by auto
    have "refenced p (((mw_at (turn m w), CallAuthority True) # fences) @ [(t, CallAdvance RecoveryBlocked [] b)])" unfolding refenced_def using f(2,3) by blast
    with s f(1) w1 Nil show ?thesis by (intro exI [of _ "((mw_at (turn m w), CallAuthority True) # fences) @ [(t, CallAdvance RecoveryBlocked [] b)]"]) simp
  next
    case Cons
    have "refenced p ([(mw_at (turn m w), CallAuthority False)] @ [(t, CallAdvance RecoveryBlocked [] b)])" unfolding refenced_def by blast
    with s w1 Cons show ?thesis by (intro exI [of _ "[(mw_at (turn m w), CallAuthority False)] @ [(t, CallAdvance RecoveryBlocked [] b)]"]) (simp add: h_def)
  qed
qed

lemma unique_call:
  assumes "xs @ y # ys = pre @ z # post" "P z" "\<forall>u \<in> set xs. \<not> P u" "\<forall>u \<in> set ys. \<not> P u"
  shows "pre = xs \<and> z = y \<and> post = ys"
  using assms(1) unfolding append_eq_append_conv2
proof (elim exE disjE conjE)
  fix us assume u: "xs = pre @ us" "us @ y # ys = z # post"
  with assms(2,3) have "us = []" by (cases us) auto
  with u show ?thesis by simp
next
  fix us assume u: "xs @ us = pre" "y # ys = us @ z # post"
  with assms(2,4) have "us = []" by (cases us) auto
  with u show ?thesis by simp
qed

lemma callStore_begin:
  assumes "callStore m (\<lambda>env ctxErr. BeginRecovery env ctxErr k revision leaseID) CallBegin v = (e, w)"
  obtains (refused) "e \<noteq> []" "\<exists>t s. mw_at (turn m v) \<le> t \<and> w = record_call (CallBegin None) ((turn m v)\<lparr>mw_at := t, mw_repo := s\<rparr>)"
  | (begun) env ctxErr task s where "e = []" "BeginRecovery env ctxErr k revision leaseID (mw_repo (turn m v)) = (Inr task, s)" "mw_at (turn m v) \<le> env_now env"
      "w = record_call (CallBegin (Some task)) ((turn m v)\<lparr>mw_at := env_now env, mw_repo := s, mw_task := task\<rparr>)"
proof -
  let ?env = "repoEnv m (mw_calls v) (mw_at (turn m v))"
  have le: "mw_at (turn m v) \<le> env_now ?env" by (simp add: repoEnv_def)
  obtain r s where op: "BeginRecovery ?env (mv_ctxErr m (mw_calls v)) k revision leaseID (mw_repo (turn m v)) = (r, s)" by fastforce
  show ?thesis
  proof (cases r)
    case (Inl f)
    with assms op have "e = [StoreFailed f]" "w = record_call (CallBegin None) ((turn m v)\<lparr>mw_at := env_now ?env, mw_repo := s\<rparr>)" by (auto simp: callStore_def Let_def)
    with refused le show ?thesis by blast
  next
    case (Inr task)
    with assms op have "e = []" "w = record_call (CallBegin (Some task)) ((turn m v)\<lparr>mw_at := env_now ?env, mw_repo := s, mw_task := task\<rparr>)" by (auto simp: callStore_def Let_def)
    with begun [OF _ op [unfolded Inr] le] show ?thesis by blast
  qed
qed

lemma begin_cases:
  assumes x: "soleExecutor m k" and v: "emits m k quietCall w v" and key: "keyedAt k (turn m v)"
    and run: "andThen (callStore m (\<lambda>env ctxErr. BeginRecovery env ctxErr k revision leaseID) CallBegin)
            (withFailureHandling m digest redactText boundedText (andThen (recover m digest redactText) (activate m))) v = (err, w')"
  obtains (refused) "err \<noteq> []" "emits m k quietCall w w'"
  | (begun) w0 pre task e wb where "mw_trace w0 = mw_trace w @ pre @ [(mw_at w0, CallBegin (Some task))]" "quietCalls pre" "mw_task w0 = task" "rt_ResourceID task = k"
      "agrees k rt_Members (rt_Members task) w0" "IsZero (rt_CommittedAt task)" "andThen (recover m digest redactText) (activate m) w0 = (e, wb)"
      "e = [] \<and> err = [] \<and> w' = wb \<or> e \<noteq> [] \<and> onFailure m digest redactText boundedText e wb = (err, w')"
  using run
proof (cases rule: andThen_cases)
  case first
  from first(1) show ?thesis
  proof (cases rule: callStore_begin)
    case refused
    then obtain t s where w': "mw_at (turn m v) \<le> t" "w' = record_call (CallBegin None) ((turn m v)\<lparr>mw_at := t, mw_repo := s\<rparr>)" by blast
    have "emits m k quietCall (turn m v) ((turn m v)\<lparr>mw_at := t, mw_repo := s\<rparr>)" by (rule emits_later) (use w'(1) in simp_all)
    from emits_trans [OF emits_trans [OF emits_trans [OF v emits_turn] this] emits_record [of quietCall "CallBegin None"]] that(1) [OF first(2)] show ?thesis
      unfolding w'(2) by (simp add: quietCall_def)
  qed (use first(2) in simp)
next
  case (second w0)
  from second(1) show ?thesis
  proof (cases rule: callStore_begin)
    case (begun env ctxErr task s)
    obtain pre where pre: "mw_trace v = mw_trace w @ pre" "quietCalls pre" by (rule quietlyE [OF v x])
    from BeginRecovery_begun [OF begun(2)] obtain y where y: "map_of (RecoveryTasks (mw_repo (turn m v))) k = Some y" "rt_ResourceID task = rt_ResourceID y"
        "map_of (RecoveryTasks s) k = Some task" "IsZero (rt_CommittedAt task)" by blast
    have id: "rt_ResourceID task = k" using key y(1,2) by (simp add: keyedAt_def)
    obtain e wb where b: "andThen (recover m digest redactText) (activate m) w0 = (e, wb)" by fastforce
    have f: "e = [] \<and> err = [] \<and> w' = wb \<or> e \<noteq> [] \<and> onFailure m digest redactText boundedText e wb = (err, w')"
      using second(2) b by (cases e) (auto simp: withFailureHandling_def)
    show ?thesis by (rule that(2) [OF _ pre(2) _ id _ y(4) b f]) (use begun(4) pre(1) id y(3) in \<open>simp_all add: agrees_def\<close>)
  qed simp
qed

lemma Execute_cases:
  assumes x: "soleExecutor m k" and key: "keyedAt k w" and run: "Execute m digest redactText boundedText k revision w = (err, w')"
  obtains (refused) "err \<noteq> []" "emits m k quietCall w w'"
  | (begun) w0 pre task e wb where "mw_trace w0 = mw_trace w @ pre @ [(mw_at w0, CallBegin (Some task))]" "quietCalls pre" "mw_task w0 = task" "rt_ResourceID task = k"
      "agrees k rt_Members (rt_Members task) w0" "IsZero (rt_CommittedAt task)" "andThen (recover m digest redactText) (activate m) w0 = (e, wb)"
      "e = [] \<and> err = [] \<and> w' = wb \<or> e \<noteq> [] \<and> onFailure m digest redactText boundedText e wb = (err, w')"
proof -
  have turn: "emits m k quietCall w (turn m w)" by (rule emits_turn)
  show ?thesis
  proof (cases "mv_configured m \<and> (\<exists>x. repository_RecoveryTask k (mw_repo (turn m w)) = Some x \<and> rt_MetadataRevision x = revision)")
    case False
    have "err \<noteq> [] \<and> (w' = w \<or> w' = turn m w)" using run False by (auto simp: Execute_def Let_def split: if_splits option.splits)
    with turn show ?thesis using refused quietly.R_refl by blast
  next
    case True
    then obtain task0 where t0: "mv_configured m" "repository_RecoveryTask k (mw_repo (turn m w)) = Some task0" "rt_MetadataRevision task0 = revision" by blast
    let ?w = "(turn m w)\<lparr>mw_task := task0\<rparr>"
    have w: "emits m k quietCall w ?w" using emits_trans [OF turn emits_later [of m k "turn m w" ?w]] by simp
    have key': "keyedAt k ?w" using keyedAt_turn [OF x key] by (simp add: keyedAt_def)
    let ?locked = "\<lambda>w. case mv_Acquire m (mw_calls w) of Inl e \<Rightarrow> ([Collaborator e], record_call (CallLock False) (turn m w))
        | Inr leaseID \<Rightarrow> andThen (callStore m (\<lambda>env ctxErr. BeginRecovery env ctxErr k revision leaseID) CallBegin)
            (withFailureHandling m digest redactText boundedText (andThen (recover m digest redactText) (activate m))) (record_call (CallLock True) (turn m w))"
    from run t0 have "andThen (manager_Preflight m) ?locked ?w = (err, w')" by (simp add: Execute_def)
    then show ?thesis
    proof (cases rule: andThen_cases)
      case first
      show ?thesis by (rule refused [OF first(2) emits_trans [OF w quietly.respD [OF quietly.resp_preflight first(1)]]]) (simp_all add: quietCall_def)
    next
      case (second w1)
      have p: "emits m k quietCall w w1" by (rule emits_trans [OF w quietly.respD [OF quietly.resp_preflight second(1)]]) (simp_all add: quietCall_def)
      have key1: "keyedAt k w1" using key.respD [OF key.resp_preflight second(1)] x key' by (simp add: keepsKey_def)
      show ?thesis
      proof (cases "mv_Acquire m (mw_calls w1)")
        case (Inl e)
        with second(2) have "err \<noteq> []" "w' = record_call (CallLock False) (turn m w1)" by auto
        with refused emits_trans [OF p quietly.R_record_turn [of "CallLock False" m k w1]] show ?thesis by (simp add: quietCall_def)
      next
        case (Inr leaseID)
        let ?v = "record_call (CallLock True) (turn m w1)"
        have v: "emits m k quietCall w ?v" using emits_trans [OF p quietly.R_record_turn] by (simp add: quietCall_def)
        have keyv: "keyedAt k (turn m ?v)" by (rule keyedAt_turn [OF x]) (use keyedAt_turn [OF x key1] in \<open>simp add: keyedAt_def\<close>)
        from second(2) Inr have "andThen (callStore m (\<lambda>env ctxErr. BeginRecovery env ctxErr k revision leaseID) CallBegin)
            (withFailureHandling m digest redactText boundedText (andThen (recover m digest redactText) (activate m))) ?v = (err, w')" by simp
        then show ?thesis
          by (rule begin_cases [OF x v keyv]) (use refused begun in blast)+
      qed
    qed
  qed
qed

lemma quiet_onFailure: "onFailure m digest redactText boundedText e w = (err, w') \<Longrightarrow> emits m k quietCall w w'"
  by (rule quietly.respD [OF quietly.resp_onFailure]) (simp_all add: quietCall_def)

text \<open>An execution that started a primary, from the first call to the last.\<close>

lemma Execute_course:
  assumes x: "soleExecutor m k" and key: "keyedAt k w" and empty: "mw_trace w = []" and run: "Execute m digest redactText boundedText k revision w = (err, w')"
    and call: "(t, CallStartPrimary p ok) \<in> set (mw_trace w')"
  obtains pre tb task evs after where "mw_trace w' = pre @ (tb, CallBegin (Some task)) # evs @ after" "quietCalls pre" "rt_ResourceID task = k"
    "startedOn m digest (rt_Members task) tb evs p" "quietCalls after" "err \<noteq> [] \<Longrightarrow> refenced p after"
  using x key run
proof (cases rule: Execute_cases)
  case refused
  then obtain evs where "mw_trace w' = evs" "quietCalls evs" using quietlyE [OF refused(2) x] empty by auto
  with call show ?thesis by (auto simp: quietCall_def)
next
  case (begun w0 pre task e wb)
  have after: "\<exists>after. mw_trace w' = mw_trace wb @ after \<and> quietCalls after"
    using begun(8)
  proof (elim disjE conjE)
    assume f: "onFailure m digest redactText boundedText e wb = (err, w')"
    show ?thesis by (rule quietlyE [OF quiet_onFailure [OF f, of k] x]) blast
  qed simp
  have t0: "mw_trace w0 = pre @ [(mw_at w0, CallBegin (Some task))]" using begun(1) empty by simp
  from recover_cases [OF x begun(5) begun(6) [folded begun(3)] begun(7)] show ?thesis
  proof (elim disjE exE conjE)
    assume "emits m k quietCall w0 wb"
    then obtain evs where "mw_trace wb = mw_trace w0 @ evs" "quietCalls evs" by (rule quietlyE [OF _ x])
    with after t0 begun(2) call show ?thesis by (auto simp: quietCall_def)
  next
    fix evs q assume s: "mw_trace wb = mw_trace w0 @ evs" "startedOn m digest (rt_Members task) (mw_at w0) evs q"
      "e \<noteq> [] \<longrightarrow> rt_Members (mw_task wb) = rt_Members task \<and> rt_PrimaryID (mw_task wb) = q"
    from after obtain rest where r: "mw_trace w' = mw_trace wb @ rest" "quietCalls rest" by blast
    have "q = p" using s r t0 begun(2) call by (auto simp: startedOn_def quietCall_def activated_def)
    with s(2) obtain evidence proofs where sel: "Select digest (rt_Members task) evidence proofs = Inr p" by (auto simp: startedOn_def evidenceGathered_def)
    have "refenced p rest" if "err \<noteq> []"
    proof -
      from that begun(8) have f: "e \<noteq> []" "onFailure m digest redactText boundedText e wb = (err, w')" by auto
      from onFailure_refences [of wb p m digest redactText boundedText e] s(3) f Select_member [OF sel] \<open>q = p\<close> r(1) show ?thesis by auto
    qed
    with that [of pre "mw_at w0" task evs rest] r s t0 begun(2,4) \<open>q = p\<close> show ?thesis by simp
  qed
qed

text \<open>
  (C2) A disaster recovery starts a primary only on complete evidence, and activates only what it has committed. When an execution calls the driver to
  start member \<open>p\<close>, then since the repository began the recovery (and revoked every writer lease of the cluster) every member of the plan was fenced, at
  least the drain interval passed after the last fence, then every member was inspected and the histories were compared, and \<open>p\<close> is what the selection names on that evidence;
  no other member is ever started, nothing was activated before, and a later activation concerns \<open>p\<close> and follows a successful commit. The driver's answers are arbitrary;
  other actors leave the task to the executor that holds the operation lock.
\<close>

theorem StartPrimary_on_evidence:
  assumes "soleExecutor m k" "keyedAt k w" "mw_trace w = []" "Execute m digest redactText boundedText k revision w = (err, w')"
    and "mw_trace w' = before @ (t, CallStartPrimary p ok) # after"
  shows "\<exists>pre tb task calls. before = pre @ (tb, CallBegin (Some task)) # calls \<and> rt_ResourceID task = k \<and> evidenceGathered m digest (rt_Members task) tb calls p \<and>
    (\<forall>t q b. (t, CallActivate q b) \<notin> set before) \<and> (\<forall>t q b. (t, CallStartPrimary q b) \<notin> set after) \<and>
    (\<forall>mid t q b end. after = mid @ (t, CallActivate q b) # end \<longrightarrow> q = p \<and> (\<exists>t. (t, CallCommit True) \<in> set mid))"
proof -
  have "(t, CallStartPrimary p ok) \<in> set (mw_trace w')" using assms(5) by simp
  then obtain pre tb task evs rest where c: "mw_trace w' = pre @ (tb, CallBegin (Some task)) # evs @ rest" "quietCalls pre" "rt_ResourceID task = k"
      "startedOn m digest (rt_Members task) tb evs p" "quietCalls rest" by (rule Execute_course [OF assms(1-4)])
  from c(4) obtain calls ts oks mid act where s: "evs = calls @ (ts, CallStartPrimary p oks) # mid @ act" "quietCalls calls" "quietCalls mid" "activated p mid act"
      "evidenceGathered m digest (rt_Members task) tb calls p" unfolding startedOn_def by blast
  let ?before = "pre @ (tb, CallBegin (Some task)) # calls" and ?after = "mid @ act @ rest"
  have nostart: "\<forall>u \<in> set ?after. \<not> (\<exists>t q b. u = (t, CallStartPrimary q b))" using s(3,4) c(5) by (auto simp: quietCall_def activated_def)
  have "before = ?before \<and> (t, CallStartPrimary p ok) = (ts, CallStartPrimary p oks) \<and> after = ?after"
    by (rule unique_call [where P = "\<lambda>u. \<exists>t q b. u = (t, CallStartPrimary q b)"]) (use assms(5) c(1,2) s(1,2) nostart in \<open>auto simp: quietCall_def\<close>)
  then have b: "before = ?before" "after = ?after" by simp_all
  have act: "q = p \<and> (\<exists>t. (t, CallCommit True) \<in> set first)" if split: "?after = first @ (ta, CallActivate q ba) # end" for first ta q ba "end"
  proof (cases act)
    case Nil
    with split s(3) c(5) have "(ta, CallActivate q ba) \<in> set (mid @ rest)" by simp
    with s(3) c(5) show ?thesis by (auto simp: quietCall_def)
  next
    case (Cons u us)
    with s(4) obtain tu bu where u: "u = (tu, CallActivate p bu)" "quietCalls us" "\<exists>t. (t, CallCommit True) \<in> set mid" by (auto simp: activated_def)
    have "first = mid \<and> (ta, CallActivate q ba) = u \<and> end = us @ rest"
      by (rule unique_call [where P = "\<lambda>u. \<exists>t q b. u = (t, CallActivate q b)"]) (use split Cons s(3) u c(5) in \<open>auto simp: quietCall_def\<close>)
    with u show ?thesis by simp
  qed
  have n1: "\<forall>t q b. (t, CallActivate q b) \<notin> set before" unfolding b(1) using c(2) s(2) by simp
  have n2: "\<forall>t q b. (t, CallStartPrimary q b) \<notin> set after" unfolding b(2) using nostart by blast
  have n3: "\<forall>mid t q b end. after = mid @ (t, CallActivate q b) # end \<longrightarrow> q = p \<and> (\<exists>t. (t, CallCommit True) \<in> set mid)" unfolding b(2) using act by blast
  show ?thesis
    by (rule exI [of _ pre], rule exI [of _ tb], rule exI [of _ task], rule exI [of _ calls]) (intro conjI b(1) c(3) s(5) n1 n2 n3)
qed

text \<open>
  (C24) A failed recovery does not leave a writer behind. When an execution that started member \<open>p\<close> returns an error, its last calls fence \<open>p\<close> again and record the recovery as
  blocked; only when the controller has lost its authority it does not call the driver, whose permits then expire.
\<close>

theorem failed_recovery_refences:
  assumes "soleExecutor m k" "keyedAt k w" "mw_trace w = []" "Execute m digest redactText boundedText k revision w = (err, w')" "err \<noteq> []"
    and "(t, CallStartPrimary p ok) \<in> set (mw_trace w')"
  shows "\<exists>calls last. mw_trace w' = calls @ last \<and> refenced p last \<and> (\<forall>t q b. (t, CallStartPrimary q b) \<notin> set last \<and> (t, CallActivate q b) \<notin> set last)"
proof -
  obtain pre tb task evs rest where c: "mw_trace w' = pre @ (tb, CallBegin (Some task)) # evs @ rest" "quietCalls rest" "refenced p rest"
    by (rule Execute_course [OF assms(1-4,6)]) (use assms(5) in blast)
  then show ?thesis by (intro exI [of _ "pre @ (tb, CallBegin (Some task)) # evs"] exI [of _ rest]) simp
qed

end
