(* ===== verification/Manager_Progress.thy ===== *)
theory Manager_Progress
  imports Disaster_Manager
begin

text \<open>
  Progress of disaster recovery: with collaborators that answer positively, a plan that the repository accepts and an operation lock that outlives
  the drain interval, \<^verbatim>\<open>Execute\<close> (\<^verbatim>\<open>internal/disaster/manager.go\<close>) reaches the start of the selected primary. The concrete run at the end is
  used to apply the theorems on executions.
\<close>

section \<open>Collaborators that do not fail\<close>

definition cooperative :: "manager_env \<Rightarrow> (rid \<Rightarrow> RecoveryEvidence) \<Rightarrow> RecoveryProof list \<Rightarrow> rid \<Rightarrow> bool" where
  "cooperative m history proofs leaseID \<longleftrightarrow> mv_configured m \<and>
     (\<forall>n x. mv_others m n x = x \<and> mv_delay m n = 0 \<and> mv_ctxErr m n = None \<and> mv_Cause m n = None \<and> mv_RequireMutationAuthority m n = None \<and> mv_Check m n = None \<and>
        mv_Acquire m n = Inr leaseID \<and> mv_Preflight m n = None \<and> mv_Fence m n = None \<and> mv_Compare m n = Inr proofs) \<and>
     (\<forall>n s s'. mv_commit m n s s' = CommitApplied) \<and> (\<forall>n k. mv_Inspect m n k = Inr (history k))"

lemma cooperative_turn: "cooperative m history proofs leaseID \<Longrightarrow> turn m w = w\<lparr>mw_calls := Suc (mw_calls w)\<rparr>"
  by (simp add: cooperative_def turn_def)

lemma cooperative_ask: "(\<And>n. answer n = None) \<Longrightarrow> ask m answer c w = ([], record_call (c True) (turn m w))"
  by (simp add: ask_def)

text \<open>The repository accepts the executor's task until the instant \<open>deadline\<close>.\<close>

definition accepted :: "go_time \<Rightarrow> snapshot \<Rightarrow> RecoveryTask \<Rightarrow> bool" where
  "accepted deadline s x \<longleftrightarrow> map_of (RecoveryTasks s) (rt_ResourceID x) = Some x \<and> (\<forall>t \<le> deadline. recoveryLeaseValid s x t) \<and> recoveryInventoryValid s x"

definition sameRun :: "RecoveryTask \<Rightarrow> RecoveryTask \<Rightarrow> bool" where
  "sameRun x y \<longleftrightarrow> rt_ResourceID y = rt_ResourceID x \<and> rt_Members y = rt_Members x \<and> rt_LeaseID y = rt_LeaseID x \<and> rt_ClusterID y = rt_ClusterID x \<and>
     rt_InventoryGeneration y = rt_InventoryGeneration x \<and> rt_AttemptStartedAt y = rt_AttemptStartedAt x"

lemma sameRun_simps: "sameRun x x" "sameRun x y \<Longrightarrow> sameRun y z \<Longrightarrow> sameRun x z"
  by (auto simp: sameRun_def)

lemma compact_frame [simp]: "OperationLocks (compactSnapshotHistory s now) = OperationLocks s" "Instances (compactSnapshotHistory s now) = Instances s"
    "InventoryGenerations (compactSnapshotHistory s now) = InventoryGenerations s"
  by (simp_all add: compactSnapshotHistory_def Let_def)

lemma advanced_frame [simp]: "OperationLocks (advancedSnapshot x st s) = OperationLocks s" "Instances (advancedSnapshot x st s) = Instances s"
    "InventoryGenerations (advancedSnapshot x st s) = InventoryGenerations s"
  by (auto simp: advancedSnapshot_def putTask_def putCluster_def Let_def split: option.splits)

lemma accepted_advance:
  assumes "accepted deadline s x" "sameRun x y"
  shows "accepted deadline (compactSnapshotHistory (advancedSnapshot y st s) now) y"
proof -
  let ?s = "compactSnapshotHistory (advancedSnapshot y st s) now"
  have "recoveryLeaseValid ?s y t = recoveryLeaseValid s x t" for t using assms(2) by (auto simp: recoveryLeaseValid_def sameRun_def split: option.split)
  moreover have "recoveryInventoryValid ?s y = recoveryInventoryValid s x" using assms(2) by (auto simp: recoveryInventoryValid_def sameRun_def)
  ultimately show ?thesis using assms(1) by (simp add: accepted_def update_conv')
qed

text \<open>An advance along the stages is accepted.\<close>

lemma AdvanceRecovery_accepted:
  assumes "accepted deadline s x" "env_now env \<le> deadline" "recoveryTransition (rt_Stage x) (rn_Stage event)" "env_commit env = (\<lambda>_ _. CommitApplied)"
    and task: "rn_Stage event \<noteq> RecoveryStarting \<and> task = x \<or> rn_Stage event = RecoveryStarting \<and> task = x\<lparr>rt_Evidence := es, rt_Proofs := ps, rt_PrimaryID := p\<rparr> \<and>
      \<not> list_ex (staleEvidence x (env_now env)) es \<and> Select digest (rt_Members x) es ps = Inr p"
  shows "\<exists>y s'. AdvanceRecovery env digest redactText None task event s = (Inr y, s') \<and> accepted deadline s' y \<and> sameRun x y \<and> rt_Stage y = rn_Stage event \<and>
    rt_PrimaryID y = rt_PrimaryID task"
proof -
  let ?start = "rn_Stage event = RecoveryStarting"
  define z where "z = (if ?start then x\<lparr>rt_PrimaryID := rt_PrimaryID task, rt_Evidence := rt_Evidence task, rt_Proofs := rt_Proofs task\<rparr> else x)"
  define ev where "ev = event\<lparr>rn_At := env_now env, rn_Message := redactText (rn_Message event)\<rparr>"
  define y where "y = z\<lparr>rt_Stage := rn_Stage event, rt_Message := rn_Message ev, rt_UpdatedAt := env_now env,
    rt_MetadataRevision := rt_MetadataRevision z + 1, rt_Events := rt_Events z @ [ev]\<rparr>"
  let ?n = "advancedSnapshot y (rn_Stage event) s"
  have same: "sameRun x y" "rt_Stage y = rn_Stage event" "rt_PrimaryID y = rt_PrimaryID task" using task by (auto simp: sameRun_def y_def z_def)
  have a: "map_of (RecoveryTasks s) (rt_ResourceID task) = Some x" "rt_MetadataRevision x = rt_MetadataRevision task" "rt_LeaseID x = rt_LeaseID task"
      "recoveryLeaseValid s x (env_now env)" "recoveryInventoryValid s x" using assms(1,2) task by (auto simp: accepted_def)
  have sel: "\<not> list_ex (staleEvidence x (env_now env)) (rt_Evidence task)" "Select digest (rt_Members x) (rt_Evidence task) (rt_Proofs task) = Inr (rt_PrimaryID task)" if ?start
    using task that by auto
  have "AdvanceRecovery env digest redactText None task event s = commitTask env s ?n y"
    unfolding AdvanceRecovery_def Let_def using a sel assms(3) by (cases ?start) (simp_all add: y_def z_def ev_def)
  also have "\<dots> = (Inr y, compactSnapshotHistory ?n (env_now env))" by (simp add: commitTask_def commitSnapshotLocked_def assms(4))
  finally show ?thesis using accepted_advance [OF assms(1) same(1)] same by blast
qed

section \<open>Stages\<close>

text \<open>The world of an executor in a stage, with its record of what it has collected.\<close>

definition ready :: "go_time \<Rightarrow> go_time \<Rightarrow> RecoveryTask \<Rightarrow> RecoveryStage \<Rightarrow> manager_world \<Rightarrow> bool" where
  "ready deadline now x stage w \<longleftrightarrow> accepted deadline (mw_repo w) (mw_task w) \<and> sameRun x (mw_task w) \<and> rt_Stage (mw_task w) = stage \<and> mw_at w = now \<and> now \<le> deadline"

lemma ready_cong: "mw_repo w' = mw_repo w \<Longrightarrow> mw_task w' = mw_task w \<Longrightarrow> mw_at w' = mw_at w \<Longrightarrow> ready deadline now x stage w' = ready deadline now x stage w"
  by (simp add: ready_def)

lemma advance_ready:
  assumes c: "cooperative m history proofs leaseID" and r: "ready deadline now x stage w" and tr: "recoveryTransition stage stage'" "stage' \<noteq> RecoveryStarting"
  shows "\<exists>w'. advance m digest redactText stage' member message w = ([], w') \<and> ready deadline now x stage' w' \<and> mw_evidence w' = mw_evidence w"
proof -
  note turn = cooperative_turn [OF c]
  obtain w2 where w2: "andThen (checkCause m) (requireAuthority m) w = ([], w2)" "mw_repo w2 = mw_repo w" "mw_task w2 = mw_task w" "mw_at w2 = mw_at w" "mw_evidence w2 = mw_evidence w"
    using c by (auto simp: andThen_def checkCause_def requireAuthority_def ask_def cooperative_def turn)
  let ?env = "repoEnv m (mw_calls w2) (mw_at (turn m w2))"
  have env: "env_now ?env = now" "env_commit ?env = (\<lambda>_ _. CommitApplied)" using c r w2(4) by (auto simp: repoEnv_def cooperative_def turn ready_def fun_eq_iff)
  have "\<exists>y s'. AdvanceRecovery ?env digest redactText None (mw_task w2) (storeEvent stage' member message) (mw_repo w2) = (Inr y, s') \<and> accepted deadline s' y \<and> sameRun (mw_task w2) y \<and>
      rt_Stage y = rn_Stage (storeEvent stage' member message) \<and> rt_PrimaryID y = rt_PrimaryID (mw_task w2)"
    by (rule AdvanceRecovery_accepted) (use r w2 tr env in \<open>auto simp: ready_def storeEvent_def\<close>)
  then obtain y s' where y: "AdvanceRecovery ?env digest redactText None (mw_task w2) (storeEvent stage' member message) (mw_repo w2) = (Inr y, s')" "accepted deadline s' y"
      "sameRun (mw_task w2) y" "rt_Stage y = stage'" by (auto simp: storeEvent_def)
  let ?w' = "record_call (CallAdvance stage' member True) ((turn m w2)\<lparr>mw_at := now, mw_repo := s', mw_task := y\<rparr>)"
  have ctx: "mv_ctxErr m n = None" for n using c by (simp add: cooperative_def)
  have "storeAdvance m digest redactText stage' member message w2 = ([], ?w')"
    using y(1) env(1) by (simp add: storeAdvance_def callStore_def Let_def ctx turn)
  then have "advance m digest redactText stage' member message w = ([], ?w')" using w2(1) by (auto simp: advance_def andThen_def split: prod.splits list.splits)
  moreover have "ready deadline now x stage' ?w'" using r y(2-4) w2(3) sameRun_simps(2) by (auto simp: ready_def)
  ultimately show ?thesis using w2(5) by auto
qed

lemma transitions [simp]: "recoveryTransition RecoveryFencing RecoveryFencing" "recoveryTransition RecoveryFencing RecoveryInspecting" "recoveryTransition RecoveryInspecting RecoveryInspecting"
    "recoveryTransition RecoveryInspecting RecoverySelecting" "recoveryTransition RecoverySelecting RecoveryStarting"
  by (simp_all add: recoveryTransition_def)

lemma stages: "RecoveryFencing \<noteq> RecoveryStarting" "RecoveryInspecting \<noteq> RecoveryStarting" "RecoverySelecting \<noteq> RecoveryStarting"
  by simp_all

lemma drain_positive: "0 < drainInterval m"
  by (simp add: drainInterval_def)

lemma fence_ready:
  assumes c: "cooperative m history proofs leaseID" and r: "ready deadline now x RecoveryFencing w"
  shows "\<exists>w'. fence_members m digest redactText members w = ([], w') \<and> ready deadline now x RecoveryFencing w'"
  using r
proof (induction members arbitrary: w)
  case (Cons member members)
  obtain w1 where w1: "advance m digest redactText RecoveryFencing (di_ResourceID member) ''isolating member and verifying persistent write fence'' w = ([], w1)" "ready deadline now x RecoveryFencing w1"
    using advance_ready [OF c Cons.prems transitions(1) stages(1)] by blast
  let ?w2 = "record_call (CallFence (di_ResourceID member) True) (turn m w1)"
  have w2: "ask m (mv_Fence m) (CallFence (di_ResourceID member)) w1 = ([], ?w2)" using c by (intro cooperative_ask) (simp add: cooperative_def)
  have "ready deadline now x RecoveryFencing ?w2" using w1(2) by (simp add: ready_def cooperative_turn [OF c])
  then obtain w3 where w3: "advance m digest redactText RecoveryFencing (di_ResourceID member) ''member write fence verified'' ?w2 = ([], w3)" "ready deadline now x RecoveryFencing w3"
    using advance_ready [OF c _ transitions(1) stages(1)] by blast
  with Cons.IH [OF w3(2)] show ?case by (simp add: andThen_def w1(1) w2 w3(1))
qed simp

lemma inspect_ready:
  assumes c: "cooperative m history proofs leaseID" and r: "ready deadline now x RecoveryInspecting w"
  shows "\<exists>w'. inspect_members m digest redactText members w = ([], w') \<and> ready deadline now x RecoveryInspecting w' \<and> mw_evidence w' = mw_evidence w @ map (history \<circ> di_ResourceID) members"
  using r
proof (induction members arbitrary: w)
  case (Cons member members)
  obtain w1 where w1: "advance m digest redactText RecoveryInspecting (di_ResourceID member) ''collecting native identity and recoverable transaction history'' w = ([], w1)"
      "ready deadline now x RecoveryInspecting w1" "mw_evidence w1 = mw_evidence w"
    using advance_ready [OF c Cons.prems transitions(3) stages(2)] by blast
  let ?e = "history (di_ResourceID member)"
  let ?w2 = "record_call (CallInspect (di_ResourceID member) (Some ?e)) ((turn m w1)\<lparr>mw_evidence := mw_evidence w1 @ [?e]\<rparr>)"
  have w2: "inspect m (di_ResourceID member) w1 = ([], ?w2)" using c by (simp add: inspect_def cooperative_def)
  have "ready deadline now x RecoveryInspecting ?w2" using w1(2) by (simp add: ready_def cooperative_turn [OF c])
  from Cons.IH [OF this] w1(3) show ?case by (auto simp: andThen_def w1(1) w2)
qed simp

lemma collect_ready:
  assumes c: "cooperative m history proofs leaseID" and r: "ready deadline now (mw_task w) RecoveryFencing w" and t: "now + drainInterval m \<le> deadline"
    and sel: "Select digest (rt_Members (mw_task w)) (map (history \<circ> di_ResourceID) (rt_Members (mw_task w))) proofs = Inr p"
  shows "\<exists>w' x. collectEvidence m digest redactText w = ([], w') \<and> ready deadline (now + drainInterval m) (mw_task w) RecoverySelecting (w'\<lparr>mw_task := x\<rparr>) \<and>
    mw_task w' = x\<lparr>rt_Evidence := map (history \<circ> di_ResourceID) (rt_Members (mw_task w)), rt_Proofs := proofs, rt_PrimaryID := p\<rparr>"
proof -
  let ?x = "mw_task w" and ?es = "map (history \<circ> di_ResourceID) (rt_Members (mw_task w))" and ?now = "now + drainInterval m"
  obtain w1 where w1: "fence_members m digest redactText (rt_Members ?x) w = ([], w1)" "ready deadline now ?x RecoveryFencing w1" using fence_ready [OF c r] by blast
  let ?w2 = "record_call (CallDrained True) ((turn m w1)\<lparr>mw_at := mw_at (turn m w1) + drainInterval m\<rparr>)"
  have w2: "drain m w1 = ([], ?w2)" using c by (simp add: drain_def cooperative_def Let_def)
  have "ready deadline ?now ?x RecoveryFencing ?w2" using w1(2) t by (simp add: ready_def cooperative_turn [OF c])
  then obtain w3 where w3: "advance m digest redactText RecoveryInspecting [] ''all members fenced; collecting recoverable history'' ?w2 = ([], w3)" "ready deadline ?now ?x RecoveryInspecting w3"
    using advance_ready [OF c _ transitions(2) stages(2)] by blast
  have m3: "rt_Members (mw_task w3) = rt_Members ?x" using w3(2) by (simp add: ready_def sameRun_def)
  have "ready deadline ?now ?x RecoveryInspecting (w3\<lparr>mw_evidence := []\<rparr>)" using w3(2) by (simp add: ready_def)
  then obtain w4 where w4: "inspect_members m digest redactText (rt_Members (mw_task w3)) (w3\<lparr>mw_evidence := []\<rparr>) = ([], w4)" "ready deadline ?now ?x RecoveryInspecting w4" "mw_evidence w4 = ?es"
    using inspect_ready [OF c] m3 by fastforce
  have "ValidateEvidence digest (rt_Members ?x) ?es = None" using sel by (auto simp: Select_def split: option.splits)
  then have w5: "validate digest w4 = ([], w4)" using w4(2,3) by (simp add: validate_def ready_def sameRun_def)
  obtain w6 where w6: "advance m digest redactText RecoverySelecting [] ''comparing committed history of every member'' w4 = ([], w6)" "ready deadline ?now ?x RecoverySelecting w6" "mw_evidence w6 = ?es"
    using advance_ready [OF c w4(2) transitions(4) stages(3)] w4(3) by fastforce
  let ?w = "record_call (CallCompare (Some proofs)) (turn m w6)"
  let ?w' = "?w\<lparr>mw_task := (mw_task w6)\<lparr>rt_Evidence := ?es, rt_Proofs := proofs, rt_PrimaryID := p\<rparr>\<rparr>"
  have m6: "rt_Members (mw_task w6) = rt_Members ?x" using w6(2) by (simp add: ready_def sameRun_def)
  have "compareAndSelect m digest w6 = ([], ?w')" using c sel w6(3) m6 by (simp add: compareAndSelect_def cooperative_def)
  then have run: "collectEvidence m digest redactText w = ([], ?w')"
    unfolding collectEvidence_def by (simp add: andThen_def w1(1) w2 w3(1) w4(1) w5 w6(1))
  have "ready deadline ?now ?x RecoverySelecting (?w'\<lparr>mw_task := mw_task w6\<rparr>)" using w6(2) by (simp add: ready_def cooperative_turn [OF c])
  with run show ?thesis by (intro exI [of _ ?w'] exI [of _ "mw_task w6"]) simp
qed

definition startRefused :: "manager_env \<Rightarrow> bool" where
  "startRefused m \<longleftrightarrow> (\<forall>n. mv_StartPrimary m n \<noteq> None)"

lemma refused_ask: "startRefused m \<Longrightarrow> ask m (mv_StartPrimary m) c w = (e, w') \<Longrightarrow> e \<noteq> []"
proof -
  assume "startRefused m"
  then obtain x where "mv_StartPrimary m (mw_calls w) = Some x" by (auto simp: startRefused_def)
  moreover assume "ask m (mv_StartPrimary m) c w = (e, w')"
  ultimately show "e \<noteq> []" by (auto simp: ask_def)
qed

lemma start_ready:
  assumes c: "cooperative m history proofs leaseID" and r: "ready deadline now x0 RecoverySelecting (w\<lparr>mw_task := x\<rparr>)"
    and task: "mw_task w = x\<lparr>rt_Evidence := es, rt_Proofs := ps, rt_PrimaryID := p\<rparr>"
    and sel: "Select digest (rt_Members x0) es ps = Inr p" "\<not> list_ex (staleEvidence x0 now) es"
  shows "\<exists>t b. (t, CallStartPrimary p b) \<in> set (mw_trace (snd (startPrimary m digest redactText w))) \<and> (startRefused m \<longrightarrow> fst (startPrimary m digest redactText w) \<noteq> [])"
proof -
  note turn = cooperative_turn [OF c]
  obtain w2 where w2: "andThen (checkCause m) (requireAuthority m) w = ([], w2)" "mw_repo w2 = mw_repo w" "mw_task w2 = mw_task w" "mw_at w2 = mw_at w"
    using c by (auto simp: andThen_def checkCause_def requireAuthority_def ask_def cooperative_def turn)
  let ?env = "repoEnv m (mw_calls w2) (mw_at (turn m w2))" and ?ev = "storeEvent RecoveryStarting p ''authoritative primary selected from complete committed history''"
  have x: "accepted deadline (mw_repo w) x" "sameRun x0 x" "rt_Stage x = RecoverySelecting" "mw_at w = now" "now \<le> deadline" using r by (simp_all add: ready_def)
  have env: "env_now ?env = now" "env_commit ?env = (\<lambda>_ _. CommitApplied)" using c x(4) w2(4) by (auto simp: repoEnv_def cooperative_def turn fun_eq_iff)
  have stale: "staleEvidence x now = staleEvidence x0 now" using x(2) by (simp add: fun_eq_iff staleEvidence_def sameRun_def)
  have "\<exists>y s'. AdvanceRecovery ?env digest redactText None (mw_task w2) ?ev (mw_repo w2) = (Inr y, s') \<and> accepted deadline s' y \<and> sameRun x y \<and> rt_Stage y = rn_Stage ?ev \<and>
      rt_PrimaryID y = rt_PrimaryID (mw_task w2)"
    by (rule AdvanceRecovery_accepted [where es = es and ps = ps and p = p]) (use x w2 env task sel stale in \<open>auto simp: storeEvent_def sameRun_def\<close>)
  then obtain y s' where y: "AdvanceRecovery ?env digest redactText None (mw_task w2) ?ev (mw_repo w2) = (Inr y, s')" "rt_PrimaryID y = p" using w2(3) task by auto
  have ctx: "mv_ctxErr m n = None" for n using c by (simp add: cooperative_def)
  let ?w3 = "record_call (CallAdvance RecoveryStarting p True) ((turn m w2)\<lparr>mw_at := now, mw_repo := s', mw_task := y\<rparr>)"
  have "storeAdvance m digest redactText RecoveryStarting p ''authoritative primary selected from complete committed history'' w2 = ([], ?w3)"
    using y(1) env(1) by (simp add: storeAdvance_def callStore_def Let_def ctx turn)
  then have a: "advance m digest redactText RecoveryStarting (rt_PrimaryID (mw_task w)) ''authoritative primary selected from complete committed history'' w = ([], ?w3)"
    using w2(1) task by (auto simp: advance_def andThen_def split: prod.splits list.splits)
  obtain e w4 where s: "startPrimary m digest redactText w = (e, w4)" "ask m (mv_StartPrimary m) (CallStartPrimary (rt_PrimaryID (mw_task ?w3))) ?w3 = (e, w4)"
    using a by (cases "ask m (mv_StartPrimary m) (CallStartPrimary (rt_PrimaryID (mw_task ?w3))) ?w3") (simp add: startPrimary_def andThen_def)
  from ask_cases [OF s(2)] y(2) have "w4 = record_call (CallStartPrimary p (e = [])) (turn m ?w3)" by simp
  moreover have "startRefused m \<Longrightarrow> e \<noteq> []" using s(2) refused_ask by blast
  ultimately show ?thesis unfolding s(1) by auto
qed

interpretation grows: execution_relation m digest redactText "\<lambda>w w'. set (mw_trace w) \<subseteq> set (mw_trace w')" "\<lambda>_. True" for m digest redactText
  by unfold_locales auto

lemma grows_andThen: "grows.resp b \<Longrightarrow> set (mw_trace (snd (a w))) \<subseteq> set (mw_trace (snd (andThen a b w)))"
  by (auto simp: andThen_def grows.resp_def split: prod.split list.split)

lemma preflight_ready:
  assumes "cooperative m history proofs leaseID" "ValidateRecoveryPlan None (mw_task w) (mw_repo w) = None"
  shows "\<exists>w'. manager_Preflight m w = ([], w') \<and> mw_repo w' = mw_repo w \<and> mw_at w' = mw_at w"
proof -
  have "mv_configured m" "mv_ctxErr m n = None" "mv_RequireMutationAuthority m n = None" "mv_Check m n = None" "mv_Preflight m n = None" for n
    using assms(1) by (simp_all add: cooperative_def)
  with assms(2) show ?thesis by (simp add: manager_Preflight_def andThen_def requireAuthority_def ask_def cooperative_turn [OF assms(1)] Let_def)
qed

lemma andThen_failed: "fst (a w) \<noteq> [] \<Longrightarrow> fst (andThen a b w) \<noteq> []"
  by (auto simp: andThen_def split: prod.split list.split)

lemma refence_failed: "err \<noteq> [] \<Longrightarrow> fst (refence m p members err w) \<noteq> []"
  by (induction m p members err w rule: refence.induct) (auto simp: Let_def split: prod.split)

lemma withFailureHandling_failed: "fst (body w) \<noteq> [] \<Longrightarrow> fst (withFailureHandling m digest redactText boundedText body w) \<noteq> []"
proof -
  assume "fst (body w) \<noteq> []"
  then obtain e es w1 where b: "body w = (e # es, w1)" by (cases "body w") (auto simp: neq_Nil_conv)
  have "fst (onFailure m digest redactText boundedText (e # es) w1) \<noteq> []"
    using refence_failed [of "e # es"] by (simp add: onFailure_def Let_def split_beta split: list.split)
  with b show ?thesis by (simp add: withFailureHandling_def)
qed

lemma recover_ready:
  assumes c: "cooperative m history proofs leaseID" and r: "ready (now + drainInterval m) now (mw_task w) RecoveryFencing w" and zero: "IsZero (rt_CommittedAt (mw_task w))"
    and sel: "Select digest (rt_Members (mw_task w)) (map (history \<circ> di_ResourceID) (rt_Members (mw_task w))) proofs = Inr p"
      "\<not> list_ex (staleEvidence (mw_task w) (now + drainInterval m)) (map (history \<circ> di_ResourceID) (rt_Members (mw_task w)))"
  shows "\<exists>t ok. (t, CallStartPrimary p ok) \<in> set (mw_trace (snd (andThen (recover m digest redactText) (activate m) w))) \<and>
    (startRefused m \<longrightarrow> fst (andThen (recover m digest redactText) (activate m) w) \<noteq> [])"
proof -
  let ?es = "map (history \<circ> di_ResourceID) (rt_Members (mw_task w))"
  from collect_ready [OF c r order.refl sel(1)] obtain w' x where w': "collectEvidence m digest redactText w = ([], w')" "ready (now + drainInterval m) (now + drainInterval m) (mw_task w) RecoverySelecting (w'\<lparr>mw_task := x\<rparr>)"
      "mw_task w' = x\<lparr>rt_Evidence := ?es, rt_Proofs := proofs, rt_PrimaryID := p\<rparr>" by blast
  from start_ready [OF c w'(2,3) sel] obtain t ok where s: "(t, CallStartPrimary p ok) \<in> set (mw_trace (snd (startPrimary m digest redactText w')))"
      "startRefused m \<longrightarrow> fst (startPrimary m digest redactText w') \<noteq> []" by blast
  let ?rest = "andThen (rebuildAndCommit m digest redactText (rt_PrimaryID (mw_task w'))) (activate m)"
  have "grows.resp ?rest" by (simp add: grows.resp_andThen grows.resp_rebuildAndCommit grows.resp_activate)
  from grows_andThen [OF this, of "startPrimary m digest redactText" w'] s(1) have "(t, CallStartPrimary p ok) \<in> set (mw_trace (snd (andThen (startPrimary m digest redactText) ?rest w')))" by blast
  moreover have "startRefused m \<longrightarrow> fst (andThen (startPrimary m digest redactText) ?rest w') \<noteq> []" using s(2) by (simp add: andThen_failed)
  moreover have "andThen (recover m digest redactText) (activate m) w = andThen (startPrimary m digest redactText) ?rest w'"
    unfolding recover_split [OF zero] using w'(1) by (simp add: andThen_def)
  ultimately show ?thesis by auto
qed

lemma reaches_start:
  assumes c: "cooperative m history proofs leaseID" and plan: "map_of (RecoveryTasks (mw_repo w)) k = Some planned" "rt_MetadataRevision planned = revision" "rt_ResourceID planned = k"
      "ValidateRecoveryPlan None planned (mw_repo w) = None"
    and begun: "BeginRecovery \<lparr>env_now = mw_at w, env_commit = \<lambda>_ _. CommitApplied\<rparr> None k revision leaseID (mw_repo w) = (Inr task, s)"
    and lock: "\<forall>t \<le> mw_at w + drainInterval m. recoveryLeaseValid s task t" "recoveryInventoryValid s task"
    and sel: "Select digest (rt_Members task) (map (history \<circ> di_ResourceID) (rt_Members task)) proofs = Inr p"
      "\<not> list_ex (staleEvidence task (mw_at w + drainInterval m)) (map (history \<circ> di_ResourceID) (rt_Members task))"
  shows "\<exists>t ok. (t, CallStartPrimary p ok) \<in> set (mw_trace (snd (Execute m digest redactText boundedText k revision w))) \<and>
    (startRefused m \<longrightarrow> fst (Execute m digest redactText boundedText k revision w) \<noteq> [])"
proof -
  note turn = cooperative_turn [OF c]
  let ?w = "(turn m w)\<lparr>mw_task := planned\<rparr>"
  obtain w1 where w1: "manager_Preflight m ?w = ([], w1)" "mw_repo w1 = mw_repo w" "mw_at w1 = mw_at w" using preflight_ready [OF c, of ?w] plan(4) by (auto simp: turn)
  let ?v = "record_call (CallLock True) (turn m w1)"
  have env: "repoEnv m n (mw_at w) = \<lparr>env_now = mw_at w, env_commit = \<lambda>_ _. CommitApplied\<rparr>" for n using c by (simp add: repoEnv_def cooperative_def fun_eq_iff)
  let ?w0 = "record_call (CallBegin (Some task)) ((turn m ?v)\<lparr>mw_repo := s, mw_task := task\<rparr>)"
  have ctx: "mv_ctxErr m n = None" "mv_Acquire m n = Inr leaseID" "mv_configured m" for n using c by (simp_all add: cooperative_def)
  have b: "callStore m (\<lambda>env ctxErr. BeginRecovery env ctxErr k revision leaseID) CallBegin ?v = ([], ?w0)"
    using begun by (simp add: callStore_def Let_def turn w1 env ctx)
  let ?body = "andThen (recover m digest redactText) (activate m)"
  have run: "Execute m digest redactText boundedText k revision w = withFailureHandling m digest redactText boundedText ?body ?w0"
    using plan(1,2) w1(1) b by (simp add: Execute_def repository_RecoveryTask_def turn ctx andThen_def)
  from BeginRecovery_begun [OF begun] plan(1,3) have t: "rt_ResourceID task = k" "map_of (RecoveryTasks s) k = Some task" "IsZero (rt_CommittedAt task)" "rt_Stage task = RecoveryFencing" by auto
  have "ready (mw_at w + drainInterval m) (mw_at w) (mw_task ?w0) RecoveryFencing ?w0"
    using t lock w1(3) drain_positive [of m] by (simp add: ready_def accepted_def sameRun_simps(1) turn less_imp_le)
  moreover have "mw_task ?w0 = task" by simp
  ultimately obtain ts ok where st: "(ts, CallStartPrimary p ok) \<in> set (mw_trace (snd (?body ?w0)))" "startRefused m \<longrightarrow> fst (?body ?w0) \<noteq> []" using recover_ready [of m history proofs leaseID "mw_at w" ?w0 digest p redactText] c t(3) sel by auto
  have grow: "set (mw_trace (snd (?body ?w0))) \<subseteq> set (mw_trace (snd (withFailureHandling m digest redactText boundedText ?body ?w0)))"
    using grows.resp_onFailure [of m digest redactText boundedText] unfolding grows.resp_def withFailureHandling_def by (auto split: prod.split list.split)
  show ?thesis unfolding run using st grow withFailureHandling_failed [of ?body ?w0] by blast
qed

text \<open>
  (C25) Disaster recovery makes progress. When no collaborator fails and nobody else interferes, the repository accepts the plan and begins the recovery, the operation
  lock outlives the drain interval, and the members report fresh evidence on which \<open>p\<close> is selected, the execution reaches the start of \<open>p\<close>, however the driver then answers.
\<close>


theorem recovery_reaches_start:
  assumes c: "cooperative m history proofs leaseID" and plan: "map_of (RecoveryTasks (mw_repo w)) k = Some planned" "rt_MetadataRevision planned = revision" "rt_ResourceID planned = k"
      "ValidateRecoveryPlan None planned (mw_repo w) = None"
    and begun: "BeginRecovery \<lparr>env_now = mw_at w, env_commit = \<lambda>_ _. CommitApplied\<rparr> None k revision leaseID (mw_repo w) = (Inr task, s)"
    and lock: "\<forall>t \<le> mw_at w + drainInterval m. recoveryLeaseValid s task t" "recoveryInventoryValid s task"
    and sel: "Select digest (rt_Members task) (map (history \<circ> di_ResourceID) (rt_Members task)) proofs = Inr p"
      "\<not> list_ex (staleEvidence task (mw_at w + drainInterval m)) (map (history \<circ> di_ResourceID) (rt_Members task))"
  shows "\<exists>t ok. (t, CallStartPrimary p ok) \<in> set (mw_trace (snd (Execute m digest redactText boundedText k revision w)))"
  using reaches_start [OF assms] by blast

section \<open>A concrete run\<close>

definition samplePlanned :: snapshot where
  "samplePlanned = snd (PlanRecovery (sampleRepoEnv 5) (\<lambda>_. []) None (sampleID (CHR ''1'')) ''admin'' (sampleID (CHR ''8'')) sampleDisaster)"

definition sampleReport :: "rid \<Rightarrow> RecoveryEvidence" where
  "sampleReport k = (sampleEvidence EngineMySQL (hd k) [] [])\<lparr>rv_ObservedAt := 7\<rparr>"

definition sampleManager :: manager_env where
  "sampleManager = \<lparr>mv_configured = True, mv_DrainInterval = 5, mv_others = \<lambda>_ x. x, mv_completing = \<lambda>_ x. x, mv_delay = \<lambda>_. 0, mv_commit = \<lambda>_ _ _. CommitApplied,
     mv_ctxErr = \<lambda>_. None, mv_Cause = \<lambda>_. None, mv_RequireMutationAuthority = \<lambda>_. None, mv_Check = \<lambda>_. None, mv_Acquire = \<lambda>_. Inr (sampleID (CHR ''7'')), mv_Preflight = \<lambda>_. None,
     mv_Fence = \<lambda>_. None, mv_Inspect = \<lambda>_ k. Inr (sampleReport k), mv_Compare = \<lambda>_. Inr [], mv_StartPrimary = \<lambda>_. Some ''timeout'',
     mv_Rebuild = \<lambda>_. None, mv_Verify = \<lambda>_. Inr sampleObserved, mv_Activate = \<lambda>_. None, mv_Complete = \<lambda>_. Inr sampleVerifying\<rparr>"

definition sampleStart :: manager_world where
  "sampleStart = \<lparr>mw_calls = 0, mw_at = 5, mw_repo = samplePlanned, mw_task = zeroRecoveryTask, mw_evidence = [], mw_trace = []\<rparr>"

abbreviation sampleRun :: "manager_error list \<times> manager_world" where
  "sampleRun \<equiv> Execute sampleManager (\<lambda>_. ''f'') (\<lambda>s. s) (\<lambda>_. []) (sampleID (CHR ''8'')) 1 sampleStart"

lemma sample_cooperative: "cooperative sampleManager sampleReport [] (sampleID (CHR ''7''))" "soleExecutor sampleManager k" "follows sampleManager digest"
  by (simp_all add: cooperative_def soleExecutor_def follows_def sampleManager_def)

lemma sample_planned: "map fst (RecoveryTasks samplePlanned) = [sampleID (CHR ''8'')]" "rt_ResourceID (snd (hd (RecoveryTasks samplePlanned))) = sampleID (CHR ''8'')"
  "rt_MetadataRevision (snd (hd (RecoveryTasks samplePlanned))) = 1" "ValidateRecoveryPlan None (snd (hd (RecoveryTasks samplePlanned))) samplePlanned = None"
  by code_simp+

abbreviation sampleBegin :: "(recovery_error + RecoveryTask) \<times> snapshot" where
  "sampleBegin \<equiv> BeginRecovery (sampleRepoEnv 5) None (sampleID (CHR ''8'')) 1 (sampleID (CHR ''7'')) samplePlanned"

lemma sample_begun: "(case sampleBegin of (Inr task, s) \<Rightarrow> recoveryLeaseValid s task 999 \<and> recoveryInventoryValid s task | _ \<Rightarrow> False)"
  "(case sampleBegin of (Inr task, s) \<Rightarrow> rt_Members task = [sampleNode (CHR ''4''), sampleNode (CHR ''5'')] \<and> rt_AttemptStartedAt task = 5 | _ \<Rightarrow> False)"
  by code_simp+

lemma sample_named: "Select (\<lambda>_. ''f'') [sampleNode (CHR ''4''), sampleNode (CHR ''5'')] [sampleReport (sampleID (CHR ''4'')), sampleReport (sampleID (CHR ''5''))] [] = Inr (sampleID (CHR ''4''))"
  by code_simp

lemma recoveryLeaseValid_before: "recoveryLeaseValid s task now \<Longrightarrow> t \<le> now \<Longrightarrow> recoveryLeaseValid s task t"
  by (auto simp: recoveryLeaseValid_def split: option.splits)

lemma sample_stored: "map_of (RecoveryTasks samplePlanned) (sampleID (CHR ''8'')) = Some (snd (hd (RecoveryTasks samplePlanned)))"
  using sample_planned(1) by (cases "RecoveryTasks samplePlanned") auto

lemma sample_conditions:
  obtains task s where "sampleBegin = (Inr task, s)" "\<forall>t \<le> mw_at sampleStart + drainInterval sampleManager. recoveryLeaseValid s task t" "recoveryInventoryValid s task"
    "Select (\<lambda>_. ''f'') (rt_Members task) (map (sampleReport \<circ> di_ResourceID) (rt_Members task)) [] = Inr (sampleID (CHR ''4''))"
    "\<not> list_ex (staleEvidence task (mw_at sampleStart + drainInterval sampleManager)) (map (sampleReport \<circ> di_ResourceID) (rt_Members task))"
proof -
  obtain task s where b: "sampleBegin = (Inr task, s)" using sample_begun(1) by (cases sampleBegin) (auto split: sum.splits)
  note v = sample_begun [unfolded b prod.case sum.case]
  have lease: "\<forall>t \<le> 10. recoveryLeaseValid s task t" using v(1) recoveryLeaseValid_before by force
  have ids: "di_ResourceID (sampleNode c) = sampleID c" for c by (simp add: sampleNode_def)
  have d: "mw_at sampleStart + drainInterval sampleManager = 10" by (simp add: sampleStart_def drainInterval_def sampleManager_def)
  have at: "rv_ObservedAt (sampleReport k) = 7" for k by (simp add: sampleReport_def)
  show ?thesis
    by (rule that [of task s]) (use b v lease sample_named in \<open>simp_all add: d ids at staleEvidence_def time_sub_def minute_def second_def min_duration_def max_duration_def\<close>)
qed

lemma sample_started: "\<exists>t ok. (t, CallStartPrimary (sampleID (CHR ''4'')) ok) \<in> set (mw_trace (snd sampleRun)) \<and> fst sampleRun \<noteq> []"
proof (rule sample_conditions)
  fix task s
  assume "sampleBegin = (Inr task, s)" "\<forall>t \<le> mw_at sampleStart + drainInterval sampleManager. recoveryLeaseValid s task t" "recoveryInventoryValid s task"
    "Select (\<lambda>_. ''f'') (rt_Members task) (map (sampleReport \<circ> di_ResourceID) (rt_Members task)) [] = Inr (sampleID (CHR ''4''))"
    "\<not> list_ex (staleEvidence task (mw_at sampleStart + drainInterval sampleManager)) (map (sampleReport \<circ> di_ResourceID) (rt_Members task))"
  note c = this(1) [unfolded sampleRepoEnv_def] this(2-)
  have "startRefused sampleManager" by (simp add: startRefused_def sampleManager_def)
  then show ?thesis
    using reaches_start [OF sample_cooperative(1) _ sample_planned(3,2) _ _ c(2-5), where boundedText = "\<lambda>_. []" and redactText = "\<lambda>s. s"] c(1) sample_planned(4) sample_stored by (auto simp: sampleStart_def)
qed

lemma sample_keyed: "keyedAt (sampleID (CHR ''8'')) sampleStart"
  by (simp add: keyedAt_def sampleStart_def sample_stored sample_planned(2))

lemma sample_run: "sampleRun = (fst sampleRun, snd sampleRun)" "mw_trace sampleStart = []"
  by (simp_all add: sampleStart_def)

theorem recovery_reaches_start_witness: "\<exists>t ok. (t, CallStartPrimary (sampleID (CHR ''4'')) ok) \<in> set (mw_trace (snd sampleRun))"
proof (rule sample_conditions)
  fix task s
  assume "sampleBegin = (Inr task, s)" "\<forall>t \<le> mw_at sampleStart + drainInterval sampleManager. recoveryLeaseValid s task t" "recoveryInventoryValid s task"
    "Select (\<lambda>_. ''f'') (rt_Members task) (map (sampleReport \<circ> di_ResourceID) (rt_Members task)) [] = Inr (sampleID (CHR ''4''))"
    "\<not> list_ex (staleEvidence task (mw_at sampleStart + drainInterval sampleManager)) (map (sampleReport \<circ> di_ResourceID) (rt_Members task))"
  note c = this(1) [unfolded sampleRepoEnv_def] this(2-)
  show ?thesis
    by (rule recovery_reaches_start [OF sample_cooperative(1) _ sample_planned(3,2) _ _ c(2-5)]) (use c(1) sample_planned(4) sample_stored in \<open>simp_all add: sampleStart_def\<close>)
qed

theorem StartPrimary_on_evidence_witness:
  "\<exists>pre tb task calls after t ok. mw_trace (snd sampleRun) = pre @ (tb, CallBegin (Some task)) # calls @ (t, CallStartPrimary (sampleID (CHR ''4'')) ok) # after \<and>
     evidenceGathered sampleManager (\<lambda>_. ''f'') (rt_Members task) tb calls (sampleID (CHR ''4''))"
proof -
  from sample_started obtain t ok before after where s: "mw_trace (snd sampleRun) = before @ (t, CallStartPrimary (sampleID (CHR ''4'')) ok) # after"
    by (meson split_list)
  from StartPrimary_on_evidence [OF sample_cooperative(2) sample_keyed sample_run(2,1) s] obtain pre tb task calls
    where b: "before = pre @ (tb, CallBegin (Some task)) # calls" "evidenceGathered sampleManager (\<lambda>_. ''f'') (rt_Members task) tb calls (sampleID (CHR ''4''))" by blast
  from s [unfolded b(1) append_assoc append_Cons] b(2) show ?thesis by blast
qed

theorem failed_recovery_refences_witness:
  "\<exists>calls last. mw_trace (snd sampleRun) = calls @ last \<and> refenced (sampleID (CHR ''4'')) last"
proof -
  from sample_started obtain t ok where "(t, CallStartPrimary (sampleID (CHR ''4'')) ok) \<in> set (mw_trace (snd sampleRun))" "fst sampleRun \<noteq> []" by blast
  from failed_recovery_refences [OF sample_cooperative(2) sample_keyed sample_run(2,1) this(2,1)] show ?thesis by blast
qed

lemma sample_planned_inv: "recovery_inv digest 5 samplePlanned"
proof -
  let ?p = "PlanRecovery (sampleRepoEnv 5) (\<lambda>_. []) None (sampleID (CHR ''1'')) ''admin'' (sampleID (CHR ''8'')) sampleDisaster"
  have start: "RecoveryTasks sampleDisaster = []" by (simp add: sampleDisaster_def emptySnapshot_def)
  then have "recovery_step digest (1, sampleDisaster) (5, snd ?p)"
    using step_plan [of "sampleRepoEnv 5" "\<lambda>_. []" None "sampleID (CHR ''1'')" "''admin''" "sampleID (CHR ''8'')" sampleDisaster "fst ?p" "snd ?p" 1]
    by (simp add: sampleRepoEnv_def)
  then have "(recovery_step digest)\<^sup>*\<^sup>* (1, sampleDisaster) (5, samplePlanned)" by (simp add: samplePlanned_def r_into_rtranclp)
  from recovery_reachable_inv [OF this] recovery_inv_start [OF _ start, of 1] show ?thesis by simp
qed


end
