(* ===== verification/Spec2Isabelle.thy ===== *)
theory Spec2Isabelle
  imports Gtid Candidates Repository Membership Lease_Contract Leases Stable_Batch Memory_Leases Op_Locks Failure_Window Operations_Store
    Approvals Endpoint_Store Ownership Agent_Decisions Failover_Safety Disaster_Selection Disaster_Store Power_Store Recovery_Protocol Disaster_Manager Manager_Progress
begin

text \<open>
  \<^bold>\<open>ClusterGuard HA: a verification development.\<close>

  ClusterGuard HA decides who may write to a replicated database and moves the write endpoint (a
  virtual address) when a primary fails or is switched over. A group of controllers replicates one
  document of platform state through Raft; the leader with a healthy majority is the only one that may
  change it. Endpoint ownership is a lease in that document; a node agent keeps the address and
  stays writable only while a controller's answer authorises it. Controlled operations
  (switchover, failover, rejoin) are durable records that walk through fixed stages
  under a cluster lock and a one-time approval.

  The development follows the decisions of the control plane. A state is a record passed through and
  returned; an error is a value; Go maps are association lists with distinct keys; times are integers
  of nanoseconds with zero as the zero time; revisions and GTID numbers are 64-bit words. Time, random
  identifiers and the outcomes of commits, probes and agents are arguments, so every
  theorem holds for all of their values.

  \<^bold>\<open>Theories and the code they model\<close>

  \<^item> \<open>Prelude\<close>: the result monad, Go durations and times, the standard library's strings, association lists
    as Go maps, sorted values of a map. \<open>Go_Encoding\<close>: SHA-256, unpadded URL base64 and its round trip,
    \<^verbatim>\<open>strings.Cut\<close>.
  \<^item> \<open>Model_Types\<close>, \<open>Topology\<close> (\<^verbatim>\<open>pkg/model\<close>): identifiers and their syntax, enumerations, health,
    instances, probes, links and topology snapshots.
  \<^item> \<open>Gtid\<close> (\<^verbatim>\<open>pkg/gtid/gtid.go\<close>): the whole package. Parsing yields a normal form that denotes the
    written transactions; comparison counts both set differences exactly or reports overflow; the recovery
    assessment declares a fast rejoin safe exactly when no transaction would be lost or missing.
  \<^item> \<open>Repository\<close> (\<^verbatim>\<open>internal/store/repository.go\<close>, \<^verbatim>\<open>retention.go\<close>, \<^verbatim>\<open>replication.go\<close>, \<^verbatim>\<open>coordination.go\<close>,
    parts of \<^verbatim>\<open>disaster.go\<close>): the replicated document, its commit with the three outcomes of replication
    (applied, refused, applied but not durable), the compaction before a commit, the lease and lock tables.
  \<^item> \<open>Membership\<close> (\<^verbatim>\<open>internal/coordination/membership.go\<close>): mutation authority, and that two controllers with
    disjoint views of health never both have it.
  \<^item> \<open>Lease_Contract\<close> (\<^verbatim>\<open>internal/endpoint/lease.go\<close>, \<^verbatim>\<open>lease_authorization.go\<close>): the lease store interface as a
    record of operations, the contract of a store as the locale \<open>writer_leases\<close>, and the transition sessions that
    renew, finalise or abort a lease, proved against the contract. \<open>Leases\<close> and \<open>Stable_Batch\<close>
    (\<^verbatim>\<open>internal/coordination/lease.go\<close>) interpret it with the quorum store and add its batch renewal;
    \<open>Memory_Leases\<close> interprets it with the in-memory store.
  \<^item> \<open>Op_Locks\<close> (\<^verbatim>\<open>internal/coordination/operation_lock.go\<close>): the cluster lock as a system of holders, renewals and
    expiry, with the invariant that a cluster has one live holder.
  \<^item> \<open>Failure_Window\<close> (\<^verbatim>\<open>internal/coordination/failure_window.go\<close>): when a primary counts as failed.
  \<^item> \<open>Operations_Store\<close> (\<^verbatim>\<open>internal/store/operations.go\<close>, \<^verbatim>\<open>recovery_freeze.go\<close>): creation, planning, transition,
    finalisation, abandonment, review and reconciliation of operations, as a step relation with an invariant
    and a forward order. Redaction of free text (\<^verbatim>\<open>pkg/redact\<close>, regular expressions) is an argument.
  \<^item> \<open>Approvals\<close> (\<^verbatim>\<open>internal/store/approvals.go\<close>, \<^verbatim>\<open>internal/approval/service.go\<close>): one-time grants and their tokens.
  \<^item> \<open>Ownership\<close> (\<^verbatim>\<open>internal/coordination/ownership_keeper.go\<close>, \<^verbatim>\<open>ownership_ack.go\<close>, \<^verbatim>\<open>reboot_bootstrap.go\<close>): on
    which evidence the leader asks for a writer's lease.
  \<^item> \<open>Endpoint_Store\<close> (\<^verbatim>\<open>internal/store/ha_endpoints.go\<close>, the topology view of \<^verbatim>\<open>repository.go\<close>, the recovery permit of
    \<^verbatim>\<open>disaster.go\<close>): who is recorded as the owner of a writer endpoint. Recording an observed owner is a
    compare-and-swap on the metadata revisions.
  \<^item> \<open>Agent_Decisions\<close> (\<^verbatim>\<open>internal/coordination/self_isolation.go\<close>, \<^verbatim>\<open>agent_authorization.go\<close>,
    \<^verbatim>\<open>internal/api/agent_reconcile.go\<close>): what the leader answers a node agent. One instance of a cluster is told it may write,
    for at most ten seconds and not beyond the lease; the tracker is a running maximum.
  \<^item> \<open>Failover_Safety\<close> (\<^verbatim>\<open>internal/coordination/failover_safety.go\<close>): fencing the old primary. The fence
    always returns, succeeds only on evidence, and when it succeeds by waiting no earlier authorisation of the old primary is still valid.
  \<^item> \<open>Disaster_Selection\<close> (\<^verbatim>\<open>internal/disaster/selection.go\<close>, \<^verbatim>\<open>wal.go\<close>): which survivor's history is authoritative after a total
    outage. A selected MySQL member has executed everything any member executed; a selected PostgreSQL member
    shares the verified WAL of every other, whose own excess holds no transactions. The hash of an evidence record and
    the agents' reading of WAL are arguments.
  \<^item> \<open>Disaster_Store\<close> (\<^verbatim>\<open>internal/store/disaster.go\<close>, \<^verbatim>\<open>pkg/identity\<close>): every operation on recovery tasks, from planning to completion.
    \<open>Power_Store\<close> (\<^verbatim>\<open>pkg/model/power.go\<close>, \<^verbatim>\<open>internal/store/power.go\<close>, \<^verbatim>\<open>power_complete.go\<close>, \<^verbatim>\<open>maintenance.go\<close>): planned shutdowns, whose
    lifecycle moves forward only.
  \<^item> \<open>Recovery_Protocol\<close>: the operations of the two theories above, of the lease table and of the freeze, and all other work of the repository, as steps
    of one system with a clock. Its invariant shows that while a recovery is attempted no writer but the committed primary holds a
    lease, and the commit theorem says what a committed recovery publishes.
  \<^item> \<open>Disaster_Manager\<close> (\<^verbatim>\<open>internal/disaster/manager.go\<close>): the executor of a recovery. A statement maps the world (clock, repository,
    local task, record of calls) to an error and the next world; before every call other actors may act on the repository. Locales state
    once what a statement must respect (\<open>statement_relation\<close>, \<open>selection_relation\<close>, \<open>commit_relation\<close>, \<open>execution_relation\<close>) and carry it
    from the single calls to \<open>Execute\<close>; they are interpreted for the runs of the protocol, the record of calls, the stored members and the
    selected primary. Theorems: an execution follows the protocol of \<open>Recovery_Protocol\<close>, starts a primary only on complete evidence and
    after the drain interval, and a failed one fences the started member again. \<open>Manager_Progress\<close>: with cooperating
    collaborators it reaches the start of the selected primary.
  \<^item> \<open>Candidates\<close> (\<^verbatim>\<open>adapters/mysql/candidates.go\<close>, \<^verbatim>\<open>adapters/postgresql/candidates.go\<close>, \<^verbatim>\<open>internal/recovery/mysql_selector.go\<close>):
    the checks, the ranking and the selection of a failover target. The locale \<open>candidate_ranking\<close> states what sorting and ranking
    promise to the selector and is interpreted for both engines; the theorems say that the chosen MySQL replica misses the fewest
    transactions and that the chosen PostgreSQL standby has replayed the most WAL.

  \<^bold>\<open>Bounds and fuel\<close>

  No definition uses fuel: loops of the source run over finite lists, and are structural recursions over
  those lists, or recursions with a termination proof. The loop that waits out old authorisations
  (\<open>fence_loop\<close>) has no syntactic bound and is a \<^verbatim>\<open>partial_function\<close> with values in \<open>option\<close>; that it always
  returns is a theorem. Counters are kept at their width: GTID counts fail on overflow as
  in the code, revisions wrap as \<^verbatim>\<open>uint64\<close>. Times are unbounded integers; subtraction saturates as
  \<^verbatim>\<open>time.Time.Sub\<close> does.

  \<^bold>\<open>Not modelled\<close>

  Goroutine schedules: an operation of the repository runs under its mutex and is one step; interleavings
  of clients appear as sequences of steps. The Raft transport and log (a library), HTTP routing and JSON,
  configuration files, the agents' system calls and SQL, Kubernetes calls, the update
  packages and the command line. The Oracle and SQL Server adapters only report unsupported
  operations or read views of a database.
\<close>

end
